(* ===== verification/Prelude.thy ===== *)
theory Prelude
  imports Main
begin

text \<open>
  Shared vocabulary of the development: Python exceptions as values, the sum type as the
  result of an operation that may raise, two-dimensional lists indexed \<open>[plane][path]\<close>,
  the bounded deque, and the generic lemmas the component theories use.

  Conventions. A call that raises before it has changed anything returns \<open>Inl e\<close>.
  A call that may raise half way through returns the pair of the state it leaves behind and
  the exception, if any. Python's unbounded integers are \<open>int\<close>; list indices that the code
  has already range-checked, and loop counters over a \<open>range\<close>, are \<open>nat\<close>.
\<close>

named_theorems py_simps \<open>unfolding rules for results, guards and grids\<close>
named_theorems keeps \<open>field-preservation rules of the state-changing operations\<close>

subsection \<open>Exceptions and results\<close>

datatype py_error =
    ValueError | KeyError | TypeError | IndexError | RuntimeError | OSError
  | ProbeDecodeError | StructError | NotImplementedError | FileNotFoundError | AttributeError
  | ZeroDivisionError | AssertionError | JSONDecodeError

type_synonym 'a result = "py_error + 'a"

text \<open>Sequencing: the first exception wins, as it does in the source. The error type is open: a component may have its own.\<close>

fun bindE :: "'e + 'a \<Rightarrow> ('a \<Rightarrow> 'e + 'b) \<Rightarrow> 'e + 'b" where
  "bindE (Inl e) f = Inl e"
| "bindE (Inr x) f = f x"

definition raise_if :: "bool \<Rightarrow> 'e \<Rightarrow> 'e + unit" where
  "raise_if c e = (if c then Inl e else Inr ())"

lemma bindE_Inr_iff [py_simps]: "bindE m f = Inr y \<longleftrightarrow> (\<exists>x. m = Inr x \<and> f x = Inr y)"
  by (cases m) auto

lemma bindE_Inl_iff [py_simps]:
  "bindE m f = Inl e \<longleftrightarrow> m = Inl e \<or> (\<exists>x. m = Inr x \<and> f x = Inl e)"
  by (cases m) auto

lemma raise_if_Inr_iff [simp]: "raise_if c e = Inr u \<longleftrightarrow> \<not> c"
  by (simp add: raise_if_def)

lemma raise_if_Inl_iff [simp]: "raise_if c e = Inl e' \<longleftrightarrow> c \<and> e' = e"
  by (auto simp: raise_if_def)

lemma bindE_raise_if [simp]: "bindE (raise_if c e) f = (if c then Inl e else f ())"
  by (simp add: raise_if_def)

text \<open>The loop that stops at the first exception.\<close>

fun mapE :: "('a \<Rightarrow> 'e + 'b) \<Rightarrow> 'a list \<Rightarrow> 'e + 'b list" where
  "mapE f [] = Inr []"
| "mapE f (x # xs) = bindE (f x) (\<lambda>y. bindE (mapE f xs) (\<lambda>ys. Inr (y # ys)))"

lemma mapE_Inr: "(\<And>x. x \<in> set xs \<Longrightarrow> f x = Inr (g x)) \<Longrightarrow> mapE f xs = Inr (map g xs)"
  by (induction xs) auto

lemma mapE_length: "mapE f xs = Inr ys \<Longrightarrow> length ys = length xs"
  by (induction xs arbitrary: ys) (auto simp: py_simps)

lemma mapE_nth:
  "mapE f xs = Inr ys \<Longrightarrow> i < length xs \<Longrightarrow> f (xs ! i) = Inr (ys ! i)"
  by (induction xs arbitrary: ys i) (auto simp: py_simps nth_Cons split: nat.splits)

text \<open>Python's \<open><<\<close>: a negative shift count raises.\<close>

definition py_shl :: "int \<Rightarrow> int \<Rightarrow> int result" where
  "py_shl a n = (if n < 0 then Inl ValueError else Inr (a * 2 ^ nat n))"

text \<open>Python's \<open>%\<close> and \<open>//\<close> on integers: the floored ones of HOL, except for a zero divisor.\<close>

definition py_mod :: "int \<Rightarrow> int \<Rightarrow> int result" where
  "py_mod a n = (if n = 0 then Inl ZeroDivisionError else Inr (a mod n))"

lemma py_mod_Inr [simp]: "n \<noteq> 0 \<Longrightarrow> py_mod a n = Inr (a mod n)"
  by (simp add: py_mod_def)

subsection \<open>Counting in lists\<close>

lemma filter_remove1_count:
  assumes "distinct xs" "c \<in> set xs"
  shows "length (filter P xs) =
    length (filter (\<lambda>x. x \<noteq> c \<and> P x) xs) + (if P c then 1 else 0)"
  using assms
proof (induction xs)
  case (Cons x xs)
  have same: "filter (\<lambda>y. y \<noteq> c \<and> P y) xs = filter P xs" if "c \<notin> set xs"
    using that by (intro filter_cong) auto
  show ?case using Cons same by (cases "x = c") auto
qed simp

lemma filter_eq_single: "distinct xs \<Longrightarrow> x \<in> set xs \<Longrightarrow> filter ((=) x) xs = [x]"
proof (induction xs)
  case (Cons y ys)
  then show ?case by (cases "y = x") (auto simp: filter_empty_conv)
qed simp

subsection \<open>Grids: lists of rows\<close>

definition gget :: "'a list list \<Rightarrow> nat \<Rightarrow> nat \<Rightarrow> 'a" where
  "gget g p q = g ! p ! q"

definition gset :: "'a list list \<Rightarrow> nat \<Rightarrow> nat \<Rightarrow> 'a \<Rightarrow> 'a list list" where
  "gset g p q x = g[p := (g ! p)[q := x]]"

definition shaped :: "nat \<Rightarrow> nat \<Rightarrow> 'a list list \<Rightarrow> bool" where
  "shaped P Q g \<longleftrightarrow> length g = P \<and> (\<forall>row \<in> set g. length row = Q)"

definition grid_const :: "nat \<Rightarrow> nat \<Rightarrow> 'a \<Rightarrow> 'a list list" where
  "grid_const P Q x = replicate P (replicate Q x)"

text \<open>The order of the nested loops \<open>for plane in range(P): for path in range(Q)\<close>.\<close>

definition cells :: "nat \<Rightarrow> nat \<Rightarrow> (nat \<times> nat) list" where
  "cells P Q = List.product [0..<P] [0..<Q]"

lemma set_cells [simp]: "(p, q) \<in> set (cells P Q) \<longleftrightarrow> p < P \<and> q < Q"
  by (auto simp: cells_def)

lemma distinct_cells [simp]: "distinct (cells P Q)"
  by (simp add: cells_def distinct_product)

lemma length_cells [simp]: "length (cells P Q) = P * Q"
  by (simp add: cells_def)

lemma shaped_row: "shaped P Q g \<Longrightarrow> p < P \<Longrightarrow> length (g ! p) = Q"
  by (auto simp: shaped_def)

lemma shaped_gset [simp]: "shaped P Q g \<Longrightarrow> p < P \<Longrightarrow> shaped P Q (gset g p q x)"
  by (auto simp: shaped_def gset_def dest!: set_update_subset_insert [THEN subsetD])

lemma shaped_const [simp]: "shaped P Q (grid_const P Q x)"
  by (simp add: shaped_def grid_const_def)

lemma gget_const [simp]: "p < P \<Longrightarrow> q < Q \<Longrightarrow> gget (grid_const P Q x) p q = x"
  by (simp add: gget_def grid_const_def)

lemma gget_gset:
  assumes "shaped P Q g" "p < P" "q < Q"
  shows "gget (gset g p q x) a b = (if a = p \<and> b = q then x else gget g a b)"
  using assms shaped_row [OF assms(1,2)]
  by (auto simp: gget_def gset_def shaped_def nth_list_update)

lemma gset_gset [simp]: "gset (gset g p q x) p q y = gset g p q y"
  by (cases "p < length g") (auto simp: gset_def list_update_beyond)

lemma shaped_ext:
  assumes "shaped P Q g" "shaped P Q h"
    and "\<And>p q. p < P \<Longrightarrow> q < Q \<Longrightarrow> gget g p q = gget h p q"
  shows "g = h"
proof (rule nth_equalityI)
  show "length g = length h" using assms(1,2) by (simp add: shaped_def)
next
  fix p assume "p < length g"
  then have p: "p < P" using assms(1) by (simp add: shaped_def)
  show "g ! p = h ! p"
    using p assms(3) [OF p] shaped_row [OF assms(1) p] shaped_row [OF assms(2) p]
    by (intro nth_equalityI) (auto simp: gget_def)
qed

text \<open>A grid built cell by cell, as a nested comprehension does.\<close>

definition grid_of_fun :: "nat \<Rightarrow> nat \<Rightarrow> (nat \<Rightarrow> nat \<Rightarrow> 'a) \<Rightarrow> 'a list list" where
  "grid_of_fun P Q f = map (\<lambda>p. map (f p) [0..<Q]) [0..<P]"

lemma shaped_grid_of_fun [simp]: "shaped P Q (grid_of_fun P Q f)"
  by (auto simp: shaped_def grid_of_fun_def)

lemma gget_grid_of_fun [simp]: "p < P \<Longrightarrow> q < Q \<Longrightarrow> gget (grid_of_fun P Q f) p q = f p q"
  by (simp add: gget_def grid_of_fun_def)

lemma concat_grid_of_fun: "concat (grid_of_fun P Q f) = map (\<lambda>(p, q). f p q) (cells P Q)"
  by (simp add: grid_of_fun_def cells_def product_concat_map map_concat comp_def)

lemma concat_shaped:
  assumes "shaped P Q g"
  shows "concat g = map (\<lambda>(p, q). gget g p q) (cells P Q)"
proof -
  have "g = grid_of_fun P Q (gget g)"
    by (rule shaped_ext [OF assms]) auto
  then show ?thesis by (metis concat_grid_of_fun)
qed

lemma map_map_grid:
  assumes "shaped P Q g"
  shows "shaped P Q (map (map f) g)" and
    "p < P \<Longrightarrow> q < Q \<Longrightarrow> gget (map (map f) g) p q = f (gget g p q)"
  using assms shaped_row [OF assms] by (auto simp: shaped_def gget_def)

subsection \<open>Bounded deques\<close>

text \<open>\<open>collections.deque(maxlen=n)\<close>: appending to a full one drops the oldest element.\<close>

record 'a pydeque =
  dq_items :: "'a list"
  dq_maxlen :: nat

definition dq_new :: "nat \<Rightarrow> 'a pydeque" where
  "dq_new n = \<lparr>dq_items = [], dq_maxlen = n\<rparr>"

definition dq_append :: "'a pydeque \<Rightarrow> 'a \<Rightarrow> 'a pydeque" where
  "dq_append d x =
     (let xs = dq_items d @ [x]
      in d\<lparr>dq_items := drop (length xs - dq_maxlen d) xs\<rparr>)"

definition dq_ok :: "'a pydeque \<Rightarrow> bool" where
  "dq_ok d \<longleftrightarrow> length (dq_items d) \<le> dq_maxlen d"

lemma dq_new_simps [simp]: "dq_items (dq_new n) = []" "dq_maxlen (dq_new n) = n" "dq_ok (dq_new n)"
  by (simp_all add: dq_new_def dq_ok_def)

lemma dq_append_maxlen [simp]: "dq_maxlen (dq_append d x) = dq_maxlen d"
  by (simp add: dq_append_def Let_def)

lemma dq_append_ok [simp]: "dq_ok (dq_append d x)"
  by (simp add: dq_append_def dq_ok_def Let_def)

text \<open>What a bounded window is for its clients: the last \<open>maxlen\<close> of everything appended.\<close>

lemma dq_append_last:
  assumes "dq_items d = drop (length xs - dq_maxlen d) xs"
  shows "dq_items (dq_append d x) = drop (length (xs @ [x]) - dq_maxlen d) (xs @ [x])"
  using assms by (cases "dq_maxlen d \<le> length xs") (auto simp: dq_append_def Let_def Suc_diff_le)

lemma dq_foldl_append:
  "dq_items d = drop (length ys - dq_maxlen d) ys \<Longrightarrow>
   dq_items (foldl dq_append d xs) = drop (length (ys @ xs) - dq_maxlen d) (ys @ xs)"
proof (induction xs arbitrary: d ys)
  case (Cons x xs)
  show ?case
    using Cons.IH [of "dq_append d x" "ys @ [x]"] dq_append_last [OF Cons.prems, of x] by simp
qed simp

end
