(* ===== verification/PyFloat.thy ===== *)
theory PyFloat
  imports Complex_Main "HOL-Library.Log_Nat"
begin

text \<open>
  Python floats. A float is the rational number it denotes (\<open>pyfloat\<close>), and every
  arithmetic operation rounds its exact result with \<open>rnd\<close>: the nearest binary64 number,
  ties to even, as IEEE 754 and CPython do. The exponent is not bounded, so overflow, subnormal
  numbers, infinities and NaN are outside the model: every float of the modelled code is a ratio
  of packet counts, a spray weight, a configured threshold or an interval in seconds.
  What the component proofs use of rounding: it is monotone, keeps the sign, is idempotent,
  fixes integers up to \<open>2^53\<close>, and decides comparisons between small ratios exactly
  (\<open>rnd_ratio_less_iff\<close>).
\<close>

subsection \<open>Rounding to binary64\<close>

type_synonym pyfloat = rat

definition pow2 :: "int \<Rightarrow> rat" where
  "pow2 e = 2 powi e"

definition round_half_even :: "rat \<Rightarrow> int" where
  "round_half_even y =
     (let f = \<lfloor>y\<rfloor>; d = y - of_int f
      in if d < 1 / 2 then f else if 1 / 2 < d then f + 1
         else if even f then f else f + 1)"

definition bin_exp :: "rat \<Rightarrow> int" where
  "bin_exp x =
     (let (p, q) = quotient_of x; a = bitlen p - bitlen q
      in if pow2 a \<le> x then a else a - 1)"

definition rnd_pos :: "rat \<Rightarrow> pyfloat" where
  "rnd_pos x = (let e = bin_exp x - 52 in of_int (round_half_even (x * pow2 (- e))) * pow2 e)"

definition rnd :: "rat \<Rightarrow> pyfloat" where
  "rnd x = (if x = 0 then 0 else if x < 0 then - rnd_pos (- x) else rnd_pos x)"

subsection \<open>Powers of two and the binary exponent\<close>

lemma pow2_pos [simp]: "0 < pow2 e"
  by (simp add: pow2_def)

lemma pow2_nonneg [simp]: "0 \<le> pow2 e"
  by (simp add: less_imp_le)

lemma pow2_not_neg [simp]: "\<not> pow2 e < 0"
  by (simp add: not_less)

lemma pow2_nz [simp]: "pow2 e \<noteq> 0"
  by (simp add: pow2_def)

lemma pow2_0 [simp]: "pow2 0 = 1"
  by (simp add: pow2_def)

lemma pow2_add: "pow2 (a + b) = pow2 a * pow2 b"
  by (simp add: pow2_def power_int_add)

lemma pow2_diff: "pow2 (a - b) = pow2 a / pow2 b"
  by (simp add: pow2_def power_int_diff)

lemma pow2_minus: "pow2 (- a) = 1 / pow2 a"
  by (simp add: pow2_def power_int_minus divide_inverse)

lemma pow2_nat: "0 \<le> a \<Longrightarrow> pow2 a = of_int (2 ^ nat a)"
  by (simp add: pow2_def power_int_def)

lemma pow2_le_iff [simp]: "pow2 a \<le> pow2 b \<longleftrightarrow> a \<le> b"
proof -
  have pos: "1 \<le> pow2 c" if "0 \<le> c" for c
    using that by (simp add: pow2_def)
  have mono: "pow2 x \<le> pow2 y" if "x \<le> y" for x y
    using pos [of "y - x"] that by (simp add: pow2_diff pos_le_divide_eq)
  have strict: "pow2 x < pow2 y" if "x < y" for x y
  proof -
    have "pow2 x < 2 * pow2 x" by simp
    also have "\<dots> = pow2 (x + 1)" by (simp add: pow2_def power_int_add)
    also have "\<dots> \<le> pow2 y" using that by (intro mono) simp
    finally show ?thesis .
  qed
  show ?thesis
    using mono [of a b] strict [of b a] by (cases "a \<le> b") auto
qed

lemma pow2_less_iff [simp]: "pow2 a < pow2 b \<longleftrightarrow> a < b"
  by (simp flip: not_le)

lemma bin_exp_bounds:
  assumes "0 < x"
  shows "pow2 (bin_exp x) \<le> x" and "x < pow2 (bin_exp x + 1)"
proof -
  obtain p q where pq: "quotient_of x = (p, q)" by (cases "quotient_of x")
  then have q: "0 < q" and x: "x = of_int p / of_int q"
    by (auto dest: quotient_of_denom_pos quotient_of_div)
  with assms have p: "0 < p" by (simp add: zero_less_divide_iff)
  define a where "a = bitlen p - bitlen q"
  have B: "pow2 (bitlen n - 1) \<le> of_int n" "of_int n < pow2 (bitlen n)" if "0 < n" for n
  proof -
    have "1 \<le> bitlen n" using that bitlen_ge_iff_power [of 1 n] by simp
    then show "pow2 (bitlen n - 1) \<le> of_int n" "of_int n < pow2 (bitlen n)"
      using bitlen_bounds [OF that] by (simp_all add: pow2_nat del: of_int_power)
  qed
  have "pow2 (a - 1) < x"
  proof -
    have eq: "pow2 (a - 1) = pow2 (bitlen p - 1) / pow2 (bitlen q)"
      by (simp add: a_def flip: pow2_diff) (simp add: algebra_simps)
    have "pow2 (bitlen p - 1) * of_int q < of_int p * pow2 (bitlen q)"
      using B [OF p] B [OF q] q p by (intro mult_le_less_imp_less) auto
    then show ?thesis unfolding eq x using q by (simp add: field_simps)
  qed
  moreover have "x < pow2 (a + 1)"
  proof -
    have eq: "pow2 (a + 1) = pow2 (bitlen p) / pow2 (bitlen q - 1)"
      by (simp add: a_def flip: pow2_diff) (simp add: algebra_simps)
    have "of_int p * pow2 (bitlen q - 1) < pow2 (bitlen p) * of_int q"
      using B [OF p] B [OF q] q p by (intro mult_less_le_imp_less) auto
    then show ?thesis unfolding eq x using q by (simp add: field_simps)
  qed
  ultimately show "pow2 (bin_exp x) \<le> x" "x < pow2 (bin_exp x + 1)"
    by (auto simp: bin_exp_def pq a_def [symmetric] not_le)
qed

lemma bin_exp_unique:
  assumes "0 < x" "pow2 e \<le> x" "x < pow2 (e + 1)"
  shows "bin_exp x = e"
proof -
  have "pow2 e < pow2 (bin_exp x + 1)" "pow2 (bin_exp x) < pow2 (e + 1)"
    using le_less_trans [OF assms(2) bin_exp_bounds(2) [OF assms(1)]]
      le_less_trans [OF bin_exp_bounds(1) [OF assms(1)] assms(3)] by blast+
  then show ?thesis by simp
qed

lemma bin_exp_mono:
  assumes "0 < x" "x \<le> y"
  shows "bin_exp x \<le> bin_exp y"
proof -
  have "pow2 (bin_exp x) \<le> x" "y < pow2 (bin_exp y + 1)"
    using bin_exp_bounds assms by auto
  then have "pow2 (bin_exp x) < pow2 (bin_exp y + 1)" using assms by linarith
  then show ?thesis by simp
qed

subsection \<open>Rounding is monotone and keeps the sign\<close>

lemma round_half_even_int [simp]: "round_half_even (of_int k) = k"
  by (simp add: round_half_even_def)

lemma round_half_even_numeral [simp]: "round_half_even (numeral n) = numeral n"
  using round_half_even_int [of "numeral n"] by simp

lemma round_half_even_mono:
  assumes "x \<le> y"
  shows "round_half_even x \<le> round_half_even y"
proof (cases "\<lfloor>x\<rfloor> = \<lfloor>y\<rfloor>")
  case True
  with assms show ?thesis by (auto simp: round_half_even_def Let_def)
next
  case False
  with floor_mono [OF assms] have "\<lfloor>x\<rfloor> + 1 \<le> \<lfloor>y\<rfloor>" by simp
  then show ?thesis by (auto simp: round_half_even_def Let_def)
qed

lemma rnd_pos_bounds:
  assumes "0 < x"
  shows "pow2 (bin_exp x) \<le> rnd_pos x" and "rnd_pos x \<le> pow2 (bin_exp x + 1)"
    and "2 ^ 52 \<le> round_half_even (x * pow2 (- (bin_exp x - 52)))"
    and "round_half_even (x * pow2 (- (bin_exp x - 52))) \<le> 2 ^ 53"
proof -
  define e where "e = bin_exp x - 52"
  have s: "pow2 52 \<le> x * pow2 (- e)" "x * pow2 (- e) < pow2 53"
    using bin_exp_bounds [OF assms]
    by (auto simp: e_def pow2_minus pow2_diff pow2_add field_simps simp del: pow2_le_iff pow2_less_iff)
       (simp_all add: pow2_def)
  have lo: "2 ^ 52 \<le> round_half_even (x * pow2 (- e))"
    using round_half_even_mono [of "of_int (2 ^ 52)" "x * pow2 (- e)"] s(1)
    by (simp add: pow2_def)
  have hi: "round_half_even (x * pow2 (- e)) \<le> 2 ^ 53"
    using round_half_even_mono [of "x * pow2 (- e)" "of_int (2 ^ 53)"] s(2)
    by (simp add: pow2_def)
  show "2 ^ 52 \<le> round_half_even (x * pow2 (- (bin_exp x - 52)))"
    "round_half_even (x * pow2 (- (bin_exp x - 52))) \<le> 2 ^ 53"
    using lo hi by (simp_all add: e_def)
  have r: "rnd_pos x = of_int (round_half_even (x * pow2 (- e))) * pow2 e"
    by (simp add: rnd_pos_def e_def Let_def)
  have "pow2 52 \<le> (of_int (round_half_even (x * pow2 (- e))) :: rat)"
    using lo by (simp add: pow2_nat del: of_int_power)
  then have "pow2 52 * pow2 e \<le> rnd_pos x"
    unfolding r by (rule mult_right_mono) simp
  then show "pow2 (bin_exp x) \<le> rnd_pos x" by (simp add: e_def flip: pow2_add)
  have "(of_int (round_half_even (x * pow2 (- e))) :: rat) \<le> pow2 53"
    using hi by (simp add: pow2_nat del: of_int_power)
  then have "rnd_pos x \<le> pow2 53 * pow2 e"
    unfolding r by (rule mult_right_mono) simp
  then show "rnd_pos x \<le> pow2 (bin_exp x + 1)" by (simp add: e_def add.commute flip: pow2_add)
qed

lemma rnd_pos_pos: "0 < x \<Longrightarrow> 0 < rnd_pos x"
  using rnd_pos_bounds(1) [of x] less_le_trans [OF pow2_pos] by blast

lemma rnd_pos_mono:
  assumes "0 < x" "x \<le> y"
  shows "rnd_pos x \<le> rnd_pos y"
proof (cases "bin_exp x = bin_exp y")
  case True
  have "x * pow2 (- (bin_exp y - 52)) \<le> y * pow2 (- (bin_exp y - 52))"
    using assms by (intro mult_right_mono) auto
  from round_half_even_mono [OF this] show ?thesis
    unfolding rnd_pos_def True Let_def by (intro mult_right_mono) auto
next
  case False
  with bin_exp_mono [OF assms] have "pow2 (bin_exp x + 1) \<le> pow2 (bin_exp y)" by simp
  moreover have "rnd_pos x \<le> pow2 (bin_exp x + 1)" "pow2 (bin_exp y) \<le> rnd_pos y"
    using rnd_pos_bounds assms by auto
  ultimately show ?thesis by linarith
qed

lemma rnd_0 [simp]: "rnd 0 = 0"
  by (simp add: rnd_def)

lemma rnd_minus [simp]: "rnd (- x) = - rnd x"
  by (simp add: rnd_def)

lemma rnd_pos_iff [simp]: "0 < rnd x \<longleftrightarrow> 0 < x"
  using rnd_pos_pos [of x] rnd_pos_pos [of "- x"] by (auto simp: rnd_def)

lemma rnd_neg_iff [simp]: "rnd x < 0 \<longleftrightarrow> x < 0"
  using rnd_pos_iff [of "- x"] by simp

lemma rnd_eq_0_iff [simp]: "rnd x = 0 \<longleftrightarrow> x = 0"
  by (metis rnd_0 rnd_neg_iff rnd_pos_iff linorder_less_linear less_irrefl)

lemma rnd_nonneg_iff [simp]: "0 \<le> rnd x \<longleftrightarrow> 0 \<le> x"
  by (simp flip: not_less)

lemma rnd_mono: "x \<le> y \<Longrightarrow> rnd x \<le> rnd y"
proof (cases "0 < x")
  case True
  then show "x \<le> y \<Longrightarrow> rnd x \<le> rnd y" by (simp add: rnd_def rnd_pos_mono)
next
  case False
  assume le: "x \<le> y"
  show ?thesis
  proof (cases "y < 0")
    case True
    with le show ?thesis by (simp add: rnd_def rnd_pos_mono)
  next
    case y: False
    have "rnd x \<le> 0" using False by (simp only: rnd_pos_iff flip: not_less) simp
    also have "0 \<le> rnd y" using y by simp
    finally show ?thesis .
  qed
qed

subsection \<open>Doubles are fixed points\<close>

definition is_double :: "rat \<Rightarrow> bool" where
  "is_double r \<longleftrightarrow> (\<exists>m e. \<bar>m\<bar> \<le> 2 ^ 53 \<and> r = of_int m * pow2 e)"

lemma is_double_rnd: "is_double (rnd x)"
proof -
  have pos: "is_double (rnd_pos y)" if "0 < y" for y
    unfolding is_double_def rnd_pos_def Let_def
    using rnd_pos_bounds(3,4) [OF that] by (metis abs_of_nonneg order.trans zero_le_numeral zero_le_power)
  have neg: "is_double (- r)" if "is_double r" for r
  proof -
    from that obtain m e where m: "\<bar>m\<bar> \<le> 2 ^ 53" "r = of_int m * pow2 e" 
      unfolding is_double_def by blast
    then have "\<bar>- m\<bar> \<le> 2 ^ 53 \<and> - r = of_int (- m) * pow2 e" by simp
    then show ?thesis unfolding is_double_def by blast
  qed
  have "is_double 0" unfolding is_double_def by (rule exI [of _ 0]) simp
  then show ?thesis using pos [of x] neg [OF pos [of "- x"]] by (simp add: rnd_def)
qed

lemma rnd_pos_double:
  assumes m: "0 < m" "m < 2 ^ 53" and x: "x = of_int m * pow2 e"
  shows "rnd_pos x = x"
proof -
  have x0: "0 < x" using m x by simp
  define E where "E = bin_exp x - 52"
  have "(of_int m :: rat) < pow2 53"
    using m(2) by (simp add: pow2_nat del: of_int_power)
  then have "x < pow2 (53 + e)" unfolding x pow2_add by (intro mult_strict_right_mono) auto
  then have "pow2 (bin_exp x) < pow2 (53 + e)" using bin_exp_bounds(1) [OF x0] by linarith
  then have E: "0 \<le> e - E" by (simp add: E_def)
  have "x * pow2 (- E) = of_int m * pow2 (e - E)"
    by (simp add: x pow2_diff pow2_minus)
  also have "\<dots> = of_int (m * 2 ^ nat (e - E))"
    using E by (simp add: pow2_nat)
  finally have i: "x * pow2 (- E) = of_int (m * 2 ^ nat (e - E))" .
  have "rnd_pos x = of_int (round_half_even (x * pow2 (- E))) * pow2 E"
    by (simp add: rnd_pos_def E_def Let_def)
  also have "\<dots> = x * pow2 (- E) * pow2 E" unfolding i round_half_even_int by simp
  also have "\<dots> = x" by (simp add: pow2_minus)
  finally show ?thesis .
qed

lemma rnd_double:
  assumes "is_double r"
  shows "rnd r = r"
proof -
  have pos: "rnd_pos (of_int m * pow2 e) = of_int m * pow2 e" if "0 < m" "m \<le> 2 ^ 53" for m e
  proof (cases "m = 2 ^ 53")
    case True
    then have eq: "of_int m * pow2 e = of_int (2 ^ 52) * pow2 (e + 1)"
      by (simp add: pow2_def power_int_add)
    show ?thesis unfolding eq by (rule rnd_pos_double [of "2 ^ 52" _ "e + 1"]) auto
  next
    case False
    with that show ?thesis by (intro rnd_pos_double) auto
  qed
  from assms obtain m e where m: "\<bar>m\<bar> \<le> 2 ^ 53" "r = of_int m * pow2 e"
    unfolding is_double_def by blast
  show ?thesis
  proof (cases m "0 :: int" rule: linorder_cases)
    case less
    then have "rnd_pos (- r) = - r" using pos [of "- m" e] m by simp
    with less m show ?thesis by (simp add: rnd_def mult_less_0_iff)
  next
    case equal
    with m show ?thesis by simp
  next
    case greater
    then show ?thesis using pos [of m e] m by (simp add: rnd_def mult_less_0_iff)
  qed
qed

lemma rnd_idem [simp]: "rnd (rnd x) = rnd x"
  by (rule rnd_double [OF is_double_rnd])

lemma rnd_of_int [simp]: "\<bar>k\<bar> \<le> 2 ^ 53 \<Longrightarrow> rnd (of_int k) = of_int k"
  by (rule rnd_double, unfold is_double_def, rule exI [of _ k], rule exI [of _ 0]) simp

lemma rnd_1 [simp]: "rnd 1 = 1"
  using rnd_of_int [of 1] by simp

lemma rnd_le_1: "x \<le> 1 \<Longrightarrow> rnd x \<le> 1"
  using rnd_mono [of x 1] by simp

subsection \<open>Computing with rounded numbers\<close>

text \<open>
  The rounded value is a fraction whose denominator is a power of two, so its normal form needs
  no greatest common divisor; a fraction that is a binary64 number already is returned as it is.
\<close>

definition dyadic :: "int \<Rightarrow> nat \<Rightarrow> rat" where
  "dyadic m k = of_int m / 2 ^ k"

fun halve_out :: "int \<Rightarrow> nat \<Rightarrow> int \<times> int" where
  "halve_out m 0 = (m, 1)"
| "halve_out m (Suc k) = (if even m then halve_out (m div 2) k else (m, 2 ^ Suc k))"

lemma quotient_of_dyadic [code abstract]: "quotient_of (dyadic m k) = halve_out m k"
proof (induction m k rule: halve_out.induct)
  case (1 m)
  show ?case by (simp add: dyadic_def)
next
  case (2 m k)
  show ?case
  proof (cases "even m")
    case True
    then have "dyadic m (Suc k) = dyadic (m div 2) k"
      by (auto simp: dyadic_def field_simps elim!: evenE)
    then show ?thesis using 2 True by simp
  next
    case False
    have "dyadic m (Suc k) = Fract m (2 ^ Suc k)"
      by (simp add: dyadic_def Fract_of_int_quotient)
    moreover have "Rat.normalize (m, 2 ^ Suc k) = (m, 2 ^ Suc k)"
      using False by (intro normalize_stable) (auto simp: coprime_commute)
    ultimately show ?thesis using False by (simp add: quotient_of_Fract del: power_Suc)
  qed
qed

lemma rnd_pos_dyadic [code]:
  "rnd_pos x = (let e = bin_exp x - 52; m = round_half_even (x * pow2 (- e))
     in if e < 0 then dyadic m (nat (- e)) else of_int (m * 2 ^ nat e))"
proof -
  have dy: "of_int m * pow2 e = (if e < 0 then dyadic m (nat (- e)) else of_int (m * 2 ^ nat e))" for m e
  proof (cases "e < 0")
    case True
    then have "e = - int (nat (- e))" by simp
    then have "pow2 e = inverse (2 ^ nat (- e))" by (metis pow2_def power_int_minus power_int_of_nat)
    then show ?thesis using True by (simp only: dyadic_def divide_inverse if_True)
  next
    case False
    then have "e = int (nat e)" by simp
    then have "pow2 e = 2 ^ nat e" by (metis pow2_def power_int_of_nat)
    then show ?thesis using False by simp
  qed
  show ?thesis unfolding rnd_pos_def Let_def by (rule dy)
qed

definition small_dyadic :: "rat \<Rightarrow> bool" where
  "small_dyadic x = (let (p, q) = quotient_of x
     in \<bar>p\<bar> \<le> 2 ^ 53 \<and> q = 2 ^ nat (bitlen q - 1))"

lemma rnd_small_dyadic [code]:
  "rnd x = (if small_dyadic x then x else if x < 0 then - rnd_pos (- x) else rnd_pos x)"
proof (cases "small_dyadic x")
  case True
  obtain p q where pq: "quotient_of x = (p, q)" by fastforce
  then have x: "x = of_int p / 2 ^ nat (bitlen q - 1)" "\<bar>p\<bar> \<le> 2 ^ 53"
    using True quotient_of_div [OF pq] by (auto simp: small_dyadic_def)
  have "x = of_int p * pow2 (- int (nat (bitlen q - 1)))"
    unfolding x(1) pow2_def power_int_minus power_int_of_nat divide_inverse ..
  then have "is_double x" using x(2) unfolding is_double_def by blast
  then show ?thesis using True by (simp add: rnd_double)
next
  case False
  have "small_dyadic 0" by code_simp
  with False have "x \<noteq> 0" by metis
  then show ?thesis using False by (simp add: rnd_def)
qed

subsection \<open>Rounding error, and comparisons it cannot change\<close>

lemma rnd_error:
  assumes "0 < x"
  shows "\<bar>rnd x - x\<bar> \<le> pow2 (bin_exp x - 53)"
proof -
  define e where "e = bin_exp x - 52"
  have h: "\<bar>of_int (round_half_even y) - y\<bar> \<le> 1 / 2" for y :: rat
    using floor_correct [of y] by (auto simp: round_half_even_def Let_def)
  have r: "rnd x = of_int (round_half_even (x * pow2 (- e))) * pow2 e"
    using assms by (simp add: rnd_def rnd_pos_def e_def Let_def)
  have "rnd x - x = (of_int (round_half_even (x * pow2 (- e))) - x * pow2 (- e)) * pow2 e"
    unfolding r by (simp add: pow2_minus algebra_simps)
  then have "\<bar>rnd x - x\<bar> = \<bar>of_int (round_half_even (x * pow2 (- e))) - x * pow2 (- e)\<bar> * pow2 e"
    by (simp only: abs_mult) simp
  also have "\<dots> \<le> 1 / 2 * pow2 e" by (rule mult_right_mono [OF h]) simp
  also have "\<dots> = pow2 (bin_exp x - 53)" by (simp add: e_def pow2_def power_int_diff)
  finally show ?thesis .
qed

text \<open>The relative error, in units of \<open>ulp\<close>.\<close>

abbreviation ulp :: rat where "ulp \<equiv> 1 / 2 ^ 53"

lemma rnd_relative:
  assumes "0 \<le> x"
  shows "x * (1 - ulp) \<le> rnd x" and "rnd x \<le> x * (1 + ulp)"
proof -
  have "\<bar>rnd x - x\<bar> \<le> x * ulp"
  proof (cases "x = 0")
    case False
    with assms have x: "0 < x" by simp
    have "pow2 (bin_exp x - 53) = pow2 (bin_exp x) * ulp"
      by (simp add: pow2_diff) (simp add: pow2_nat)
    then show ?thesis using rnd_error [OF x] bin_exp_bounds(1) [OF x] by (simp add: divide_simps)
  qed simp
  then have "rnd x - x \<le> x * ulp" "- (rnd x - x) \<le> x * ulp" by (auto simp only: abs_le_iff)
  then show "x * (1 - ulp) \<le> rnd x" "rnd x \<le> x * (1 + ulp)"
    by (simp_all only: distrib_left right_diff_distrib mult_1_right)
qed

lemma rnd_error_unit:
  assumes "0 < x" "x \<le> 1"
  shows "\<bar>rnd x - x\<bar> \<le> 1 / 2 ^ 54"
proof (cases "x = 1")
  case True
  then show ?thesis by simp
next
  case False
  with assms have "x < pow2 0" by simp
  then have "pow2 (bin_exp x) < pow2 0" using bin_exp_bounds(1) [OF assms(1)] by linarith
  then have "bin_exp x < 0" by (simp only: pow2_less_iff)
  then have "pow2 (bin_exp x - 53) \<le> pow2 (- 54)" by simp
  then have "\<bar>rnd x - x\<bar> \<le> pow2 (- 54)" using rnd_error [OF assms(1)] by linarith
  moreover have "pow2 (- 54) = 1 / 2 ^ 54"
    unfolding pow2_minus by (subst pow2_nat) auto
  ultimately show ?thesis by simp
qed

lemma rnd_unit_bounds:
  assumes "0 \<le> x" "x \<le> 1"
  shows "x - 1 / 2 ^ 54 \<le> rnd x" and "rnd x \<le> x + 1 / 2 ^ 54"
proof -
  have "\<bar>rnd x - x\<bar> \<le> 1 / 2 ^ 54"
    using assms rnd_error_unit [of x] by (cases "x = 0") auto
  then show "x - 1 / 2 ^ 54 \<le> rnd x" "rnd x \<le> x + 1 / 2 ^ 54"
    by (auto simp only: abs_le_iff)
qed

lemma rnd_ratio_less_iff:
  fixes p q a b :: int
  assumes "0 \<le> p" "p \<le> q" "0 < q" "0 < a" "a \<le> b" "q * b < 2 ^ 53"
  shows "rnd (of_int p / of_int q) < rnd (of_int a / of_int b) \<longleftrightarrow> p * b < a * q"
proof -
  have b: "0 < b" using assms by linarith
  have cmp: "(of_int p / of_int q < (of_int a / of_int b :: rat)) \<longleftrightarrow> p * b < a * q"
    using assms(3) b by (simp add: divide_less_eq less_divide_eq mult.commute flip: of_int_mult)
  show ?thesis
  proof (cases "p * b < a * q")
    case False
    then have "rnd (of_int a / of_int b) \<le> rnd (of_int p / of_int q)"
      using cmp by (intro rnd_mono) simp
    with False show ?thesis by simp
  next
    case True
    have gap: "of_int p / of_int q + 1 / of_int (q * b) \<le> (of_int a / of_int b :: rat)"
    proof -
      have "of_int (p * b + 1) \<le> (of_int (a * q) :: rat)" using True by (simp only: of_int_le_iff)
      then have "of_int (p * b + 1) / of_int (q * b) \<le> (of_int (a * q) / of_int (q * b) :: rat)"
        using assms(3) b by (intro divide_right_mono) auto
      moreover have "of_int (p * b + 1) / of_int (q * b) = (of_int p / of_int q + 1 / of_int (q * b) :: rat)"
        using assms(3) b by (simp add: add_divide_distrib)
      moreover have "of_int (a * q) / of_int (q * b) = (of_int a / of_int b :: rat)"
        using assms(3) b by simp
      ultimately show ?thesis by simp
    qed
    have "1 / 2 ^ 53 < (1 / of_int (q * b) :: rat)"
    proof -
      have "of_int (q * b) < (of_int (2 ^ 53) :: rat)" using assms(6) by (simp only: of_int_less_iff)
      moreover have "0 < (of_int (q * b) :: rat)" using assms(3) b by (simp del: of_int_mult)
      ultimately show ?thesis by (simp add: field_simps del: of_int_mult)
    qed
    moreover have "rnd (of_int p / of_int q) \<le> of_int p / of_int q + 1 / 2 ^ 54"
      using assms by (intro rnd_unit_bounds(2)) auto
    moreover have "of_int a / of_int b - 1 / 2 ^ 54 \<le> rnd (of_int a / of_int b)"
      using assms b by (intro rnd_unit_bounds(1)) auto
    moreover have "1 / 2 ^ 53 = 1 / 2 ^ 54 + (1 / 2 ^ 54 :: rat)" by simp
    ultimately have "rnd (of_int p / of_int q) < rnd (of_int a / of_int b)"
      using gap by linarith
    with True show ?thesis by simp
  qed
qed

subsection \<open>The operations\<close>

definition fadd :: "pyfloat \<Rightarrow> pyfloat \<Rightarrow> pyfloat" where
  "fadd a b = rnd (a + b)"

definition fsub :: "pyfloat \<Rightarrow> pyfloat \<Rightarrow> pyfloat" where
  "fsub a b = rnd (a - b)"

definition fmul :: "pyfloat \<Rightarrow> pyfloat \<Rightarrow> pyfloat" where
  "fmul a b = rnd (a * b)"

definition fdiv :: "pyfloat \<Rightarrow> pyfloat \<Rightarrow> pyfloat" where
  "fdiv a b = rnd (a / b)"

text \<open>\<open>int / int\<close>, the correctly rounded quotient, and \<open>float(int)\<close>.\<close>

definition int_truediv :: "int \<Rightarrow> int \<Rightarrow> pyfloat" where
  "int_truediv a b = rnd (of_int a / of_int b)"

definition float_of_int :: "int \<Rightarrow> pyfloat" where
  "float_of_int k = rnd (of_int k)"

text \<open>
  \<open>sum\<close> over floats: left to right from 0, rounding each addition (CPython up to 3.11;
  later versions compensate and may differ in the last bit).
\<close>

definition fsum :: "pyfloat list \<Rightarrow> pyfloat" where
  "fsum xs = foldl fadd 0 xs"

text \<open>\<open>round(x, n)\<close>: the decimal rounding is exact, half to even, then the result is a float.\<close>

definition py_round :: "pyfloat \<Rightarrow> nat \<Rightarrow> pyfloat" where
  "py_round x n = rnd (of_int (round_half_even (x * 10 ^ n)) / 10 ^ n)"

lemma fadd_mono: "a \<le> b \<Longrightarrow> c \<le> d \<Longrightarrow> fadd a c \<le> fadd b d"
  by (simp add: fadd_def rnd_mono)

lemma fadd_ge_left: "rnd a = a \<Longrightarrow> 0 \<le> b \<Longrightarrow> a \<le> fadd a b"
  using rnd_mono [of a "a + b"] by (simp add: fadd_def)

lemma fadd_ge_right: "rnd b = b \<Longrightarrow> 0 \<le> a \<Longrightarrow> b \<le> fadd a b"
  using rnd_mono [of b "a + b"] by (simp add: fadd_def)

lemma rnd_fadd [simp]: "rnd (fadd a b) = fadd a b"
  by (simp add: fadd_def)

lemma fdiv_0 [simp]: "fdiv 0 b = 0"
  by (simp add: fdiv_def)

lemma fdiv_nonneg [simp]: "0 \<le> a \<Longrightarrow> 0 < b \<Longrightarrow> 0 \<le> fdiv a b"
  by (simp add: fdiv_def)

lemma fdiv_pos_iff: "0 < b \<Longrightarrow> 0 < fdiv a b \<longleftrightarrow> 0 < a"
  by (simp add: fdiv_def zero_less_divide_iff)

lemma fdiv_eq_0_iff: "0 < b \<Longrightarrow> fdiv a b = 0 \<longleftrightarrow> a = 0"
  by (simp add: fdiv_def)

lemma fdiv_le_1: "a \<le> b \<Longrightarrow> 0 < b \<Longrightarrow> fdiv a b \<le> 1"
  by (simp add: fdiv_def rnd_le_1)

lemma int_truediv_self [simp]: "b \<noteq> 0 \<Longrightarrow> int_truediv b b = 1"
  by (simp add: int_truediv_def)

lemma int_truediv_bounds: "0 \<le> a \<Longrightarrow> a \<le> b \<Longrightarrow> 0 \<le> int_truediv a b \<and> int_truediv a b \<le> 1"
  by (cases "b = 0") (auto simp: int_truediv_def intro!: rnd_le_1)

lemma foldl_fadd_ge:
  "rnd s = s \<Longrightarrow> (\<And>x. x \<in> set xs \<Longrightarrow> 0 \<le> x) \<Longrightarrow> s \<le> foldl fadd s xs"
proof (induction xs arbitrary: s)
  case (Cons x xs)
  have "s \<le> fadd s x" using Cons.prems by (intro fadd_ge_left) auto
  also have "\<dots> \<le> foldl fadd (fadd s x) xs" using Cons.prems by (intro Cons.IH) auto
  finally show ?case by simp
qed simp

lemma foldl_fadd_ge_elem:
  assumes "0 \<le> s" "rnd s = s" "\<And>x. x \<in> set xs \<Longrightarrow> 0 \<le> x" "y \<in> set xs" "rnd y = y"
  shows "y \<le> foldl fadd s xs"
  using assms
proof (induction xs arbitrary: s)
  case (Cons x xs)
  have s: "0 \<le> fadd s x" using Cons.prems by (simp add: fadd_def)
  show ?case
  proof (cases "y = x")
    case True
    have "y \<le> fadd s x" using Cons.prems True by (intro order.trans [OF _ fadd_ge_right]) auto
    also have "\<dots> \<le> foldl fadd (fadd s x) xs" using Cons.prems by (intro foldl_fadd_ge) auto
    finally show ?thesis by simp
  next
    case False
    then show ?thesis using Cons.prems s by (simp add: Cons.IH)
  qed
qed simp

lemma fsum_ge_elem:
  assumes "\<And>x. x \<in> set xs \<Longrightarrow> 0 \<le> x" "y \<in> set xs" "rnd y = y"
  shows "y \<le> fsum xs"
  unfolding fsum_def using assms by (intro foldl_fadd_ge_elem) auto

lemma fsum_nonneg: "(\<And>x. x \<in> set xs \<Longrightarrow> 0 \<le> x) \<Longrightarrow> 0 \<le> fsum xs"
  unfolding fsum_def by (rule foldl_fadd_ge) auto

lemma fsum_zero: "\<forall>x \<in> set xs. x = 0 \<Longrightarrow> fsum xs = 0"
  unfolding fsum_def by (induction xs) (simp_all add: fadd_def)

lemma fsum_pos_iff:
  assumes "\<And>x. x \<in> set xs \<Longrightarrow> 0 \<le> x \<and> rnd x = x"
  shows "0 < fsum xs \<longleftrightarrow> (\<exists>x \<in> set xs. 0 < x)"
proof
  assume pos: "0 < fsum xs"
  show "\<exists>x \<in> set xs. 0 < x"
  proof (rule ccontr)
    assume no: "\<not> (\<exists>x \<in> set xs. 0 < x)"
    have "fsum xs = 0" using no assms by (intro fsum_zero) (force simp: not_less)
    with pos show False by simp
  qed
next
  assume "\<exists>x \<in> set xs. 0 < x"
  then obtain x where x: "x \<in> set xs" "0 < x" by blast
  then have "x \<le> fsum xs" using assms by (intro fsum_ge_elem) auto
  with x show "0 < fsum xs" by simp
qed

end
