(* ===== verification/EvState.thy ===== *)
theory EvState
  imports Prelude PyFloat
begin

text \<open>
  The per-(tenant, plane, path) EV state machine of \<^verbatim>\<open>srv6_mrc/mrc/ev_state.py\<close>: the probe
  sliding window, demotion and recovery, the loss-feedback streak with its recovery backoff, and
  the cached spray weights. Every method of \<open>EVStateTable\<close> is one definition here. The lock makes
  each method atomic, so a run of the table is a sequence of method calls. The optional
  \<open>on_transition\<close> callback is recorded as the list of the calls made to it.
\<close>

subsection \<open>States, configuration, records\<close>

datatype ev_state = UNKNOWN | GOOD | ASSUMED_BAD

fun ev_state_value :: "ev_state \<Rightarrow> string" where
  "ev_state_value UNKNOWN = ''unknown''"
| "ev_state_value GOOD = ''good''"
| "ev_state_value ASSUMED_BAD = ''assumed_bad''"

fun state_weight :: "ev_state \<Rightarrow> pyfloat" where
  "state_weight GOOD = 1"
| "state_weight UNKNOWN = 1 / 2"
| "state_weight ASSUMED_BAD = 0"

record ev_state_config =
  probe_window_ticks :: int
  probe_min_samples :: int
  probe_fail_ratio :: pyfloat
  probe_recover_ratio :: pyfloat
  probe_recover_ticks :: int
  loss_threshold :: pyfloat
  loss_demote_consecutive :: int
  min_active_evs :: "int option"
  loss_backoff_max_level :: int
  loss_backoff_reset_ticks :: int

definition default_ev_state_config :: ev_state_config where
  "default_ev_state_config =
     \<lparr>probe_window_ticks = 5, probe_min_samples = 3,
      probe_fail_ratio = rnd (1 / 2), probe_recover_ratio = rnd (9 / 10),
      probe_recover_ticks = 5, loss_threshold = rnd (1 / 4), loss_demote_consecutive = 3,
      min_active_evs = None, loss_backoff_max_level = 3, loss_backoff_reset_ticks = 60\<rparr>"

definition resolve_min_active :: "ev_state_config \<Rightarrow> int \<Rightarrow> int \<Rightarrow> int" where
  "resolve_min_active cfg num_planes num_paths =
     (let total = num_planes * num_paths
      in case min_active_evs cfg of
           None \<Rightarrow> max 1 (total div 2)
         | Some n \<Rightarrow> max 1 (min n total))"

record ev_record =
  rstate :: ev_state
  current_sent :: int
  current_recv :: int
  buckets :: "(int \<times> int) pydeque"
  total_sent :: int
  total_recv :: int
  consecutive_healthy_windows :: int
  consecutive_loss_demote_windows :: int
  last_loss_ratio :: pyfloat
  last_probe_ratio :: pyfloat
  transitions :: int
  demotes_suppressed_by_floor :: int
  loss_demoted :: bool
  loss_backoff_level :: int
  last_loss_recover_tick :: "int option"

text \<open>\<open>_EVRecord(buckets=deque(maxlen=win))\<close>.\<close>

definition new_ev_record :: "nat \<Rightarrow> ev_record" where
  "new_ev_record win =
     \<lparr>rstate = UNKNOWN, current_sent = 0, current_recv = 0, buckets = dq_new win,
      total_sent = 0, total_recv = 0, consecutive_healthy_windows = 0,
      consecutive_loss_demote_windows = 0, last_loss_ratio = 0, last_probe_ratio = 0,
      transitions = 0, demotes_suppressed_by_floor = 0, loss_demoted = False,
      loss_backoff_level = 0, last_loss_recover_tick = None\<rparr>"

type_synonym transition_call = "string \<times> nat \<times> nat \<times> ev_state \<times> ev_state"

record ev_table =
  tenants :: "string list"
  num_planes :: nat
  num_paths :: nat
  cfg :: ev_state_config
  min_active :: int
  evs :: "string \<Rightarrow> ev_record list list option"
  weights_cache :: "string \<Rightarrow> pyfloat list list option"
  ticks :: "string \<Rightarrow> int option"
  on_transition :: bool
  transition_calls :: "transition_call list"

subsection \<open>Access to one record\<close>

definition grid_at :: "ev_table \<Rightarrow> string \<Rightarrow> ev_record list list" where
  "grid_at t tn = the (evs t tn)"

definition rec_at :: "ev_table \<Rightarrow> string \<Rightarrow> nat \<Rightarrow> nat \<Rightarrow> ev_record" where
  "rec_at t tn p q = gget (grid_at t tn) p q"

definition put_rec :: "ev_table \<Rightarrow> string \<Rightarrow> nat \<Rightarrow> nat \<Rightarrow> ev_record \<Rightarrow> ev_table" where
  "put_rec t tn p q r = t\<lparr>evs := (evs t)(tn \<mapsto> gset (grid_at t tn) p q r)\<rparr>"

definition upd_rec ::
  "ev_table \<Rightarrow> string \<Rightarrow> nat \<Rightarrow> nat \<Rightarrow> (ev_record \<Rightarrow> ev_record) \<Rightarrow> ev_table" where
  "upd_rec t tn p q f = put_rec t tn p q (f (rec_at t tn p q))"

subsection \<open>Weights\<close>

definition weights_of_grid :: "nat \<Rightarrow> nat \<Rightarrow> ev_record list list \<Rightarrow> pyfloat list list" where
  "weights_of_grid P Q g =
     (let raw = grid_of_fun P Q (\<lambda>plane path. state_weight (rstate (gget g plane path)));
          total = fsum (concat raw)
      in if total \<le> 0
         then grid_const P Q (fdiv 1 (float_of_int (int (P * Q))))
         else map (map (\<lambda>x. fdiv x total)) raw)"

definition rebuild_weights :: "ev_table \<Rightarrow> string \<Rightarrow> ev_table" where
  "rebuild_weights t tn =
     t\<lparr>weights_cache :=
         (weights_cache t)(tn \<mapsto> weights_of_grid (num_planes t) (num_paths t) (grid_at t tn))\<rparr>"

subsection \<open>Construction\<close>

text \<open>\<open>EVStateTable.__init__\<close>; a negative \<open>deque(maxlen=...)\<close> raises ValueError.\<close>

definition mk_ev_table ::
  "string list \<Rightarrow> int \<Rightarrow> int \<Rightarrow> ev_state_config \<Rightarrow> bool \<Rightarrow> ev_table result" where
  "mk_ev_table tns planes paths c cb =
     bindE (raise_if (tns = []) ValueError) (\<lambda>_.
     bindE (raise_if (planes < 1) ValueError) (\<lambda>_.
     bindE (raise_if (paths < 1) ValueError) (\<lambda>_.
     bindE (raise_if (probe_window_ticks c < 0) ValueError) (\<lambda>_.
       let P = nat planes; Q = nat paths;
           fresh = grid_const P Q (new_ev_record (nat (probe_window_ticks c)));
           t = \<lparr>tenants = tns, num_planes = P, num_paths = Q, cfg = c,
                min_active = resolve_min_active c planes paths,
                evs = (\<lambda>tn. if tn \<in> set tns then Some fresh else None),
                weights_cache = (\<lambda>_. None),
                ticks = (\<lambda>tn. if tn \<in> set tns then Some 0 else None),
                on_transition = cb, transition_calls = []\<rparr>
       in Inr (foldl rebuild_weights t tns)))))"

subsection \<open>Guards\<close>

definition check_tenant :: "ev_table \<Rightarrow> string \<Rightarrow> unit result" where
  "check_tenant t tn = raise_if (evs t tn = None) ValueError"

definition check_ev :: "ev_table \<Rightarrow> int \<Rightarrow> int \<Rightarrow> unit result" where
  "check_ev t plane path =
     bindE (raise_if (\<not> (0 \<le> plane \<and> plane < int (num_planes t))) ValueError) (\<lambda>_.
       raise_if (\<not> (0 \<le> path \<and> path < int (num_paths t))) ValueError)"

subsection \<open>Probe counters\<close>

definition record_probe_sent :: "ev_table \<Rightarrow> string \<Rightarrow> int \<Rightarrow> int \<Rightarrow> ev_table result" where
  "record_probe_sent t tn plane path =
     bindE (check_tenant t tn) (\<lambda>_.
     bindE (check_ev t plane path) (\<lambda>_.
       Inr (upd_rec t tn (nat plane) (nat path)
              (\<lambda>r. r\<lparr>current_sent := current_sent r + 1, total_sent := total_sent r + 1\<rparr>))))"

definition record_probe_recv :: "ev_table \<Rightarrow> string \<Rightarrow> int \<Rightarrow> int \<Rightarrow> ev_table result" where
  "record_probe_recv t tn plane path =
     bindE (check_tenant t tn) (\<lambda>_.
     bindE (check_ev t plane path) (\<lambda>_.
       Inr (upd_rec t tn (nat plane) (nat path)
              (\<lambda>r. r\<lparr>current_recv := current_recv r + 1, total_recv := total_recv r + 1\<rparr>))))"

subsection \<open>Transitions\<close>

definition promote_fields :: "int \<Rightarrow> ev_record \<Rightarrow> ev_record" where
  "promote_fields now r =
     (let r1 = r\<lparr>consecutive_healthy_windows := 0\<rparr>
      in if loss_demoted r1
         then r1\<lparr>last_loss_recover_tick := Some now, loss_demoted := False\<rparr> else r1)"

definition demote_fields :: "ev_record \<Rightarrow> ev_record" where
  "demote_fields r =
     r\<lparr>consecutive_healthy_windows := 0, consecutive_loss_demote_windows := 0\<rparr>"

definition transition_record :: "int \<Rightarrow> ev_state \<Rightarrow> ev_record \<Rightarrow> ev_record" where
  "transition_record now new r =
     (let r1 = r\<lparr>rstate := new, transitions := transitions r + 1\<rparr>;
          r2 = (if new = GOOD then promote_fields now r1 else r1)
      in if new = ASSUMED_BAD then demote_fields r2 else r2)"

definition transition_locked ::
  "ev_table \<Rightarrow> string \<Rightarrow> nat \<Rightarrow> nat \<Rightarrow> ev_state \<Rightarrow> ev_table" where
  "transition_locked t tn p q new =
     (let old = rstate (rec_at t tn p q)
      in if old = new then t
         else let t1 = upd_rec t tn p q (transition_record (the (ticks t tn)) new);
                  t2 = rebuild_weights t1 tn
              in if on_transition t2
                 then t2\<lparr>transition_calls := transition_calls t2 @ [(tn, p, q, old, new)]\<rparr>
                 else t2)"

text \<open>The EVs other than (plane, path) that would still be usable after a demotion.\<close>

definition usable_after ::
  "nat \<Rightarrow> nat \<Rightarrow> ev_record list list \<Rightarrow> nat \<Rightarrow> nat \<Rightarrow> nat" where
  "usable_after P Q g plane path =
     length (filter (\<lambda>(p, q). (p, q) \<noteq> (plane, path) \<and> rstate (gget g p q) \<noteq> ASSUMED_BAD)
              (cells P Q))"

definition demote_backoff :: "ev_state_config \<Rightarrow> int \<Rightarrow> bool \<Rightarrow> ev_record \<Rightarrow> ev_record" where
  "demote_backoff c now by_loss r =
     (let r1 = (if by_loss
          then let recent = (case last_loss_recover_tick r of None \<Rightarrow> False
                             | Some prev \<Rightarrow> now - prev < loss_backoff_reset_ticks c)
               in r\<lparr>loss_backoff_level :=
                      (if recent
                       then min (loss_backoff_level r + 1) (loss_backoff_max_level c) else 0)\<rparr>
          else r)
      in r1\<lparr>loss_demoted := by_loss\<rparr>)"

definition try_demote_locked ::
  "ev_table \<Rightarrow> string \<Rightarrow> nat \<Rightarrow> nat \<Rightarrow> bool \<Rightarrow> ev_table" where
  "try_demote_locked t tn p q by_loss =
     (if int (usable_after (num_planes t) (num_paths t) (grid_at t tn) p q) < min_active t
      then upd_rec t tn p q
             (\<lambda>r. r\<lparr>demotes_suppressed_by_floor := demotes_suppressed_by_floor r + 1\<rparr>)
      else transition_locked
             (upd_rec t tn p q (demote_backoff (cfg t) (the (ticks t tn)) by_loss))
             tn p q ASSUMED_BAD)"

subsection \<open>Evaluating one EV after a tick\<close>

definition window_sent :: "ev_record \<Rightarrow> int" where
  "window_sent r = sum_list (map fst (dq_items (buckets r)))"

definition window_recv :: "ev_record \<Rightarrow> int" where
  "window_recv r = sum_list (map snd (dq_items (buckets r)))"

definition window_ratio :: "ev_record \<Rightarrow> pyfloat" where
  "window_ratio r = int_truediv (min (window_recv r) (window_sent r)) (window_sent r)"

definition recovery_hold :: "ev_state_config \<Rightarrow> ev_record \<Rightarrow> int result" where
  "recovery_hold c r =
     (if loss_demoted r then py_shl (probe_recover_ticks c) (loss_backoff_level r)
      else Inr (probe_recover_ticks c))"

definition clear_healthy :: "ev_record \<Rightarrow> ev_record" where
  "clear_healthy r = r\<lparr>consecutive_healthy_windows := 0\<rparr>"

definition evaluate_locked ::
  "ev_table \<Rightarrow> string \<Rightarrow> nat \<Rightarrow> nat \<Rightarrow> ev_table \<times> py_error option" where
  "evaluate_locked t tn p q =
     (let r = rec_at t tn p q; c = cfg t in
      if window_sent r = 0
      then (upd_rec t tn p q (\<lambda>r. r\<lparr>last_probe_ratio := 0\<rparr>), None)
      else
        let ratio = window_ratio r;
            t1 = upd_rec t tn p q (\<lambda>r. r\<lparr>last_probe_ratio := ratio\<rparr>) in
        if window_sent r < probe_min_samples c
        then (upd_rec t1 tn p q clear_healthy, None)
        else if ratio < probe_fail_ratio c
        then let t2 = upd_rec t1 tn p q clear_healthy
             in (if rstate r \<noteq> ASSUMED_BAD then try_demote_locked t2 tn p q False else t2, None)
        else if probe_recover_ratio c \<le> ratio
        then let t2 = upd_rec t1 tn p q
                   (\<lambda>r. r\<lparr>consecutive_healthy_windows := consecutive_healthy_windows r + 1\<rparr>);
                 r2 = rec_at t2 tn p q
             in case recovery_hold c r2 of
                  Inl e \<Rightarrow> (t2, Some e)
                | Inr hold \<Rightarrow>
                    (if rstate r2 \<noteq> GOOD \<and> consecutive_loss_demote_windows r2 = 0
                        \<and> hold \<le> consecutive_healthy_windows r2
                     then transition_locked t2 tn p q GOOD else t2, None)
        else (upd_rec t1 tn p q clear_healthy, None))"

subsection \<open>The tick\<close>

definition rotate_bucket :: "ev_record \<Rightarrow> ev_record" where
  "rotate_bucket r =
     r\<lparr>buckets := dq_append (buckets r) (current_sent r, current_recv r),
       current_sent := 0, current_recv := 0\<rparr>"

fun tick_evs ::
  "ev_table \<Rightarrow> string \<Rightarrow> (nat \<times> nat) list \<Rightarrow> ev_table \<times> py_error option" where
  "tick_evs t tn [] = (t, None)"
| "tick_evs t tn ((p, q) # cs) =
     (case evaluate_locked (upd_rec t tn p q rotate_bucket) tn p q of
        (t', None) \<Rightarrow> tick_evs t' tn cs
      | (t', Some e) \<Rightarrow> (t', Some e))"

definition tick :: "ev_table \<Rightarrow> string \<Rightarrow> ev_table \<times> py_error option" where
  "tick t tn =
     (case check_tenant t tn of
        Inl e \<Rightarrow> (t, Some e)
      | Inr _ \<Rightarrow> tick_evs (t\<lparr>ticks := (ticks t)(tn \<mapsto> the (ticks t tn) + 1)\<rparr>) tn
                   (cells (num_planes t) (num_paths t)))"

subsection \<open>Loss feedback\<close>

definition apply_loss_ratio ::
  "ev_table \<Rightarrow> string \<Rightarrow> nat \<Rightarrow> nat \<Rightarrow> pyfloat \<Rightarrow> ev_table" where
  "apply_loss_ratio t tn p q ratio =
     (let t1 = upd_rec t tn p q (\<lambda>r. r\<lparr>last_loss_ratio := ratio\<rparr>); c = cfg t in
      if loss_threshold c < ratio
      then let t2 = upd_rec t1 tn p q (\<lambda>r. r\<lparr>consecutive_loss_demote_windows :=
                                             consecutive_loss_demote_windows r + 1\<rparr>);
               r2 = rec_at t2 tn p q
           in if rstate r2 \<noteq> ASSUMED_BAD
                 \<and> loss_demote_consecutive c \<le> consecutive_loss_demote_windows r2
              then try_demote_locked t2 tn p q True else t2
      else if ratio \<le> fdiv (loss_threshold c) 2
      then upd_rec t1 tn p q (\<lambda>r. r\<lparr>consecutive_loss_demote_windows := 0\<rparr>)
      else t1)"

definition record_loss_window ::
  "ev_table \<Rightarrow> string \<Rightarrow> int \<Rightarrow> int \<Rightarrow> int \<Rightarrow> int \<Rightarrow> ev_table result" where
  "record_loss_window t tn plane path seen expected =
     bindE (check_tenant t tn) (\<lambda>_.
     bindE (check_ev t plane path) (\<lambda>_.
     bindE (raise_if (seen < 0 \<or> expected < 0) ValueError) (\<lambda>_.
       let seen' = (if expected < seen then expected else seen) in
       if expected = 0 then Inr t
       else Inr (apply_loss_ratio t tn (nat plane) (nat path)
                   (int_truediv (expected - seen') expected)))))"

subsection \<open>Reads\<close>

definition ev_state_of :: "ev_table \<Rightarrow> string \<Rightarrow> int \<Rightarrow> int \<Rightarrow> ev_state result" where
  "ev_state_of t tn plane path =
     bindE (check_tenant t tn) (\<lambda>_.
     bindE (check_ev t plane path) (\<lambda>_.
       Inr (rstate (rec_at t tn (nat plane) (nat path)))))"

definition weights_ev :: "ev_table \<Rightarrow> string \<Rightarrow> pyfloat list list result" where
  "weights_ev t tn = bindE (check_tenant t tn) (\<lambda>_. Inr (the (weights_cache t tn)))"

definition good_evs :: "ev_table \<Rightarrow> string \<Rightarrow> (nat \<times> nat) set result" where
  "good_evs t tn =
     bindE (check_tenant t tn) (\<lambda>_.
       Inr (set (filter (\<lambda>(p, q). rstate (rec_at t tn p q) = GOOD)
                   (cells (num_planes t) (num_paths t)))))"

end
