(* ===== verification/EvInvariant.thy ===== *)
theory EvInvariant
  imports EvState
begin

text \<open>
  What \<^verbatim>\<open>EVStateTable\<close> keeps: the well-formedness invariant \<open>ev_wf\<close> (shape, record bounds,
  weight cache coherence, the floor on usable EVs) and its preservation by every method; the
  local view of an evaluation (what happens to the one record, and that no other is touched);
  the reachable tables and the abstract machine they refine.
\<close>

subsection \<open>Reading and writing one record\<close>

definition valid_ev :: "ev_table \<Rightarrow> string \<Rightarrow> nat \<Rightarrow> nat \<Rightarrow> bool" where
  "valid_ev t tn p q \<longleftrightarrow> tn \<in> set (tenants t) \<and> p < num_planes t \<and> q < num_paths t"

definition ev_shape :: "ev_table \<Rightarrow> bool" where
  "ev_shape t \<longleftrightarrow>
     tenants t \<noteq> [] \<and> 0 < num_planes t \<and> 0 < num_paths t
     \<and> dom (evs t) = set (tenants t) \<and> dom (ticks t) = set (tenants t)
     \<and> (\<forall>tn \<in> set (tenants t). shaped (num_planes t) (num_paths t) (grid_at t tn))"

lemma check_tenant_Inr [simp]:
  "ev_shape t \<Longrightarrow> check_tenant t tn = Inr u \<longleftrightarrow> tn \<in> set (tenants t)"
  by (auto simp: check_tenant_def ev_shape_def dom_def)

lemma check_ev_Inr [simp]:
  "check_ev t plane path = Inr u \<longleftrightarrow>
     0 \<le> plane \<and> plane < int (num_planes t) \<and> 0 \<le> path \<and> path < int (num_paths t)"
  by (auto simp: check_ev_def)

lemma valid_of_checks:
  assumes "ev_shape t" "check_tenant t tn = Inr u" "check_ev t plane path = Inr v"
  shows "valid_ev t tn (nat plane) (nat path)"
  using assms by (auto simp: valid_ev_def)

lemma put_rec_fields [simp]:
  "tenants (put_rec t tn p q r) = tenants t" "num_planes (put_rec t tn p q r) = num_planes t"
  "num_paths (put_rec t tn p q r) = num_paths t" "cfg (put_rec t tn p q r) = cfg t"
  "min_active (put_rec t tn p q r) = min_active t" "ticks (put_rec t tn p q r) = ticks t"
  "weights_cache (put_rec t tn p q r) = weights_cache t"
  "on_transition (put_rec t tn p q r) = on_transition t"
  "transition_calls (put_rec t tn p q r) = transition_calls t"
  by (simp_all add: put_rec_def)

lemma grid_at_put_rec [simp]:
  "grid_at (put_rec t tn p q r) tn' =
     (if tn' = tn then gset (grid_at t tn) p q r else grid_at t tn')"
  by (simp add: put_rec_def grid_at_def)

lemma rec_at_put_rec:
  assumes "ev_shape t" "valid_ev t tn p q"
  shows "rec_at (put_rec t tn p q r) tn' a b =
    (if tn' = tn \<and> a = p \<and> b = q then r else rec_at t tn' a b)"
  using assms by (auto simp: rec_at_def ev_shape_def valid_ev_def gget_gset)

lemma ev_shape_put_rec [simp]:
  "ev_shape t \<Longrightarrow> valid_ev t tn p q \<Longrightarrow> ev_shape (put_rec t tn p q r)"
  by (auto simp: ev_shape_def valid_ev_def put_rec_def grid_at_def dom_def)

lemma valid_ev_put_rec [simp]: "valid_ev (put_rec t tn p q r) = valid_ev t"
  by (simp add: valid_ev_def fun_eq_iff)

lemma put_rec_put_rec [simp]:
  "put_rec (put_rec t tn p q r) tn p q r' = put_rec t tn p q r'"
  by (simp add: put_rec_def grid_at_def)

lemma upd_rec_fields [simp]:
  "tenants (upd_rec t tn p q f) = tenants t" "num_planes (upd_rec t tn p q f) = num_planes t"
  "num_paths (upd_rec t tn p q f) = num_paths t" "cfg (upd_rec t tn p q f) = cfg t"
  "min_active (upd_rec t tn p q f) = min_active t" "ticks (upd_rec t tn p q f) = ticks t"
  "weights_cache (upd_rec t tn p q f) = weights_cache t"
  "on_transition (upd_rec t tn p q f) = on_transition t"
  "transition_calls (upd_rec t tn p q f) = transition_calls t"
  "valid_ev (upd_rec t tn p q f) = valid_ev t"
  by (simp_all add: upd_rec_def)

lemma ev_shape_upd_rec [simp]:
  "ev_shape t \<Longrightarrow> valid_ev t tn p q \<Longrightarrow> ev_shape (upd_rec t tn p q f)"
  by (simp add: upd_rec_def)

lemma rec_at_upd_rec:
  "ev_shape t \<Longrightarrow> valid_ev t tn p q \<Longrightarrow>
   rec_at (upd_rec t tn p q f) tn' a b =
     (if tn' = tn \<and> a = p \<and> b = q then f (rec_at t tn p q) else rec_at t tn' a b)"
  by (simp add: upd_rec_def rec_at_put_rec)

lemma upd_rec_upd_rec [simp]:
  "ev_shape t \<Longrightarrow> valid_ev t tn p q \<Longrightarrow>
   upd_rec (upd_rec t tn p q f) tn p q g = upd_rec t tn p q (\<lambda>r. g (f r))"
  by (simp add: upd_rec_def rec_at_put_rec)

lemma upd_rec_id:
  assumes "ev_shape t" "valid_ev t tn p q"
  shows "upd_rec t tn p q (\<lambda>r. r) = t"
proof -
  have "tn \<in> dom (evs t)" using assms by (simp add: ev_shape_def valid_ev_def)
  then obtain g where g: "evs t tn = Some g" by blast
  then show ?thesis
    by (simp add: upd_rec_def put_rec_def rec_at_def gset_def gget_def grid_at_def map_upd_triv)
qed

lemma rebuild_fields [simp]:
  "tenants (rebuild_weights t tn) = tenants t" "num_planes (rebuild_weights t tn) = num_planes t"
  "num_paths (rebuild_weights t tn) = num_paths t" "cfg (rebuild_weights t tn) = cfg t"
  "min_active (rebuild_weights t tn) = min_active t" "ticks (rebuild_weights t tn) = ticks t"
  "evs (rebuild_weights t tn) = evs t" "on_transition (rebuild_weights t tn) = on_transition t"
  "transition_calls (rebuild_weights t tn) = transition_calls t"
  "grid_at (rebuild_weights t tn) = grid_at t" "rec_at (rebuild_weights t tn) = rec_at t"
  "ev_shape (rebuild_weights t tn) = ev_shape t" "valid_ev (rebuild_weights t tn) = valid_ev t"
  by (simp_all add: rebuild_weights_def grid_at_def [abs_def] rec_at_def [abs_def] ev_shape_def
      valid_ev_def [abs_def])

lemma transition_calls_fields [simp]:
  "grid_at (transition_calls_update f t) = grid_at t"
  "rec_at (transition_calls_update f t) = rec_at t"
  "ev_shape (transition_calls_update f t) = ev_shape t"
  "valid_ev (transition_calls_update f t) = valid_ev t"
  by (simp_all add: grid_at_def [abs_def] rec_at_def [abs_def] ev_shape_def valid_ev_def [abs_def])

lemma ticks_fields [simp]:
  "grid_at (ticks_update f t) = grid_at t" "rec_at (ticks_update f t) = rec_at t"
  "valid_ev (ticks_update f t) = valid_ev t"
  by (simp_all add: grid_at_def [abs_def] rec_at_def [abs_def] valid_ev_def [abs_def])

subsection \<open>Weights of a grid\<close>

definition usable :: "nat \<Rightarrow> nat \<Rightarrow> ev_record list list \<Rightarrow> nat" where
  "usable P Q g = length (filter (\<lambda>(p, q). rstate (gget g p q) \<noteq> ASSUMED_BAD) (cells P Q))"

lemma same_states_cong:
  assumes "\<And>p q. p < P \<Longrightarrow> q < Q \<Longrightarrow> rstate (gget g p q) = rstate (gget h p q)"
  shows "weights_of_grid P Q g = weights_of_grid P Q h" and "usable P Q g = usable P Q h"
proof -
  have "grid_of_fun P Q (\<lambda>p q. state_weight (rstate (gget g p q))) =
        grid_of_fun P Q (\<lambda>p q. state_weight (rstate (gget h p q)))"
    by (rule shaped_ext [of P Q]) (simp_all add: assms)
  then show "weights_of_grid P Q g = weights_of_grid P Q h" by (simp add: weights_of_grid_def)
  show "usable P Q g = usable P Q h"
    unfolding usable_def by (intro arg_cong [where f = length] filter_cong) (auto simp: assms)
qed

lemma usable_split:
  assumes "p < P" "q < Q"
  shows "usable P Q g =
    usable_after P Q g p q + (if rstate (gget g p q) \<noteq> ASSUMED_BAD then 1 else 0)"
proof -
  let ?B = "\<lambda>(a, b). rstate (gget g a b) \<noteq> ASSUMED_BAD"
  have "usable_after P Q g p q = length (filter (\<lambda>x. x \<noteq> (p, q) \<and> ?B x) (cells P Q))"
    unfolding usable_after_def by (intro arg_cong [where f = length] filter_cong) auto
  then show ?thesis
    using filter_remove1_count [of "cells P Q" "(p, q)" ?B] assms by (simp add: usable_def)
qed

lemma usable_after_gset [simp]:
  assumes "shaped P Q g" "p < P" "q < Q"
  shows "usable_after P Q (gset g p q r) p q = usable_after P Q g p q"
  unfolding usable_after_def using assms
  by (intro arg_cong [where f = length] filter_cong) (auto simp: gget_gset)

lemma state_weight_double [simp]: "rnd (state_weight s) = state_weight s"
proof (cases s)
  case UNKNOWN
  have "rnd (1 / 2) = (1 / 2 :: rat)" by code_simp
  with UNKNOWN show ?thesis by simp
qed simp_all

lemma state_weight_nonneg [simp]: "0 \<le> state_weight s"
  by (cases s) auto

lemma state_weight_pos_iff [simp]: "0 < state_weight s \<longleftrightarrow> s \<noteq> ASSUMED_BAD"
  by (cases s) auto

lemma state_weight_eq_0_iff [simp]: "state_weight s = 0 \<longleftrightarrow> s = ASSUMED_BAD"
  by (cases s) auto

definition raw_total :: "nat \<Rightarrow> nat \<Rightarrow> ev_record list list \<Rightarrow> pyfloat" where
  "raw_total P Q g = fsum (map (\<lambda>(p, q). state_weight (rstate (gget g p q))) (cells P Q))"

lemma raw_total_pos_iff: "0 < raw_total P Q g \<longleftrightarrow> 0 < usable P Q g"
proof -
  have "0 < raw_total P Q g \<longleftrightarrow>
      (\<exists>x \<in> set (map (\<lambda>(p, q). state_weight (rstate (gget g p q))) (cells P Q)). 0 < x)"
    unfolding raw_total_def by (rule fsum_pos_iff) auto
  also have "\<dots> \<longleftrightarrow> 0 < usable P Q g"
    by (force simp: usable_def filter_empty_conv split: prod.splits)
  finally show ?thesis .
qed

lemma shaped_weights [simp]: "shaped P Q (weights_of_grid P Q g)"
  by (simp add: weights_of_grid_def Let_def map_map_grid)

lemma gget_weights:
  assumes "0 < usable P Q g" "p < P" "q < Q"
  shows "gget (weights_of_grid P Q g) p q =
    fdiv (state_weight (rstate (gget g p q))) (raw_total P Q g)"
  using assms raw_total_pos_iff [of P Q g]
  by (simp add: weights_of_grid_def Let_def concat_grid_of_fun
      map_map_grid(2) [OF shaped_grid_of_fun] flip: raw_total_def)

lemma weight_bounds:
  assumes "0 < usable P Q g" "p < P" "q < Q"
  shows "0 \<le> gget (weights_of_grid P Q g) p q" "gget (weights_of_grid P Q g) p q \<le> 1"
    and "gget (weights_of_grid P Q g) p q = 0 \<longleftrightarrow> rstate (gget g p q) = ASSUMED_BAD"
proof -
  let ?w = "state_weight (rstate (gget g p q))"
  have pos: "0 < raw_total P Q g" using assms by (simp add: raw_total_pos_iff)
  have "?w \<le> raw_total P Q g"
    unfolding raw_total_def using assms by (intro fsum_ge_elem) auto
  with pos show "0 \<le> gget (weights_of_grid P Q g) p q" "gget (weights_of_grid P Q g) p q \<le> 1"
    "gget (weights_of_grid P Q g) p q = 0 \<longleftrightarrow> rstate (gget g p q) = ASSUMED_BAD"
    by (simp_all add: gget_weights assms fdiv_le_1 fdiv_eq_0_iff)
qed

text \<open>States ordered by the traffic they attract; a better state never weighs less.\<close>

instantiation ev_state :: linorder
begin

definition less_eq_ev_state :: "ev_state \<Rightarrow> ev_state \<Rightarrow> bool" where
  "less_eq_ev_state a b \<longleftrightarrow> state_weight a \<le> state_weight b"

definition less_ev_state :: "ev_state \<Rightarrow> ev_state \<Rightarrow> bool" where
  "less_ev_state a b \<longleftrightarrow> state_weight a < state_weight b"

instance
proof
  fix x y z :: ev_state
  show "x < y \<longleftrightarrow> x \<le> y \<and> \<not> y \<le> x" by (auto simp: less_eq_ev_state_def less_ev_state_def)
  show "x \<le> x" by (simp add: less_eq_ev_state_def)
  show "x \<le> y \<Longrightarrow> y \<le> z \<Longrightarrow> x \<le> z" by (simp add: less_eq_ev_state_def)
  show "x \<le> y \<Longrightarrow> y \<le> x \<Longrightarrow> x = y"
    by (cases x; cases y) (auto simp: less_eq_ev_state_def)
  show "x \<le> y \<or> y \<le> x" by (auto simp: less_eq_ev_state_def)
qed

end

lemma weights_mono:
  assumes "0 < usable P Q g" "p < P" "q < Q" "a < P" "b < Q"
    and "rstate (gget g p q) \<le> rstate (gget g a b)"
  shows "gget (weights_of_grid P Q g) p q \<le> gget (weights_of_grid P Q g) a b"
proof -
  have "0 < raw_total P Q g" using assms(1) by (simp add: raw_total_pos_iff)
  then show ?thesis
    using assms by (simp add: gget_weights fdiv_def rnd_mono divide_right_mono less_eq_ev_state_def)
qed

subsection \<open>The invariant\<close>

definition rec_wf :: "ev_state_config \<Rightarrow> ev_record \<Rightarrow> bool" where
  "rec_wf c r \<longleftrightarrow>
     dq_ok (buckets r) \<and> dq_maxlen (buckets r) = nat (probe_window_ticks c)
     \<and> (\<forall>(s, v) \<in> set (dq_items (buckets r)). 0 \<le> s \<and> 0 \<le> v)
     \<and> 0 \<le> current_sent r \<and> 0 \<le> current_recv r
     \<and> window_sent r + current_sent r \<le> total_sent r
     \<and> window_recv r + current_recv r \<le> total_recv r
     \<and> 0 \<le> consecutive_healthy_windows r \<and> 0 \<le> consecutive_loss_demote_windows r
     \<and> 0 \<le> last_probe_ratio r \<and> last_probe_ratio r \<le> 1
     \<and> 0 \<le> last_loss_ratio r \<and> last_loss_ratio r \<le> 1
     \<and> 0 \<le> transitions r \<and> 0 \<le> demotes_suppressed_by_floor r
     \<and> (loss_demoted r \<longrightarrow> rstate r = ASSUMED_BAD)
     \<and> (0 \<le> loss_backoff_max_level c \<longrightarrow>
          0 \<le> loss_backoff_level r \<and> loss_backoff_level r \<le> loss_backoff_max_level c)"

definition ev_wf :: "ev_table \<Rightarrow> bool" where
  "ev_wf t \<longleftrightarrow>
     ev_shape t \<and> dom (weights_cache t) = set (tenants t)
     \<and> 1 \<le> min_active t
     \<and> (\<forall>tn \<in> set (tenants t).
          weights_cache t tn = Some (weights_of_grid (num_planes t) (num_paths t) (grid_at t tn))
          \<and> min_active t \<le> int (usable (num_planes t) (num_paths t) (grid_at t tn)))
     \<and> (\<forall>tn p q. valid_ev t tn p q \<longrightarrow> rec_wf (cfg t) (rec_at t tn p q))"

lemma ev_wf_shape [simp]: "ev_wf t \<Longrightarrow> ev_shape t"
  by (simp add: ev_wf_def)

lemma ev_wf_rec: "ev_wf t \<Longrightarrow> valid_ev t tn p q \<Longrightarrow> rec_wf (cfg t) (rec_at t tn p q)"
  by (simp add: ev_wf_def)

lemma ev_wf_usable:
  "ev_wf t \<Longrightarrow> tn \<in> set (tenants t) \<Longrightarrow>
   0 < usable (num_planes t) (num_paths t) (grid_at t tn)"
  by (force simp: ev_wf_def)

text \<open>A write that does not change the state keeps the invariant.\<close>

lemma upd_rec_wf:
  assumes "ev_wf t" "valid_ev t tn p q"
    and "rstate (f (rec_at t tn p q)) = rstate (rec_at t tn p q)"
    and "rec_wf (cfg t) (f (rec_at t tn p q))"
  shows "ev_wf (upd_rec t tn p q f)"
proof -
  let ?t = "upd_rec t tn p q f" and ?P = "num_planes t" and ?Q = "num_paths t"
  have sh: "ev_shape t" using assms(1) by simp
  have rw: "rec_wf (cfg t) (rec_at ?t tn' a b)" if "valid_ev t tn' a b" for tn' a b
    using that assms by (simp add: rec_at_upd_rec ev_wf_rec)
  have states: "rstate (gget (grid_at ?t tn') a b) = rstate (gget (grid_at t tn') a b)" for tn' a b
    using rec_at_upd_rec [OF sh assms(2), of f tn' a b] assms(3) by (auto simp: rec_at_def)
  have w: "weights_of_grid ?P ?Q (grid_at ?t tn') = weights_of_grid ?P ?Q (grid_at t tn')"
    "usable ?P ?Q (grid_at ?t tn') = usable ?P ?Q (grid_at t tn')" for tn'
    using states by (auto intro: same_states_cong)
  show ?thesis
    using assms(1,2) rw by (auto simp: ev_wf_def w)
qed

text \<open>Storing a record with a new state, rebuilding the weights and logging the call.\<close>

definition commit_record ::
  "ev_table \<Rightarrow> string \<Rightarrow> nat \<Rightarrow> nat \<Rightarrow> ev_record \<Rightarrow> ev_table" where
  "commit_record t tn p q r =
     (let t2 = rebuild_weights (put_rec t tn p q r) tn
      in if on_transition t2
         then t2\<lparr>transition_calls :=
                transition_calls t2 @ [(tn, p, q, rstate (rec_at t tn p q), rstate r)]\<rparr>
         else t2)"

lemma rstate_transition_record [simp]: "rstate (transition_record now new r) = new"
  by (auto simp: transition_record_def promote_fields_def demote_fields_def Let_def)

lemma transition_locked_commit:
  assumes "ev_shape t" "valid_ev t tn p q" "rstate (f (rec_at t tn p q)) = rstate (rec_at t tn p q)"
    and "rstate (rec_at t tn p q) \<noteq> new"
  shows "transition_locked (upd_rec t tn p q f) tn p q new =
    commit_record t tn p q (transition_record (the (ticks t tn)) new (f (rec_at t tn p q)))"
  using assms
  by (simp add: transition_locked_def commit_record_def Let_def rec_at_upd_rec)
     (simp add: upd_rec_def)

lemma commit_fields [simp]:
  "tenants (commit_record t tn p q r) = tenants t"
  "num_planes (commit_record t tn p q r) = num_planes t"
  "num_paths (commit_record t tn p q r) = num_paths t"
  "cfg (commit_record t tn p q r) = cfg t" "min_active (commit_record t tn p q r) = min_active t"
  "ticks (commit_record t tn p q r) = ticks t"
  "valid_ev (commit_record t tn p q r) = valid_ev t"
  "on_transition (commit_record t tn p q r) = on_transition t"
  by (simp_all add: commit_record_def Let_def)

lemma ev_shape_commit [simp]:
  "ev_shape t \<Longrightarrow> valid_ev t tn p q \<Longrightarrow> ev_shape (commit_record t tn p q r)"
  by (simp add: commit_record_def Let_def)

lemma rec_at_commit:
  "ev_shape t \<Longrightarrow> valid_ev t tn p q \<Longrightarrow>
   rec_at (commit_record t tn p q r) tn' a b =
     (if tn' = tn \<and> a = p \<and> b = q then r else rec_at t tn' a b)"
  by (simp add: commit_record_def Let_def rec_at_put_rec)

lemma grid_at_commit [simp]:
  "grid_at (commit_record t tn p q r) tn' =
     (if tn' = tn then gset (grid_at t tn) p q r else grid_at t tn')"
  by (simp add: commit_record_def Let_def)

lemma commit_wf:
  assumes wf: "ev_wf t" and v: "valid_ev t tn p q" and r: "rec_wf (cfg t) r"
    and floor: "rstate r = ASSUMED_BAD \<Longrightarrow>
      min_active t \<le> int (usable_after (num_planes t) (num_paths t) (grid_at t tn) p q)"
  shows "ev_wf (commit_record t tn p q r)"
proof -
  let ?P = "num_planes t" and ?Q = "num_paths t" and ?g = "grid_at t tn"
  have sh: "shaped ?P ?Q ?g" and pq: "p < ?P" "q < ?Q"
    using wf v by (auto simp: ev_wf_def ev_shape_def valid_ev_def)
  have new: "usable ?P ?Q (gset ?g p q r) =
      usable_after ?P ?Q ?g p q + (if rstate r \<noteq> ASSUMED_BAD then 1 else 0)"
    using usable_split [OF pq, of "gset ?g p q r"] sh pq by (simp add: gget_gset)
  have old: "usable ?P ?Q ?g \<le> usable_after ?P ?Q ?g p q + 1"
    using usable_split [OF pq, of ?g] by simp
  have "min_active t \<le> int (usable ?P ?Q ?g)"
    using wf v by (simp add: ev_wf_def valid_ev_def)
  with old have fl: "min_active t \<le> int (usable ?P ?Q (gset ?g p q r))"
    using new floor by auto
  have recs: "rec_wf (cfg t) (rec_at (commit_record t tn p q r) tn' a b)"
    if "valid_ev t tn' a b" for tn' a b
    using that wf v r by (simp add: rec_at_commit ev_wf_rec)
  have wc: "weights_cache (commit_record t tn p q r) =
      (weights_cache t)(tn \<mapsto> weights_of_grid ?P ?Q (gset ?g p q r))"
    by (simp add: commit_record_def Let_def rebuild_weights_def grid_at_put_rec [unfolded grid_at_def]
        grid_at_def put_rec_def)
  show ?thesis
    using wf v fl recs wc by (auto simp: ev_wf_def valid_ev_def)
qed

subsection \<open>Every operation keeps the invariant\<close>

lemma sum_list_drop_le:
  fixes f :: "'a \<Rightarrow> int"
  assumes "\<forall>x \<in> set xs. 0 \<le> f x"
  shows "sum_list (map f (drop n xs)) \<le> sum_list (map f xs)"
proof -
  have "sum_list (map f xs) = sum_list (map f (take n xs)) + sum_list (map f (drop n xs))"
    by (metis append_take_drop_id map_append sum_list_append)
  moreover have "0 \<le> sum_list (map f (take n xs))"
    using assms by (intro sum_list_nonneg) (auto dest: in_set_takeD)
  ultimately show ?thesis by simp
qed

lemma rec_wf_rotate:
  assumes "rec_wf c r"
  shows "rec_wf c (rotate_bucket r)"
proof -
  let ?xs = "dq_items (buckets r) @ [(current_sent r, current_recv r)]"
  have nn: "\<forall>x \<in> set ?xs. 0 \<le> fst x" "\<forall>x \<in> set ?xs. 0 \<le> snd x"
    using assms by (auto simp: rec_wf_def)
  have items: "dq_items (buckets (rotate_bucket r)) =
      drop (length ?xs - dq_maxlen (buckets r)) ?xs"
    by (simp add: rotate_bucket_def dq_append_def Let_def)
  have "window_sent (rotate_bucket r) \<le> window_sent r + current_sent r"
    "window_recv (rotate_bucket r) \<le> window_recv r + current_recv r"
    using sum_list_drop_le [OF nn(1), of "length ?xs - dq_maxlen (buckets r)"]
      sum_list_drop_le [OF nn(2), of "length ?xs - dq_maxlen (buckets r)"]
    by (simp_all only: window_sent_def window_recv_def items) simp_all
  moreover have "\<forall>(s, v) \<in> set (dq_items (buckets (rotate_bucket r))). 0 \<le> s \<and> 0 \<le> v"
    using assms unfolding items by (fastforce simp: rec_wf_def dest: in_set_dropD)
  ultimately show ?thesis
    using assms by (auto simp: rec_wf_def) (simp_all add: rotate_bucket_def)
qed

lemma window_fields [simp]:
  "window_sent (last_probe_ratio_update f r) = window_sent r"
  "window_recv (last_probe_ratio_update f r) = window_recv r"
  "window_sent (consecutive_healthy_windows_update g r) = window_sent r"
  "window_recv (consecutive_healthy_windows_update g r) = window_recv r"
  "window_sent (current_sent_update g r) = window_sent r"
  "window_recv (current_sent_update g r) = window_recv r"
  "window_sent (current_recv_update g r) = window_sent r"
  "window_recv (current_recv_update g r) = window_recv r"
  "window_sent (total_sent_update g r) = window_sent r"
  "window_recv (total_sent_update g r) = window_recv r"
  "window_sent (total_recv_update g r) = window_sent r"
  "window_recv (total_recv_update g r) = window_recv r"
  "window_sent (last_loss_ratio_update f r) = window_sent r"
  "window_recv (last_loss_ratio_update f r) = window_recv r"
  "window_sent (consecutive_loss_demote_windows_update g r) = window_sent r"
  "window_recv (consecutive_loss_demote_windows_update g r) = window_recv r"
  "window_sent (demotes_suppressed_by_floor_update g r) = window_sent r"
  "window_recv (demotes_suppressed_by_floor_update g r) = window_recv r"
  "window_sent (transition_record now s r) = window_sent r"
  "window_recv (transition_record now s r) = window_recv r"
  "window_sent (demote_backoff c now b r) = window_sent r"
  "window_recv (demote_backoff c now b r) = window_recv r"
  by (simp_all add: window_sent_def window_recv_def transition_record_def promote_fields_def
      demote_fields_def demote_backoff_def Let_def)

lemma demote_backoff_fields [simp]:
  "buckets (demote_backoff c now b r) = buckets r"
  "current_sent (demote_backoff c now b r) = current_sent r"
  "current_recv (demote_backoff c now b r) = current_recv r"
  "total_sent (demote_backoff c now b r) = total_sent r"
  "total_recv (demote_backoff c now b r) = total_recv r"
  "last_loss_ratio (demote_backoff c now b r) = last_loss_ratio r"
  "last_probe_ratio (demote_backoff c now b r) = last_probe_ratio r"
  "demotes_suppressed_by_floor (demote_backoff c now b r) = demotes_suppressed_by_floor r"
  "transitions (demote_backoff c now b r) = transitions r"
  "rstate (demote_backoff c now b r) = rstate r"
  "consecutive_healthy_windows (demote_backoff c now b r) = consecutive_healthy_windows r"
  "consecutive_loss_demote_windows (demote_backoff c now b r) = consecutive_loss_demote_windows r"
  "last_loss_recover_tick (demote_backoff c now b r) = last_loss_recover_tick r"
  "loss_demoted (demote_backoff c now b r) = b"
  by (simp_all add: demote_backoff_def Let_def)

lemma demote_backoff_level:
  "0 \<le> loss_backoff_max_level c \<Longrightarrow>
   0 \<le> loss_backoff_level r \<and> loss_backoff_level r \<le> loss_backoff_max_level c \<Longrightarrow>
   0 \<le> loss_backoff_level (demote_backoff c now b r) \<and>
   loss_backoff_level (demote_backoff c now b r) \<le> loss_backoff_max_level c"
  by (auto simp: demote_backoff_def Let_def)

lemma transition_record_fields [simp]:
  "buckets (transition_record now s r) = buckets r"
  "current_sent (transition_record now s r) = current_sent r"
  "current_recv (transition_record now s r) = current_recv r"
  "total_sent (transition_record now s r) = total_sent r"
  "total_recv (transition_record now s r) = total_recv r"
  "last_loss_ratio (transition_record now s r) = last_loss_ratio r"
  "last_probe_ratio (transition_record now s r) = last_probe_ratio r"
  "demotes_suppressed_by_floor (transition_record now s r) = demotes_suppressed_by_floor r"
  "loss_backoff_level (transition_record now s r) = loss_backoff_level r"
  "transitions (transition_record now s r) = transitions r + 1"
  "consecutive_loss_demote_windows (transition_record now s r) =
     (if s = ASSUMED_BAD then 0 else consecutive_loss_demote_windows r)"
  "consecutive_healthy_windows (transition_record now s r) =
     (if s = UNKNOWN then consecutive_healthy_windows r else 0)"
  "loss_demoted (transition_record now s r) = (s \<noteq> GOOD \<and> loss_demoted r)"
  "last_loss_recover_tick (transition_record now s r) =
     (if s = GOOD \<and> loss_demoted r then Some now else last_loss_recover_tick r)"
  by (cases s; simp add: transition_record_def promote_fields_def demote_fields_def Let_def)+

lemma window_recv_nonneg: "rec_wf c r \<Longrightarrow> 0 \<le> window_recv r"
  unfolding window_recv_def by (intro sum_list_nonneg) (auto simp: rec_wf_def)

lemma window_ratio_bounds:
  assumes "rec_wf c r" "window_sent r \<noteq> 0"
  shows "0 \<le> window_ratio r" "window_ratio r \<le> 1"
proof -
  have "0 \<le> window_sent r"
    unfolding window_sent_def using assms(1) by (intro sum_list_nonneg) (auto simp: rec_wf_def)
  then have "0 \<le> min (window_recv r) (window_sent r)"
    using window_recv_nonneg [OF assms(1)] by simp
  then show "0 \<le> window_ratio r" "window_ratio r \<le> 1"
    using int_truediv_bounds [of "min (window_recv r) (window_sent r)" "window_sent r"]
    by (simp_all add: window_ratio_def)
qed

lemma rec_wf_demote:
  assumes "rec_wf c r"
  shows "rec_wf c (transition_record now ASSUMED_BAD (demote_backoff c now' b r))"
  using assms demote_backoff_level [of c r now' b] by (simp add: rec_wf_def)

lemma rec_wf_promote:
  assumes "rec_wf c r"
  shows "rec_wf c (transition_record now GOOD r)"
  using assms by (simp add: rec_wf_def)

lemma rstate_rotate [simp]: "rstate (rotate_bucket r) = rstate r"
  by (simp add: rotate_bucket_def)

lemma rstate_clear_healthy [simp]: "rstate (clear_healthy r) = rstate r"
  by (simp add: clear_healthy_def)

lemma try_demote_wf:
  assumes "ev_wf t" "valid_ev t tn p q" "rstate (rec_at t tn p q) \<noteq> ASSUMED_BAD"
  shows "ev_wf (try_demote_locked t tn p q b)"
proof (cases "int (usable_after (num_planes t) (num_paths t) (grid_at t tn) p q) < min_active t")
  case True
  have "rec_wf (cfg t) (rec_at t tn p q)" using assms by (simp add: ev_wf_rec)
  then show ?thesis
    using True assms
    by (auto simp: try_demote_locked_def intro!: upd_rec_wf) (auto simp: rec_wf_def)
next
  case False
  then show ?thesis
    using assms
    by (auto simp: try_demote_locked_def transition_locked_commit
        intro!: commit_wf rec_wf_demote ev_wf_rec)
qed

lemma transition_good_wf:
  assumes "ev_wf t" "valid_ev t tn p q"
  shows "ev_wf (transition_locked t tn p q GOOD)"
proof (cases "rstate (rec_at t tn p q) = GOOD")
  case True
  then show ?thesis using assms by (simp add: transition_locked_def)
next
  case False
  have "upd_rec t tn p q (\<lambda>r. r) = t"
    using assms by (intro upd_rec_id) simp_all
  then show ?thesis
    using assms transition_locked_commit [of t tn p q "\<lambda>r. r" GOOD] False
    by (auto intro!: commit_wf rec_wf_promote ev_wf_rec)
qed

lemma evaluate_wf:
  assumes wf: "ev_wf t" and v: "valid_ev t tn p q"
  shows "ev_wf (fst (evaluate_locked t tn p q))"
proof -
  let ?r = "rec_at t tn p q"
  have r: "rec_wf (cfg t) ?r" using assms by (rule ev_wf_rec)
  have sh: "ev_shape t" using wf by simp
  have step: "ev_wf (upd_rec t tn p q f)"
    if "rstate (f ?r) = rstate ?r" "rec_wf (cfg t) (f ?r)" for f
    using upd_rec_wf [OF wf v] that by simp
  have ratio: "rec_wf (cfg t) (?r\<lparr>last_probe_ratio := window_ratio ?r\<rparr>)" if "window_sent ?r \<noteq> 0"
    using r window_ratio_bounds [OF r that] by (simp add: rec_wf_def)
  have clear: "ev_wf (upd_rec t tn p q (\<lambda>r. clear_healthy (r\<lparr>last_probe_ratio := window_ratio ?r\<rparr>)))"
    if "window_sent ?r \<noteq> 0"
    using ratio [OF that] by (intro step) (simp_all add: rec_wf_def clear_healthy_def)
  have healthy: "ev_wf (upd_rec t tn p q (\<lambda>r. r\<lparr>last_probe_ratio := window_ratio ?r,
      consecutive_healthy_windows := consecutive_healthy_windows r + 1\<rparr>))"
    if "window_sent ?r \<noteq> 0"
    using ratio [OF that] by (intro step) (simp_all add: rec_wf_def)
  have zero: "ev_wf (upd_rec t tn p q (\<lambda>r. r\<lparr>last_probe_ratio := 0\<rparr>))"
    using r by (intro step) (simp_all add: rec_wf_def)
  show ?thesis
    unfolding evaluate_locked_def Let_def
    using zero clear healthy sh v
    by (auto simp: rec_at_upd_rec intro!: try_demote_wf transition_good_wf split: sum.splits)
qed

lemma try_demote_fields [simp]:
  assumes "ev_shape t" "valid_ev t tn p q" "rstate (rec_at t tn p q) \<noteq> ASSUMED_BAD"
  shows "ev_shape (try_demote_locked t tn p q b)"
    "valid_ev (try_demote_locked t tn p q b) = valid_ev t"
    "tenants (try_demote_locked t tn p q b) = tenants t"
    "num_planes (try_demote_locked t tn p q b) = num_planes t"
    "num_paths (try_demote_locked t tn p q b) = num_paths t"
    "cfg (try_demote_locked t tn p q b) = cfg t"
    "min_active (try_demote_locked t tn p q b) = min_active t"
    "ticks (try_demote_locked t tn p q b) = ticks t"
    "on_transition (try_demote_locked t tn p q b) = on_transition t"
  using assms by (simp_all add: try_demote_locked_def transition_locked_commit)

lemma transition_good_fields [simp]:
  assumes "ev_shape t" "valid_ev t tn p q"
  shows "ev_shape (transition_locked t tn p q GOOD)"
    "valid_ev (transition_locked t tn p q GOOD) = valid_ev t"
    "tenants (transition_locked t tn p q GOOD) = tenants t"
    "num_planes (transition_locked t tn p q GOOD) = num_planes t"
    "num_paths (transition_locked t tn p q GOOD) = num_paths t"
    "cfg (transition_locked t tn p q GOOD) = cfg t"
    "min_active (transition_locked t tn p q GOOD) = min_active t"
    "ticks (transition_locked t tn p q GOOD) = ticks t"
    "on_transition (transition_locked t tn p q GOOD) = on_transition t"
  using assms transition_locked_commit [of t tn p q "\<lambda>r. r" GOOD]
  by (cases "rstate (rec_at t tn p q) = GOOD";
      simp add: upd_rec_id; simp add: transition_locked_def)+

text \<open>What no method of the table changes.\<close>

definition same_config :: "ev_table \<Rightarrow> ev_table \<Rightarrow> bool" where
  "same_config t t' \<longleftrightarrow>
     tenants t' = tenants t \<and> num_planes t' = num_planes t \<and> num_paths t' = num_paths t
     \<and> cfg t' = cfg t \<and> min_active t' = min_active t \<and> on_transition t' = on_transition t"

lemma same_config_refl [simp]: "same_config t t"
  by (simp add: same_config_def)

lemma same_config_trans: "same_config t u \<Longrightarrow> same_config u v \<Longrightarrow> same_config t v"
  by (simp add: same_config_def)

lemma same_config_valid: "same_config t t' \<Longrightarrow> valid_ev t' = valid_ev t"
  by (simp add: same_config_def valid_ev_def fun_eq_iff)

lemma same_config_upd_rec [simp]: "same_config t (upd_rec t tn p q f)"
  by (simp add: same_config_def)

lemma evaluate_config:
  assumes "ev_shape t" "valid_ev t tn p q"
  shows "same_config t (fst (evaluate_locked t tn p q))"
    and "ticks (fst (evaluate_locked t tn p q)) = ticks t"
  using assms
  by (auto simp: evaluate_locked_def Let_def same_config_def rec_at_upd_rec split: sum.splits)

lemma tick_evs_wf:
  assumes "ev_wf t" "tn \<in> set (tenants t)" "set cs \<subseteq> set (cells (num_planes t) (num_paths t))"
  shows "ev_wf (fst (tick_evs t tn cs)) \<and> same_config t (fst (tick_evs t tn cs))"
  using assms
proof (induction t tn cs rule: tick_evs.induct)
  case (2 t tn p q cs)
  let ?u = "upd_rec t tn p q rotate_bucket"
  obtain t' e where ev: "evaluate_locked ?u tn p q = (t', e)"
    by (cases "evaluate_locked ?u tn p q")
  have v: "valid_ev t tn p q" using 2 by (auto simp: valid_ev_def)
  have u: "ev_wf ?u"
    using 2 v by (intro upd_rec_wf) (auto intro: rec_wf_rotate ev_wf_rec)
  have t': "ev_wf t'" "same_config t t'"
    using evaluate_wf [OF u, of tn p q] evaluate_config [of ?u tn p q] u v ev
    by (auto simp: same_config_def)
  show ?case
  proof (cases e)
    case None
    have sub: "tn \<in> set (tenants t')" "set cs \<subseteq> set (cells (num_planes t') (num_paths t'))"
      using 2 t'(2) by (auto simp: same_config_def)
    show ?thesis
      using "2.IH" [OF ev [symmetric] None t'(1) sub] t'(2) ev None
      by (auto intro: same_config_trans)
  qed (use ev t' in auto)
qed simp

lemma ticks_update_wf:
  assumes "ev_wf t" "tn \<in> set (tenants t)"
  shows "ev_wf (t\<lparr>ticks := (ticks t)(tn \<mapsto> v)\<rparr>)"
  using assms by (auto simp: ev_wf_def ev_shape_def)

lemma tick_wf:
  assumes "ev_wf t"
  shows "ev_wf (fst (tick t tn))" and "same_config t (fst (tick t tn))"
proof -
  let ?t = "t\<lparr>ticks := (ticks t)(tn \<mapsto> the (ticks t tn) + 1)\<rparr>"
  have "ev_wf (fst (tick t tn)) \<and> same_config t (fst (tick t tn))"
  proof (cases "tn \<in> set (tenants t)")
    case True
    then have "check_tenant t tn = Inr ()" using assms by simp
    then show ?thesis
      using tick_evs_wf [of ?t tn "cells (num_planes t) (num_paths t)"]
        ticks_update_wf [OF assms True] True
      by (simp add: tick_def same_config_def)
  next
    case False
    then have "check_tenant t tn = Inl ValueError"
      using assms by (auto simp: check_tenant_def ev_wf_def ev_shape_def dom_def)
    then show ?thesis using assms by (simp add: tick_def)
  qed
  then show "ev_wf (fst (tick t tn))" "same_config t (fst (tick t tn))" by auto
qed

lemma record_probe_sent_wf:
  assumes "ev_wf t" "record_probe_sent t tn plane path = Inr t'"
  shows "ev_wf t' \<and> same_config t t'"
proof -
  have v: "valid_ev t tn (nat plane) (nat path)"
    using assms by (auto simp: record_probe_sent_def py_simps intro!: valid_of_checks)
  then show ?thesis
    using assms ev_wf_rec [OF assms(1) v]
    by (auto simp: record_probe_sent_def py_simps intro!: upd_rec_wf) (auto simp: rec_wf_def)
qed

lemma record_probe_recv_wf:
  assumes "ev_wf t" "record_probe_recv t tn plane path = Inr t'"
  shows "ev_wf t' \<and> same_config t t'"
proof -
  have v: "valid_ev t tn (nat plane) (nat path)"
    using assms by (auto simp: record_probe_recv_def py_simps intro!: valid_of_checks)
  then show ?thesis
    using assms ev_wf_rec [OF assms(1) v]
    by (auto simp: record_probe_recv_def py_simps intro!: upd_rec_wf) (auto simp: rec_wf_def)
qed

lemma apply_loss_ratio_wf:
  assumes wf: "ev_wf t" and v: "valid_ev t tn p q" and x: "0 \<le> x" "x \<le> 1"
  shows "ev_wf (apply_loss_ratio t tn p q x) \<and> same_config t (apply_loss_ratio t tn p q x)"
proof -
  let ?r = "rec_at t tn p q"
  have r: "rec_wf (cfg t) ?r" using wf v by (rule ev_wf_rec)
  have a: "ev_wf (upd_rec t tn p q (\<lambda>r. r\<lparr>last_loss_ratio := x\<rparr>))"
    using wf v r x by (intro upd_rec_wf) (auto simp: rec_wf_def)
  have b: "ev_wf (upd_rec t tn p q (\<lambda>r. r\<lparr>last_loss_ratio := x,
      consecutive_loss_demote_windows := consecutive_loss_demote_windows r + 1\<rparr>))"
    using wf v r x by (intro upd_rec_wf) (auto simp: rec_wf_def)
  have c: "ev_wf (upd_rec t tn p q (\<lambda>r. r\<lparr>last_loss_ratio := x,
      consecutive_loss_demote_windows := 0\<rparr>))"
    using wf v r x by (intro upd_rec_wf) (auto simp: rec_wf_def)
  show ?thesis
    unfolding apply_loss_ratio_def Let_def same_config_def
    using a b c wf v by (auto simp: rec_at_upd_rec intro!: try_demote_wf)
qed

lemma record_loss_window_wf:
  assumes "ev_wf t" "record_loss_window t tn plane path seen expected = Inr t'"
  shows "ev_wf t' \<and> same_config t t'"
proof -
  have v: "valid_ev t tn (nat plane) (nat path)"
    using assms by (auto simp: record_loss_window_def py_simps intro!: valid_of_checks)
  show ?thesis
  proof (cases "expected = 0")
    case False
    let ?x = "int_truediv (expected - (if expected < seen then expected else seen)) expected"
    have nn: "0 \<le> seen" "0 \<le> expected"
      using assms by (auto simp: record_loss_window_def py_simps split: if_splits)
    then have "0 \<le> ?x" "?x \<le> 1"
      using int_truediv_bounds [of "expected - (if expected < seen then expected else seen)" expected]
      by auto
    moreover have "t' = apply_loss_ratio t tn (nat plane) (nat path) ?x"
      using assms(2) False by (auto simp: record_loss_window_def py_simps Let_def split: if_splits)
    ultimately show ?thesis using apply_loss_ratio_wf [OF assms(1) v] by blast
  qed (use assms in \<open>auto simp: record_loss_window_def py_simps split: if_splits\<close>)
qed

end
