(* ===== verification/EvMachine.thy ===== *)
theory EvMachine
  imports EvInvariant
begin

text \<open>
  The EV table as a machine: its construction establishes the invariant, one evaluation and one
  tick are described record by record (\<open>eval_record\<close>), the reachable tables are an inductive
  predicate over the methods, and they refine an abstract machine that only ever demotes an EV
  above the floor or promotes it to GOOD.
\<close>

subsection \<open>Construction\<close>

lemma foldl_rebuild:
  "foldl rebuild_weights t tns =
     t\<lparr>weights_cache := (\<lambda>tn. if tn \<in> set tns
        then Some (weights_of_grid (num_planes t) (num_paths t) (grid_at t tn))
        else weights_cache t tn)\<rparr>"
  by (induction tns arbitrary: t) (auto simp: rebuild_weights_def grid_at_def fun_eq_iff
      intro!: ev_table.equality)

lemma resolve_min_active_bounds:
  assumes "1 \<le> planes" "1 \<le> paths"
  shows "1 \<le> resolve_min_active c planes paths" "resolve_min_active c planes paths \<le> planes * paths"
proof -
  have "1 * 1 \<le> planes * paths" using assms by (intro mult_mono) auto
  then show "1 \<le> resolve_min_active c planes paths" "resolve_min_active c planes paths \<le> planes * paths"
    by (auto simp: resolve_min_active_def Let_def split: option.splits)
qed

lemma rec_wf_new [simp]: "rec_wf c (new_ev_record (nat (probe_window_ticks c)))"
  by (simp add: rec_wf_def new_ev_record_def window_sent_def window_recv_def)

lemma mk_ev_table_wf:
  assumes "mk_ev_table tns planes paths c cb = Inr t"
  shows "ev_wf t"
    and "tenants t = tns" "cfg t = c" "int (num_planes t) = planes" "int (num_paths t) = paths"
    and "on_transition t = cb" "transition_calls t = []"
    and "valid_ev t tn p q \<Longrightarrow> rec_at t tn p q = new_ev_record (nat (probe_window_ticks c))"
    and "min_active t = resolve_min_active c planes paths"
proof -
  let ?P = "nat planes" and ?Q = "nat paths"
  let ?new = "new_ev_record (nat (probe_window_ticks c))"
  let ?g = "grid_const ?P ?Q ?new"
  have b: "tns \<noteq> []" "1 \<le> planes" "1 \<le> paths"
    using assms by (auto simp: mk_ev_table_def split: if_splits)
  have t: "t = \<lparr>tenants = tns, num_planes = ?P, num_paths = ?Q, cfg = c,
      min_active = resolve_min_active c planes paths,
      evs = (\<lambda>tn. if tn \<in> set tns then Some ?g else None),
      weights_cache = (\<lambda>tn. if tn \<in> set tns then Some (weights_of_grid ?P ?Q ?g) else None),
      ticks = (\<lambda>tn. if tn \<in> set tns then Some 0 else None),
      on_transition = cb, transition_calls = []\<rparr>"
    using assms by (auto simp: mk_ev_table_def Let_def foldl_rebuild grid_at_def fun_eq_iff
        split: if_splits)
  show "tenants t = tns" "cfg t = c" "int (num_planes t) = planes" "int (num_paths t) = paths"
    "on_transition t = cb" "transition_calls t = []"
    "min_active t = resolve_min_active c planes paths"
    using b by (simp_all add: t)
  have rec: "rec_at t tn p q = ?new" if "valid_ev t tn p q" for tn p q
    using that by (simp add: t rec_at_def grid_at_def valid_ev_def)
  then show "valid_ev t tn p q \<Longrightarrow> rec_at t tn p q = ?new" .
  have "usable ?P ?Q ?g = length (cells ?P ?Q)"
    unfolding usable_def
    by (intro arg_cong [where f = length] filter_True) (auto simp: new_ev_record_def)
  then have "int (usable ?P ?Q ?g) = planes * paths" using b by simp
  then have fl: "resolve_min_active c planes paths \<le> int (usable ?P ?Q ?g)"
    using resolve_min_active_bounds [OF b(2,3), of c] by simp
  have sh: "ev_shape t"
    using b by (auto simp: t ev_shape_def grid_at_def dom_def)
  show "ev_wf t"
    unfolding ev_wf_def using sh b fl rec resolve_min_active_bounds(1) [OF b(2,3), of c]
    by (auto simp: dom_def grid_at_def valid_ev_def t)
qed

subsection \<open>One evaluation, seen from its record\<close>

datatype probe_verdict = No_Traffic | Thin_Sample | Failing | Healthy | Between

definition probe_verdict :: "ev_state_config \<Rightarrow> ev_record \<Rightarrow> probe_verdict" where
  "probe_verdict c r =
     (if window_sent r = 0 then No_Traffic
      else if window_sent r < probe_min_samples c then Thin_Sample
      else if window_ratio r < probe_fail_ratio c then Failing
      else if probe_recover_ratio c \<le> window_ratio r then Healthy
      else Between)"

definition recovers :: "ev_state_config \<Rightarrow> ev_record \<Rightarrow> bool" where
  "recovers c r \<longleftrightarrow>
     rstate r \<noteq> GOOD \<and> consecutive_loss_demote_windows r = 0
     \<and> (case recovery_hold c r of Inl e \<Rightarrow> False
        | Inr hold \<Rightarrow> hold \<le> consecutive_healthy_windows r)"

definition seen_ratio :: "ev_record \<Rightarrow> ev_record" where
  "seen_ratio r = r\<lparr>last_probe_ratio := window_ratio r\<rparr>"

definition one_more_healthy :: "ev_record \<Rightarrow> ev_record" where
  "one_more_healthy r =
     (let s = seen_ratio r in
      s\<lparr>consecutive_healthy_windows := consecutive_healthy_windows s + 1\<rparr>)"

lemma seen_ratio_fields [simp]:
  "rstate (seen_ratio r) = rstate r" "rstate (one_more_healthy r) = rstate r"
  by (simp_all add: seen_ratio_def one_more_healthy_def Let_def)

text \<open>
  \<open>blocked\<close> says that the floor on usable EVs forbids a demotion at this moment; it is the only
  thing an evaluation reads of the other EVs.
\<close>

definition eval_record :: "ev_state_config \<Rightarrow> int \<Rightarrow> bool \<Rightarrow> ev_record \<Rightarrow> ev_record" where
  "eval_record c now blocked r =
     (case probe_verdict c r of
        No_Traffic \<Rightarrow> r\<lparr>last_probe_ratio := 0\<rparr>
      | Thin_Sample \<Rightarrow> clear_healthy (seen_ratio r)
      | Between \<Rightarrow> clear_healthy (seen_ratio r)
      | Failing \<Rightarrow>
          (let r1 = clear_healthy (seen_ratio r) in
           if rstate r = ASSUMED_BAD then r1
           else if blocked
           then r1\<lparr>demotes_suppressed_by_floor := demotes_suppressed_by_floor r1 + 1\<rparr>
           else transition_record now ASSUMED_BAD (demote_backoff c now False r1))
      | Healthy \<Rightarrow>
          (if recovers c (one_more_healthy r)
           then transition_record now GOOD (one_more_healthy r) else one_more_healthy r))"

definition floor_blocks :: "ev_table \<Rightarrow> string \<Rightarrow> nat \<Rightarrow> nat \<Rightarrow> bool" where
  "floor_blocks t tn p q \<longleftrightarrow>
     int (usable_after (num_planes t) (num_paths t) (grid_at t tn) p q) < min_active t"

lemma try_demote_local:
  assumes "ev_shape t" "valid_ev t tn p q" "rstate (rec_at t tn p q) \<noteq> ASSUMED_BAD"
  shows "rec_at (try_demote_locked t tn p q b) tn' a d =
    (if tn' = tn \<and> a = p \<and> d = q
     then (let r = rec_at t tn p q; now = the (ticks t tn) in
           if floor_blocks t tn p q
           then r\<lparr>demotes_suppressed_by_floor := demotes_suppressed_by_floor r + 1\<rparr>
           else transition_record now ASSUMED_BAD (demote_backoff (cfg t) now b r))
     else rec_at t tn' a d)"
  using assms
  by (auto simp: try_demote_locked_def floor_blocks_def transition_locked_commit rec_at_upd_rec
      rec_at_commit Let_def)

lemma transition_good_local:
  assumes "ev_shape t" "valid_ev t tn p q"
  shows "rec_at (transition_locked t tn p q GOOD) tn' a d =
    (if tn' = tn \<and> a = p \<and> d = q \<and> rstate (rec_at t tn p q) \<noteq> GOOD
     then transition_record (the (ticks t tn)) GOOD (rec_at t tn p q) else rec_at t tn' a d)"
  using assms transition_locked_commit [of t tn p q "\<lambda>r. r" GOOD]
  by (cases "rstate (rec_at t tn p q) = GOOD")
     (auto simp: upd_rec_id rec_at_commit, simp add: transition_locked_def)

lemma floor_blocks_upd_rec [simp]:
  assumes "ev_shape t" "valid_ev t tn p q"
  shows "floor_blocks (upd_rec t tn p q f) tn p q = floor_blocks t tn p q"
  using assms by (simp add: floor_blocks_def upd_rec_def ev_shape_def valid_ev_def)

lemma evaluate_by_verdict:
  assumes "ev_shape t" "valid_ev t tn p q"
  shows "evaluate_locked t tn p q =
    (let r = rec_at t tn p q; c = cfg t in
     case probe_verdict c r of
       No_Traffic \<Rightarrow> (upd_rec t tn p q (\<lambda>r. r\<lparr>last_probe_ratio := 0\<rparr>), None)
     | Thin_Sample \<Rightarrow> (put_rec t tn p q (clear_healthy (seen_ratio r)), None)
     | Between \<Rightarrow> (put_rec t tn p q (clear_healthy (seen_ratio r)), None)
     | Failing \<Rightarrow>
         (let t2 = put_rec t tn p q (clear_healthy (seen_ratio r))
          in (if rstate r \<noteq> ASSUMED_BAD then try_demote_locked t2 tn p q False else t2, None))
     | Healthy \<Rightarrow>
         (let t2 = put_rec t tn p q (one_more_healthy r)
          in case recovery_hold c (one_more_healthy r) of
               Inl e \<Rightarrow> (t2, Some e)
             | Inr hold \<Rightarrow>
                 (if recovers c (one_more_healthy r) then transition_locked t2 tn p q GOOD else t2,
                  None)))"
proof -
  show ?thesis
    using assms
    by (cases "recovery_hold (cfg t) (one_more_healthy (rec_at t tn p q))")
       (simp_all add: evaluate_locked_def probe_verdict_def Let_def upd_rec_def rec_at_put_rec seen_ratio_def
         one_more_healthy_def recovers_def)
qed

lemma floor_blocks_put_rec [simp]:
  assumes "ev_shape t" "valid_ev t tn p q"
  shows "floor_blocks (put_rec t tn p q r) tn p q = floor_blocks t tn p q"
  using assms by (simp add: floor_blocks_def ev_shape_def valid_ev_def)

lemma recovers_not_good: "recovers c r \<Longrightarrow> rstate r \<noteq> GOOD"
  by (simp add: recovers_def)

lemma recovers_hold: "recovery_hold c r = Inl e \<Longrightarrow> \<not> recovers c r"
  by (simp add: recovers_def)

lemma evaluate_local:
  assumes "ev_shape t" "valid_ev t tn p q"
  shows "rec_at (fst (evaluate_locked t tn p q)) tn' a d =
    (if tn' = tn \<and> a = p \<and> d = q
     then eval_record (cfg t) (the (ticks t tn)) (floor_blocks t tn p q) (rec_at t tn p q)
     else rec_at t tn' a d)"
proof (cases "probe_verdict (cfg t) (rec_at t tn p q)")
  case Failing
  then show ?thesis
    using assms by (simp add: evaluate_by_verdict eval_record_def Let_def rec_at_put_rec
        try_demote_local)
next
  case Healthy
  let ?r = "one_more_healthy (rec_at t tn p q)"
  show ?thesis
  proof (cases "recovers (cfg t) ?r")
    case True
    then obtain hold where "recovery_hold (cfg t) ?r = Inr hold" "rstate (rec_at t tn p q) \<noteq> GOOD"
      using recovers_hold [of "cfg t" ?r] recovers_not_good [OF True]
      by (cases "recovery_hold (cfg t) ?r") auto
    then show ?thesis
      using assms Healthy True
      by (simp add: evaluate_by_verdict eval_record_def Let_def rec_at_put_rec transition_good_local)
  next
    case False
    then show ?thesis
      using assms Healthy
      by (cases "recovery_hold (cfg t) ?r")
         (simp_all add: evaluate_by_verdict eval_record_def Let_def rec_at_put_rec)
  qed
qed (use assms in \<open>simp_all add: evaluate_by_verdict eval_record_def Let_def rec_at_put_rec
    rec_at_upd_rec\<close>)

subsection \<open>One tick, seen from one record\<close>

lemma evaluate_no_error:
  assumes "ev_wf t" "valid_ev t tn p q" "0 \<le> loss_backoff_max_level (cfg t)"
  shows "snd (evaluate_locked t tn p q) = None"
proof -
  have "0 \<le> loss_backoff_level (rec_at t tn p q)"
    using ev_wf_rec [OF assms(1,2)] assms(3) by (simp add: rec_wf_def)
  then have "\<exists>hold. recovery_hold (cfg t) (one_more_healthy (rec_at t tn p q)) = Inr hold"
    by (simp add: recovery_hold_def py_shl_def one_more_healthy_def seen_ratio_def Let_def)
  then show ?thesis
    using assms by (auto simp: evaluate_by_verdict Let_def split: probe_verdict.splits)
qed

lemma tick_step_state:
  assumes "ev_wf t" "valid_ev t tn p q"
    and "evaluate_locked (upd_rec t tn p q rotate_bucket) tn p q = (t', e)"
  shows "ev_wf t'" "same_config t t'" "ticks t' = ticks t"
    and "rec_at t' tn' a d =
      (if tn' = tn \<and> a = p \<and> d = q
       then eval_record (cfg t) (the (ticks t tn)) (floor_blocks t tn p q)
              (rotate_bucket (rec_at t tn p q))
       else rec_at t tn' a d)"
proof -
  let ?u = "upd_rec t tn p q rotate_bucket"
  have u: "ev_wf ?u" using assms by (intro upd_rec_wf) (auto intro: rec_wf_rotate ev_wf_rec)
  have v: "valid_ev ?u tn p q" using assms by simp
  show "ev_wf t'" "same_config t t'" "ticks t' = ticks t"
    using evaluate_wf [OF u v] evaluate_config [of ?u tn p q] u v assms(3)
    by (auto simp: same_config_def)
  show "rec_at t' tn' a d =
      (if tn' = tn \<and> a = p \<and> d = q
       then eval_record (cfg t) (the (ticks t tn)) (floor_blocks t tn p q)
              (rotate_bucket (rec_at t tn p q))
       else rec_at t tn' a d)"
    using evaluate_local [of ?u tn p q tn' a d] u v assms by (simp add: rec_at_upd_rec)
qed

text \<open>
  What the cells of a tick become: a cell the loop has not reached is untouched, a cell it has
  visited was evaluated exactly once. \<open>blocked\<close> depends on the cells visited before it.
\<close>

lemma tick_evs_local:
  assumes "ev_wf t" "tn \<in> set (tenants t)" "set cs \<subseteq> set (cells (num_planes t) (num_paths t))"
    and "distinct cs" "snd (tick_evs t tn cs) = None"
  shows "\<exists>blocked. \<forall>tn' p q. rec_at (fst (tick_evs t tn cs)) tn' p q =
    (if tn' = tn \<and> (p, q) \<in> set cs
     then eval_record (cfg t) (the (ticks t tn)) (blocked p q) (rotate_bucket (rec_at t tn p q))
     else rec_at t tn' p q)"
  using assms
proof (induction t tn cs rule: tick_evs.induct)
  case (2 t tn p q cs)
  obtain t' e where ev: "evaluate_locked (upd_rec t tn p q rotate_bucket) tn p q = (t', e)"
    by (cases "evaluate_locked (upd_rec t tn p q rotate_bucket) tn p q")
  have e: "e = None" using 2 ev by (auto split: option.splits)
  have v: "valid_ev t tn p q" using 2 by (auto simp: valid_ev_def)
  note st = tick_step_state [OF "2.prems"(1) v ev]
  have sub: "tn \<in> set (tenants t')" "set cs \<subseteq> set (cells (num_planes t') (num_paths t'))"
    "distinct cs" "snd (tick_evs t' tn cs) = None"
    using 2 st(2) ev e by (auto simp: same_config_def)
  obtain B where B: "\<forall>tn' a d. rec_at (fst (tick_evs t' tn cs)) tn' a d =
    (if tn' = tn \<and> (a, d) \<in> set cs
     then eval_record (cfg t') (the (ticks t' tn)) (B a d) (rotate_bucket (rec_at t' tn a d))
     else rec_at t' tn' a d)"
    using "2.IH" [OF ev [symmetric] e st(1) sub] by blast
  have notin: "(p, q) \<notin> set cs" using "2.prems" by simp
  have cfg: "cfg t' = cfg t" using st(2) by (simp add: same_config_def)
  let ?B = "\<lambda>a d. if a = p \<and> d = q then floor_blocks t tn p q else B a d"
  have "\<forall>tn' a d. rec_at (fst (tick_evs t tn ((p, q) # cs))) tn' a d =
    (if tn' = tn \<and> (a, d) \<in> set ((p, q) # cs)
     then eval_record (cfg t) (the (ticks t tn)) (?B a d) (rotate_bucket (rec_at t tn a d))
     else rec_at t tn' a d)"
    using ev e notin by (auto simp: B st(3,4) cfg)
  then show ?case by (intro exI [of _ ?B]) simp
qed simp

lemma tick_known:
  assumes "ev_shape t" "tn \<in> set (tenants t)"
  shows "tick t tn = tick_evs (t\<lparr>ticks := (ticks t)(tn \<mapsto> the (ticks t tn) + 1)\<rparr>) tn
    (cells (num_planes t) (num_paths t))"
proof -
  have "tn \<in> dom (evs t)" using assms by (simp add: ev_shape_def)
  then have "check_tenant t tn = Inr ()" by (auto simp: check_tenant_def raise_if_def)
  then show ?thesis by (simp only: tick_def sum.case)
qed

lemma tick_local:
  assumes "ev_wf t" "tn \<in> set (tenants t)" "snd (tick t tn) = None"
  shows "\<exists>blocked. \<forall>tn' p q. rec_at (fst (tick t tn)) tn' p q =
    (if tn' = tn \<and> p < num_planes t \<and> q < num_paths t
     then eval_record (cfg t) (the (ticks t tn) + 1) (blocked p q)
            (rotate_bucket (rec_at t tn p q))
     else rec_at t tn' p q)"
proof -
  let ?t = "t\<lparr>ticks := (ticks t)(tn \<mapsto> the (ticks t tn) + 1)\<rparr>"
  have k: "tick t tn = tick_evs ?t tn (cells (num_planes t) (num_paths t))"
    using assms by (intro tick_known) simp_all
  obtain B where "\<forall>tn' p q. rec_at (fst (tick t tn)) tn' p q =
    (if tn' = tn \<and> (p, q) \<in> set (cells (num_planes t) (num_paths t))
     then eval_record (cfg ?t) (the (ticks ?t tn)) (B p q) (rotate_bucket (rec_at ?t tn p q))
     else rec_at ?t tn' p q)"
    using tick_evs_local [of ?t tn "cells (num_planes t) (num_paths t)"]
      ticks_update_wf [OF assms(1,2)] assms unfolding k by auto
  then show ?thesis by (intro exI [of _ B]) simp
qed

lemma tick_evs_ticks:
  assumes "ev_wf t" "tn \<in> set (tenants t)" "set cs \<subseteq> set (cells (num_planes t) (num_paths t))"
  shows "ticks (fst (tick_evs t tn cs)) = ticks t"
    and "0 \<le> loss_backoff_max_level (cfg t) \<Longrightarrow> snd (tick_evs t tn cs) = None"
proof -
  have "ticks (fst (tick_evs t tn cs)) = ticks t
    \<and> (0 \<le> loss_backoff_max_level (cfg t) \<longrightarrow> snd (tick_evs t tn cs) = None)"
    using assms
  proof (induction t tn cs rule: tick_evs.induct)
    case (2 t tn p q cs)
    obtain t' e where ev: "evaluate_locked (upd_rec t tn p q rotate_bucket) tn p q = (t', e)"
      by (cases "evaluate_locked (upd_rec t tn p q rotate_bucket) tn p q")
    have v: "valid_ev t tn p q" using 2 by (auto simp: valid_ev_def)
    note st = tick_step_state [OF "2.prems"(1) v ev]
    have u: "ev_wf (upd_rec t tn p q rotate_bucket)"
      using 2 v by (intro upd_rec_wf) (auto intro: rec_wf_rotate ev_wf_rec)
    have none: "e = None" if "0 \<le> loss_backoff_max_level (cfg t)"
      using evaluate_no_error [OF u, of tn p q] v ev that by simp
    show ?case
    proof (cases e)
      case None
      have sub: "tn \<in> set (tenants t')" "set cs \<subseteq> set (cells (num_planes t') (num_paths t'))"
        using 2 st(2) by (auto simp: same_config_def)
      show ?thesis
        using "2.IH" [OF ev [symmetric] None st(1) sub] st(2,3) ev None
        by (simp add: same_config_def)
    qed (use ev st none in auto)
  qed simp
  then show "ticks (fst (tick_evs t tn cs)) = ticks t"
    "0 \<le> loss_backoff_max_level (cfg t) \<Longrightarrow> snd (tick_evs t tn cs) = None" by auto
qed

lemma tick_total:
  assumes "ev_wf t" "tn \<in> set (tenants t)"
  shows "ticks (fst (tick t tn)) = (ticks t)(tn \<mapsto> the (ticks t tn) + 1)"
    and "0 \<le> loss_backoff_max_level (cfg t) \<Longrightarrow> snd (tick t tn) = None"
proof -
  let ?t = "t\<lparr>ticks := (ticks t)(tn \<mapsto> the (ticks t tn) + 1)\<rparr>"
  have k: "tick t tn = tick_evs ?t tn (cells (num_planes t) (num_paths t))"
    using assms by (intro tick_known) simp_all
  show "ticks (fst (tick t tn)) = (ticks t)(tn \<mapsto> the (ticks t tn) + 1)"
    "0 \<le> loss_backoff_max_level (cfg t) \<Longrightarrow> snd (tick t tn) = None"
    using tick_evs_ticks [of ?t tn "cells (num_planes t) (num_paths t)"]
      ticks_update_wf [OF assms] assms unfolding k by simp_all
qed

end
