(* ===== verification/EvRefine.thy ===== *)
theory EvRefine
  imports EvMachine
begin

text \<open>
  The contract of the EV table towards its observers, as an abstract machine: the state of every
  EV, one labelled step per transition. A step demotes one usable EV while at least \<open>floor\<close> other
  EVs of its tenant stay usable, or promotes one EV to GOOD; there is no other step. Every method
  of the table is a run of this machine, and the calls made to \<open>on_transition\<close> are its labels.
\<close>

type_synonym ev_views = "string \<Rightarrow> nat \<times> nat \<Rightarrow> ev_state"

definition usable_others :: "nat \<Rightarrow> nat \<Rightarrow> ev_views \<Rightarrow> string \<Rightarrow> nat \<times> nat \<Rightarrow> nat" where
  "usable_others P Q V tn c =
     card {d. fst d < P \<and> snd d < Q \<and> d \<noteq> c \<and> V tn d \<noteq> ASSUMED_BAD}"

inductive health_step ::
  "string set \<Rightarrow> nat \<Rightarrow> nat \<Rightarrow> int \<Rightarrow> ev_views \<Rightarrow> transition_call \<Rightarrow> ev_views \<Rightarrow> bool"
  for T :: "string set" and P Q :: nat and flr :: int where
  demote: "tn \<in> T \<Longrightarrow> p < P \<Longrightarrow> q < Q \<Longrightarrow> V tn (p, q) = old \<Longrightarrow> old \<noteq> ASSUMED_BAD \<Longrightarrow>
     flr \<le> int (usable_others P Q V tn (p, q)) \<Longrightarrow>
     health_step T P Q flr V (tn, p, q, old, ASSUMED_BAD)
       (V(tn := (V tn)((p, q) := ASSUMED_BAD)))"
| promote: "tn \<in> T \<Longrightarrow> p < P \<Longrightarrow> q < Q \<Longrightarrow> V tn (p, q) = old \<Longrightarrow> old \<noteq> GOOD \<Longrightarrow>
     health_step T P Q flr V (tn, p, q, old, GOOD) (V(tn := (V tn)((p, q) := GOOD)))"

inductive_cases health_stepE: "health_step T P Q flr V (tn, p, q, old, new) V'"
inductive_simps health_step_simps: "health_step T P Q flr V (tn, p, q, old, new) V'"

inductive health_run ::
  "string set \<Rightarrow> nat \<Rightarrow> nat \<Rightarrow> int \<Rightarrow> ev_views \<Rightarrow> transition_call list \<Rightarrow> ev_views \<Rightarrow> bool"
  for T :: "string set" and P Q :: nat and flr :: int where
  idle: "health_run T P Q flr V [] V"
| move: "health_step T P Q flr V l U \<Longrightarrow> health_run T P Q flr U ls W \<Longrightarrow>
     health_run T P Q flr V (l # ls) W"

lemma health_run_append:
  "health_run T P Q flr V ls U \<Longrightarrow> health_run T P Q flr U ms W \<Longrightarrow>
   health_run T P Q flr V (ls @ ms) W"
  by (induction rule: health_run.induct) (auto intro: health_run.intros)

lemma health_run_single:
  "health_step T P Q flr V l U \<Longrightarrow> health_run T P Q flr V [l] U"
  by (auto intro: health_run.intros)

text \<open>Consequences for any observer: labels chain, and no EV ever returns to UNKNOWN.\<close>

lemma health_step_label:
  "health_step T P Q flr V (tn, p, q, old, new) W \<Longrightarrow>
   V tn (p, q) = old \<and> old \<noteq> new \<and> new \<noteq> UNKNOWN \<and> W = V(tn := (V tn)((p, q) := new))"
  by (erule health_stepE) auto

lemma health_run_known:
  assumes "health_run T P Q flr V ls W"
  shows "V tn c \<noteq> UNKNOWN \<Longrightarrow> W tn c \<noteq> UNKNOWN"
    and "\<forall>(tn, p, q, old, new) \<in> set ls. old \<noteq> new \<and> new \<noteq> UNKNOWN"
proof -
  have "(V tn c \<noteq> UNKNOWN \<longrightarrow> W tn c \<noteq> UNKNOWN)
    \<and> (\<forall>(tn, p, q, old, new) \<in> set ls. old \<noteq> new \<and> new \<noteq> UNKNOWN)"
    using assms
  proof (induction rule: health_run.induct)
    case (move V l U ls W)
    obtain a b d old new where l: "l = (a, b, d, old, new)" by (cases l)
    show ?case
      using health_step_label [OF move.hyps(1) [unfolded l]] move.IH l by (auto split: if_splits)
  qed simp
  then show "V tn c \<noteq> UNKNOWN \<Longrightarrow> W tn c \<noteq> UNKNOWN"
    "\<forall>(tn, p, q, old, new) \<in> set ls. old \<noteq> new \<and> new \<noteq> UNKNOWN" by auto
qed

text \<open>The run is determined by its labels: replaying them gives the final states.\<close>

fun replay :: "transition_call list \<Rightarrow> ev_views \<Rightarrow> ev_views" where
  "replay [] V = V"
| "replay ((tn, p, q, old, new) # ls) V = replay ls (V(tn := (V tn)((p, q) := new)))"

lemma health_run_replay: "health_run T P Q flr V ls W \<Longrightarrow> replay ls V = W"
proof (induction rule: health_run.induct)
  case (move V l U ls W)
  obtain a b d old new where l: "l = (a, b, d, old, new)" by (cases l)
  have "U = V(a := (V a)((b, d) := new))"
    using health_step_label [OF move.hyps(1) [unfolded l]] by blast
  then show ?case using move.IH l by (simp only: replay.simps)
qed simp

subsection \<open>The table's views\<close>

definition views :: "ev_table \<Rightarrow> ev_views" where
  "views t = (\<lambda>tn (p, q). if valid_ev t tn p q then rstate (rec_at t tn p q) else UNKNOWN)"

definition observes :: "ev_table \<Rightarrow> ev_table \<Rightarrow> bool" where
  "observes t t' \<longleftrightarrow> (\<exists>ls.
     health_run (set (tenants t)) (num_planes t) (num_paths t) (min_active t) (views t) ls (views t')
     \<and> transition_calls t' = transition_calls t @ (if on_transition t then ls else []))"

lemma observes_refl [simp]: "observes t t"
  by (auto simp: observes_def intro: health_run.idle exI [of _ "[]"])

lemma observes_trans:
  assumes "observes t u" "same_config t u" "observes u v"
  shows "observes t v"
proof -
  obtain ls where ls: "health_run (set (tenants t)) (num_planes t) (num_paths t) (min_active t)
      (views t) ls (views u)"
    "transition_calls u = transition_calls t @ (if on_transition t then ls else [])"
    using assms(1) by (auto simp: observes_def)
  obtain ms where ms: "health_run (set (tenants t)) (num_planes t) (num_paths t) (min_active t)
      (views u) ms (views v)"
    "transition_calls v = transition_calls u @ (if on_transition t then ms else [])"
    using assms(2,3) by (auto simp: observes_def same_config_def)
  show ?thesis
    unfolding observes_def
    using health_run_append [OF ls(1) ms(1)] ls(2) ms(2) by (intro exI [of _ "ls @ ms"]) auto
qed

lemma observes_same_views:
  "views t' = views t \<Longrightarrow> transition_calls t' = transition_calls t \<Longrightarrow> observes t t'"
  by (auto simp: observes_def intro: health_run.idle exI [of _ "[]"])

lemma views_put_rec:
  assumes "ev_shape t" "valid_ev t tn p q" "rstate r = rstate (rec_at t tn p q)"
  shows "views (put_rec t tn p q r) = views t"
  using assms by (auto simp: views_def fun_eq_iff rec_at_put_rec)

lemma views_upd_rec:
  assumes "ev_shape t" "valid_ev t tn p q"
    and "rstate (f (rec_at t tn p q)) = rstate (rec_at t tn p q)"
  shows "views (upd_rec t tn p q f) = views t"
  using assms by (simp add: upd_rec_def views_put_rec)

lemma views_commit:
  assumes "ev_shape t" "valid_ev t tn p q"
  shows "views (commit_record t tn p q r) = (views t)(tn := (views t tn)((p, q) := rstate r))"
  using assms by (auto simp: views_def fun_eq_iff rec_at_commit)

lemma calls_commit:
  "transition_calls (commit_record t tn p q r) = transition_calls t @
     (if on_transition t then [(tn, p, q, rstate (rec_at t tn p q), rstate r)] else [])"
  by (simp add: commit_record_def Let_def)

lemma usable_after_others:
  assumes "tn \<in> set (tenants t)"
  shows "usable_after (num_planes t) (num_paths t) (grid_at t tn) p q =
    usable_others (num_planes t) (num_paths t) (views t) tn (p, q)"
proof -
  let ?P = "num_planes t" and ?Q = "num_paths t"
  let ?f = "\<lambda>(a, b). (a, b) \<noteq> (p, q) \<and> rstate (gget (grid_at t tn) a b) \<noteq> ASSUMED_BAD"
  have "usable_after ?P ?Q (grid_at t tn) p q = card (set (filter ?f (cells ?P ?Q)))"
    unfolding usable_after_def by (intro distinct_card [symmetric] distinct_filter) simp
  also have "set (filter ?f (cells ?P ?Q)) =
      {d. fst d < ?P \<and> snd d < ?Q \<and> d \<noteq> (p, q) \<and> views t tn d \<noteq> ASSUMED_BAD}"
    using assms by (auto simp: views_def valid_ev_def rec_at_def)
  finally show ?thesis by (simp add: usable_others_def)
qed

lemma observes_commit_demote:
  assumes "ev_shape t" "valid_ev t tn p q" "rstate (rec_at t tn p q) \<noteq> ASSUMED_BAD"
    and "rstate r = ASSUMED_BAD" "\<not> floor_blocks t tn p q"
  shows "observes t (commit_record t tn p q r)"
proof -
  have v: "tn \<in> set (tenants t)" "p < num_planes t" "q < num_paths t" "views t tn (p, q) = rstate (rec_at t tn p q)"
    using assms by (auto simp: valid_ev_def views_def)
  have "health_step (set (tenants t)) (num_planes t) (num_paths t) (min_active t) (views t)
      (tn, p, q, rstate (rec_at t tn p q), ASSUMED_BAD) (views (commit_record t tn p q r))"
    unfolding views_commit [OF assms(1,2)] assms(4)
    using v assms by (intro health_step.demote) (auto simp: floor_blocks_def usable_after_others)
  from health_run_single [OF this] show ?thesis
    unfolding observes_def using assms(4) by (intro exI conjI) (auto simp: calls_commit)
qed

lemma observes_commit_promote:
  assumes "ev_shape t" "valid_ev t tn p q" "rstate (rec_at t tn p q) \<noteq> GOOD" "rstate r = GOOD"
  shows "observes t (commit_record t tn p q r)"
proof -
  have v: "tn \<in> set (tenants t)" "p < num_planes t" "q < num_paths t" "views t tn (p, q) = rstate (rec_at t tn p q)"
    using assms by (auto simp: valid_ev_def views_def)
  have "health_step (set (tenants t)) (num_planes t) (num_paths t) (min_active t) (views t)
      (tn, p, q, rstate (rec_at t tn p q), GOOD) (views (commit_record t tn p q r))"
    unfolding views_commit [OF assms(1,2)] assms(4)
    using v assms by (intro health_step.promote) auto
  from health_run_single [OF this] show ?thesis
    unfolding observes_def using assms(4) by (intro exI conjI) (auto simp: calls_commit)
qed

subsection \<open>Every method is a run of the abstract machine\<close>

lemma observes_try_demote:
  assumes "ev_shape t" "valid_ev t tn p q" "rstate (rec_at t tn p q) \<noteq> ASSUMED_BAD"
  shows "observes t (try_demote_locked t tn p q b)"
proof (cases "floor_blocks t tn p q")
  case True
  then show ?thesis
    using assms by (auto simp: try_demote_locked_def floor_blocks_def
        intro!: observes_same_views views_upd_rec)
next
  case False
  then have "try_demote_locked t tn p q b = commit_record t tn p q
      (transition_record (the (ticks t tn)) ASSUMED_BAD
        (demote_backoff (cfg t) (the (ticks t tn)) b (rec_at t tn p q)))"
    using assms by (simp add: try_demote_locked_def floor_blocks_def transition_locked_commit)
  with False show ?thesis using assms by (simp add: observes_commit_demote)
qed

lemma observes_transition_good:
  assumes "ev_shape t" "valid_ev t tn p q"
  shows "observes t (transition_locked t tn p q GOOD)"
proof (cases "rstate (rec_at t tn p q) = GOOD")
  case True
  then show ?thesis by (simp add: transition_locked_def)
next
  case False
  then show ?thesis
    using assms transition_locked_commit [of t tn p q "\<lambda>r. r" GOOD]
    by (simp add: upd_rec_id observes_commit_promote)
qed

lemma observes_via:
  assumes "ev_shape t" "valid_ev t tn p q" "rstate r = rstate (rec_at t tn p q)"
    and "observes (put_rec t tn p q r) u"
  shows "observes t u"
proof (rule observes_trans [OF _ _ assms(4)])
  show "observes t (put_rec t tn p q r)" using assms by (auto intro!: observes_same_views views_put_rec)
  show "same_config t (put_rec t tn p q r)" by (simp add: same_config_def)
qed

lemma observes_evaluate:
  assumes "ev_shape t" "valid_ev t tn p q"
  shows "observes t (fst (evaluate_locked t tn p q))"
proof -
  have put: "observes t (put_rec t tn p q r)" if "rstate r = rstate (rec_at t tn p q)" for r
    using observes_via [OF assms that] by simp
  show ?thesis
  proof (cases "probe_verdict (cfg t) (rec_at t tn p q)")
    case No_Traffic
    then show ?thesis using assms put by (simp add: evaluate_by_verdict upd_rec_def)
  next
    case Failing
    let ?r = "clear_healthy (seen_ratio (rec_at t tn p q))"
    have "observes t (try_demote_locked (put_rec t tn p q ?r) tn p q False)"
      if "rstate (rec_at t tn p q) \<noteq> ASSUMED_BAD"
      using that assms
      by (intro observes_via [OF assms, of ?r] observes_try_demote) (auto simp: rec_at_put_rec)
    then show ?thesis using Failing assms put by (simp add: evaluate_by_verdict Let_def)
  next
    case Healthy
    then show ?thesis
      using assms put
      by (auto simp: evaluate_by_verdict Let_def rec_at_put_rec split: sum.splits
          intro!: observes_via [OF assms _ observes_transition_good])
  qed (use assms put in \<open>simp_all add: evaluate_by_verdict\<close>)
qed

lemma observes_tick_evs:
  assumes "ev_wf t" "tn \<in> set (tenants t)" "set cs \<subseteq> set (cells (num_planes t) (num_paths t))"
  shows "observes t (fst (tick_evs t tn cs))"
  using assms
proof (induction t tn cs rule: tick_evs.induct)
  case (2 t tn p q cs)
  obtain t' e where ev: "evaluate_locked (upd_rec t tn p q rotate_bucket) tn p q = (t', e)"
    by (cases "evaluate_locked (upd_rec t tn p q rotate_bucket) tn p q")
  have v: "valid_ev t tn p q" and sh: "ev_shape t" using 2 by (auto simp: valid_ev_def)
  note st = tick_step_state [OF "2.prems"(1) v ev]
  have "observes (upd_rec t tn p q rotate_bucket) t'"
    using observes_evaluate [of "upd_rec t tn p q rotate_bucket" tn p q] v sh ev by simp
  then have 1: "observes t t'"
    using observes_via [OF sh v, of "rotate_bucket (rec_at t tn p q)"] by (simp add: upd_rec_def)
  show ?case
  proof (cases e)
    case None
    have sub: "tn \<in> set (tenants t')" "set cs \<subseteq> set (cells (num_planes t') (num_paths t'))"
      using 2 st(2) by (auto simp: same_config_def)
    have "observes t' (fst (tick_evs t' tn cs))"
      by (rule "2.IH" [OF ev [symmetric] None st(1) sub])
    then show ?thesis using observes_trans [OF 1 st(2)] ev None by simp
  qed (use ev 1 in auto)
qed simp

lemma observes_tick:
  assumes "ev_wf t"
  shows "observes t (fst (tick t tn))"
proof (cases "tn \<in> set (tenants t)")
  case True
  let ?t = "t\<lparr>ticks := (ticks t)(tn \<mapsto> the (ticks t tn) + 1)\<rparr>"
  have k: "tick t tn = tick_evs ?t tn (cells (num_planes t) (num_paths t))"
    using assms True by (intro tick_known) simp_all
  have "observes ?t (fst (tick t tn))"
    unfolding k using ticks_update_wf [OF assms True] True by (intro observes_tick_evs) auto
  moreover have "observes t ?t" by (rule observes_same_views) (auto simp: views_def fun_eq_iff)
  moreover have "same_config t ?t" by (simp add: same_config_def)
  ultimately show ?thesis using observes_trans by blast
next
  case False
  then have "check_tenant t tn = Inl ValueError"
    using assms by (auto simp: check_tenant_def ev_wf_def ev_shape_def dom_def)
  then show ?thesis by (simp add: tick_def)
qed

lemma observes_apply_loss_ratio:
  assumes "ev_shape t" "valid_ev t tn p q"
  shows "observes t (apply_loss_ratio t tn p q x)"
proof -
  have put: "observes t (put_rec t tn p q r)" if "rstate r = rstate (rec_at t tn p q)" for r
    using observes_via [OF assms that] by simp
  show ?thesis
    using assms put
    by (auto simp: apply_loss_ratio_def Let_def upd_rec_def rec_at_put_rec
        intro!: observes_via [OF assms _ observes_try_demote])
qed

lemma observes_record_loss_window:
  assumes "ev_wf t" "record_loss_window t tn plane path seen expected = Inr t'"
  shows "observes t t'"
proof -
  have v: "valid_ev t tn (nat plane) (nat path)"
    using assms by (auto simp: record_loss_window_def py_simps intro!: valid_of_checks)
  then show ?thesis
    using assms by (auto simp: record_loss_window_def py_simps Let_def split: if_splits
        intro!: observes_apply_loss_ratio)
qed

lemma observes_record_probe:
  assumes "ev_wf t"
  shows "record_probe_sent t tn plane path = Inr t' \<Longrightarrow> observes t t'"
    and "record_probe_recv t tn plane path = Inr t' \<Longrightarrow> observes t t'"
proof -
  have v: "valid_ev t tn (nat plane) (nat path)"
    if "check_tenant t tn = Inr u" "check_ev t plane path = Inr w" for u w
    using that assms by (auto intro!: valid_of_checks)
  show "record_probe_sent t tn plane path = Inr t' \<Longrightarrow> observes t t'"
    "record_probe_recv t tn plane path = Inr t' \<Longrightarrow> observes t t'"
    using assms v by (auto simp: record_probe_sent_def record_probe_recv_def py_simps valid_ev_def
        intro!: observes_same_views views_upd_rec)
qed

end
