(* ===== verification/EvProperties.thy ===== *)
theory EvProperties
  imports EvRefine
begin

text \<open>
  The properties of the EV state table, over its reachable states: the floor on usable EVs, the
  published weights, the abstract machine and the callback trace, totality of the tick, what a
  promotion and a demotion prove about the evidence.
\<close>

subsection \<open>Reachable tables\<close>

inductive ev_step :: "ev_table \<Rightarrow> ev_table \<Rightarrow> bool" where
  sent: "record_probe_sent t tn plane path = Inr t' \<Longrightarrow> ev_step t t'"
| recv: "record_probe_recv t tn plane path = Inr t' \<Longrightarrow> ev_step t t'"
| tick: "tick t tn = (t', e) \<Longrightarrow> ev_step t t'"
| loss: "record_loss_window t tn plane path seen expected = Inr t' \<Longrightarrow> ev_step t t'"

inductive ev_reachable :: "ev_table \<Rightarrow> bool" where
  init: "mk_ev_table tns planes paths c cb = Inr t \<Longrightarrow> ev_reachable t"
| step: "ev_reachable t \<Longrightarrow> ev_step t t' \<Longrightarrow> ev_reachable t'"

lemma ev_step_keeps:
  assumes "ev_step t t'" "ev_wf t"
  shows "ev_wf t' \<and> same_config t t' \<and> observes t t'"
  using assms(1)
proof cases
  case (sent tn plane path)
  then show ?thesis
    using assms(2) record_probe_sent_wf observes_record_probe(1) by blast
next
  case (recv tn plane path)
  then show ?thesis
    using assms(2) record_probe_recv_wf observes_record_probe(2) by blast
next
  case (tick tn e)
  then have t': "t' = fst (EvState.tick t tn)" by simp
  show ?thesis
    unfolding t' using assms(2) by (simp add: tick_wf observes_tick)
next
  case (loss tn plane path seen expected)
  then show ?thesis
    using assms(2) record_loss_window_wf observes_record_loss_window by blast
qed

lemma ev_reachable_wf: "ev_reachable t \<Longrightarrow> ev_wf t"
  by (induction rule: ev_reachable.induct) (auto dest: mk_ev_table_wf(1) ev_step_keeps)

lemma known_tenant_check:
  assumes "ev_shape t" "tn \<in> set (tenants t)"
  shows "bindE (check_tenant t tn) f = f ()"
proof -
  have "tn \<in> dom (evs t)" using assms by (simp add: ev_shape_def)
  then show ?thesis by (auto simp: check_tenant_def raise_if_def)
qed

lemma valid_ev_check:
  "valid_ev t tn p q \<Longrightarrow> bindE (check_ev t (int p) (int q)) f = f ()"
  by (simp add: check_ev_def valid_ev_def raise_if_def)

lemma valid_ev_tenant: "valid_ev t tn p q \<Longrightarrow> tn \<in> set (tenants t)"
  by (simp add: valid_ev_def)

lemma ev_state_of_valid:
  "ev_shape t \<Longrightarrow> valid_ev t tn p q \<Longrightarrow>
   ev_state_of t tn (int p) (int q) = Inr (rstate (rec_at t tn p q))"
  by (simp add: ev_state_of_def known_tenant_check valid_ev_check valid_ev_tenant)

lemma usable_card:
  assumes "ev_shape t" "tn \<in> set (tenants t)"
  shows "usable (num_planes t) (num_paths t) (grid_at t tn) =
    card {(p, q). p < num_planes t \<and> q < num_paths t
                  \<and> ev_state_of t tn (int p) (int q) \<noteq> Inr ASSUMED_BAD}"
proof -
  let ?P = "num_planes t" and ?Q = "num_paths t"
  let ?f = "\<lambda>(p, q). rstate (gget (grid_at t tn) p q) \<noteq> ASSUMED_BAD"
  have "usable ?P ?Q (grid_at t tn) = card (set (filter ?f (cells ?P ?Q)))"
    unfolding usable_def by (intro distinct_card [symmetric] distinct_filter) simp
  also have "set (filter ?f (cells ?P ?Q)) = {(p, q). p < ?P \<and> q < ?Q
      \<and> ev_state_of t tn (int p) (int q) \<noteq> Inr ASSUMED_BAD}"
    using assms by (auto simp: ev_state_of_valid valid_ev_def rec_at_def)
  finally show ?thesis .
qed

text \<open>
  C1. Demotion never starves a tenant: in every reachable table at least \<open>min_active\<close> EVs of
  every tenant (and so at least one) are not ASSUMED_BAD, whatever probes and loss reports say.
\<close>

theorem ev_usable_floor:
  assumes "ev_reachable t" and "tn \<in> set (tenants t)"
  shows "1 \<le> min_active t \<and>
    min_active t \<le> int (card {(p, q). p < num_planes t \<and> q < num_paths t
                                       \<and> ev_state_of t tn (int p) (int q) \<noteq> Inr ASSUMED_BAD})"
proof -
  have wf: "ev_wf t" by (rule ev_reachable_wf [OF assms(1)])
  then have "min_active t \<le> int (usable (num_planes t) (num_paths t) (grid_at t tn))"
    "1 \<le> min_active t"
    using assms(2) by (simp_all add: ev_wf_def)
  then show ?thesis using usable_card [of t tn] wf assms(2) by simp
qed

text \<open>
  C27. The weights a spray policy reads are sound in every reachable table: one weight per EV,
  each between 0 and 1, zero exactly for the ASSUMED_BAD EVs, and at least one positive, so the
  uniform fallback of the rebuild is never taken.
\<close>

theorem ev_weights_sound:
  assumes "ev_reachable t" and "tn \<in> set (tenants t)"
  shows "\<exists>w. weights_ev t tn = Inr w \<and> shaped (num_planes t) (num_paths t) w
    \<and> (\<forall>p < num_planes t. \<forall>q < num_paths t. 0 \<le> gget w p q \<and> gget w p q \<le> 1
         \<and> (gget w p q = 0 \<longleftrightarrow> ev_state_of t tn (int p) (int q) = Inr ASSUMED_BAD))
    \<and> (\<exists>p < num_planes t. \<exists>q < num_paths t. 0 < gget w p q)"
proof -
  let ?P = "num_planes t" and ?Q = "num_paths t" and ?g = "grid_at t tn"
  let ?w = "weights_of_grid ?P ?Q ?g"
  have wf: "ev_wf t" by (rule ev_reachable_wf [OF assms(1)])
  have u: "0 < usable ?P ?Q ?g" using wf assms(2) by (rule ev_wf_usable)
  have st: "ev_state_of t tn (int p) (int q) = Inr (rstate (gget ?g p q))" if "p < ?P" "q < ?Q" for p q
    using ev_state_of_valid [of t tn p q] wf assms(2) that by (simp add: valid_ev_def rec_at_def)
  have "tn \<in> dom (evs t)" using wf assms(2) by (simp add: ev_wf_def ev_shape_def)
  then have w: "weights_ev t tn = Inr ?w"
    using wf assms(2) by (auto simp: weights_ev_def check_tenant_def raise_if_def ev_wf_def)
  obtain p q where pq: "p < ?P" "q < ?Q" "rstate (gget ?g p q) \<noteq> ASSUMED_BAD"
    using u by (force simp: usable_def filter_empty_conv)
  then have "gget ?w p q \<noteq> 0" "0 \<le> gget ?w p q" using weight_bounds [OF u pq(1,2)] by auto
  then have "0 < gget ?w p q" by simp
  with pq w show ?thesis
    using weight_bounds [OF u] st by (intro exI [of _ ?w]) auto
qed

text \<open>
  C2. Refinement: each method call on a reachable table is a run of the abstract health machine
  (demote above the floor, or promote to GOOD, and nothing else), and the calls it makes to
  \<open>on_transition\<close> are exactly the labels of that run, in order.
\<close>

theorem ev_step_refines:
  assumes "ev_reachable t" and "ev_step t t'"
  shows "\<exists>ls. health_run (set (tenants t)) (num_planes t) (num_paths t) (min_active t)
            (views t) ls (views t')
          \<and> transition_calls t' = transition_calls t @ (if on_transition t then ls else [])"
  using ev_step_keeps [OF assms(2) ev_reachable_wf [OF assms(1)]] by (simp add: observes_def)

lemma ev_reachable_run:
  assumes "ev_reachable t"
  shows "\<exists>ls. health_run (set (tenants t)) (num_planes t) (num_paths t) (min_active t)
            (\<lambda>_ _. UNKNOWN) ls (views t)
          \<and> transition_calls t = (if on_transition t then ls else [])"
  using assms
proof (induction rule: ev_reachable.induct)
  case (init tns planes paths c cb t)
  have "views t = (\<lambda>_ _. UNKNOWN)"
    using mk_ev_table_wf(8) [OF init] by (auto simp: views_def fun_eq_iff new_ev_record_def)
  then show ?case
    using mk_ev_table_wf(7) [OF init] by (auto intro!: exI [of _ "[]"] health_run.idle)
next
  case (step t t')
  have k: "same_config t t'" "observes t t'"
    using ev_step_keeps [OF step.hyps(2) ev_reachable_wf [OF step.hyps(1)]] by auto
  obtain ls where ls: "health_run (set (tenants t)) (num_planes t) (num_paths t) (min_active t)
      (\<lambda>_ _. UNKNOWN) ls (views t)" "transition_calls t = (if on_transition t then ls else [])"
    using step.IH by blast
  obtain ms where ms: "health_run (set (tenants t)) (num_planes t) (num_paths t) (min_active t)
      (views t) ms (views t')"
    "transition_calls t' = transition_calls t @ (if on_transition t then ms else [])"
    using k(2) by (auto simp: observes_def)
  show ?case
    using health_run_append [OF ls(1) ms(1)] ls(2) ms(2) k(1)
    by (intro exI [of _ "ls @ ms"]) (auto simp: same_config_def)
qed

text \<open>
  The callback trace is complete: an observer that only records \<open>on_transition\<close> calls,
  starting from "every EV is UNKNOWN", knows the state of every EV; every recorded call is a real
  change and none enters UNKNOWN.
\<close>

theorem ev_callbacks_complete:
  assumes "ev_reachable t" and "on_transition t"
  shows "replay (transition_calls t) (\<lambda>_ _. UNKNOWN) = views t
    \<and> (\<forall>(tn, p, q, old, new) \<in> set (transition_calls t). old \<noteq> new \<and> new \<noteq> UNKNOWN)"
  using ev_reachable_run [OF assms(1)] assms(2) health_run_replay health_run_known(2) by force

text \<open>
  C39. A tick of a known tenant never raises, and advances that tenant's clock by one, when the
  configured maximal backoff level is not negative (a negative level makes the shift raise).
\<close>

theorem ev_tick_total:
  assumes "ev_reachable t" and "tn \<in> set (tenants t)" and "0 \<le> loss_backoff_max_level (cfg t)"
  shows "snd (tick t tn) = None
    \<and> ticks (fst (tick t tn)) = (ticks t)(tn \<mapsto> the (ticks t tn) + 1)"
  using tick_total [OF ev_reachable_wf [OF assms(1)] assms(2)] assms(3) by simp

subsection \<open>Evidence behind a transition\<close>

lemma eval_record_promotes:
  assumes "rstate (eval_record c now b r) = GOOD" "rstate r \<noteq> GOOD"
  shows "probe_verdict c r = Healthy" "recovers c (one_more_healthy r)"
  using assms by (auto simp: eval_record_def Let_def split: probe_verdict.splits if_splits)

lemma eval_record_demotes:
  assumes "rstate (eval_record c now b r) = ASSUMED_BAD" "rstate r \<noteq> ASSUMED_BAD"
  shows "probe_verdict c r = Failing" "\<not> b"
  using assms by (auto simp: eval_record_def Let_def split: probe_verdict.splits if_splits)

text \<open>
  C36. A tick promotes an EV only on full evidence: no loss streak is pending, the window after
  the rotation holds at least \<open>probe_min_samples\<close> probes with a ratio at or above the recovery
  ratio, and this is the last of at least \<open>hold\<close> healthy windows in a row, where \<open>hold\<close> is
  \<open>probe_recover_ticks\<close>, doubled per backoff level after a loss demotion.
\<close>

theorem ev_promotion_evidence:
  assumes "ev_reachable t" and "valid_ev t tn p q" and "tick t tn = (t', None)"
    and "ev_state_of t tn (int p) (int q) \<noteq> Inr GOOD"
    and "ev_state_of t' tn (int p) (int q) = Inr GOOD"
  shows "let r = rec_at t tn p q; w = rotate_bucket r in
    consecutive_loss_demote_windows r = 0
    \<and> 0 < window_sent w \<and> probe_min_samples (cfg t) \<le> window_sent w
    \<and> probe_recover_ratio (cfg t) \<le> window_ratio w
    \<and> (\<exists>hold. recovery_hold (cfg t) r = Inr hold \<and> hold \<le> consecutive_healthy_windows r + 1)"
proof -
  have wf: "ev_wf t" by (rule ev_reachable_wf [OF assms(1)])
  have tn: "tn \<in> set (tenants t)" using assms(2) by (simp add: valid_ev_def)
  have t': "t' = fst (tick t tn)" "snd (tick t tn) = None" using assms(3) by auto
  have wf': "ev_wf t'" "same_config t t'" using tick_wf [OF wf] t' by auto
  let ?r = "rec_at t tn p q"
  let ?w = "rotate_bucket ?r"
  obtain b where e: "rec_at t' tn p q = eval_record (cfg t) (the (ticks t tn) + 1) b ?w"
    using tick_local [OF wf tn t'(2)] assms(2) t'(1) by (auto simp: valid_ev_def)
  have "rstate (rec_at t' tn p q) = GOOD" "rstate ?r \<noteq> GOOD"
    using assms(2,4,5) wf wf' same_config_valid [OF wf'(2)]
    by (simp_all add: ev_state_of_valid)
  then have h: "probe_verdict (cfg t) ?w = Healthy" "recovers (cfg t) (one_more_healthy ?w)"
    using eval_record_promotes [of "cfg t" "the (ticks t tn) + 1" b ?w] by (simp_all add: e)
  have "0 \<le> window_sent ?w"
    using rec_wf_rotate [OF ev_wf_rec [OF wf assms(2)]]
    unfolding window_sent_def by (intro sum_list_nonneg) (auto simp: rec_wf_def)
  with h show ?thesis
    by (auto simp: Let_def probe_verdict_def recovers_def recovery_hold_def one_more_healthy_def
        seen_ratio_def rotate_bucket_def split: if_splits sum.splits)
qed

text \<open>
  C37. A tick demotes an EV only when its window after the rotation holds enough probes and its
  ratio is below \<open>probe_fail_ratio\<close>.
\<close>

theorem ev_probe_demotion_evidence:
  assumes "ev_reachable t" and "valid_ev t tn p q" and "tick t tn = (t', None)"
    and "ev_state_of t tn (int p) (int q) \<noteq> Inr ASSUMED_BAD"
    and "ev_state_of t' tn (int p) (int q) = Inr ASSUMED_BAD"
  shows "let w = rotate_bucket (rec_at t tn p q) in
    0 < window_sent w \<and> probe_min_samples (cfg t) \<le> window_sent w
    \<and> window_ratio w < probe_fail_ratio (cfg t)"
proof -
  have wf: "ev_wf t" by (rule ev_reachable_wf [OF assms(1)])
  have tn: "tn \<in> set (tenants t)" using assms(2) by (simp add: valid_ev_def)
  have t': "t' = fst (tick t tn)" "snd (tick t tn) = None" using assms(3) by auto
  have wf': "ev_wf t'" "same_config t t'" using tick_wf [OF wf] t' by auto
  let ?w = "rotate_bucket (rec_at t tn p q)"
  obtain b where e: "rec_at t' tn p q = eval_record (cfg t) (the (ticks t tn) + 1) b ?w"
    using tick_local [OF wf tn t'(2)] assms(2) t'(1) by (auto simp: valid_ev_def)
  have "rstate (rec_at t' tn p q) = ASSUMED_BAD" "rstate ?w \<noteq> ASSUMED_BAD"
    using assms(2,4,5) wf wf' same_config_valid [OF wf'(2)]
    by (simp_all add: ev_state_of_valid)
  then have "probe_verdict (cfg t) ?w = Failing"
    using eval_record_demotes(1) [of "cfg t" "the (ticks t tn) + 1" b ?w] by (simp add: e)
  moreover have "0 \<le> window_sent ?w"
    using rec_wf_rotate [OF ev_wf_rec [OF wf assms(2)]]
    unfolding window_sent_def by (intro sum_list_nonneg) (auto simp: rec_wf_def)
  ultimately show ?thesis by (auto simp: Let_def probe_verdict_def split: if_splits)
qed

text \<open>
  C38. A loss report demotes an EV only when its loss ratio exceeds \<open>loss_threshold\<close> and completes
  a streak of \<open>loss_demote_consecutive\<close> such reports; the demotion consumes the streak.
\<close>

theorem ev_loss_demotion_evidence:
  assumes "ev_reachable t" and "valid_ev t tn p q"
    and "record_loss_window t tn (int p) (int q) seen expected = Inr t'"
    and "ev_state_of t tn (int p) (int q) \<noteq> Inr ASSUMED_BAD"
    and "ev_state_of t' tn (int p) (int q) = Inr ASSUMED_BAD"
  shows "0 < expected
    \<and> loss_threshold (cfg t) < int_truediv (expected - min seen expected) expected
    \<and> loss_demote_consecutive (cfg t) \<le> consecutive_loss_demote_windows (rec_at t tn p q) + 1
    \<and> consecutive_loss_demote_windows (rec_at t' tn p q) = 0"
proof -
  have wf: "ev_wf t" by (rule ev_reachable_wf [OF assms(1)])
  have wf': "ev_wf t'" "same_config t t'" using record_loss_window_wf [OF wf assms(3)] by auto
  have st: "rstate (rec_at t tn p q) \<noteq> ASSUMED_BAD" "rstate (rec_at t' tn p q) = ASSUMED_BAD"
    using assms(2,4,5) wf wf' same_config_valid [OF wf'(2)] by (simp_all add: ev_state_of_valid)
  let ?x = "int_truediv (expected - min seen expected) expected"
  have r: "(if seen < 0 \<or> expected < 0 then Inl ValueError else if expected = 0 then Inr t
      else Inr (apply_loss_ratio t tn p q ?x)) = Inr t'"
    using assms(2,3) wf
    by (simp add: record_loss_window_def known_tenant_check valid_ev_check valid_ev_tenant Let_def
        min_def not_less split: if_splits)
  then have e0: "0 < expected" "t' = apply_loss_ratio t tn p q ?x"
    using st by (auto split: if_splits)
  then show ?thesis
    using st assms(2) wf
    by (auto simp: apply_loss_ratio_def Let_def rec_at_upd_rec try_demote_local split: if_splits)
qed

subsection \<open>Floating-point thresholds\<close>

text \<open>
  The shipped thresholds 0.5, 0.9 and 0.25 are binary64 numbers and the ratios are rounded
  quotients, but the verdicts are exactly those of integer arithmetic, for any counts a window
  can hold in practice (below \<open>2^53 / 10\<close> probes or packets).
\<close>

theorem ev_thresholds_exact:
  assumes "0 \<le> window_sent r" and "0 \<le> window_recv r" and "window_sent r * 10 < 2 ^ 53"
    and "0 \<le> seen" and "seen \<le> expected" and "0 < expected" and "expected * 4 < 2 ^ 53"
  shows "probe_verdict default_ev_state_config r =
      (if window_sent r = 0 then No_Traffic
       else if window_sent r < 3 then Thin_Sample
       else if 2 * window_recv r < window_sent r then Failing
       else if 9 * window_sent r \<le> 10 * window_recv r then Healthy else Between)
    \<and> (loss_threshold default_ev_state_config < int_truediv (expected - seen) expected
         \<longleftrightarrow> expected < 4 * (expected - seen))"
proof -
  let ?s = "window_sent r" and ?m = "min (window_recv r) (window_sent r)"
  have fail: "window_ratio r < rnd (1 / 2) \<longleftrightarrow> 2 * window_recv r < ?s" if "0 < ?s"
    using rnd_ratio_less_iff [of ?m ?s 1 2] that assms
    by (simp add: window_ratio_def int_truediv_def min_def mult.commute)
  have rec: "window_ratio r < rnd (9 / 10) \<longleftrightarrow> 10 * window_recv r < 9 * ?s" if "0 < ?s"
    using rnd_ratio_less_iff [of ?m ?s 9 10] that assms
    by (simp add: window_ratio_def int_truediv_def min_def mult.commute)
  have loss: "rnd (1 / 4) < int_truediv (expected - seen) expected \<longleftrightarrow> expected < 4 * (expected - seen)"
  proof (cases "seen = expected")
    case False
    then show ?thesis
      using rnd_ratio_less_iff [of 1 4 "expected - seen" expected] assms
      by (simp add: int_truediv_def mult.commute)
  qed (use assms in \<open>simp add: int_truediv_def not_less\<close>)
  show ?thesis
    using assms(1) fail rec loss
    by (cases "?s = 0") (auto simp: probe_verdict_def default_ev_state_config_def not_less not_le)
qed

end
