(* ===== verification/Wire.thy ===== *)
theory Wire
  imports Prelude "HOL-Library.Word"
begin

text \<open>
  The \<^verbatim>\<open>struct\<close> module as the program uses it: unsigned big-endian fields of 1, 2, 4 and 8
  bytes, packed into and read from byte strings, with the errors of \<open>struct.pack\<close> (a value out of
  range) and \<open>struct.unpack\<close> (a wrong length). The locale \<open>wire_codec\<close> states what a sender and a
  receiver of datagrams rely on; the message formats interpret it.
\<close>

type_synonym byte = "8 word"
type_synonym bytes = "8 word list"

subsection \<open>One big-endian field\<close>

fun be_bytes :: "nat \<Rightarrow> int \<Rightarrow> bytes" where
  "be_bytes 0 v = []"
| "be_bytes (Suc n) v = be_bytes n (v div 256) @ [word_of_int v]"

definition be_int :: "bytes \<Rightarrow> int" where
  "be_int bs = foldl (\<lambda>a b. a * 256 + uint b) 0 bs"

lemma length_be_bytes [simp]: "length (be_bytes n v) = n"
  by (induction n arbitrary: v) auto

lemma be_int_snoc [simp]: "be_int (bs @ [b]) = be_int bs * 256 + uint b"
  by (simp add: be_int_def)

lemma be_int_Nil [simp]: "be_int [] = 0"
  by (simp add: be_int_def)

lemma uint_byte_bounds [simp]: "0 \<le> uint (b :: byte)" "uint (b :: byte) < 256"
  using uint_lt2p [of b] by simp_all

lemma be_int_bounds: "0 \<le> be_int bs" "be_int bs < 256 ^ length bs"
proof -
  have "0 \<le> be_int bs \<and> be_int bs < 256 ^ length bs"
  proof (induction bs rule: rev_induct)
    case (snoc b bs)
    then have "be_int bs + 1 \<le> 256 ^ length bs" by simp
    then have "(be_int bs + 1) * 256 \<le> 256 ^ length bs * 256" by (intro mult_right_mono) auto
    moreover have "be_int bs * 256 + uint b < (be_int bs + 1) * 256" by (simp add: algebra_simps)
    ultimately have "be_int bs * 256 + uint b < 256 ^ length bs * 256" by (rule order.strict_trans2 [rotated])
    then show ?case using snoc by simp
  qed simp
  then show "0 \<le> be_int bs" "be_int bs < 256 ^ length bs" by auto
qed

lemma be_int_be_bytes: "0 \<le> v \<Longrightarrow> v < 256 ^ n \<Longrightarrow> be_int (be_bytes n v) = v"
proof (induction n arbitrary: v)
  case (Suc n)
  have "v < 256 * 256 ^ n" using Suc.prems(2) by simp
  then have "v div 256 < 256 ^ n" by (simp add: div_less_iff_less_mult mult.commute)
  then have "be_int (be_bytes n (v div 256)) = v div 256"
    using Suc.IH Suc.prems(1) by (simp add: pos_imp_zdiv_nonneg_iff)
  then show ?case by (simp add: uint_word_of_int)
qed simp

lemma be_bytes_be_int: "be_bytes (length bs) (be_int bs) = bs"
proof (induction bs rule: rev_induct)
  case (snoc b bs)
  have "(be_int bs * 256 + uint b) div 256 = be_int bs"
    using uint_byte_bounds [of b] by (simp add: div_add1_eq div_pos_pos_trivial)
  moreover have "word_of_int (be_int bs * 256 + uint b) = b"
  proof (rule word_uint_eqI)
    have "uint (word_of_int (be_int bs * 256 + uint b) :: byte) = (be_int bs * 256 + uint b) mod 256"
      by (simp only: uint_word_of_int) simp
    then show "uint (word_of_int (be_int bs * 256 + uint b) :: byte) = uint b"
      using uint_byte_bounds [of b] by simp
  qed
  ultimately show ?case using snoc by simp
qed simp

subsection \<open>Packing a list of fields\<close>

text \<open>A format is the list of its field widths in bytes: B is 1, H is 2, I is 4, Q is 8.\<close>

definition calcsize :: "nat list \<Rightarrow> nat" where
  "calcsize fmt = sum_list fmt"

fun struct_pack :: "nat list \<Rightarrow> int list \<Rightarrow> bytes result" where
  "struct_pack [] [] = Inr []"
| "struct_pack (n # fmt) (v # vs) =
     (if v < 0 \<or> 256 ^ n \<le> v then Inl StructError
      else bindE (struct_pack fmt vs) (\<lambda>bs. Inr (be_bytes n v @ bs)))"
| "struct_pack _ _ = Inl StructError"

fun unpack_fields :: "nat list \<Rightarrow> bytes \<Rightarrow> int list" where
  "unpack_fields [] bs = []"
| "unpack_fields (n # fmt) bs = be_int (take n bs) # unpack_fields fmt (drop n bs)"

definition struct_unpack :: "nat list \<Rightarrow> bytes \<Rightarrow> int list result" where
  "struct_unpack fmt bs =
     (if length bs \<noteq> calcsize fmt then Inl StructError else Inr (unpack_fields fmt bs))"

definition fits :: "nat list \<Rightarrow> int list \<Rightarrow> bool" where
  "fits fmt vs \<longleftrightarrow> list_all2 (\<lambda>n v. 0 \<le> v \<and> v < 256 ^ n) fmt vs"

lemma struct_pack_ok:
  "fits fmt vs \<Longrightarrow> struct_pack fmt vs = Inr (concat (map2 be_bytes fmt vs))"
  unfolding fits_def by (induction rule: list_all2_induct) auto

lemma struct_pack_length: "struct_pack fmt vs = Inr bs \<Longrightarrow> length bs = calcsize fmt"
  by (induction fmt vs arbitrary: bs rule: struct_pack.induct)
    (auto simp: calcsize_def py_simps split: if_splits)

lemma struct_pack_fits: "struct_pack fmt vs = Inr bs \<Longrightarrow> fits fmt vs"
  by (induction fmt vs arbitrary: bs rule: struct_pack.induct)
    (auto simp: fits_def py_simps split: if_splits)

lemma unpack_pack: "struct_pack fmt vs = Inr bs \<Longrightarrow> unpack_fields fmt bs = vs"
  by (induction fmt vs arbitrary: bs rule: struct_pack.induct)
    (auto simp: py_simps be_int_be_bytes not_le not_less split: if_splits)

lemma struct_unpack_pack: "struct_pack fmt vs = Inr bs \<Longrightarrow> struct_unpack fmt bs = Inr vs"
  by (simp add: struct_unpack_def struct_pack_length unpack_pack)

lemma fits_unpack: "length bs = calcsize fmt \<Longrightarrow> fits fmt (unpack_fields fmt bs)"
proof (induction fmt arbitrary: bs)
  case (Cons n fmt)
  have "length (take n bs) = n" "length (drop n bs) = calcsize fmt"
    using Cons.prems by (auto simp: calcsize_def)
  then show ?case
    using Cons.IH be_int_bounds [of "take n bs"] by (auto simp: fits_def)
qed (simp add: fits_def)

lemma pack_unpack:
  "length bs = calcsize fmt \<Longrightarrow> struct_pack fmt (unpack_fields fmt bs) = Inr bs"
proof (induction fmt arbitrary: bs)
  case (Cons n fmt)
  have l: "length (take n bs) = n" "length (drop n bs) = calcsize fmt"
    using Cons.prems by (auto simp: calcsize_def)
  have "be_bytes n (be_int (take n bs)) = take n bs"
    using be_bytes_be_int [of "take n bs"] by (simp only: l)
  moreover have "\<not> be_int (take n bs) < 0" "\<not> 256 ^ n \<le> be_int (take n bs)"
    using be_int_bounds [of "take n bs"] l(1) by auto
  ultimately show ?case using Cons.IH [OF l(2)] by simp
qed (simp add: calcsize_def)

subsection \<open>What the two ends of a wire format rely on\<close>

text \<open>
  \<open>wire x\<close> is what is left of a message after the trip (a format may saturate a field). A
  datagram may be longer than its message: \<open>tail\<close> is what the decoder ignores.
\<close>

locale wire_codec =
  fixes enc :: "'m \<Rightarrow> bytes result"
    and dec :: "bytes \<Rightarrow> 'm result"
    and valid :: "'m \<Rightarrow> bool"
    and wire :: "'m \<Rightarrow> 'm"
  assumes dec_enc: "valid x \<Longrightarrow> \<exists>bs. enc x = Inr bs \<and> (\<forall>tail. dec (bs @ tail) = Inr (wire x))"
    and dec_valid: "dec bs = Inr x \<Longrightarrow> valid x \<and> wire x = x"
    and dec_error: "dec bs = Inl e \<Longrightarrow> e = ProbeDecodeError"
begin

lemma delivered: "valid x \<Longrightarrow> enc x = Inr bs \<Longrightarrow> dec (bs @ tail) = Inr (wire x)"
  using dec_enc [of x] by force

lemma encodes: "valid x \<Longrightarrow> \<exists>bs. enc x = Inr bs"
  using dec_enc by blast

lemma unambiguous:
  assumes "valid x" "valid y" "enc x = enc y"
  shows "wire x = wire y"
proof -
  obtain bs where bs: "enc x = Inr bs" using encodes [OF assms(1)] by blast
  then show ?thesis
    using delivered [OF assms(1) bs, of "[]"] delivered [of y bs "[]"] assms(2,3) by simp
qed

lemma prefix_free:
  assumes "valid x" "valid y" "enc x = Inr bs" "enc y = Inr (bs @ tail)"
  shows "wire x = wire y"
  using delivered [OF assms(1,3), of tail] delivered [OF assms(2,4), of "[]"] by simp

lemma relayed:
  assumes "dec bs = Inr x"
  shows "\<exists>bs'. enc x = Inr bs' \<and> dec bs' = Inr x"
proof -
  have x: "valid x" "wire x = x" using dec_valid [OF assms] by auto
  then obtain bs' where bs': "enc x = Inr bs'" using encodes by blast
  then show ?thesis using delivered [OF x(1) bs', of "[]"] x(2) by simp
qed

lemma total: "(\<exists>x. dec bs = Inr x \<and> valid x) \<or> dec bs = Inl ProbeDecodeError"
  using dec_valid dec_error by (cases "dec bs") auto

lemma wire_idem: "valid x \<Longrightarrow> wire (wire x) = wire x"
  using dec_enc dec_valid by fastforce

end

end
