(* ===== verification/ProbeWire.thy ===== *)
theory ProbeWire
  imports Wire
begin

text \<open>
  The MRC wire formats of \<^verbatim>\<open>srv6_mrc/mrc/probe.py\<close>: PROBE v4, LOSS_REPORT v2 and v3, NACK v1,
  byte for byte, with the range checks of the payload classes and the errors of the decoders.
  The three codecs interpret \<open>wire_codec\<close>.
\<close>

subsection \<open>Constants and formats\<close>

definition PROBE_VERSION :: int where "PROBE_VERSION = 4"
definition LOSS_REPORT_VERSION :: int where "LOSS_REPORT_VERSION = 2"
definition LOSS_REPORT_VERSION_TRIMMED :: int where "LOSS_REPORT_VERSION_TRIMMED = 3"
definition NACK_VERSION :: int where "NACK_VERSION = 1"
definition MAGIC_PROBE :: int where "MAGIC_PROBE = 0xA5"
definition MAGIC_LOSS_REPORT :: int where "MAGIC_LOSS_REPORT = 0xA7"
definition MAGIC_NACK :: int where "MAGIC_NACK = 0xA9"

definition probe_fmt :: "nat list" where "probe_fmt = [1, 1, 1, 1, 2, 2, 1, 1]"
definition loss_hdr_fmt :: "nat list" where "loss_hdr_fmt = [1, 1, 2, 2, 2]"
definition loss_rec_fmt :: "nat list" where "loss_rec_fmt = [1, 1, 2, 4, 4, 4]"
definition nack_fmt :: "nat list" where "nack_fmt = [1, 1, 1, 1, 2, 2, 2, 8]"

definition probe_size :: nat where "probe_size = calcsize probe_fmt"
definition loss_hdr_size :: nat where "loss_hdr_size = calcsize loss_hdr_fmt"
definition loss_rec_size :: nat where "loss_rec_size = calcsize loss_rec_fmt"
definition nack_size :: nat where "nack_size = calcsize nack_fmt"

lemma sizes [simp]:
  "probe_size = 10" "loss_hdr_size = 8" "loss_rec_size = 16" "nack_size = 18"
  "calcsize probe_fmt = 10" "calcsize loss_hdr_fmt = 8" "calcsize loss_rec_fmt = 16"
  "calcsize nack_fmt = 18"
  by (simp_all add: probe_size_def probe_fmt_def loss_hdr_size_def loss_hdr_fmt_def
      loss_rec_size_def loss_rec_fmt_def nack_size_def nack_fmt_def calcsize_def)

lemmas wire_constants = PROBE_VERSION_def LOSS_REPORT_VERSION_def LOSS_REPORT_VERSION_TRIMMED_def
  NACK_VERSION_def MAGIC_PROBE_def MAGIC_LOSS_REPORT_def MAGIC_NACK_def

subsection \<open>Range checks and payload classes\<close>

definition check_u8 :: "int \<Rightarrow> unit result" where
  "check_u8 v = raise_if (v < 0 \<or> 0xFF < v) ValueError"

definition check_u16 :: "int \<Rightarrow> unit result" where
  "check_u16 v = raise_if (v < 0 \<or> 0xFFFF < v) ValueError"

definition check_u32 :: "int \<Rightarrow> unit result" where
  "check_u32 v = raise_if (v < 0 \<or> 0xFFFFFFFF < v) ValueError"

record probe =
  pr_plane_id :: int
  pr_path_id :: int
  pr_tenant_id :: int
  pr_src_id :: int
  pr_dst_id :: int

text \<open>The checks of \<open>Probe.__post_init__\<close>; the constructor is \<open>mk_probe\<close>.\<close>

definition probe_post_init :: "probe \<Rightarrow> unit result" where
  "probe_post_init p =
     bindE (check_u8 (pr_plane_id p)) (\<lambda>_. bindE (check_u8 (pr_path_id p)) (\<lambda>_.
     bindE (check_u16 (pr_tenant_id p)) (\<lambda>_. bindE (check_u16 (pr_src_id p)) (\<lambda>_.
       check_u8 (pr_dst_id p)))))"

definition mk_probe :: "int \<Rightarrow> int \<Rightarrow> int \<Rightarrow> int \<Rightarrow> int \<Rightarrow> probe result" where
  "mk_probe plane path tenant src dst =
     (let p = \<lparr>pr_plane_id = plane, pr_path_id = path, pr_tenant_id = tenant,
               pr_src_id = src, pr_dst_id = dst\<rparr>
      in bindE (probe_post_init p) (\<lambda>_. Inr p))"

record plane_loss_record =
  lr_plane_id :: int
  lr_path_id :: int
  lr_seen :: int
  lr_expected :: int
  lr_max_gap :: int
  lr_trimmed :: int

definition plane_loss_record_post_init :: "plane_loss_record \<Rightarrow> unit result" where
  "plane_loss_record_post_init r =
     bindE (check_u8 (lr_plane_id r)) (\<lambda>_. bindE (check_u8 (lr_path_id r)) (\<lambda>_.
     bindE (check_u32 (lr_seen r)) (\<lambda>_. bindE (check_u32 (lr_expected r)) (\<lambda>_.
     bindE (check_u32 (lr_max_gap r)) (\<lambda>_. check_u32 (lr_trimmed r))))))"

definition mk_plane_loss_record ::
  "int \<Rightarrow> int \<Rightarrow> int \<Rightarrow> int \<Rightarrow> int \<Rightarrow> int \<Rightarrow> plane_loss_record result" where
  "mk_plane_loss_record plane path seen expected max_gap trimmed =
     (let r = \<lparr>lr_plane_id = plane, lr_path_id = path, lr_seen = seen, lr_expected = expected,
               lr_max_gap = max_gap, lr_trimmed = trimmed\<rparr>
      in bindE (plane_loss_record_post_init r) (\<lambda>_. Inr r))"

record nack =
  nk_plane_id :: int
  nk_path_id :: int
  nk_tenant_id :: int
  nk_src_id :: int
  nk_dst_id :: int
  nk_seq :: int

definition nack_post_init :: "nack \<Rightarrow> unit result" where
  "nack_post_init n =
     bindE (check_u8 (nk_plane_id n)) (\<lambda>_. bindE (check_u8 (nk_path_id n)) (\<lambda>_.
     bindE (check_u16 (nk_tenant_id n)) (\<lambda>_. bindE (check_u16 (nk_src_id n)) (\<lambda>_.
     bindE (check_u16 (nk_dst_id n)) (\<lambda>_.
       raise_if (\<not> (0 \<le> nk_seq n \<and> nk_seq n \<le> 0xFFFFFFFFFFFFFFFF)) ValueError)))))"

definition mk_nack :: "int \<Rightarrow> int \<Rightarrow> int \<Rightarrow> int \<Rightarrow> int \<Rightarrow> int \<Rightarrow> nack result" where
  "mk_nack plane path tenant src dst sq =
     (let n = \<lparr>nk_plane_id = plane, nk_path_id = path, nk_tenant_id = tenant,
               nk_src_id = src, nk_dst_id = dst, nk_seq = sq\<rparr>
      in bindE (nack_post_init n) (\<lambda>_. Inr n))"

record loss_report =
  rp_window_id :: int
  rp_planes :: "plane_loss_record list"

definition mk_loss_report :: "int \<Rightarrow> plane_loss_record list \<Rightarrow> loss_report result" where
  "mk_loss_report window_id planes =
     bindE (check_u16 window_id) (\<lambda>_. Inr \<lparr>rp_window_id = window_id, rp_planes = planes\<rparr>)"

subsection \<open>Encoders\<close>

definition encode_probe :: "int \<Rightarrow> int \<Rightarrow> int \<Rightarrow> int \<Rightarrow> int \<Rightarrow> bytes result" where
  "encode_probe plane path tenant src dst =
     bindE (check_u8 plane) (\<lambda>_. bindE (check_u8 path) (\<lambda>_.
     bindE (check_u16 tenant) (\<lambda>_. bindE (check_u16 src) (\<lambda>_. bindE (check_u8 dst) (\<lambda>_.
       struct_pack probe_fmt
         [MAGIC_PROBE, PROBE_VERSION, plane, path, tenant, src, dst, 0])))))"

definition encode_loss_rec :: "bool \<Rightarrow> plane_loss_record \<Rightarrow> bytes result" where
  "encode_loss_rec trims r =
     struct_pack loss_rec_fmt
       [lr_plane_id r, lr_path_id r, (if trims then min (lr_trimmed r) 0xFFFF else 0),
        lr_seen r, lr_expected r, lr_max_gap r]"

definition encode_loss_report :: "int \<Rightarrow> plane_loss_record list \<Rightarrow> bytes result" where
  "encode_loss_report window_id planes =
     bindE (check_u16 window_id) (\<lambda>_.
     bindE (raise_if (0xFFFF < length planes) ValueError) (\<lambda>_.
       let trims = (\<exists>r \<in> set planes. lr_trimmed r \<noteq> 0);
           version = (if trims then LOSS_REPORT_VERSION_TRIMMED else LOSS_REPORT_VERSION)
       in bindE (struct_pack loss_hdr_fmt
                   [MAGIC_LOSS_REPORT, version, window_id, int (length planes), 0]) (\<lambda>hdr.
          bindE (mapE (encode_loss_rec trims) planes) (\<lambda>recs. Inr (hdr @ concat recs)))))"

definition encode_nack :: "nack \<Rightarrow> bytes result" where
  "encode_nack n =
     struct_pack nack_fmt
       [MAGIC_NACK, NACK_VERSION, nk_plane_id n, nk_path_id n, nk_tenant_id n,
        nk_src_id n, nk_dst_id n, nk_seq n]"

subsection \<open>Decoders\<close>

definition decode_probe :: "bytes \<Rightarrow> probe result" where
  "decode_probe payload =
     bindE (raise_if (length payload < probe_size) ProbeDecodeError) (\<lambda>_.
     bindE (struct_unpack probe_fmt (take probe_size payload)) (\<lambda>f.
     bindE (raise_if (f ! 0 \<noteq> MAGIC_PROBE) ProbeDecodeError) (\<lambda>_.
     bindE (raise_if (f ! 1 \<noteq> PROBE_VERSION) ProbeDecodeError) (\<lambda>_.
       mk_probe (f ! 2) (f ! 3) (f ! 4) (f ! 5) (f ! 6)))))"

fun decode_loss_recs :: "int \<Rightarrow> nat \<Rightarrow> nat \<Rightarrow> bytes \<Rightarrow> plane_loss_record list result" where
  "decode_loss_recs version 0 off payload = Inr []"
| "decode_loss_recs version (Suc n) off payload =
     bindE (struct_unpack loss_rec_fmt (take loss_rec_size (drop off payload))) (\<lambda>f.
     bindE (mk_plane_loss_record (f ! 0) (f ! 1) (f ! 3) (f ! 4) (f ! 5)
              (if version = LOSS_REPORT_VERSION_TRIMMED then f ! 2 else 0)) (\<lambda>r.
     bindE (decode_loss_recs version n (off + loss_rec_size) payload) (\<lambda>rs. Inr (r # rs))))"

definition decode_loss_report :: "bytes \<Rightarrow> loss_report result" where
  "decode_loss_report payload =
     bindE (raise_if (length payload < loss_hdr_size) ProbeDecodeError) (\<lambda>_.
     bindE (struct_unpack loss_hdr_fmt (take loss_hdr_size payload)) (\<lambda>f.
     bindE (raise_if (f ! 0 \<noteq> MAGIC_LOSS_REPORT) ProbeDecodeError) (\<lambda>_.
     bindE (raise_if (f ! 1 \<notin> {LOSS_REPORT_VERSION, LOSS_REPORT_VERSION_TRIMMED})
              ProbeDecodeError) (\<lambda>_.
     bindE (raise_if (length payload < loss_hdr_size + nat (f ! 3) * loss_rec_size)
              ProbeDecodeError) (\<lambda>_.
     bindE (decode_loss_recs (f ! 1) (nat (f ! 3)) loss_hdr_size payload) (\<lambda>recs.
       mk_loss_report (f ! 2) recs))))))"

definition decode_nack :: "bytes \<Rightarrow> nack result" where
  "decode_nack payload =
     bindE (raise_if (length payload < nack_size) ProbeDecodeError) (\<lambda>_.
     bindE (struct_unpack nack_fmt (take nack_size payload)) (\<lambda>f.
     bindE (raise_if (f ! 0 \<noteq> MAGIC_NACK) ProbeDecodeError) (\<lambda>_.
     bindE (raise_if (f ! 1 \<noteq> NACK_VERSION) ProbeDecodeError) (\<lambda>_.
       mk_nack (f ! 2) (f ! 3) (f ! 4) (f ! 5) (f ! 6) (f ! 7)))))"

subsection \<open>Checked values\<close>

definition probe_ok :: "probe \<Rightarrow> bool" where "probe_ok p \<longleftrightarrow> probe_post_init p = Inr ()"
definition loss_record_ok :: "plane_loss_record \<Rightarrow> bool" where
  "loss_record_ok r \<longleftrightarrow> plane_loss_record_post_init r = Inr ()"
definition nack_ok :: "nack \<Rightarrow> bool" where "nack_ok n \<longleftrightarrow> nack_post_init n = Inr ()"
definition loss_report_ok :: "loss_report \<Rightarrow> bool" where
  "loss_report_ok r \<longleftrightarrow> check_u16 (rp_window_id r) = Inr () \<and> length (rp_planes r) \<le> 0xFFFF
     \<and> (\<forall>x \<in> set (rp_planes r). loss_record_ok x)"

text \<open>What the u16 field of a v3 record keeps of the trimmed count.\<close>

definition saturate_trimmed :: "plane_loss_record \<Rightarrow> plane_loss_record" where
  "saturate_trimmed r = r\<lparr>lr_trimmed := min (lr_trimmed r) 0xFFFF\<rparr>"

definition wire_report :: "loss_report \<Rightarrow> loss_report" where
  "wire_report r = r\<lparr>rp_planes := map saturate_trimmed (rp_planes r)\<rparr>"

lemmas check_defs = check_u8_def check_u16_def check_u32_def

lemma probe_ok_iff:
  "probe_ok p \<longleftrightarrow> 0 \<le> pr_plane_id p \<and> pr_plane_id p \<le> 0xFF \<and> 0 \<le> pr_path_id p \<and> pr_path_id p \<le> 0xFF
     \<and> 0 \<le> pr_tenant_id p \<and> pr_tenant_id p \<le> 0xFFFF \<and> 0 \<le> pr_src_id p \<and> pr_src_id p \<le> 0xFFFF
     \<and> 0 \<le> pr_dst_id p \<and> pr_dst_id p \<le> 0xFF"
  by (auto simp: probe_ok_def probe_post_init_def check_defs)

lemma loss_record_ok_iff:
  "loss_record_ok r \<longleftrightarrow> 0 \<le> lr_plane_id r \<and> lr_plane_id r \<le> 0xFF
     \<and> 0 \<le> lr_path_id r \<and> lr_path_id r \<le> 0xFF \<and> 0 \<le> lr_seen r \<and> lr_seen r \<le> 0xFFFFFFFF
     \<and> 0 \<le> lr_expected r \<and> lr_expected r \<le> 0xFFFFFFFF
     \<and> 0 \<le> lr_max_gap r \<and> lr_max_gap r \<le> 0xFFFFFFFF
     \<and> 0 \<le> lr_trimmed r \<and> lr_trimmed r \<le> 0xFFFFFFFF"
  by (auto simp: loss_record_ok_def plane_loss_record_post_init_def check_defs)

lemma nack_ok_iff:
  "nack_ok n \<longleftrightarrow> 0 \<le> nk_plane_id n \<and> nk_plane_id n \<le> 0xFF \<and> 0 \<le> nk_path_id n \<and> nk_path_id n \<le> 0xFF
     \<and> 0 \<le> nk_tenant_id n \<and> nk_tenant_id n \<le> 0xFFFF \<and> 0 \<le> nk_src_id n \<and> nk_src_id n \<le> 0xFFFF
     \<and> 0 \<le> nk_dst_id n \<and> nk_dst_id n \<le> 0xFFFF
     \<and> 0 \<le> nk_seq n \<and> nk_seq n \<le> 0xFFFFFFFFFFFFFFFF"
  by (auto simp: nack_ok_def nack_post_init_def check_defs not_le)

lemma mk_probe_Inr: "mk_probe a b c d e = Inr p \<longleftrightarrow>
    p = \<lparr>pr_plane_id = a, pr_path_id = b, pr_tenant_id = c, pr_src_id = d, pr_dst_id = e\<rparr> \<and> probe_ok p"
  by (auto simp: mk_probe_def probe_ok_def py_simps Let_def)

lemma mk_record_Inr: "mk_plane_loss_record a b c d e f = Inr r \<longleftrightarrow>
    r = \<lparr>lr_plane_id = a, lr_path_id = b, lr_seen = c, lr_expected = d, lr_max_gap = e,
         lr_trimmed = f\<rparr> \<and> loss_record_ok r"
  by (auto simp: mk_plane_loss_record_def loss_record_ok_def py_simps Let_def)

lemma mk_nack_Inr: "mk_nack a b c d e f = Inr n \<longleftrightarrow>
    n = \<lparr>nk_plane_id = a, nk_path_id = b, nk_tenant_id = c, nk_src_id = d, nk_dst_id = e,
         nk_seq = f\<rparr> \<and> nack_ok n"
  by (auto simp: mk_nack_def nack_ok_def py_simps Let_def)

text \<open>Unpacking a format yields one in-range value per field.\<close>

lemma fits_nth: "fits fmt vs \<Longrightarrow> i < length fmt \<Longrightarrow> 0 \<le> vs ! i \<and> vs ! i < 256 ^ (fmt ! i)"
  by (auto simp: fits_def list_all2_conv_all_nth)

lemma unpack_cases:
  assumes "calcsize fmt \<le> length bs"
  obtains vs where "struct_unpack fmt (take (calcsize fmt) bs) = Inr vs" "fits fmt vs"
    "struct_pack fmt vs = Inr (take (calcsize fmt) bs)"
proof -
  have l: "length (take (calcsize fmt) bs) = calcsize fmt" using assms by simp
  show thesis
    by (rule that [of "unpack_fields fmt (take (calcsize fmt) bs)"])
      (simp_all only: struct_unpack_def l fits_unpack pack_unpack, simp)
qed

lemma unpack_packed:
  assumes "struct_pack fmt vs = Inr bs"
  shows "struct_unpack fmt (take (calcsize fmt) (bs @ tail)) = Inr vs" "length bs = calcsize fmt"
  using struct_pack_length [OF assms] struct_unpack_pack [OF assms] by auto

subsection \<open>The probe codec\<close>

definition enc_probe :: "probe \<Rightarrow> bytes result" where
  "enc_probe p = encode_probe (pr_plane_id p) (pr_path_id p) (pr_tenant_id p) (pr_src_id p) (pr_dst_id p)"

abbreviation probe_fields :: "probe \<Rightarrow> int list" where
  "probe_fields p \<equiv> [MAGIC_PROBE, PROBE_VERSION, pr_plane_id p, pr_path_id p, pr_tenant_id p,
     pr_src_id p, pr_dst_id p, 0]"

lemma enc_probe_pack:
  assumes "probe_ok p"
  shows "enc_probe p = struct_pack probe_fmt (probe_fields p)" and "fits probe_fmt (probe_fields p)"
  using assms
  by (simp_all add: enc_probe_def encode_probe_def check_defs probe_ok_iff fits_def probe_fmt_def
      wire_constants)

lemma enc_probe_ok:
  assumes "probe_ok p"
  shows "\<exists>bs. enc_probe p = Inr bs \<and> length bs = probe_size \<and> (\<forall>tail. decode_probe (bs @ tail) = Inr p)"
proof -
  obtain bs where bs: "enc_probe p = Inr bs"
    using struct_pack_ok [OF enc_probe_pack(2) [OF assms]] enc_probe_pack(1) [OF assms] by simp
  note pk = unpack_packed [OF bs [unfolded enc_probe_pack(1) [OF assms]]]
  have "decode_probe (bs @ tail) = Inr p" for tail
    using pk(1) [of tail] pk(2) assms by (simp add: decode_probe_def mk_probe_Inr)
  then show ?thesis using bs pk(2) by simp
qed

lemma decode_probe_cases:
  "(\<exists>p. decode_probe bs = Inr p \<and> probe_ok p) \<or> decode_probe bs = Inl ProbeDecodeError"
proof (cases "length bs < probe_size")
  case False
  then obtain f where f: "struct_unpack probe_fmt (take probe_size bs) = Inr f" "fits probe_fmt f"
    using unpack_cases [of probe_fmt bs] by auto
  have "\<exists>p. mk_probe (f ! 2) (f ! 3) (f ! 4) (f ! 5) (f ! 6) = Inr p \<and> probe_ok p"
    using fits_nth [OF f(2), of 2] fits_nth [OF f(2), of 3] fits_nth [OF f(2), of 4]
      fits_nth [OF f(2), of 5] fits_nth [OF f(2), of 6]
    by (simp add: mk_probe_Inr probe_ok_iff probe_fmt_def)
  with False f(1) show ?thesis by (auto simp: decode_probe_def)
qed (simp add: decode_probe_def)

interpretation probe: wire_codec enc_probe decode_probe probe_ok "\<lambda>p. p"
proof
  show "\<exists>bs. enc_probe x = Inr bs \<and> (\<forall>tail. decode_probe (bs @ tail) = Inr x)" if "probe_ok x" for x
    using enc_probe_ok [OF that] by blast
  show "probe_ok x \<and> x = x" if "decode_probe bs = Inr x" for bs x
    using decode_probe_cases [of bs] that by auto
  show "e = ProbeDecodeError" if "decode_probe bs = Inl e" for bs e
    using decode_probe_cases [of bs] that by auto
qed

subsection \<open>The NACK codec\<close>

lemma encode_nack_fits:
  assumes "nack_ok n"
  shows "fits nack_fmt [MAGIC_NACK, NACK_VERSION, nk_plane_id n, nk_path_id n, nk_tenant_id n,
      nk_src_id n, nk_dst_id n, nk_seq n]"
  using assms by (simp add: nack_ok_iff fits_def nack_fmt_def wire_constants)

lemma encode_nack_ok:
  assumes "nack_ok n"
  shows "\<exists>bs. encode_nack n = Inr bs \<and> length bs = nack_size \<and> (\<forall>tail. decode_nack (bs @ tail) = Inr n)"
proof -
  obtain bs where bs: "encode_nack n = Inr bs"
    using struct_pack_ok [OF encode_nack_fits [OF assms]] by (simp add: encode_nack_def)
  note pk = unpack_packed [OF bs [unfolded encode_nack_def]]
  have "decode_nack (bs @ tail) = Inr n" for tail
    using pk(1) [of tail] pk(2) assms by (simp add: decode_nack_def mk_nack_Inr)
  then show ?thesis using bs pk(2) by simp
qed

lemma decode_nack_cases:
  "(\<exists>n. decode_nack bs = Inr n \<and> nack_ok n) \<or> decode_nack bs = Inl ProbeDecodeError"
proof (cases "length bs < nack_size")
  case False
  then obtain f where f: "struct_unpack nack_fmt (take nack_size bs) = Inr f" "fits nack_fmt f"
    using unpack_cases [of nack_fmt bs] by auto
  have "\<exists>n. mk_nack (f ! 2) (f ! 3) (f ! 4) (f ! 5) (f ! 6) (f ! 7) = Inr n \<and> nack_ok n"
    using fits_nth [OF f(2), of 2] fits_nth [OF f(2), of 3] fits_nth [OF f(2), of 4]
      fits_nth [OF f(2), of 5] fits_nth [OF f(2), of 6] fits_nth [OF f(2), of 7]
    by (simp add: mk_nack_Inr nack_ok_iff nack_fmt_def)
  with False f(1) show ?thesis by (auto simp: decode_nack_def)
qed (simp add: decode_nack_def)

interpretation nack: wire_codec encode_nack decode_nack nack_ok "\<lambda>n. n"
proof
  show "\<exists>bs. encode_nack x = Inr bs \<and> (\<forall>tail. decode_nack (bs @ tail) = Inr x)" if "nack_ok x" for x
    using encode_nack_ok [OF that] by blast
  show "nack_ok x \<and> x = x" if "decode_nack bs = Inr x" for bs x
    using decode_nack_cases [of bs] that by auto
  show "e = ProbeDecodeError" if "decode_nack bs = Inl e" for bs e
    using decode_nack_cases [of bs] that by auto
qed

subsection \<open>The loss-report codec\<close>

lemma encode_loss_rec_ok:
  assumes "loss_record_ok r" "version = (if trims then LOSS_REPORT_VERSION_TRIMMED else LOSS_REPORT_VERSION)"
    and "trims \<or> lr_trimmed r = 0"
  shows "\<exists>bs. encode_loss_rec trims r = Inr bs \<and> length bs = loss_rec_size
    \<and> (\<forall>pre tail n. decode_loss_recs version (Suc n) (length pre) (pre @ bs @ tail) =
         bindE (decode_loss_recs version n (length pre + loss_rec_size) (pre @ bs @ tail))
           (\<lambda>rs. Inr (saturate_trimmed r # rs)))"
proof -
  define t where "t = (if trims then min (lr_trimmed r) 0xFFFF else 0)"
  have "fits loss_rec_fmt [lr_plane_id r, lr_path_id r, t, lr_seen r, lr_expected r, lr_max_gap r]"
    using assms(1) by (auto simp: loss_record_ok_iff fits_def loss_rec_fmt_def t_def)
  then obtain bs where bs: "encode_loss_rec trims r = Inr bs"
    using struct_pack_ok by (force simp: encode_loss_rec_def t_def)
  note pk = unpack_packed [OF bs [unfolded encode_loss_rec_def, folded t_def]]
  have "t = min (lr_trimmed r) 0xFFFF" using assms(1,3) by (auto simp: t_def loss_record_ok_iff)
  then have mk: "mk_plane_loss_record (lr_plane_id r) (lr_path_id r) (lr_seen r) (lr_expected r)
      (lr_max_gap r) t = Inr (saturate_trimmed r)"
    using assms(1) unfolding mk_record_Inr
    by (auto simp: saturate_trimmed_def loss_record_ok_iff min_def intro!: plane_loss_record.equality)
  have "version \<noteq> LOSS_REPORT_VERSION_TRIMMED \<Longrightarrow> t = 0"
    using assms(2) by (auto simp: t_def)
  then show ?thesis using bs pk mk by auto
qed

lemma decode_encoded_recs:
  assumes "\<forall>r \<in> set planes. loss_record_ok r \<and> (trims \<or> lr_trimmed r = 0)"
    and "version = (if trims then LOSS_REPORT_VERSION_TRIMMED else LOSS_REPORT_VERSION)"
  shows "\<exists>recs. mapE (encode_loss_rec trims) planes = Inr recs
    \<and> length (concat recs) = length planes * loss_rec_size
    \<and> (\<forall>pre tail. decode_loss_recs version (length planes) (length pre) (pre @ concat recs @ tail)
         = Inr (map saturate_trimmed planes))"
  using assms(1)
proof (induction planes)
  case (Cons r planes)
  obtain bs where bs: "encode_loss_rec trims r = Inr bs" "length bs = loss_rec_size"
    "\<And>pre tail n. decode_loss_recs version (Suc n) (length pre) (pre @ bs @ tail) =
         bindE (decode_loss_recs version n (length pre + loss_rec_size) (pre @ bs @ tail))
           (\<lambda>rs. Inr (saturate_trimmed r # rs))"
    using encode_loss_rec_ok [of r version trims] Cons.prems assms(2) by auto
  obtain recs where recs: "mapE (encode_loss_rec trims) planes = Inr recs"
    "length (concat recs) = length planes * loss_rec_size"
    "\<And>pre tail. decode_loss_recs version (length planes) (length pre) (pre @ concat recs @ tail)
         = Inr (map saturate_trimmed planes)"
    using Cons by auto
  have "decode_loss_recs version (length planes) (length pre + loss_rec_size)
      (pre @ bs @ concat recs @ tail) = Inr (map saturate_trimmed planes)" for pre tail
    using recs(3) [of "pre @ bs" tail] bs(2) by simp
  then have "decode_loss_recs version (Suc (length planes)) (length pre)
      (pre @ concat (bs # recs) @ tail) = Inr (map saturate_trimmed (r # planes))" for pre tail
    using bs(3) [of "length planes" pre "concat recs @ tail"] by simp
  then show ?case using bs(1,2) recs(1,2) by auto
qed simp

lemma encode_loss_report_ok:
  assumes "loss_report_ok r"
  shows "\<exists>bs. encode_loss_report (rp_window_id r) (rp_planes r) = Inr bs
    \<and> length bs = loss_hdr_size + length (rp_planes r) * loss_rec_size
    \<and> (\<forall>tail. decode_loss_report (bs @ tail) = Inr (wire_report r))"
proof -
  let ?ps = "rp_planes r"
  define trims where "trims \<longleftrightarrow> (\<exists>x \<in> set ?ps. lr_trimmed x \<noteq> 0)"
  define version where
    "version = (if trims then LOSS_REPORT_VERSION_TRIMMED else LOSS_REPORT_VERSION)"
  have w: "check_u16 (rp_window_id r) = Inr ()" "length ?ps \<le> 0xFFFF"
    using assms by (simp_all add: loss_report_ok_def)
  then have wr: "0 \<le> rp_window_id r" "rp_window_id r \<le> 0xFFFF" "int (length ?ps) \<le> 0xFFFF"
    by (simp_all add: check_u16_def)
  have "fits loss_hdr_fmt [MAGIC_LOSS_REPORT, version, rp_window_id r, int (length ?ps), 0]"
    using wr by (simp add: fits_def loss_hdr_fmt_def version_def wire_constants)
  then obtain hdr where hdr: "struct_pack loss_hdr_fmt
      [MAGIC_LOSS_REPORT, version, rp_window_id r, int (length ?ps), 0] = Inr hdr"
    using struct_pack_ok by force
  note pk = unpack_packed [OF hdr]
  have "\<forall>x \<in> set ?ps. loss_record_ok x \<and> (trims \<or> lr_trimmed x = 0)"
    using assms by (auto simp: loss_report_ok_def trims_def)
  from decode_encoded_recs [OF this version_def] obtain recs where
    recs: "mapE (encode_loss_rec trims) ?ps = Inr recs"
    "length (concat recs) = length ?ps * loss_rec_size"
    "\<And>pre tail. decode_loss_recs version (length ?ps) (length pre) (pre @ concat recs @ tail)
         = Inr (map saturate_trimmed ?ps)" by blast
  have enc: "encode_loss_report (rp_window_id r) ?ps = Inr (hdr @ concat recs)"
    using w hdr recs(1) by (simp add: encode_loss_report_def Let_def flip: trims_def version_def)
  have "decode_loss_report ((hdr @ concat recs) @ tail) = Inr (wire_report r)" for tail
  proof -
    have "mk_loss_report (rp_window_id r) (map saturate_trimmed ?ps) = Inr (wire_report r)"
      using w by (simp add: mk_loss_report_def wire_report_def)
    moreover have "version \<in> {LOSS_REPORT_VERSION, LOSS_REPORT_VERSION_TRIMMED}"
      by (simp add: version_def)
    ultimately show ?thesis
      using pk(1) [of "concat recs @ tail"] pk(2) recs(2) recs(3) [of hdr tail]
      by (simp add: decode_loss_report_def)
  qed
  then show ?thesis using enc pk(2) recs(2) by simp
qed

lemma decode_loss_recs_ok:
  assumes "off + n * loss_rec_size \<le> length payload"
  shows "\<exists>rs. decode_loss_recs version n off payload = Inr rs \<and> length rs = n
    \<and> (\<forall>r \<in> set rs. loss_record_ok r \<and> lr_trimmed r \<le> 0xFFFF
         \<and> (version = LOSS_REPORT_VERSION_TRIMMED \<or> lr_trimmed r = 0))"
  using assms
proof (induction n arbitrary: off)
  case (Suc n)
  have "calcsize loss_rec_fmt \<le> length (drop off payload)" using Suc.prems by simp
  from unpack_cases [OF this] obtain f where
    f: "struct_unpack loss_rec_fmt (take loss_rec_size (drop off payload)) = Inr f"
      "fits loss_rec_fmt f" by auto
  let ?t = "if version = LOSS_REPORT_VERSION_TRIMMED then f ! 2 else 0"
  let ?r = "\<lparr>lr_plane_id = f ! 0, lr_path_id = f ! 1, lr_seen = f ! 3, lr_expected = f ! 4,
    lr_max_gap = f ! 5, lr_trimmed = ?t\<rparr>"
  have r: "loss_record_ok ?r" "?t \<le> 0xFFFF"
    using fits_nth [OF f(2), of 0] fits_nth [OF f(2), of 1] fits_nth [OF f(2), of 2]
      fits_nth [OF f(2), of 3] fits_nth [OF f(2), of 4] fits_nth [OF f(2), of 5]
    by (auto simp: loss_record_ok_iff loss_rec_fmt_def)
  then have mk: "mk_plane_loss_record (f ! 0) (f ! 1) (f ! 3) (f ! 4) (f ! 5) ?t = Inr ?r"
    by (simp add: mk_record_Inr)
  obtain rs where "decode_loss_recs version n (off + loss_rec_size) payload = Inr rs"
    "length rs = n" "\<forall>r \<in> set rs. loss_record_ok r \<and> lr_trimmed r \<le> 0xFFFF
         \<and> (version = LOSS_REPORT_VERSION_TRIMMED \<or> lr_trimmed r = 0)"
    using Suc.IH [of "off + loss_rec_size"] Suc.prems by auto
  then show ?case using f(1) mk r by simp
qed simp

lemma decode_loss_report_cases:
  "(\<exists>r. decode_loss_report bs = Inr r \<and> loss_report_ok r \<and> wire_report r = r)
   \<or> decode_loss_report bs = Inl ProbeDecodeError"
proof (cases "length bs < loss_hdr_size")
  case False
  then obtain f where f: "struct_unpack loss_hdr_fmt (take loss_hdr_size bs) = Inr f" "fits loss_hdr_fmt f"
    using unpack_cases [of loss_hdr_fmt bs] by auto
  show ?thesis
  proof (cases "f ! 0 = MAGIC_LOSS_REPORT \<and> f ! 1 \<in> {LOSS_REPORT_VERSION, LOSS_REPORT_VERSION_TRIMMED}
      \<and> loss_hdr_size + nat (f ! 3) * loss_rec_size \<le> length bs")
    case True
    then obtain rs where rs: "decode_loss_recs (f ! 1) (nat (f ! 3)) loss_hdr_size bs = Inr rs"
      "length rs = nat (f ! 3)" "\<forall>r \<in> set rs. loss_record_ok r \<and> lr_trimmed r \<le> 0xFFFF"
      using decode_loss_recs_ok [of loss_hdr_size "nat (f ! 3)" bs "f ! 1"] by blast
    have win: "0 \<le> f ! 2" "f ! 2 \<le> 0xFFFF" "f ! 3 \<le> 0xFFFF"
      using fits_nth [OF f(2), of 2] fits_nth [OF f(2), of 3] by (simp_all add: loss_hdr_fmt_def)
    have "map saturate_trimmed rs = rs"
      using rs(3) by (intro map_idI) (auto simp: saturate_trimmed_def)
    then show ?thesis
      using True f(1) rs win
      by (simp add: decode_loss_report_def mk_loss_report_def check_u16_def loss_report_ok_def
          wire_report_def)
  next
    case no: False
    then show ?thesis using False f(1) by (auto simp: decode_loss_report_def not_le)
  qed
qed (simp add: decode_loss_report_def)

definition enc_loss_report :: "loss_report \<Rightarrow> bytes result" where
  "enc_loss_report r = encode_loss_report (rp_window_id r) (rp_planes r)"

interpretation loss_report: wire_codec enc_loss_report decode_loss_report loss_report_ok wire_report
proof
  show "\<exists>bs. enc_loss_report x = Inr bs \<and> (\<forall>tail. decode_loss_report (bs @ tail) = Inr (wire_report x))"
    if "loss_report_ok x" for x
    using encode_loss_report_ok [OF that] by (auto simp: enc_loss_report_def)
  show "loss_report_ok x \<and> wire_report x = x" if "decode_loss_report bs = Inr x" for bs x
    using decode_loss_report_cases [of bs] that by auto
  show "e = ProbeDecodeError" if "decode_loss_report bs = Inl e" for bs e
    using decode_loss_report_cases [of bs] that by auto
qed

subsection \<open>Properties of the wire formats\<close>

text \<open>
  A probe in range encodes to 10 bytes and decodes to itself, whatever follows it in the
  datagram.
\<close>

theorem wire_probe_roundtrip:
  assumes "probe_ok p"
  shows "\<exists>bs. enc_probe p = Inr bs \<and> length bs = probe_size
    \<and> (\<forall>tail. decode_probe (bs @ tail) = Inr p)"
  by (rule enc_probe_ok [OF assms])

theorem wire_probe_roundtrip_witness:
  "\<exists>bs. enc_probe \<lparr>pr_plane_id = 3, pr_path_id = 7, pr_tenant_id = 1, pr_src_id = 300, pr_dst_id = 15\<rparr>
     = Inr bs \<and> length bs = probe_size"
proof -
  let ?p = "\<lparr>pr_plane_id = 3, pr_path_id = 7, pr_tenant_id = 1, pr_src_id = 300, pr_dst_id = 15\<rparr>"
  have "probe_ok ?p" by (simp add: probe_ok_iff)
  from wire_probe_roundtrip [OF this] show ?thesis by blast
qed

text \<open>
  A NACK in range encodes to 18 bytes and decodes to itself, and no other NACK has the same
  bytes, even as a prefix.
\<close>

theorem wire_nack_roundtrip:
  assumes "nack_ok n"
  shows "\<exists>bs. encode_nack n = Inr bs \<and> length bs = nack_size
    \<and> (\<forall>tail. decode_nack (bs @ tail) = Inr n)
    \<and> (\<forall>m tail. nack_ok m \<and> encode_nack m = Inr (bs @ tail) \<longrightarrow> m = n)"
proof -
  obtain bs where bs: "encode_nack n = Inr bs" "length bs = nack_size"
    "\<forall>tail. decode_nack (bs @ tail) = Inr n" using encode_nack_ok [OF assms] by blast
  then show ?thesis using nack.prefix_free [OF assms _ bs(1)] by blast
qed

theorem wire_nack_roundtrip_witness:
  "\<exists>bs. encode_nack \<lparr>nk_plane_id = 0, nk_path_id = 1, nk_tenant_id = 2, nk_src_id = 3, nk_dst_id = 4,
      nk_seq = 2 ^ 40\<rparr> = Inr bs \<and> length bs = nack_size"
proof -
  let ?n = "\<lparr>nk_plane_id = 0, nk_path_id = 1, nk_tenant_id = 2, nk_src_id = 3, nk_dst_id = 4,
      nk_seq = 2 ^ 40\<rparr>"
  have "nack_ok ?n" by (simp add: nack_ok_iff)
  from wire_nack_roundtrip [OF this] show ?thesis by blast
qed

text \<open>
  C40. A loss report of checked records round-trips up to the saturation of the trimmed counts at
  65535, in \<open>8 + 16 * records\<close> bytes; a report with no trimmed packets is byte-for-byte version 2
  and loses nothing.
\<close>

theorem wire_loss_report_roundtrip:
  assumes "loss_report_ok r"
  shows "\<exists>bs. enc_loss_report r = Inr bs
    \<and> length bs = loss_hdr_size + length (rp_planes r) * loss_rec_size
    \<and> (\<forall>tail. decode_loss_report (bs @ tail) = Inr (wire_report r))
    \<and> ((\<forall>x \<in> set (rp_planes r). lr_trimmed x = 0) \<longrightarrow>
         decode_loss_report bs = Inr r \<and> bs ! 1 = word_of_int LOSS_REPORT_VERSION)"
proof -
  obtain bs where bs: "enc_loss_report r = Inr bs"
    "length bs = loss_hdr_size + length (rp_planes r) * loss_rec_size"
    "\<And>tail. decode_loss_report (bs @ tail) = Inr (wire_report r)"
    using encode_loss_report_ok [OF assms] by (auto simp: enc_loss_report_def)
  have "decode_loss_report bs = Inr r \<and> bs ! 1 = word_of_int LOSS_REPORT_VERSION"
    if none: "\<forall>x \<in> set (rp_planes r). lr_trimmed x = 0"
  proof
    have "map saturate_trimmed (rp_planes r) = rp_planes r"
      using none by (intro map_idI) (auto simp: saturate_trimmed_def)
    then show "decode_loss_report bs = Inr r" using bs(3) [of "[]"] by (simp add: wire_report_def)
    have "\<not> (\<exists>x \<in> set (rp_planes r). lr_trimmed x \<noteq> 0)" using none by blast
    then show "bs ! 1 = word_of_int LOSS_REPORT_VERSION"
      using bs(1)
      by (auto simp: enc_loss_report_def encode_loss_report_def Let_def py_simps loss_hdr_fmt_def
          numeral_2_eq_2 split: if_splits)
  qed
  with bs show ?thesis by blast
qed

theorem wire_loss_report_roundtrip_witness:
  "\<exists>bs. enc_loss_report \<lparr>rp_window_id = 9, rp_planes =
       [\<lparr>lr_plane_id = 1, lr_path_id = 0, lr_seen = 5, lr_expected = 8, lr_max_gap = 2, lr_trimmed = 0\<rparr>]\<rparr>
     = Inr bs \<and> length bs = 24"
proof -
  let ?r = "\<lparr>rp_window_id = 9, rp_planes =
       [\<lparr>lr_plane_id = 1, lr_path_id = 0, lr_seen = 5, lr_expected = 8, lr_max_gap = 2, lr_trimmed = 0\<rparr>]\<rparr>"
  have "loss_report_ok ?r" by (simp add: loss_report_ok_def loss_record_ok_iff check_u16_def)
  from wire_loss_report_roundtrip [OF this] show ?thesis by auto
qed

text \<open>
  The decoders are total on arbitrary bytes: each returns a value that passes the payload
  class's own checks, or raises ProbeDecodeError, and nothing else (no struct.error, no
  ValueError from the classes).
\<close>

theorem wire_decoders_total:
  "((\<exists>p. decode_probe bs = Inr p \<and> probe_ok p) \<or> decode_probe bs = Inl ProbeDecodeError)
   \<and> ((\<exists>n. decode_nack bs = Inr n \<and> nack_ok n) \<or> decode_nack bs = Inl ProbeDecodeError)
   \<and> ((\<exists>r. decode_loss_report bs = Inr r \<and> loss_report_ok r)
       \<or> decode_loss_report bs = Inl ProbeDecodeError)"
  using probe.total [of bs] nack.total [of bs] loss_report.total [of bs] by blast

lemma decoded_magic:
  "decode_probe bs = Inr p \<Longrightarrow> be_int (take 1 bs) = MAGIC_PROBE"
  "decode_nack bs = Inr n \<Longrightarrow> be_int (take 1 bs) = MAGIC_NACK"
  "decode_loss_report bs = Inr r \<Longrightarrow> be_int (take 1 bs) = MAGIC_LOSS_REPORT"
  by (auto simp: decode_probe_def decode_nack_def decode_loss_report_def py_simps struct_unpack_def
      probe_fmt_def nack_fmt_def loss_hdr_fmt_def split: if_splits)

text \<open>
  The three formats share a port without confusion: whatever bytes arrive, at most one of the
  three decoders accepts them.
\<close>

theorem wire_kinds_exclusive:
  "length (filter (\<lambda>accepted. accepted)
     [\<not> isl (decode_probe bs), \<not> isl (decode_nack bs), \<not> isl (decode_loss_report bs)]) \<le> 1"
proof -
  have "MAGIC_PROBE \<noteq> MAGIC_NACK" "MAGIC_PROBE \<noteq> MAGIC_LOSS_REPORT" "MAGIC_NACK \<noteq> MAGIC_LOSS_REPORT"
    by (simp_all add: wire_constants)
  then show ?thesis
    using decoded_magic [of bs]
    by (cases "decode_probe bs"; cases "decode_nack bs"; cases "decode_loss_report bs") auto
qed

end
