(* ===== verification/Json.thy ===== *)
theory Json
  imports Prelude PyFloat "HOL-Library.AList"
begin

text \<open>
  Python dictionaries in insertion order, as association lists (\<open>AList.update\<close> replaces in place
  or appends, \<open>AList.delete\<close> removes), and the JSON-shaped values the program writes to and reads
  from its state files. The text encoding itself is the standard library's.
\<close>

subsection \<open>Dictionaries\<close>

abbreviation dict_put :: "'k \<Rightarrow> 'v \<Rightarrow> ('k \<times> 'v) list \<Rightarrow> ('k \<times> 'v) list" where
  "dict_put \<equiv> AList.update"

abbreviation dict_del :: "'k \<Rightarrow> ('k \<times> 'v) list \<Rightarrow> ('k \<times> 'v) list" where
  "dict_del \<equiv> AList.delete"

abbreviation dict_get :: "('k \<times> 'v) list \<Rightarrow> 'k \<Rightarrow> 'v option" where
  "dict_get \<equiv> map_of"

definition dict_ok :: "('k \<times> 'v) list \<Rightarrow> bool" where
  "dict_ok d \<longleftrightarrow> distinct (map fst d)"

lemma dict_ok_Nil [simp]: "dict_ok []"
  by (simp add: dict_ok_def)

lemma dict_ok_put [simp]: "dict_ok d \<Longrightarrow> dict_ok (dict_put k v d)"
  by (simp add: dict_ok_def distinct_update)

lemma dict_ok_del [simp]: "dict_ok d \<Longrightarrow> dict_ok (dict_del k d)"
  by (simp add: dict_ok_def distinct_delete)

lemma dict_get_put [simp]: "dict_get (dict_put k v d) j = (if j = k then Some v else dict_get d j)"
  by (simp add: update_conv')

lemma dict_get_del [simp]: "dict_get (dict_del k d) j = (if j = k then None else dict_get d j)"
  by (simp add: delete_conv')

lemma dict_keys_put_new: "dict_get d k = None \<Longrightarrow> dict_put k v d = d @ [(k, v)]"
  by (induction d) (auto split: if_splits)

lemma dict_keys_put_old:
  "dict_get d k \<noteq> None \<Longrightarrow> map fst (dict_put k v d) = map fst d"
  by (induction d) (auto split: if_splits)

text \<open>The entries of a dictionary other than the updated one stay where they are.\<close>

lemma dict_get_Some_mem: "dict_get d k = Some v \<Longrightarrow> (k, v) \<in> set d"
  by (rule map_of_SomeD)

lemma dict_get_iff_mem: "dict_ok d \<Longrightarrow> dict_get d k = Some v \<longleftrightarrow> (k, v) \<in> set d"
  by (simp add: dict_ok_def map_of_eq_Some_iff)

subsection \<open>JSON values\<close>

datatype json =
    JNull
  | JBool bool
  | JInt int
  | JFloat pyfloat
  | JStr string
  | JList "json list"
  | JObj "(string \<times> json) list"

text \<open>\<open>d[k]\<close> and \<open>d.get(k)\<close> on a decoded object.\<close>

definition jget :: "json \<Rightarrow> string \<Rightarrow> json option" where
  "jget j k = (case j of JObj kv \<Rightarrow> dict_get kv k | _ \<Rightarrow> None)"

definition jitem :: "json \<Rightarrow> string \<Rightarrow> json result" where
  "jitem j k =
     (case j of
        JObj kv \<Rightarrow> (case dict_get kv k of Some v \<Rightarrow> Inr v | None \<Rightarrow> Inl KeyError)
      | _ \<Rightarrow> Inl TypeError)"

lemma jget_JObj [simp]: "jget (JObj kv) k = dict_get kv k"
  by (simp add: jget_def)

lemma jitem_JObj [simp]:
  "jitem (JObj kv) k = (case dict_get kv k of Some v \<Rightarrow> Inr v | None \<Rightarrow> Inl KeyError)"
  by (simp add: jitem_def)

definition jopt_int :: "int option \<Rightarrow> json" where
  "jopt_int n = (case n of None \<Rightarrow> JNull | Some k \<Rightarrow> JInt k)"

end
