(* ===== verification/LossWindow.thy ===== *)
theory LossWindow
  imports ProbeWire Json
begin

text \<open>
  The receiver's loss windows, \<^verbatim>\<open>srv6_mrc/mrc/loss_window.py\<close>: per-(flow, plane, path) counters
  over the packets of the current window, closed into a LOSS_REPORT by \<open>snapshot_and_reset\<close>.
  The specification is the event history: what a report says is a function of the arrivals on
  each EV since the flow's previous snapshot.
\<close>

subsection \<open>Counters and windows\<close>

record ev_counters =
  c_seen :: int
  c_min_seq :: int
  c_max_seq :: int
  c_max_gap :: int
  c_last_seq :: int
  c_trimmed :: int

definition new_counters :: ev_counters where
  "new_counters = \<lparr>c_seen = 0, c_min_seq = - 1, c_max_seq = - 1, c_max_gap = 0, c_last_seq = - 1,
     c_trimmed = 0\<rparr>"

record flow_window =
  next_window_id :: int
  fw_evs :: "ev_counters list list"

definition new_flow_window :: flow_window where
  "new_flow_window = \<lparr>next_window_id = 0, fw_evs = []\<rparr>"

definition flow_reset :: "nat \<Rightarrow> nat \<Rightarrow> flow_window \<Rightarrow> flow_window" where
  "flow_reset P Q f = f\<lparr>fw_evs := grid_const P Q new_counters\<rparr>"

record 'k loss_window_table =
  lw_planes :: nat
  lw_paths :: nat
  lw_flows :: "('k \<times> flow_window) list"

definition mk_loss_window_table :: "int \<Rightarrow> int \<Rightarrow> 'k loss_window_table result" where
  "mk_loss_window_table planes paths =
     bindE (raise_if (planes \<le> 0) ValueError) (\<lambda>_.
     bindE (raise_if (paths \<le> 0) ValueError) (\<lambda>_.
       Inr \<lparr>lw_planes = nat planes, lw_paths = nat paths, lw_flows = []\<rparr>))"

text \<open>The lazily created flow of a key, as each method looks it up.\<close>

definition lw_flow :: "'k loss_window_table \<Rightarrow> 'k \<Rightarrow> flow_window" where
  "lw_flow t k =
     (case dict_get (lw_flows t) k of
        Some f \<Rightarrow> f
      | None \<Rightarrow> flow_reset (lw_planes t) (lw_paths t) new_flow_window)"

definition lw_put :: "'k loss_window_table \<Rightarrow> 'k \<Rightarrow> flow_window \<Rightarrow> 'k loss_window_table" where
  "lw_put t k f = t\<lparr>lw_flows := dict_put k f (lw_flows t)\<rparr>"

definition lw_check_ev :: "'k loss_window_table \<Rightarrow> int \<Rightarrow> int \<Rightarrow> unit result" where
  "lw_check_ev t plane path =
     bindE (raise_if (\<not> (0 \<le> plane \<and> plane < int (lw_planes t))) ValueError) (\<lambda>_.
       raise_if (\<not> (0 \<le> path \<and> path < int (lw_paths t))) ValueError)"

subsection \<open>Recording\<close>

definition count_arrival :: "int \<Rightarrow> ev_counters \<Rightarrow> ev_counters" where
  "count_arrival sq c =
     (let c1 = c\<lparr>c_seen := c_seen c + 1\<rparr>;
          c2 = (if c_min_seq c1 < 0 \<or> sq < c_min_seq c1 then c1\<lparr>c_min_seq := sq\<rparr> else c1);
          c3 = (if c_max_seq c2 < sq then c2\<lparr>c_max_seq := sq\<rparr> else c2);
          c4 = (if 0 \<le> c_last_seq c3
                then let gap = sq - c_last_seq c3
                     in if c_max_gap c3 < gap then c3\<lparr>c_max_gap := gap\<rparr> else c3
                else c3)
      in c4\<lparr>c_last_seq := sq\<rparr>)"

definition lw_update ::
  "'k loss_window_table \<Rightarrow> 'k \<Rightarrow> nat \<Rightarrow> nat \<Rightarrow> (ev_counters \<Rightarrow> ev_counters) \<Rightarrow> 'k loss_window_table" where
  "lw_update t k p q f =
     (let w = lw_flow t k
      in lw_put t k (w\<lparr>fw_evs := gset (fw_evs w) p q (f (gget (fw_evs w) p q))\<rparr>))"

definition lw_record ::
  "'k loss_window_table \<Rightarrow> 'k \<Rightarrow> int \<Rightarrow> int \<Rightarrow> int \<Rightarrow> 'k loss_window_table result" where
  "lw_record t k plane path sq =
     bindE (lw_check_ev t plane path) (\<lambda>_.
     bindE (raise_if (sq < 0 \<or> 0xFFFFFFFF < sq) ValueError) (\<lambda>_.
       Inr (lw_update t k (nat plane) (nat path) (count_arrival sq))))"

definition lw_record_trimmed ::
  "'k loss_window_table \<Rightarrow> 'k \<Rightarrow> int \<Rightarrow> int \<Rightarrow> 'k loss_window_table result" where
  "lw_record_trimmed t k plane path =
     bindE (lw_check_ev t plane path) (\<lambda>_.
       Inr (lw_update t k (nat plane) (nat path) (\<lambda>c. c\<lparr>c_trimmed := c_trimmed c + 1\<rparr>)))"

subsection \<open>Closing a window\<close>

definition ev_active :: "ev_counters \<Rightarrow> bool" where
  "ev_active c \<longleftrightarrow> \<not> (c_seen c = 0 \<and> c_trimmed c = 0)"

definition close_ev :: "nat \<times> nat \<Rightarrow> ev_counters \<Rightarrow> plane_loss_record result" where
  "close_ev ev c =
     (let expected_local = (if c_min_seq c < 0 then 0 else c_max_seq c - c_min_seq c + 1)
      in mk_plane_loss_record (int (fst ev)) (int (snd ev)) (min (c_seen c) 0xFFFFFFFF)
           (min expected_local 0xFFFFFFFF) (min (c_max_gap c) 0xFFFFFFFF)
           (min (c_trimmed c) 0xFFFFFFFF))"

text \<open>
  The window id advances before the records are built, so a record that cannot be built (a plane
  or path above 255) leaves the advanced id behind with the counters still in place.
\<close>

definition snapshot_and_reset ::
  "'k loss_window_table \<Rightarrow> 'k \<Rightarrow> 'k loss_window_table \<times> loss_report result" where
  "snapshot_and_reset t k =
     (let P = lw_planes t; Q = lw_paths t;
          w = lw_flow t k;
          window_id = next_window_id w;
          w1 = w\<lparr>next_window_id := (window_id + 1) mod 0x10000\<rparr>
      in case mapE (\<lambda>ev. close_ev ev (gget (fw_evs w1) (fst ev) (snd ev)))
                (filter (\<lambda>ev. ev_active (gget (fw_evs w1) (fst ev) (snd ev))) (cells P Q)) of
           Inl e \<Rightarrow> (lw_put t k w1, Inl e)
         | Inr recs \<Rightarrow> (lw_put t k (flow_reset P Q w1), mk_loss_report window_id recs))"

definition known_flows :: "'k loss_window_table \<Rightarrow> 'k list" where
  "known_flows t = map fst (lw_flows t)"

definition lw_forget :: "'k loss_window_table \<Rightarrow> 'k \<Rightarrow> 'k loss_window_table" where
  "lw_forget t k = t\<lparr>lw_flows := dict_del k (lw_flows t)\<rparr>"

subsection \<open>The summary of an arrival log\<close>

fun gaps :: "int list \<Rightarrow> int list" where
  "gaps (x # y # zs) = (y - x) # gaps (y # zs)"
| "gaps xs = []"

definition summary :: "int list \<Rightarrow> nat \<Rightarrow> ev_counters" where
  "summary xs n =
     \<lparr>c_seen = int (length xs),
      c_min_seq = (if xs = [] then - 1 else Min (set xs)),
      c_max_seq = (if xs = [] then - 1 else Max (set xs)),
      c_max_gap = Max (insert 0 (set (gaps xs))),
      c_last_seq = (if xs = [] then - 1 else List.last xs),
      c_trimmed = int n\<rparr>"

lemma summary_Nil [simp]: "summary [] 0 = new_counters"
  by (simp add: summary_def new_counters_def)

lemma gaps_snoc: "xs \<noteq> [] \<Longrightarrow> gaps (xs @ [y]) = gaps xs @ [y - List.last xs]"
  by (induction xs rule: gaps.induct) auto

lemma count_arrival_fields:
  assumes "0 \<le> m" "0 \<le> l"
  shows "count_arrival s \<lparr>c_seen = k, c_min_seq = m, c_max_seq = M, c_max_gap = g, c_last_seq = l,
      c_trimmed = n\<rparr> =
    \<lparr>c_seen = k + 1, c_min_seq = min s m, c_max_seq = max s M, c_max_gap = max (s - l) g,
     c_last_seq = s, c_trimmed = n\<rparr>"
  using assms by (simp add: count_arrival_def Let_def min_def max_def)

lemma count_arrival_summary:
  assumes "\<forall>x \<in> set xs. 0 \<le> x" "0 \<le> s"
  shows "count_arrival s (summary xs n) = summary (xs @ [s]) n"
proof (cases "xs = []")
  case True
  then show ?thesis using assms(2) by (simp add: count_arrival_def summary_def Let_def)
next
  case False
  have pos: "0 \<le> Min (set xs)" "0 \<le> List.last xs" "0 \<le> Max (set xs)"
    using assms False Max_in [of "set xs"] by auto
  have mn: "Min (set (xs @ [s])) = min s (Min (set xs))"
    and mx: "Max (set (xs @ [s])) = max s (Max (set xs))"
    using False by simp_all
  have gp: "Max (insert 0 (set (gaps (xs @ [s])))) =
      max (s - List.last xs) (Max (insert 0 (set (gaps xs))))"
    using gaps_snoc [OF False] by (simp add: insert_commute [of 0])
  show ?thesis
    unfolding summary_def mn mx gp using False count_arrival_fields [OF pos(1,2)] by simp
qed

lemma trimmed_summary: "(summary xs n)\<lparr>c_trimmed := c_trimmed (summary xs n) + 1\<rparr> = summary xs (Suc n)"
  by (simp add: summary_def)

subsection \<open>Histories\<close>

text \<open>The calls a receiver makes; a call that raises leaves the table as \<open>lw_do\<close> says.\<close>

datatype 'k lw_event = Arrive 'k int int int | Trim 'k int int | Close 'k | Forget 'k

fun lw_do :: "'k loss_window_table \<Rightarrow> 'k lw_event \<Rightarrow> 'k loss_window_table" where
  "lw_do t (Arrive k plane path sq) =
     (case lw_record t k plane path sq of Inr t' \<Rightarrow> t' | Inl e \<Rightarrow> t)"
| "lw_do t (Trim k plane path) =
     (case lw_record_trimmed t k plane path of Inr t' \<Rightarrow> t' | Inl e \<Rightarrow> t)"
| "lw_do t (Close k) = fst (snapshot_and_reset t k)"
| "lw_do t (Forget k) = lw_forget t k"

definition lw_new :: "nat \<Rightarrow> nat \<Rightarrow> 'k loss_window_table" where
  "lw_new P Q = \<lparr>lw_planes = P, lw_paths = Q, lw_flows = []\<rparr>"

definition lw_run :: "nat \<Rightarrow> nat \<Rightarrow> 'k lw_event list \<Rightarrow> 'k loss_window_table" where
  "lw_run P Q es = foldl lw_do (lw_new P Q) es"

text \<open>The specification: the events of a flow since its window was opened, newest first.\<close>

definition in_window :: "'k \<Rightarrow> 'k lw_event list \<Rightarrow> 'k lw_event list" where
  "in_window k es = takeWhile (\<lambda>e. e \<noteq> Close k \<and> e \<noteq> Forget k) (rev es)"

fun arrival_of :: "'k \<Rightarrow> nat \<Rightarrow> nat \<Rightarrow> 'k lw_event \<Rightarrow> int option" where
  "arrival_of k p q (Arrive j plane path sq) =
     (if j = k \<and> plane = int p \<and> path = int q \<and> 0 \<le> sq \<and> sq \<le> 0xFFFFFFFF then Some sq else None)"
| "arrival_of k p q _ = None"

definition arrivals :: "'k \<Rightarrow> nat \<Rightarrow> nat \<Rightarrow> 'k lw_event list \<Rightarrow> int list" where
  "arrivals k p q es = rev (List.map_filter (arrival_of k p q) (in_window k es))"

definition trims :: "'k \<Rightarrow> nat \<Rightarrow> nat \<Rightarrow> 'k lw_event list \<Rightarrow> nat" where
  "trims k p q es = length (filter (\<lambda>e. e = Trim k (int p) (int q)) (in_window k es))"

definition windows_closed :: "'k \<Rightarrow> 'k lw_event list \<Rightarrow> nat" where
  "windows_closed k es =
     length (filter (\<lambda>e. e = Close k) (takeWhile (\<lambda>e. e \<noteq> Forget k) (rev es)))"

lemma arrivals_nonneg: "\<forall>x \<in> set (arrivals k p q es). 0 \<le> x"
proof -
  have "0 \<le> x" if "arrival_of k p q e = Some x" for e x
    using that by (cases e) (auto split: if_splits)
  then show ?thesis by (auto simp: arrivals_def List.map_filter_def)
qed

lemma in_window_snoc:
  "in_window k (es @ [e]) = (if e = Close k \<or> e = Forget k then [] else e # in_window k es)"
  by (simp add: in_window_def)

lemma history_snoc:
  "arrivals k p q (es @ [e]) = (if e = Close k \<or> e = Forget k then []
     else arrivals k p q es @ (case arrival_of k p q e of Some s \<Rightarrow> [s] | None \<Rightarrow> []))"
  "trims k p q (es @ [e]) = (if e = Close k \<or> e = Forget k then 0
     else trims k p q es + (if e = Trim k (int p) (int q) then 1 else 0))"
  "windows_closed k (es @ [e]) = (if e = Forget k then 0
     else windows_closed k es + (if e = Close k then 1 else 0))"
  by (auto simp: arrivals_def trims_def windows_closed_def in_window_snoc map_filter_simps
      split: option.splits)

text \<open>
  The refinement relation: every flow, created or not, holds the summary of its window's log, and
  its window id is the number of windows closed, modulo \<open>2^16\<close>.
\<close>

definition lw_models :: "nat \<Rightarrow> nat \<Rightarrow> 'k lw_event list \<Rightarrow> 'k loss_window_table \<Rightarrow> bool" where
  "lw_models P Q es t \<longleftrightarrow>
     lw_planes t = P \<and> lw_paths t = Q \<and> dict_ok (lw_flows t)
     \<and> (\<forall>k. shaped P Q (fw_evs (lw_flow t k))
          \<and> next_window_id (lw_flow t k) = int (windows_closed k es) mod 0x10000
          \<and> (\<forall>p < P. \<forall>q < Q.
               gget (fw_evs (lw_flow t k)) p q = summary (arrivals k p q es) (trims k p q es)))"

lemma lw_flow_put [simp]: "lw_flow (lw_put t k f) j = (if j = k then f else lw_flow t j)"
  by (simp add: lw_flow_def lw_put_def split: option.split)

lemma lw_put_fields [simp]:
  "lw_planes (lw_put t k f) = lw_planes t" "lw_paths (lw_put t k f) = lw_paths t"
  "dict_ok (lw_flows t) \<Longrightarrow> dict_ok (lw_flows (lw_put t k f))"
  by (simp_all add: lw_put_def)

lemma lw_models_new: "lw_models P Q [] (lw_new P Q)"
  by (simp add: lw_models_def lw_new_def lw_flow_def flow_reset_def new_flow_window_def
      windows_closed_def arrivals_def trims_def in_window_def List.map_filter_def)

text \<open>An update of one cell of one flow, against one more event.\<close>

lemma lw_models_update:
  assumes m: "lw_models P Q es t" and e: "e \<noteq> Close k" "\<And>j. e \<noteq> Close j" "\<And>j. e \<noteq> Forget j"
    and pq: "p < P" "q < Q"
    and upd: "f (summary (arrivals k p q es) (trims k p q es)) =
      summary (arrivals k p q (es @ [e])) (trims k p q (es @ [e]))"
    and same: "\<And>j a b. (j, a, b) \<noteq> (k, p, q) \<Longrightarrow>
      arrivals j a b (es @ [e]) = arrivals j a b es \<and> trims j a b (es @ [e]) = trims j a b es"
  shows "lw_models P Q (es @ [e]) (lw_update t k p q f)"
proof -
  have sh: "shaped P Q (fw_evs (lw_flow t k))" using m by (simp add: lw_models_def)
  have "shaped P Q (fw_evs (lw_flow (lw_update t k p q f) j))
      \<and> next_window_id (lw_flow (lw_update t k p q f) j) = int (windows_closed j (es @ [e])) mod 0x10000
      \<and> (\<forall>a < P. \<forall>b < Q. gget (fw_evs (lw_flow (lw_update t k p q f) j)) a b =
             summary (arrivals j a b (es @ [e])) (trims j a b (es @ [e])))" for j
  proof (cases "j = k")
    case True
    have cell: "gget (fw_evs (lw_flow t k)) a b = summary (arrivals k a b es) (trims k a b es)"
      if "a < P" "b < Q" for a b using m that by (simp add: lw_models_def)
    have "gget (fw_evs (lw_flow (lw_update t k p q f) k)) a b =
        (if a = p \<and> b = q then f (gget (fw_evs (lw_flow t k)) p q) else gget (fw_evs (lw_flow t k)) a b)"
      for a b
      by (simp add: lw_update_def Let_def gget_gset [OF sh pq])
    then have "gget (fw_evs (lw_flow (lw_update t k p q f) k)) a b =
        summary (arrivals k a b (es @ [e])) (trims k a b (es @ [e]))" if "a < P" "b < Q" for a b
      using that pq upd same [of k a b] cell by auto
    then show ?thesis
      using True m e pq sh by (simp add: lw_update_def Let_def history_snoc(3) lw_models_def)
  next
    case False
    then show ?thesis
      using m e same [of j] by (auto simp: lw_update_def Let_def history_snoc(3) lw_models_def)
  qed
  then show ?thesis using m by (simp add: lw_models_def lw_update_def Let_def)
qed

lemma lw_models_idle:
  assumes m: "lw_models P Q es t" and e: "\<And>j. e \<noteq> Close j" "\<And>j. e \<noteq> Forget j"
    and same: "\<And>j a b. a < P \<Longrightarrow> b < Q \<Longrightarrow>
      arrivals j a b (es @ [e]) = arrivals j a b es \<and> trims j a b (es @ [e]) = trims j a b es"
  shows "lw_models P Q (es @ [e]) t"
  using assms by (simp add: lw_models_def history_snoc(3))

subsection \<open>Every call keeps the refinement\<close>

lemma lw_check_ev_Inr:
  "lw_check_ev t plane path = Inr u \<longleftrightarrow>
     0 \<le> plane \<and> plane < int (lw_planes t) \<and> 0 \<le> path \<and> path < int (lw_paths t)"
  by (auto simp: lw_check_ev_def)

lemma lw_models_arrive:
  assumes m: "lw_models P Q es t"
  shows "lw_models P Q (es @ [Arrive k plane path sq]) (lw_do t (Arrive k plane path sq))"
proof (cases "lw_record t k plane path sq")
  case (Inr t')
  let ?e = "Arrive k plane path sq" and ?p = "nat plane" and ?q = "nat path"
  have r: "0 \<le> plane" "plane < int P" "0 \<le> path" "path < int Q" "0 \<le> sq" "sq \<le> 0xFFFFFFFF"
    "t' = lw_update t k ?p ?q (count_arrival sq)"
    using Inr m by (auto simp: lw_record_def py_simps lw_check_ev_Inr lw_models_def split: if_splits)
  have "lw_models P Q (es @ [?e]) (lw_update t k ?p ?q (count_arrival sq))"
  proof (rule lw_models_update [OF m])
    show "count_arrival sq (summary (arrivals k ?p ?q es) (trims k ?p ?q es)) =
        summary (arrivals k ?p ?q (es @ [?e])) (trims k ?p ?q (es @ [?e]))"
      using r count_arrival_summary [OF arrivals_nonneg] by (simp add: history_snoc)
    show "arrivals j a b (es @ [?e]) = arrivals j a b es \<and> trims j a b (es @ [?e]) = trims j a b es"
      if "(j, a, b) \<noteq> (k, ?p, ?q)" for j a b using that r by (auto simp: history_snoc)
  qed (use r in auto)
  then show ?thesis using Inr r(7) by simp
next
  case (Inl err)
  have "\<not> (0 \<le> plane \<and> plane < int P \<and> 0 \<le> path \<and> path < int Q \<and> 0 \<le> sq \<and> sq \<le> 0xFFFFFFFF)"
    using Inl m by (auto simp: lw_record_def py_simps lw_check_ev_def lw_models_def split: if_splits)
  then show ?thesis
    using Inl m by (auto intro!: lw_models_idle simp: history_snoc)
qed

lemma lw_models_trim:
  assumes m: "lw_models P Q es t"
  shows "lw_models P Q (es @ [Trim k plane path]) (lw_do t (Trim k plane path))"
proof (cases "lw_record_trimmed t k plane path")
  case (Inr t')
  let ?e = "Trim k plane path" and ?p = "nat plane" and ?q = "nat path"
  have r: "0 \<le> plane" "plane < int P" "0 \<le> path" "path < int Q"
    "t' = lw_update t k ?p ?q (\<lambda>c. c\<lparr>c_trimmed := c_trimmed c + 1\<rparr>)"
    using Inr m by (auto simp: lw_record_trimmed_def py_simps lw_check_ev_Inr lw_models_def)
  have "lw_models P Q (es @ [?e]) (lw_update t k ?p ?q (\<lambda>c. c\<lparr>c_trimmed := c_trimmed c + 1\<rparr>))"
  proof (rule lw_models_update [OF m])
    show "(summary (arrivals k ?p ?q es) (trims k ?p ?q es))
          \<lparr>c_trimmed := c_trimmed (summary (arrivals k ?p ?q es) (trims k ?p ?q es)) + 1\<rparr> =
        summary (arrivals k ?p ?q (es @ [?e])) (trims k ?p ?q (es @ [?e]))"
      using r by (simp add: history_snoc trimmed_summary)
    show "arrivals j a b (es @ [?e]) = arrivals j a b es \<and> trims j a b (es @ [?e]) = trims j a b es"
      if "(j, a, b) \<noteq> (k, ?p, ?q)" for j a b using that r by (auto simp: history_snoc)
  qed (use r in auto)
  then show ?thesis using Inr r(5) by simp
next
  case (Inl err)
  have "\<not> (0 \<le> plane \<and> plane < int P \<and> 0 \<le> path \<and> path < int Q)"
    using Inl m by (auto simp: lw_record_trimmed_def py_simps lw_check_ev_def lw_models_def)
  then show ?thesis
    using Inl m by (auto intro!: lw_models_idle simp: history_snoc)
qed

text \<open>What one EV contributes to a report.\<close>

definition ev_report :: "nat \<times> nat \<Rightarrow> int list \<Rightarrow> nat \<Rightarrow> plane_loss_record" where
  "ev_report ev xs n =
     \<lparr>lr_plane_id = int (fst ev), lr_path_id = int (snd ev),
      lr_seen = min (int (length xs)) 0xFFFFFFFF,
      lr_expected = min (if xs = [] then 0 else Max (set xs) - Min (set xs) + 1) 0xFFFFFFFF,
      lr_max_gap = min (Max (insert 0 (set (gaps xs)))) 0xFFFFFFFF,
      lr_trimmed = min (int n) 0xFFFFFFFF\<rparr>"

lemma close_ev_summary:
  assumes "fst ev \<le> 0xFF" "snd ev \<le> 0xFF" "\<forall>x \<in> set xs. 0 \<le> x"
  shows "close_ev ev (summary xs n) = Inr (ev_report ev xs n)" "loss_record_ok (ev_report ev xs n)"
proof -
  have mm: "Min (set xs) \<le> Max (set xs)" "0 \<le> Min (set xs)" if "xs \<noteq> []"
    using that assms(3) Max_in [of "set xs"] by (auto simp del: Max_in)
  show ok: "loss_record_ok (ev_report ev xs n)"
    using assms(1,2) mm by (auto simp: ev_report_def loss_record_ok_iff)
  have "(if c_min_seq (summary xs n) < 0 then 0
      else c_max_seq (summary xs n) - c_min_seq (summary xs n) + 1) =
      (if xs = [] then 0 else Max (set xs) - Min (set xs) + 1)"
    using mm(2) by (cases "xs = []") (simp_all add: summary_def not_less del: Min_less_iff Min_ge_iff)
  then show "close_ev ev (summary xs n) = Inr (ev_report ev xs n)"
    using ok unfolding close_ev_def Let_def mk_record_Inr
    by (simp add: ev_report_def summary_def)
qed

lemma ev_active_summary: "ev_active (summary xs n) \<longleftrightarrow> xs \<noteq> [] \<or> n \<noteq> 0"
  by (simp add: ev_active_def summary_def)

definition window_report :: "nat \<Rightarrow> nat \<Rightarrow> 'k \<Rightarrow> 'k lw_event list \<Rightarrow> loss_report" where
  "window_report P Q k es =
     \<lparr>rp_window_id = int (windows_closed k es) mod 0x10000,
      rp_planes = map (\<lambda>(p, q). ev_report (p, q) (arrivals k p q es) (trims k p q es))
        (filter (\<lambda>(p, q). arrivals k p q es \<noteq> [] \<or> trims k p q es \<noteq> 0) (cells P Q))\<rparr>"

lemma snapshot_report:
  assumes m: "lw_models P Q es t" and PQ: "P \<le> 0x100" "Q \<le> 0x100"
  shows "snapshot_and_reset t k =
    (lw_put t k (flow_reset P Q ((lw_flow t k)\<lparr>next_window_id :=
       (next_window_id (lw_flow t k) + 1) mod 0x10000\<rparr>)), Inr (window_report P Q k es))"
proof -
  let ?w = "lw_flow t k"
  let ?S = "\<lambda>ev. summary (arrivals k (fst ev) (snd ev) es) (trims k (fst ev) (snd ev) es)"
  have cell: "gget (fw_evs ?w) (fst ev) (snd ev) = ?S ev" if "ev \<in> set (cells P Q)" for ev
    using m that by (cases ev) (simp add: lw_models_def)
  have fl: "filter (\<lambda>ev. ev_active (gget (fw_evs ?w) (fst ev) (snd ev))) (cells P Q) =
      filter (\<lambda>(p, q). arrivals k p q es \<noteq> [] \<or> trims k p q es \<noteq> 0) (cells P Q)"
    by (rule filter_cong) (auto simp: cell ev_active_summary)
  have "mapE (\<lambda>ev. close_ev ev (gget (fw_evs ?w) (fst ev) (snd ev)))
      (filter (\<lambda>(p, q). arrivals k p q es \<noteq> [] \<or> trims k p q es \<noteq> 0) (cells P Q)) =
      Inr (rp_planes (window_report P Q k es))"
    unfolding window_report_def loss_report.simps
  proof (rule mapE_Inr)
    fix ev assume "ev \<in> set (filter (\<lambda>(p, q). arrivals k p q es \<noteq> [] \<or> trims k p q es \<noteq> 0) (cells P Q))"
    then have ev: "ev \<in> set (cells P Q)" by simp
    obtain p q where pq: "ev = (p, q)" "p < P" "q < Q" using ev by (metis set_cells surj_pair)
    then have "fst ev \<le> 0xFF" "snd ev \<le> 0xFF" using PQ by simp_all
    from close_ev_summary(1) [OF this arrivals_nonneg]
    show "close_ev ev (gget (fw_evs ?w) (fst ev) (snd ev)) =
        Inr ((\<lambda>(p, q). ev_report (p, q) (arrivals k p q es) (trims k p q es)) ev)"
      unfolding cell [OF ev] by (simp add: case_prod_beta)
  qed
  moreover have "mk_loss_report (next_window_id ?w) (rp_planes (window_report P Q k es)) =
      Inr (window_report P Q k es)"
  proof -
    have "next_window_id ?w = int (windows_closed k es) mod 0x10000" using m by (simp add: lw_models_def)
    moreover have "int (windows_closed k es) mod 0x10000 < 0x10000" by (rule pos_mod_bound) simp
    then have "\<not> 0xFFFF < int (windows_closed k es) mod 0x10000" by linarith
    moreover have "\<not> int (windows_closed k es) mod 0x10000 < 0" by (simp add: not_less)
    ultimately show ?thesis by (simp add: mk_loss_report_def check_u16_def window_report_def)
  qed
  ultimately show ?thesis
    using m by (simp add: snapshot_and_reset_def Let_def lw_models_def fl)
qed

lemma lw_models_close:
  assumes m: "lw_models P Q es t" and PQ: "P \<le> 0x100" "Q \<le> 0x100"
  shows "lw_models P Q (es @ [Close k]) (lw_do t (Close k))"
proof -
  have empty: "arrivals k p q (es @ [Close k]) = []" "trims k p q (es @ [Close k]) = 0" for p q
    by (simp_all add: history_snoc)
  have other: "arrivals j p q (es @ [Close k]) = arrivals j p q es" "trims j p q (es @ [Close k]) = trims j p q es"
    if "j \<noteq> k" for j p q using that by (simp_all add: history_snoc)
  have wid: "(int n mod 0x10000 + 1) mod 0x10000 = int (Suc n) mod 0x10000" for n
    unfolding mod_add_left_eq by (simp only: of_nat_Suc add.commute)
  let ?t = "lw_do t (Close k)"
  have t: "?t = lw_put t k (flow_reset P Q ((lw_flow t k)\<lparr>next_window_id :=
      (next_window_id (lw_flow t k) + 1) mod 0x10000\<rparr>))"
    by (simp add: snapshot_report [OF m PQ])
  have base: "lw_planes t = P" "lw_paths t = Q" "dict_ok (lw_flows t)"
    "next_window_id (lw_flow t k) = int (windows_closed k es) mod 0x10000"
    using m by (simp_all add: lw_models_def)
  have "shaped P Q (fw_evs (lw_flow ?t j))
      \<and> next_window_id (lw_flow ?t j) = int (windows_closed j (es @ [Close k])) mod 0x10000
      \<and> (\<forall>p < P. \<forall>q < Q. gget (fw_evs (lw_flow ?t j)) p q =
            summary (arrivals j p q (es @ [Close k])) (trims j p q (es @ [Close k])))" for j
  proof (cases "j = k")
    case True
    then show ?thesis
      unfolding t by (simp add: base(4) wid flow_reset_def empty history_snoc(3) del: of_nat_Suc)
  next
    case False
    then show ?thesis using m unfolding t by (simp add: other history_snoc(3) lw_models_def)
  qed
  moreover have "lw_planes ?t = P" "lw_paths ?t = Q" "dict_ok (lw_flows ?t)"
    unfolding t using base by simp_all
  ultimately show ?thesis unfolding lw_models_def by blast
qed

lemma lw_models_forget:
  assumes m: "lw_models P Q es t"
  shows "lw_models P Q (es @ [Forget k]) (lw_do t (Forget k))"
proof -
  have flow: "lw_flow (lw_forget t k) j =
      (if j = k then flow_reset P Q new_flow_window else lw_flow t j)" for j
    using m by (auto simp: lw_flow_def lw_forget_def lw_models_def split: option.split)
  have "arrivals j p q (es @ [Forget k]) = (if j = k then [] else arrivals j p q es)"
    "trims j p q (es @ [Forget k]) = (if j = k then 0 else trims j p q es)" for j p q
    by (simp_all add: history_snoc)
  then show ?thesis
    using m unfolding lw_models_def lw_do.simps flow
    by (auto simp: lw_forget_def flow_reset_def new_flow_window_def history_snoc(3))
qed

lemma lw_run_models:
  assumes "P \<le> 0x100" "Q \<le> 0x100"
  shows "lw_models P Q es (lw_run P Q es)"
proof (induction es rule: rev_induct)
  case (snoc e es)
  have "lw_models P Q (es @ [e]) (lw_do (lw_run P Q es) e)"
    using snoc assms
    by (cases e) (simp_all only: lw_models_arrive lw_models_trim lw_models_close lw_models_forget)
  then show ?case by (simp add: lw_run_def)
qed (simp add: lw_run_def lw_models_new)

subsection \<open>Properties of the loss windows\<close>

lemma loss_window_report_ok:
  assumes "P \<le> 0x100" "Q \<le> 0x100" "P * Q \<le> 0xFFFF"
  shows "loss_report_ok (window_report P Q k es)"
proof -
  let ?L = "filter (\<lambda>(p, q). arrivals k p q es \<noteq> [] \<or> trims k p q es \<noteq> 0) (cells P Q)"
  have "length ?L \<le> length (cells P Q)" by (rule length_filter_le)
  then have "length ?L \<le> 0xFFFF" using assms(3) by simp
  moreover have "loss_record_ok (ev_report (p, q) (arrivals k p q es) (trims k p q es))"
    if "(p, q) \<in> set ?L" for p q
    using that assms(1,2) by (intro close_ev_summary(2) arrivals_nonneg) auto
  moreover have "int (windows_closed k es) mod 0x10000 \<le> 0xFFFF"
    using pos_mod_bound [of "0x10000" "int (windows_closed k es)"] by linarith
  ultimately show ?thesis
    by (auto simp: loss_report_ok_def window_report_def check_u16_def not_less)
qed

text \<open>
  C18. A closed window reports exactly its own traffic: after any history of calls, the report of
  a flow lists, in (plane, path) order, the EVs on which the flow's packets or trims arrived since
  its previous snapshot, each with the count, the sequence span, the largest forward jump and the
  trims of those arrivals, under the number of windows closed modulo 2^16. The report passes the
  wire format's checks, and closing leaves the flow an empty window.
\<close>

theorem loss_window_report:
  assumes "P \<le> 0x100" and "Q \<le> 0x100" and "P * Q \<le> 0xFFFF"
  shows "\<exists>t'. snapshot_and_reset (lw_run P Q es) k = (t', Inr (window_report P Q k es))
    \<and> loss_report_ok (window_report P Q k es)
    \<and> (\<forall>p < P. \<forall>q < Q. gget (fw_evs (lw_flow t' k)) p q = new_counters)"
  using snapshot_report [OF lw_run_models [OF assms(1,2)] assms(1,2), of es k] loss_window_report_ok [OF assms]
  by (auto simp: flow_reset_def)

theorem loss_window_report_witness:
  "\<exists>t'. snapshot_and_reset (lw_run 2 2 [Arrive ''f'' 0 1 10, Arrive ''f'' 0 1 13]) ''f'' =
     (t', Inr \<lparr>rp_window_id = 0, rp_planes =
        [\<lparr>lr_plane_id = 0, lr_path_id = 1, lr_seen = 2, lr_expected = 4, lr_max_gap = 3, lr_trimmed = 0\<rparr>]\<rparr>)"
proof -
  let ?es = "[Arrive ''f'' 0 1 10, Arrive ''f'' 0 1 13]"
  have "window_report 2 2 ''f'' ?es = \<lparr>rp_window_id = 0, rp_planes =
        [\<lparr>lr_plane_id = 0, lr_path_id = 1, lr_seen = 2, lr_expected = 4, lr_max_gap = 3, lr_trimmed = 0\<rparr>]\<rparr>"
    by code_simp
  then show ?thesis using loss_window_report [of 2 2 ?es "''f''"] by fastforce
qed

text \<open>The reports emitted for a flow along a history, and what they say of one EV.\<close>

definition reports_of :: "nat \<Rightarrow> nat \<Rightarrow> 'k \<Rightarrow> 'k lw_event list \<Rightarrow> loss_report list" where
  "reports_of P Q k es = List.map_filter
     (\<lambda>i. if es ! i = Close k
          then (case snd (snapshot_and_reset (lw_run P Q (take i es)) k) of
                  Inr r \<Rightarrow> Some r | Inl e \<Rightarrow> None)
          else None) [0..<length es]"

definition seen_on :: "nat \<Rightarrow> nat \<Rightarrow> loss_report \<Rightarrow> int" where
  "seen_on p q r = sum_list (map lr_seen
     (filter (\<lambda>x. lr_plane_id x = int p \<and> lr_path_id x = int q) (rp_planes r)))"

lemma seen_on_window_report:
  assumes "p < P" "q < Q" "length (arrivals k p q es) < 2 ^ 32"
  shows "seen_on p q (window_report P Q k es) = int (length (arrivals k p q es))"
proof -
  let ?A = "\<lambda>(a, b). arrivals k a b es \<noteq> [] \<or> trims k a b es \<noteq> 0"
  have "filter (\<lambda>x. lr_plane_id x = int p \<and> lr_path_id x = int q) (rp_planes (window_report P Q k es)) =
      map (\<lambda>(a, b). ev_report (a, b) (arrivals k a b es) (trims k a b es))
        (filter ((=) (p, q)) (filter ?A (cells P Q)))"
    by (simp add: window_report_def filter_map comp_def)
      (intro arg_cong [where f = "map _"] filter_cong, auto simp: ev_report_def)
  also have "filter ((=) (p, q)) (filter ?A (cells P Q)) = (if ?A (p, q) then [(p, q)] else [])"
  proof -
    have "filter ((=) (p, q)) (filter ?A (cells P Q)) = filter ?A (filter ((=) (p, q)) (cells P Q))"
      by (simp add: conj_commute)
    also have "filter ((=) (p, q)) (cells P Q) = [(p, q)]"
      using assms(1,2) filter_eq_single [of "cells P Q" "(p, q)"] by simp
    finally show ?thesis by simp
  qed
  finally show ?thesis using assms(3) by (simp add: seen_on_def ev_report_def)
qed

lemma map_filter_eqI: "(\<And>x. x \<in> set xs \<Longrightarrow> f x = g x) \<Longrightarrow> List.map_filter f xs = List.map_filter g xs"
  by (induction xs) (auto simp: map_filter_simps split: option.splits)

lemma map_filter_snoc:
  "List.map_filter f (xs @ [x]) = List.map_filter f xs @ (case f x of Some y \<Rightarrow> [y] | None \<Rightarrow> [])"
  by (induction xs) (auto simp: map_filter_simps split: option.splits)

lemma reports_of_snoc:
  assumes "P \<le> 0x100" "Q \<le> 0x100"
  shows "reports_of P Q k (es @ [e]) =
    reports_of P Q k es @ (if e = Close k then [window_report P Q k es] else [])"
proof -
  have "snd (snapshot_and_reset (lw_run P Q es) k) = Inr (window_report P Q k es)"
    by (simp add: snapshot_report [OF lw_run_models [OF assms] assms])
  moreover have "List.map_filter (\<lambda>i. if (es @ [e]) ! i = Close k
      then (case snd (snapshot_and_reset (lw_run P Q (take i (es @ [e]))) k) of
              Inr r \<Rightarrow> Some r | Inl e \<Rightarrow> None) else None) [0..<length es] = reports_of P Q k es"
    unfolding reports_of_def by (rule map_filter_eqI) (simp add: nth_append)
  ultimately show ?thesis by (simp add: reports_of_def map_filter_snoc)
qed

definition all_arrivals :: "'k \<Rightarrow> nat \<Rightarrow> nat \<Rightarrow> 'k lw_event list \<Rightarrow> nat" where
  "all_arrivals k p q es = length (List.map_filter (arrival_of k p q) es)"

lemma arrivals_le: "length (arrivals k p q es) \<le> length es"
proof -
  have "length (arrivals k p q es) \<le> length (in_window k es)"
    by (simp add: arrivals_def List.map_filter_def)
  also have "\<dots> \<le> length es" unfolding in_window_def by (metis length_rev length_takeWhile_le)
  finally show ?thesis .
qed

text \<open>
  Every data packet is reported once: as long as the flow is not forgotten, the \<open>seen\<close> counts
  of all the reports emitted for an EV plus the packets of its open window add up to the packets
  that arrived on it. Closing a window neither drops nor double-counts a packet.
\<close>

theorem loss_window_conservation:
  assumes "P \<le> 0x100" and "Q \<le> 0x100" and "p < P" and "q < Q"
    and "Forget k \<notin> set es" and "length es < 2 ^ 32"
  shows "sum_list (map (seen_on p q) (reports_of P Q k es)) + int (length (arrivals k p q es)) =
    int (all_arrivals k p q es)"
  using assms(5,6)
proof (induction es rule: rev_induct)
  case Nil
  show ?case by (simp add: reports_of_def all_arrivals_def arrivals_def in_window_def List.map_filter_def)
next
  case (snoc e es)
  have IH: "sum_list (map (seen_on p q) (reports_of P Q k es)) + int (length (arrivals k p q es)) =
    int (all_arrivals k p q es)" using snoc by simp
  have "length (arrivals k p q es) < 2 ^ 32" using arrivals_le [of k p q es] snoc.prems by simp
  then have seen: "seen_on p q (window_report P Q k es) = int (length (arrivals k p q es))"
    by (rule seen_on_window_report [OF assms(3,4)])
  have "all_arrivals k p q (es @ [e]) =
      all_arrivals k p q es + (case arrival_of k p q e of Some s \<Rightarrow> 1 | None \<Rightarrow> 0)"
    by (simp add: all_arrivals_def map_filter_snoc split: option.split)
  then show ?case
    using IH seen snoc.prems
    by (auto simp: reports_of_snoc [OF assms(1,2)] history_snoc split: option.split)
qed

theorem loss_window_conservation_witness:
  "sum_list (map (seen_on 0 1) (reports_of 2 2 ''f''
       [Arrive ''f'' 0 1 10, Close ''f'', Arrive ''f'' 0 1 13, Arrive ''g'' 0 1 14])) + 1 = 2"
proof -
  let ?es = "[Arrive ''f'' 0 1 10, Close ''f'', Arrive ''f'' 0 1 13, Arrive ''g'' 0 1 14]"
  have "length (arrivals ''f'' 0 1 ?es) = 1" "all_arrivals ''f'' 0 1 ?es = 2" by code_simp+
  then show ?thesis using loss_window_conservation [of 2 2 0 1 "''f''" ?es] by simp
qed

end
