(* ===== verification/LossCompute.thy ===== *)
theory LossCompute
  imports EvProperties LossWindow
begin

text \<open>
  The sender's side of the loss path, \<^verbatim>\<open>srv6_mrc/mrc/loss_compute.py\<close>: the ring of sent-count
  windows, the pairing of a report with the closest of them, and \<open>apply_loss_report\<close>, which turns
  a report into \<open>record_loss_window\<close> calls. The fusion is written over the call it makes (\<open>feed\<close>)
  and read it makes (\<open>state_of\<close>); the locale \<open>loss_sink\<close> states what it relies on and the EV table
  interprets it.
\<close>

subsection \<open>Sent windows\<close>

record sent_window =
  sw_start_ns :: int
  sw_end_ns :: int
  sw_sent :: "int list list"
  sw_window_id :: int

definition midpoint_ns :: "sent_window \<Rightarrow> int" where
  "midpoint_ns w = (sw_start_ns w + sw_end_ns w) div 2"

record sent_ring =
  sr_num_planes :: nat
  sr_num_paths :: nat
  sr_ring :: "sent_window pydeque"

definition mk_sent_ring :: "int \<Rightarrow> int \<Rightarrow> int \<Rightarrow> sent_ring result" where
  "mk_sent_ring planes paths capacity =
     bindE (raise_if (planes \<le> 0) ValueError) (\<lambda>_.
     bindE (raise_if (paths \<le> 0) ValueError) (\<lambda>_.
     bindE (raise_if (capacity \<le> 0) ValueError) (\<lambda>_.
       Inr \<lparr>sr_num_planes = nat planes, sr_num_paths = nat paths,
            sr_ring = dq_new (nat capacity)\<rparr>)))"

definition ring_push :: "sent_ring \<Rightarrow> sent_window \<Rightarrow> sent_ring result" where
  "ring_push s w =
     bindE (raise_if (length (sw_sent w) \<noteq> sr_num_planes s) ValueError) (\<lambda>_.
     bindE (raise_if (\<exists>row \<in> set (sw_sent w). length row \<noteq> sr_num_paths s) ValueError) (\<lambda>_.
       Inr (s\<lparr>sr_ring := dq_append (sr_ring s) w\<rparr>)))"

fun closest_loop :: "int \<Rightarrow> sent_window list \<Rightarrow> sent_window option \<Rightarrow> int \<Rightarrow> sent_window option" where
  "closest_loop target [] best best_skew = best"
| "closest_loop target (w # ws) best best_skew =
     (let skew = \<bar>midpoint_ns w - target\<bar> in
      if skew < best_skew then closest_loop target ws (Some w) skew
      else closest_loop target ws best best_skew)"

definition find_closest :: "sent_ring \<Rightarrow> int \<Rightarrow> int \<Rightarrow> sent_window option" where
  "find_closest s target max_skew =
     closest_loop target (dq_items (sr_ring s)) None (max_skew + 1)"

subsection \<open>Fusion\<close>

definition MIN_SENT_FOR_ABSENT_LOSS :: int where "MIN_SENT_FOR_ABSENT_LOSS = 2"
definition MIN_COVERAGE_FOR_ABSENT_LOSS :: pyfloat where
  "MIN_COVERAGE_FOR_ABSENT_LOSS = rnd (1 / 2)"

definition compute_loss_ratio :: "int \<Rightarrow> int \<Rightarrow> pyfloat" where
  "compute_loss_ratio seen sent_or_expected =
     (if sent_or_expected \<le> 0 then 0
      else if sent_or_expected \<le> seen then 0
      else fsub 1 (int_truediv seen sent_or_expected))"

record fusion_stats =
  reports_processed :: int
  planes_updated :: int
  planes_skipped_no_data :: int
  paired_with_sent_window :: int
  fell_back_to_receiver_expected :: int
  no_pairing_window_in_ring :: int
  absent_evs_counted_as_lost :: int
  absent_check_skipped_low_coverage :: int

definition new_fusion_stats :: fusion_stats where
  "new_fusion_stats = \<lparr>reports_processed = 0, planes_updated = 0, planes_skipped_no_data = 0,
     paired_with_sent_window = 0, fell_back_to_receiver_expected = 0,
     no_pairing_window_in_ring = 0, absent_evs_counted_as_lost = 0,
     absent_check_skipped_low_coverage = 0\<rparr>"

definition sent_denominator :: "sent_window option \<Rightarrow> plane_loss_record \<Rightarrow> int" where
  "sent_denominator paired r =
     (case paired of
        None \<Rightarrow> 0
      | Some w \<Rightarrow>
          if 0 \<le> lr_plane_id r \<and> lr_plane_id r < int (length (sw_sent w))
          then let row = sw_sent w ! nat (lr_plane_id r) in
               if 0 \<le> lr_path_id r \<and> lr_path_id r < int (length row)
               then let sender_sent = row ! nat (lr_path_id r)
                    in if 0 < sender_sent then sender_sent else 0
               else 0
          else 0)"

type_synonym 't feed_op = "'t \<Rightarrow> string \<Rightarrow> int \<Rightarrow> int \<Rightarrow> int \<Rightarrow> int \<Rightarrow> 't result"
type_synonym 't state_op = "'t \<Rightarrow> string \<Rightarrow> int \<Rightarrow> int \<Rightarrow> ev_state result"

text \<open>The loop over the report's records, and the loop over the EVs the report omits.\<close>

fun feed_records ::
  "'t feed_op \<Rightarrow> string \<Rightarrow> sent_window option \<Rightarrow> plane_loss_record list \<Rightarrow> 't \<Rightarrow> fusion_stats
   \<Rightarrow> 't \<times> fusion_stats \<times> py_error option" where
  "feed_records feed tn paired [] t st = (t, st, None)"
| "feed_records feed tn paired (r # rs) t st =
     (if lr_seen r = 0 \<and> lr_expected r = 0 \<and> lr_trimmed r = 0
      then feed_records feed tn paired rs t
             (st\<lparr>planes_skipped_no_data := planes_skipped_no_data st + 1\<rparr>)
      else let denominator = sent_denominator paired r in
        if denominator = 0
        then feed_records feed tn paired rs t
               (st\<lparr>fell_back_to_receiver_expected := fell_back_to_receiver_expected st + 1\<rparr>)
        else case feed t tn (lr_plane_id r) (lr_path_id r) (lr_seen r + lr_trimmed r) denominator of
               Inl e \<Rightarrow> (t, st, Some e)
             | Inr t' \<Rightarrow> feed_records feed tn paired rs t'
                 (st\<lparr>planes_updated := planes_updated st + 1,
                     paired_with_sent_window := paired_with_sent_window st + 1\<rparr>))"

definition sent_cells :: "sent_window \<Rightarrow> (nat \<times> nat \<times> int) list" where
  "sent_cells w = concat (map (\<lambda>(plane, row). map (\<lambda>(path, s). (plane, path, s)) (enumerate 0 row))
                            (enumerate 0 (sw_sent w)))"

fun feed_absent ::
  "'t feed_op \<Rightarrow> 't state_op \<Rightarrow> string \<Rightarrow> int \<Rightarrow> (int \<times> int) set \<Rightarrow> (nat \<times> nat \<times> int) list
   \<Rightarrow> 't \<Rightarrow> fusion_stats \<Rightarrow> 't \<times> fusion_stats \<times> py_error option" where
  "feed_absent feed state_of tn min_sent reported [] t st = (t, st, None)"
| "feed_absent feed state_of tn min_sent reported ((plane, path, sender_sent) # cs) t st =
     (if sender_sent < min_sent \<or> (int plane, int path) \<in> reported
      then feed_absent feed state_of tn min_sent reported cs t st
      else case state_of t tn (int plane) (int path) of
             Inl e \<Rightarrow> (t, st, Some e)
           | Inr s \<Rightarrow>
               if s = ASSUMED_BAD then feed_absent feed state_of tn min_sent reported cs t st
               else case feed t tn (int plane) (int path) 0 sender_sent of
                      Inl e \<Rightarrow> (t, st, Some e)
                    | Inr t' \<Rightarrow> feed_absent feed state_of tn min_sent reported cs t'
                        (st\<lparr>absent_evs_counted_as_lost := absent_evs_counted_as_lost st + 1\<rparr>))"

definition total_sent :: "sent_window \<Rightarrow> int" where
  "total_sent w = sum_list (map sum_list (sw_sent w))"

definition total_seen :: "loss_report \<Rightarrow> int" where
  "total_seen rep = sum_list (map (\<lambda>r. lr_seen r + lr_trimmed r) (rp_planes rep))"

definition low_coverage :: "sent_window \<Rightarrow> loss_report \<Rightarrow> bool" where
  "low_coverage w rep \<longleftrightarrow> total_sent w = 0
     \<or> of_int (total_seen rep) < fmul MIN_COVERAGE_FOR_ABSENT_LOSS (float_of_int (total_sent w))"

definition reported_evs :: "loss_report \<Rightarrow> (int \<times> int) set" where
  "reported_evs rep = set (map (\<lambda>r. (lr_plane_id r, lr_path_id r)) (rp_planes rep))"

definition fuse_report ::
  "'t feed_op \<Rightarrow> 't state_op \<Rightarrow> 't \<Rightarrow> string \<Rightarrow> loss_report \<Rightarrow> sent_ring \<Rightarrow> int \<Rightarrow> int \<Rightarrow> fusion_stats
   \<Rightarrow> int \<Rightarrow> 't \<times> fusion_stats \<times> py_error option" where
  "fuse_report feed state_of t tn rep ring received_at_ns max_window_skew_ns st min_sent =
     (if rp_planes rep = [] then (t, st, None)
      else
        let st1 = st\<lparr>reports_processed := reports_processed st + 1\<rparr>;
            paired = find_closest ring received_at_ns max_window_skew_ns;
            st2 = (if paired = None
                   then st1\<lparr>no_pairing_window_in_ring := no_pairing_window_in_ring st1 + 1\<rparr>
                   else st1)
        in case feed_records feed tn paired (rp_planes rep) t st2 of
             (t', st3, Some e) \<Rightarrow> (t', st3, Some e)
           | (t', st3, None) \<Rightarrow>
               case paired of
                 None \<Rightarrow> (t', st3, None)
               | Some w \<Rightarrow>
                   if low_coverage w rep
                   then (t', st3\<lparr>absent_check_skipped_low_coverage :=
                               absent_check_skipped_low_coverage st3 + 1\<rparr>, None)
                   else feed_absent feed state_of tn min_sent (reported_evs rep) (sent_cells w) t' st3)"

definition apply_loss_report ::
  "ev_table \<Rightarrow> string \<Rightarrow> loss_report \<Rightarrow> sent_ring \<Rightarrow> int \<Rightarrow> int \<Rightarrow> fusion_stats \<Rightarrow> int
   \<Rightarrow> ev_table \<times> fusion_stats \<times> py_error option" where
  "apply_loss_report = fuse_report record_loss_window ev_state_of"

subsection \<open>Pairing\<close>

definition skew :: "int \<Rightarrow> sent_window \<Rightarrow> int" where
  "skew target w = \<bar>midpoint_ns w - target\<bar>"

lemma closest_loop_spec:
  "closest_loop target ws best b = r \<Longrightarrow>
     (r = best \<and> (\<forall>w \<in> set ws. b \<le> skew target w))
     \<or> (\<exists>pre w post. ws = pre @ w # post \<and> r = Some w \<and> skew target w < b
          \<and> (\<forall>v \<in> set pre. skew target w < skew target v)
          \<and> (\<forall>v \<in> set post. skew target w \<le> skew target v))"
proof (induction target ws best b arbitrary: r rule: closest_loop.induct)
  case (2 target w ws best b)
  show ?case
  proof (cases "skew target w < b")
    case True
    then have r: "closest_loop target ws (Some w) (skew target w) = r"
      using "2.prems" by (simp add: skew_def Let_def)
    have "(r = Some w \<and> (\<forall>v \<in> set ws. skew target w \<le> skew target v))
      \<or> (\<exists>pre v post. ws = pre @ v # post \<and> r = Some v \<and> skew target v < skew target w
          \<and> (\<forall>u \<in> set pre. skew target v < skew target u) \<and> (\<forall>u \<in> set post. skew target v \<le> skew target u))"
      using "2.IH"(1) [OF refl, folded skew_def, OF True r] by simp
    then show ?thesis
    proof (elim disjE exE conjE)
      assume "r = Some w" "\<forall>v \<in> set ws. skew target w \<le> skew target v"
      then show ?thesis using True by (intro disjI2, rule_tac x = "[]" in exI, rule_tac x = w in exI, rule_tac x = ws in exI) auto
    next
      fix pre v post
      assume "ws = pre @ v # post" "r = Some v" "skew target v < skew target w"
        "\<forall>u \<in> set pre. skew target v < skew target u" "\<forall>u \<in> set post. skew target v \<le> skew target u"
      then show ?thesis using True by (intro disjI2, rule_tac x = "w # pre" in exI, rule_tac x = v in exI, rule_tac x = post in exI) auto
    qed
  next
    case False
    then have r: "closest_loop target ws best b = r"
      using "2.prems" by (simp add: skew_def Let_def)
    then have "(r = best \<and> (\<forall>v \<in> set ws. b \<le> skew target v))
      \<or> (\<exists>pre v post. ws = pre @ v # post \<and> r = Some v \<and> skew target v < b
          \<and> (\<forall>u \<in> set pre. skew target v < skew target u) \<and> (\<forall>u \<in> set post. skew target v \<le> skew target u))"
      using "2.IH"(2) [OF refl, folded skew_def, OF False r] by simp
    then show ?thesis
    proof (elim disjE exE conjE)
      assume "r = best" "\<forall>v \<in> set ws. b \<le> skew target v"
      then show ?thesis using False by auto
    next
      fix pre v post
      assume "ws = pre @ v # post" "r = Some v" "skew target v < b"
        "\<forall>u \<in> set pre. skew target v < skew target u" "\<forall>u \<in> set post. skew target v \<le> skew target u"
      then show ?thesis using False by (intro disjI2, rule_tac x = "w # pre" in exI, rule_tac x = v in exI, rule_tac x = post in exI) auto
    qed
  qed
qed simp

subsection \<open>The shape of a fusion\<close>

definition sent_on :: "sent_window \<Rightarrow> nat \<Rightarrow> nat \<Rightarrow> int" where
  "sent_on w p q =
     (if p < length (sw_sent w) \<and> q < length (sw_sent w ! p) then sw_sent w ! p ! q else 0)"

lemma sent_denominator_sent_on:
  "lr_plane_id r = int p \<Longrightarrow> lr_path_id r = int q \<Longrightarrow>
   sent_denominator (Some w) r = (if 0 < sent_on w p q then sent_on w p q else 0)"
  by (auto simp: sent_denominator_def sent_on_def Let_def)

lemma sent_cells_sent_on:
  "(p, q, s) \<in> set (sent_cells w) \<longleftrightarrow>
     p < length (sw_sent w) \<and> q < length (sw_sent w ! p) \<and> s = sent_on w p q"
  by (fastforce simp: sent_cells_def sent_on_def in_set_enumerate_eq)

lemma feed_records_unpaired: "fst (feed_records feed tn None rs t st) = t"
  by (induction rs arbitrary: st) (auto simp: sent_denominator_def)

text \<open>The outcomes of a fusion: nothing, the records' loop, or both loops.\<close>

lemma fuse_shape:
  "fst (fuse_report feed state_of t tn rep ring now sk st ms) = t
   \<or> (\<exists>st2. fst (fuse_report feed state_of t tn rep ring now sk st ms) =
        fst (feed_records feed tn (find_closest ring now sk) (rp_planes rep) t st2))
   \<or> (\<exists>w st2 st3. find_closest ring now sk = Some w \<and>
        fst (fuse_report feed state_of t tn rep ring now sk st ms) =
          fst (feed_absent feed state_of tn ms (reported_evs rep) (sent_cells w)
            (fst (feed_records feed tn (Some w) (rp_planes rep) t st2)) st3))"
proof (cases "rp_planes rep = []")
  case False
  let ?pr = "find_closest ring now sk"
  define st2 where "st2 = (let st1 = st\<lparr>reports_processed := reports_processed st + 1\<rparr> in
    if ?pr = None then st1\<lparr>no_pairing_window_in_ring := no_pairing_window_in_ring st1 + 1\<rparr> else st1)"
  obtain t' st3 e where r: "feed_records feed tn ?pr (rp_planes rep) t st2 = (t', st3, e)"
    by (metis prod_cases3)
  have f: "fuse_report feed state_of t tn rep ring now sk st ms = (case (t', st3, e) of
      (t', st3, Some e) \<Rightarrow> (t', st3, Some e)
    | (t', st3, None) \<Rightarrow> (case ?pr of None \<Rightarrow> (t', st3, None) | Some w \<Rightarrow>
        if low_coverage w rep
        then (t', st3\<lparr>absent_check_skipped_low_coverage := absent_check_skipped_low_coverage st3 + 1\<rparr>, None)
        else feed_absent feed state_of tn ms (reported_evs rep) (sent_cells w) t' st3))"
    using False r unfolding fuse_report_def Let_def st2_def by simp
  have t': "t' = fst (feed_records feed tn ?pr (rp_planes rep) t st2)" using r by simp
  show ?thesis
  proof (cases "e = None \<and> (\<exists>w. ?pr = Some w \<and> \<not> low_coverage w rep)")
    case True
    then obtain w where w: "?pr = Some w" "\<not> low_coverage w rep" "e = None" by blast
    then have "fst (fuse_report feed state_of t tn rep ring now sk st ms) =
        fst (feed_absent feed state_of tn ms (reported_evs rep) (sent_cells w)
          (fst (feed_records feed tn (Some w) (rp_planes rep) t st2)) st3)"
      using f t' by simp
    then show ?thesis using w(1) by blast
  next
    case no: False
    then have "fst (fuse_report feed state_of t tn rep ring now sk st ms) = t'"
      unfolding f by (auto split: option.splits)
    then show ?thesis using t' by blast
  qed
qed (simp add: fuse_report_def)

subsection \<open>What fusion relies on\<close>

text \<open>
  A sink of loss observations: feeding an observation of one EV keeps the sink's invariant, leaves
  every other EV's view alone, and a fully delivered window keeps a usable EV usable.
\<close>

locale loss_sink =
  fixes feed :: "'t feed_op"
    and state_of :: "'t state_op"
    and inv :: "'t \<Rightarrow> bool"
    and view :: "'t \<Rightarrow> string \<Rightarrow> nat \<Rightarrow> nat \<Rightarrow> 'v"
    and is_usable :: "'v \<Rightarrow> bool"
  assumes feed_inv: "inv t \<Longrightarrow> feed t tn p q s e = Inr t' \<Longrightarrow> inv t'"
    and feed_elsewhere: "inv t \<Longrightarrow> feed t tn p q s e = Inr t' \<Longrightarrow>
      tn' \<noteq> tn \<or> int a \<noteq> p \<or> int b \<noteq> q \<Longrightarrow> view t' tn' a b = view t tn' a b"
    and feed_delivered: "inv t \<Longrightarrow> feed t tn (int a) (int b) s e = Inr t' \<Longrightarrow> 0 < e \<Longrightarrow> e \<le> s \<Longrightarrow>
      is_usable (view t tn a b) \<Longrightarrow> is_usable (view t' tn a b)"
begin

lemma records_inv: "inv t \<Longrightarrow> inv (fst (feed_records feed tn paired rs t st))"
  by (induction rs arbitrary: t st) (auto simp: Let_def split: sum.splits intro: feed_inv)

lemma absent_inv: "inv t \<Longrightarrow> inv (fst (feed_absent feed state_of tn ms rep cs t st))"
proof (induction cs arbitrary: t st)
  case (Cons c cs)
  obtain p q s where c: "c = (p, q, s)" by (cases c)
  show ?case
  proof (cases "feed t tn (int p) (int q) 0 s")
    case (Inr t')
    then show ?thesis
      using Cons c feed_inv [OF Cons.prems Inr] by (auto split: sum.splits)
  qed (use Cons c in \<open>auto split: sum.splits\<close>)
qed simp

lemma records_elsewhere:
  assumes "inv t" "tn' \<noteq> tn \<or> (\<forall>r \<in> set rs. lr_plane_id r = int a \<and> lr_path_id r = int b
      \<longrightarrow> sent_denominator paired r = 0)"
  shows "view (fst (feed_records feed tn paired rs t st)) tn' a b = view t tn' a b"
  using assms
proof (induction rs arbitrary: t st)
  case (Cons r rs)
  show ?case
  proof (cases "feed t tn (lr_plane_id r) (lr_path_id r) (lr_seen r + lr_trimmed r) (sent_denominator paired r)")
    case (Inr t')
    have "view t' tn' a b = view t tn' a b" if "sent_denominator paired r \<noteq> 0"
      using Cons.prems that by (intro feed_elsewhere [OF _ Inr]) auto
    then show ?thesis
      using Cons Inr feed_inv [OF Cons.prems(1) Inr] by (auto simp: Let_def)
  qed (use Cons in \<open>auto simp: Let_def\<close>)
qed simp

lemma absent_elsewhere:
  assumes "inv t" "tn' \<noteq> tn \<or> (int a, int b) \<in> rep \<or> (\<forall>s. (a, b, s) \<in> set cs \<longrightarrow> s < ms)"
  shows "view (fst (feed_absent feed state_of tn ms rep cs t st)) tn' a b = view t tn' a b"
  using assms
proof (induction cs arbitrary: t st)
  case (Cons c cs)
  obtain p q s where c: "c = (p, q, s)" by (cases c)
  show ?case
  proof (cases "s < ms \<or> (int p, int q) \<in> rep")
    case False
    show ?thesis
    proof (cases "feed t tn (int p) (int q) 0 s")
      case (Inr t')
      have "view t' tn' a b = view t tn' a b"
        using Cons.prems False c by (intro feed_elsewhere [OF _ Inr]) auto
      then show ?thesis
        using Cons Inr c feed_inv [OF Cons.prems(1) Inr] by (auto split: sum.splits)
    qed (use Cons c in \<open>auto split: sum.splits\<close>)
  qed (use Cons c in auto)
qed simp

lemma records_delivered:
  assumes "inv t" "is_usable (view t tn a b)"
    and "\<forall>r \<in> set rs. lr_plane_id r = int a \<and> lr_path_id r = int b
      \<longrightarrow> sent_denominator paired r \<le> lr_seen r + lr_trimmed r"
  shows "is_usable (view (fst (feed_records feed tn paired rs t st)) tn a b)"
  using assms
proof (induction rs arbitrary: t st)
  case (Cons r rs)
  show ?case
  proof (cases "feed t tn (lr_plane_id r) (lr_path_id r) (lr_seen r + lr_trimmed r) (sent_denominator paired r)")
    case (Inr t')
    have "is_usable (view t' tn a b)" if "0 < sent_denominator paired r"
    proof (cases "lr_plane_id r = int a \<and> lr_path_id r = int b")
      case True
      then show ?thesis
        using Inr Cons.prems that feed_delivered [OF Cons.prems(1), of tn a b] by auto
    next
      case False
      then show ?thesis using feed_elsewhere [OF Cons.prems(1) Inr, of tn a b] Cons.prems(2) by auto
    qed
    moreover have "0 < sent_denominator paired r" if "sent_denominator paired r \<noteq> 0"
      using that by (auto simp: sent_denominator_def Let_def split: option.splits if_splits)
    ultimately show ?thesis
      using Cons Inr feed_inv [OF Cons.prems(1) Inr] by (auto simp: Let_def)
  qed (use Cons in \<open>auto simp: Let_def\<close>)
qed simp

text \<open>
  An omitted EV is fed exactly once, from the view the report left it; what follows is the rest of
  the same loop.
\<close>

lemma absent_hit:
  assumes "inv t" "distinct (map (\<lambda>(p, q, s). (p, q)) cs)" "(a, b, s) \<in> set cs"
    and "ms \<le> s" "(int a, int b) \<notin> rep"
    and "feed_absent feed state_of tn ms rep cs t st = (t', st', None)"
  shows "\<exists>u x. inv u \<and> view u tn a b = view t tn a b \<and> state_of u tn (int a) (int b) = Inr x
    \<and> (if x = ASSUMED_BAD then view t' tn a b = view u tn a b
       else \<exists>u' cs2 st2. feed u tn (int a) (int b) 0 s = Inr u' \<and> view t' tn a b = view u' tn a b
              \<and> t' = fst (feed_absent feed state_of tn ms rep cs2 u' st2))"
  using assms
proof (induction cs arbitrary: t st)
  case (Cons c cs)
  obtain p q v where c: "c = (p, q, v)" by (cases c)
  show ?case
  proof (cases "p = a \<and> q = b")
    case True
    then have notin: "\<And>s. (a, b, s) \<notin> set cs" and v: "v = s"
      using Cons.prems(2,3) c by (auto simp: rev_image_eqI)
    have rest: "view (fst (feed_absent feed state_of tn ms rep cs u st2)) tn a b = view u tn a b"
      if "inv u" for u st2
      using notin that by (intro absent_elsewhere) auto
    have fed: "\<not> (s < ms \<or> (int a, int b) \<in> rep)" using Cons.prems(4,5) by simp
    obtain x where x: "state_of t tn (int a) (int b) = Inr x"
      using Cons.prems(6) c True v fed by (cases "state_of t tn (int a) (int b)") auto
    show ?thesis
    proof (cases "x = ASSUMED_BAD")
      case bad: True
      then have "feed_absent feed state_of tn ms rep cs t st = (t', st', None)"
        using Cons.prems(6) c True v fed x by simp
      then show ?thesis using rest [OF Cons.prems(1), of st] Cons.prems(1) x bad by auto
    next
      case ok: False
      obtain u' where u': "feed t tn (int a) (int b) 0 s = Inr u'"
        using Cons.prems(6) c True v fed x ok by (cases "feed t tn (int a) (int b) 0 s") auto
      then have "\<exists>st2. feed_absent feed state_of tn ms rep cs u' st2 = (t', st', None)"
        using Cons.prems(6) c True v fed x ok by (simp, blast)
      then obtain st2 where st2: "feed_absent feed state_of tn ms rep cs u' st2 = (t', st', None)" by blast
      then have "view t' tn a b = view u' tn a b"
        using rest [OF feed_inv [OF Cons.prems(1) u'], of st2] by simp
      moreover have "t' = fst (feed_absent feed state_of tn ms rep cs u' st2)" by (simp add: st2)
      ultimately have "if x = ASSUMED_BAD then view t' tn a b = view t tn a b
          else \<exists>u' cs2 st2. feed t tn (int a) (int b) 0 s = Inr u' \<and> view t' tn a b = view u' tn a b
            \<and> t' = fst (feed_absent feed state_of tn ms rep cs2 u' st2)"
        unfolding if_not_P [OF ok] using u' by blast
      then show ?thesis using Cons.prems(1) x by blast
    qed
  next
    case False
    then have mem: "(a, b, s) \<in> set cs" using Cons.prems(3) c by auto
    have dist: "distinct (map (\<lambda>(p, q, s). (p, q)) cs)" using Cons.prems(2) by simp
    show ?thesis
    proof (cases "v < ms \<or> (int p, int q) \<in> rep \<or> state_of t tn (int p) (int q) = Inr ASSUMED_BAD")
      case True
      then have "feed_absent feed state_of tn ms rep cs t st = (t', st', None)"
        using Cons.prems(6) c by (auto split: sum.splits if_splits)
      then show ?thesis by (rule Cons.IH [OF Cons.prems(1) dist mem Cons.prems(4,5)])
    next
      case go: False
      then obtain t1 where t1: "feed t tn (int p) (int q) 0 v = Inr t1"
        "feed_absent feed state_of tn ms rep cs t1
           (st\<lparr>absent_evs_counted_as_lost := absent_evs_counted_as_lost st + 1\<rparr>) = (t', st', None)"
        using Cons.prems(6) c by (auto split: sum.splits if_splits)
      have "view t1 tn a b = view t tn a b"
        using False by (intro feed_elsewhere [OF Cons.prems(1) t1(1)]) auto
      then show ?thesis
        using Cons.IH [OF feed_inv [OF Cons.prems(1) t1(1)] dist mem Cons.prems(4,5) t1(2)] by simp
    qed
  qed
qed simp

lemma fuse_inv: "inv t \<Longrightarrow> inv (fst (fuse_report feed state_of t tn rep ring now sk st ms))"
  using fuse_shape [of feed state_of t tn rep ring now sk st ms] records_inv absent_inv by metis

text \<open>An EV that was sent nothing in the paired window, or in no paired window, is not touched.\<close>

lemma fuse_elsewhere:
  assumes "inv t" "1 \<le> ms"
    and "\<And>w. find_closest ring now sk = Some w \<Longrightarrow> tn' = tn \<Longrightarrow> sent_on w a b \<le> 0"
  shows "view (fst (fuse_report feed state_of t tn rep ring now sk st ms)) tn' a b = view t tn' a b"
proof -
  let ?pr = "find_closest ring now sk"
  have den: "tn' \<noteq> tn \<or> (\<forall>r \<in> set (rp_planes rep). lr_plane_id r = int a \<and> lr_path_id r = int b
      \<longrightarrow> sent_denominator ?pr r = 0)"
    using assms(3)
    by (cases ?pr) (auto simp: sent_denominator_sent_on, simp_all add: sent_denominator_def)
  have abs: "tn' \<noteq> tn \<or> (int a, int b) \<in> reported_evs rep \<or> (\<forall>s. (a, b, s) \<in> set (sent_cells w) \<longrightarrow> s < ms)"
    if "?pr = Some w" for w
    using assms(2) assms(3) [OF that] by (fastforce simp: sent_cells_sent_on)
  show ?thesis
    using fuse_shape [of feed state_of t tn rep ring now sk st ms]
  proof (elim disjE exE conjE)
    fix w st2 st3
    assume w: "?pr = Some w" "fst (fuse_report feed state_of t tn rep ring now sk st ms) =
        fst (feed_absent feed state_of tn ms (reported_evs rep) (sent_cells w)
          (fst (feed_records feed tn (Some w) (rp_planes rep) t st2)) st3)"
    then show ?thesis
      using absent_elsewhere [OF records_inv [OF assms(1)] abs [OF w(1)]] records_elsewhere [OF assms(1) den]
      by simp
  qed (use records_elsewhere [OF assms(1) den] in simp_all)
qed

text \<open>An EV whose every record accounts for all that was sent on it stays usable.\<close>

lemma fuse_delivered:
  assumes "inv t" "is_usable (view t tn a b)"
    and w: "find_closest ring now sk = Some w"
    and "(int a, int b) \<in> reported_evs rep \<or> sent_on w a b < ms"
    and "\<And>r. r \<in> set (rp_planes rep) \<Longrightarrow> lr_plane_id r = int a \<Longrightarrow> lr_path_id r = int b \<Longrightarrow>
      sent_on w a b \<le> lr_seen r + lr_trimmed r"
    and "\<And>r. r \<in> set (rp_planes rep) \<Longrightarrow> 0 \<le> lr_seen r + lr_trimmed r"
  shows "is_usable (view (fst (fuse_report feed state_of t tn rep ring now sk st ms)) tn a b)"
proof -
  have "\<forall>r \<in> set (rp_planes rep). lr_plane_id r = int a \<and> lr_path_id r = int b
      \<longrightarrow> sent_denominator (Some w) r \<le> lr_seen r + lr_trimmed r"
    using assms(5,6) by (auto simp: sent_denominator_sent_on)
  note del = records_delivered [OF assms(1,2) this]
  have "(int a, int b) \<in> reported_evs rep \<or> (\<forall>s. (a, b, s) \<in> set (sent_cells w) \<longrightarrow> s < ms)"
    using assms(4) by (fastforce simp: sent_cells_sent_on)
  then have abs: "tn \<noteq> tn \<or> (int a, int b) \<in> reported_evs rep \<or> (\<forall>s. (a, b, s) \<in> set (sent_cells w) \<longrightarrow> s < ms)"
    by blast
  show ?thesis
    using fuse_shape [of feed state_of t tn rep ring now sk st ms]
  proof (elim disjE exE conjE)
    fix v st2 st3
    assume v: "find_closest ring now sk = Some v" "fst (fuse_report feed state_of t tn rep ring now sk st ms) =
        fst (feed_absent feed state_of tn ms (reported_evs rep) (sent_cells v)
          (fst (feed_records feed tn (Some v) (rp_planes rep) t st2)) st3)"
    then show ?thesis using absent_elsewhere [OF records_inv [OF assms(1)] abs] del w by simp
  qed (use assms(2) del w in simp_all)
qed

end

subsection \<open>The EV table is a loss sink\<close>

text \<open>The tables a report can lead to from \<open>t0\<close>: reachable, with the configuration of \<open>t0\<close>.\<close>

definition sink_inv :: "ev_table \<Rightarrow> ev_table \<Rightarrow> bool" where
  "sink_inv t0 t \<longleftrightarrow> ev_reachable t \<and> same_config t0 t \<and> 0 \<le> loss_threshold (cfg t0)"

text \<open>What one observation does to one record; \<open>blocked\<close> is the floor.\<close>

definition loss_record_step ::
  "ev_state_config \<Rightarrow> int \<Rightarrow> bool \<Rightarrow> pyfloat \<Rightarrow> ev_record \<Rightarrow> ev_record" where
  "loss_record_step c now blocked ratio r =
     (let r1 = r\<lparr>last_loss_ratio := ratio\<rparr> in
      if loss_threshold c < ratio
      then let r2 = r1\<lparr>consecutive_loss_demote_windows := consecutive_loss_demote_windows r1 + 1\<rparr>
           in if rstate r2 \<noteq> ASSUMED_BAD
                 \<and> loss_demote_consecutive c \<le> consecutive_loss_demote_windows r2
              then (if blocked
                    then r2\<lparr>demotes_suppressed_by_floor := demotes_suppressed_by_floor r2 + 1\<rparr>
                    else transition_record now ASSUMED_BAD (demote_backoff c now True r2))
              else r2
      else if ratio \<le> fdiv (loss_threshold c) 2
      then r1\<lparr>consecutive_loss_demote_windows := 0\<rparr> else r1)"

lemma apply_loss_ratio_local:
  assumes "ev_shape t" "valid_ev t tn p q"
  shows "rec_at (apply_loss_ratio t tn p q x) tn' a b =
    (if tn' = tn \<and> a = p \<and> b = q
     then loss_record_step (cfg t) (the (ticks t tn)) (floor_blocks t tn p q) x (rec_at t tn p q)
     else rec_at t tn' a b)"
  using assms
  by (auto simp: apply_loss_ratio_def loss_record_step_def Let_def rec_at_upd_rec try_demote_local)

lemma record_loss_window_cases:
  assumes "ev_shape t" "record_loss_window t tn plane path s e = Inr t'"
  shows "valid_ev t tn (nat plane) (nat path)" "0 \<le> plane" "0 \<le> path" "0 \<le> s" "0 \<le> e"
    and "t' = (if e = 0 then t
               else apply_loss_ratio t tn (nat plane) (nat path) (int_truediv (e - min s e) e))"
proof -
  have c: "check_tenant t tn = Inr ()" "check_ev t plane path = Inr ()" "\<not> (s < 0 \<or> e < 0)"
    using assms(2) by (auto simp: record_loss_window_def py_simps split: if_splits)
  then show "valid_ev t tn (nat plane) (nat path)" using assms(1) by (intro valid_of_checks)
  show "0 \<le> plane" "0 \<le> path" "0 \<le> s" "0 \<le> e" using c by auto
  have "(if e < s then e else s) = min s e" by (simp add: min_def)
  then show "t' = (if e = 0 then t
      else apply_loss_ratio t tn (nat plane) (nat path) (int_truediv (e - min s e) e))"
    using assms(2) c unfolding record_loss_window_def
    by (auto simp: Let_def py_simps split: if_splits)
qed

lemma record_loss_window_sink_inv:
  assumes "sink_inv t0 t" "record_loss_window t tn p q s e = Inr t'"
  shows "sink_inv t0 t'"
proof -
  have "ev_step t t'" by (rule ev_step.loss [OF assms(2)])
  moreover have "same_config t t'"
    using record_loss_window_wf [OF ev_reachable_wf] assms by (auto simp: sink_inv_def)
  ultimately show ?thesis
    using assms(1) ev_reachable.step same_config_trans by (auto simp: sink_inv_def)
qed

lemma loss_record_step_delivered:
  "0 \<le> loss_threshold c \<Longrightarrow> rstate (loss_record_step c now blocked 0 r) = rstate r"
  by (simp add: loss_record_step_def Let_def)

interpretation ev_sink: loss_sink record_loss_window ev_state_of "sink_inv t0" rec_at
  "\<lambda>r. rstate r \<noteq> ASSUMED_BAD" for t0
proof
  fix t t' tn tn' s e a b and p q :: int
  assume t: "sink_inv t0 t"
  then have sh: "ev_shape t" using ev_reachable_wf by (auto simp: sink_inv_def)
  {
    assume f: "record_loss_window t tn p q s e = Inr t'"
    show "sink_inv t0 t'" by (rule record_loss_window_sink_inv [OF t f])
    assume "tn' \<noteq> tn \<or> int a \<noteq> p \<or> int b \<noteq> q"
    then show "rec_at t' tn' a b = rec_at t tn' a b"
      using record_loss_window_cases [OF sh f] sh by (auto simp: apply_loss_ratio_local)
  }
  assume f: "record_loss_window t tn (int a) (int b) s e = Inr t'" and se: "0 < e" "e \<le> s"
    and "rstate (rec_at t tn a b) \<noteq> ASSUMED_BAD"
  moreover have "int_truediv (e - min s e) e = 0" using se by (simp add: int_truediv_def min_def)
  ultimately show "rstate (rec_at t' tn a b) \<noteq> ASSUMED_BAD"
    using record_loss_window_cases [OF sh f] sh t
    by (simp add: apply_loss_ratio_local sink_inv_def same_config_def loss_record_step_delivered)
qed

text \<open>Loss feedback never makes an EV usable again: from \<open>u\<close> on, what is bad stays bad.\<close>

definition sink_after :: "ev_table \<Rightarrow> ev_table \<Rightarrow> ev_table \<Rightarrow> bool" where
  "sink_after t0 u t \<longleftrightarrow> sink_inv t0 t
     \<and> (\<forall>tn p q. rstate (rec_at u tn p q) = ASSUMED_BAD \<longrightarrow> rstate (rec_at t tn p q) = ASSUMED_BAD)"

lemma loss_record_step_bad:
  "rstate r = ASSUMED_BAD \<Longrightarrow> rstate (loss_record_step c now blocked x r) = ASSUMED_BAD"
  by (simp add: loss_record_step_def Let_def)

lemma sink_after_feed:
  assumes "sink_after t0 u t" "record_loss_window t tn p q s e = Inr t'"
  shows "sink_after t0 u t'"
proof -
  have sh: "ev_shape t" using assms(1) ev_reachable_wf by (auto simp: sink_after_def sink_inv_def)
  have "rstate (rec_at t' tn' a b) = ASSUMED_BAD" if "rstate (rec_at t tn' a b) = ASSUMED_BAD" for tn' a b
    using record_loss_window_cases [OF sh assms(2)] sh that
    by (cases "e = 0") (auto simp: apply_loss_ratio_local loss_record_step_bad)
  then show ?thesis
    using assms record_loss_window_sink_inv by (auto simp: sink_after_def)
qed

interpretation ev_after: loss_sink record_loss_window ev_state_of "sink_after t0 u" rec_at
  "\<lambda>r. rstate r \<noteq> ASSUMED_BAD" for t0 u
proof
  fix t t' tn tn' s e a b and p q :: int
  assume t: "sink_after t0 u t"
  then have inv: "sink_inv t0 t" by (simp add: sink_after_def)
  show "sink_after t0 u t'" if "record_loss_window t tn p q s e = Inr t'"
    using t that by (rule sink_after_feed)
  show "rec_at t' tn' a b = rec_at t tn' a b"
    if "record_loss_window t tn p q s e = Inr t'" "tn' \<noteq> tn \<or> int a \<noteq> p \<or> int b \<noteq> q"
    using inv that by (rule ev_sink.feed_elsewhere)
  show "rstate (rec_at t' tn a b) \<noteq> ASSUMED_BAD"
    if "record_loss_window t tn (int a) (int b) s e = Inr t'" "0 < e" "e \<le> s"
      "rstate (rec_at t tn a b) \<noteq> ASSUMED_BAD"
    using inv that by (rule ev_sink.feed_delivered)
qed

lemma length_filter_mono:
  "(\<And>x. x \<in> set xs \<Longrightarrow> f x \<Longrightarrow> g x) \<Longrightarrow> length (filter f xs) \<le> length (filter g xs)"
  by (induction xs) (auto intro: le_SucI)

lemma sink_after_usable:
  assumes "sink_after t0 u t"
  shows "usable P Q (grid_at t tn) \<le> usable P Q (grid_at u tn)"
  unfolding usable_def
  using assms by (intro length_filter_mono) (auto simp: sink_after_def rec_at_def)

end
