(* ===== verification/PyStr.thy ===== *)
theory PyStr
  imports Json "HOL-Library.Word"
begin

text \<open>
  The string operations the program uses: decimal and hexadecimal formatting, zero padding,
  splitting, UTF-8 encoding, and the standard library's IPv6 address parser. Strings are lists of
  8-bit characters, so only code points below 256 occur.
\<close>

subsection \<open>Formatting numbers\<close>

function digits :: "nat \<Rightarrow> nat \<Rightarrow> nat list" where
  "digits b n = (if b \<le> 1 \<or> n < b then [n] else digits b (n div b) @ [n mod b])"
  by auto
termination by (relation "measure snd") auto

declare digits.simps [simp del]

definition digit_chars :: string where
  "digit_chars = ''0123456789abcdef''"

definition hex_str :: "nat \<Rightarrow> string" where
  "hex_str n = map ((!) digit_chars) (digits 16 n)"

definition dec_str :: "nat \<Rightarrow> string" where
  "dec_str n = map ((!) digit_chars) (digits 10 n)"

definition int_str :: "int \<Rightarrow> string" where
  "int_str k = (if k < 0 then CHR ''-'' # dec_str (nat (- k)) else dec_str (nat k))"

definition zpad :: "nat \<Rightarrow> string \<Rightarrow> string" where
  "zpad k s = replicate (k - length s) (CHR ''0'') @ s"

definition hex_value :: "char \<Rightarrow> nat option" where
  "hex_value c =
     (let n = (of_char c :: nat) in
      if 48 \<le> n \<and> n \<le> 57 then Some (n - 48)
      else if 97 \<le> n \<and> n \<le> 102 then Some (n - 87)
      else if 65 \<le> n \<and> n \<le> 70 then Some (n - 55) else None)"

definition hex_int :: "string \<Rightarrow> nat" where
  "hex_int s = foldl (\<lambda>a c. a * 16 + the (hex_value c)) 0 s"

lemma digits_less: "1 < b \<Longrightarrow> d \<in> set (digits b n) \<Longrightarrow> d < b"
proof (induction b n rule: digits.induct)
  case (1 b n)
  then show ?case by (subst (asm) (2) digits.simps) (auto split: if_splits)
qed

lemma digits_nonempty [simp]: "digits b n \<noteq> []"
  by (subst digits.simps) simp

lemma digits_value: "1 < b \<Longrightarrow> foldl (\<lambda>a d. a * b + d) 0 (digits b n) = n"
proof (induction b n rule: digits.induct)
  case (1 b n)
  show ?case
  proof (cases "n < b")
    case True
    then show ?thesis by (subst digits.simps) simp
  next
    case False
    then show ?thesis using 1 by (subst digits.simps) simp
  qed
qed

lemma digits_length: "1 < b \<Longrightarrow> n < b ^ Suc k \<Longrightarrow> length (digits b n) \<le> Suc k"
proof (induction k arbitrary: n)
  case 0
  then show ?case by (subst digits.simps) simp
next
  case (Suc k)
  have "n < b * b ^ Suc k" using Suc.prems(2) by simp
  then have "n div b < b ^ Suc k" by (simp add: less_mult_imp_div_less mult.commute)
  then show ?case using Suc by (subst digits.simps) simp
qed

lemma digit_char_facts:
  assumes "d < 16"
  shows "hex_value (digit_chars ! d) = Some d" "digit_chars ! d \<in> set digit_chars"
proof -
  have "\<forall>d \<in> set [0..<16].
      hex_value (digit_chars ! d) = Some d \<and> digit_chars ! d \<in> set digit_chars" by code_simp
  then show "hex_value (digit_chars ! d) = Some d" "digit_chars ! d \<in> set digit_chars"
    using assms by auto
qed

lemma hex_str_chars: "set (hex_str n) \<subseteq> set digit_chars"
  using digits_less [of 16] digit_char_facts(2) by (auto simp: hex_str_def)

lemma hex_str_nonempty [simp]: "hex_str n \<noteq> []"
  by (simp add: hex_str_def)

lemma hex_str_length: "n < 16 ^ Suc k \<Longrightarrow> length (hex_str n) \<le> Suc k"
  using digits_length [of 16 n k] by (simp add: hex_str_def)

lemma hex_int_Cons0: "hex_int (CHR ''0'' # s) = hex_int s"
proof -
  have "hex_value (CHR ''0'') = Some 0" by code_simp
  then show ?thesis by (simp add: hex_int_def)
qed

lemma hex_int_zeros: "hex_int (replicate k (CHR ''0'') @ s) = hex_int s"
  by (induction k) (simp_all add: hex_int_Cons0)

lemma hex_int_hex_str [simp]: "hex_int (hex_str n) = n"
proof -
  have "foldl (\<lambda>a c. a * 16 + the (hex_value c)) a (map ((!) digit_chars) ds) =
      foldl (\<lambda>a d. a * 16 + d) a ds" if "\<forall>d \<in> set ds. d < 16" for a ds
    using that by (induction ds arbitrary: a) (auto simp: digit_char_facts)
  then show ?thesis
    using digits_value [of 16 n] digits_less [of 16 _ n] by (simp add: hex_int_def hex_str_def)
qed

lemma hex_int_zpad [simp]: "hex_int (zpad k (hex_str n)) = n"
  by (simp add: zpad_def hex_int_zeros)

lemma hex_str_inj: "hex_str m = hex_str n \<longleftrightarrow> m = n"
  by (metis hex_int_hex_str)

lemma zpad_chars: "set (zpad k s) \<subseteq> insert (CHR ''0'') (set s)"
  by (auto simp: zpad_def)

lemma zpad_hex_chars: "set (zpad k (hex_str n)) \<subseteq> set digit_chars"
proof -
  have "CHR ''0'' \<in> set digit_chars" by code_simp
  then show ?thesis using hex_str_chars [of n] zpad_chars [of k "hex_str n"] by blast
qed

subsection \<open>Splitting\<close>

fun split_on :: "char \<Rightarrow> string \<Rightarrow> string list" where
  "split_on c [] = [[]]"
| "split_on c (x # xs) =
     (if x = c then [] # split_on c xs
      else case split_on c xs of [] \<Rightarrow> [[x]] | y # ys \<Rightarrow> (x # y) # ys)"

lemma split_on_nonempty [simp]: "split_on c s \<noteq> []"
  by (induction s) (auto split: list.splits)

lemma split_on_none: "c \<notin> set s \<Longrightarrow> split_on c s = [s]"
  by (induction s) auto

lemma split_on_sep: "c \<notin> set a \<Longrightarrow> split_on c (a @ c # b) = a # split_on c b"
  by (induction a) (auto split: list.splits)

text \<open>Joining colon-free pieces and splitting them again.\<close>

fun join_with :: "char \<Rightarrow> string list \<Rightarrow> string" where
  "join_with c [] = []"
| "join_with c [s] = s"
| "join_with c (s # t # ss) = s @ c # join_with c (t # ss)"

lemma split_join:
  "ss \<noteq> [] \<Longrightarrow> \<forall>s \<in> set ss. c \<notin> set s \<Longrightarrow> split_on c (join_with c ss) = ss"
  by (induction c ss rule: join_with.induct) (auto simp: split_on_none split_on_sep)

subsection \<open>Text as bytes\<close>

definition utf8_char :: "char \<Rightarrow> 8 word list" where
  "utf8_char ch =
     (let n = (of_char ch :: nat) in
      if n < 128 then [of_nat n] else [of_nat (192 + n div 64), of_nat (128 + n mod 64)])"

definition utf8 :: "string \<Rightarrow> 8 word list" where
  "utf8 s = concat (map utf8_char s)"

text \<open>\<open>a <= b\<close> on strings: by code points.\<close>

fun str_le :: "string \<Rightarrow> string \<Rightarrow> bool" where
  "str_le [] bs = True"
| "str_le (a # as) [] = False"
| "str_le (a # as) (b # bs) =
     ((of_char a :: nat) < of_char b \<or> a = b \<and> str_le as bs)"

lemma str_le_total: "str_le a b \<or> str_le b a"
  by (induction a b rule: str_le.induct) (auto simp: linorder_neq_iff)

lemma str_le_antisym: "str_le a b \<Longrightarrow> str_le b a \<Longrightarrow> a = b"
proof (induction a b rule: str_le.induct)
  case (1 bs)
  then show ?case by (cases bs) auto
qed auto

lemma str_le_refl [simp]: "str_le a a"
  using str_le_total by blast

subsection \<open>IPv6 addresses\<close>

text \<open>\<open>ipaddress.IPv6Address(s)\<close>, as the list of its eight 16-bit groups.\<close>

definition parse_hextet :: "string \<Rightarrow> nat option" where
  "parse_hextet s =
     (if s = [] \<or> 4 < length s \<or> (\<exists>c \<in> set s. hex_value c = None) then None
      else Some (hex_int s))"

definition parse_octet :: "string \<Rightarrow> nat option" where
  "parse_octet s =
     (if s = [] \<or> 3 < length s \<or> (\<exists>c \<in> set s. c \<notin> set ''0123456789'')
         \<or> (s \<noteq> ''0'' \<and> hd s = CHR ''0'')
      then None
      else let v = foldl (\<lambda>a c. a * 10 + the (hex_value c)) 0 s
           in if 255 < v then None else Some v)"

definition parse_ipv4 :: "string \<Rightarrow> (nat \<times> nat) option" where
  "parse_ipv4 s =
     (case map parse_octet (split_on (CHR ''.'') s) of
        [Some a, Some b, Some c, Some d] \<Rightarrow> Some (a * 256 + b, c * 256 + d)
      | _ \<Rightarrow> None)"

definition all_hextets :: "string list \<Rightarrow> nat list option" where
  "all_hextets ss =
     (if None \<in> set (map parse_hextet ss) then None else Some (map (the \<circ> parse_hextet) ss))"

definition ipv6_parts :: "string list \<Rightarrow> string list option" where
  "ipv6_parts parts =
     (if length parts < 3 then None
      else if CHR ''.'' \<in> set (last parts)
      then (case parse_ipv4 (last parts) of
              None \<Rightarrow> None
            | Some (hi, lo) \<Rightarrow> Some (butlast parts @ [hex_str hi, hex_str lo]))
      else Some parts)"

definition ipv6_expand :: "string list \<Rightarrow> nat list option" where
  "ipv6_expand parts =
     (if 9 < length parts then None
      else case filter (\<lambda>i. parts ! i = []) [1..<length parts - 1] of
        [] \<Rightarrow> if length parts \<noteq> 8 \<or> hd parts = [] \<or> last parts = [] then None
              else all_hextets parts
      | [i] \<Rightarrow>
          let hi = (if hd parts = [] then i - 1 else i);
              lo = (if last parts = [] then length parts - i - 2 else length parts - i - 1)
          in if (hd parts = [] \<and> hi \<noteq> 0) \<or> (last parts = [] \<and> lo \<noteq> 0) \<or> 8 < hi + lo + 1
             then None
             else (case (all_hextets (take hi parts), all_hextets (drop (length parts - lo) parts)) of
                     (Some a, Some b) \<Rightarrow> Some (a @ replicate (8 - (hi + lo)) 0 @ b)
                   | _ \<Rightarrow> None)
      | _ \<Rightarrow> None)"

text \<open>
  A scope suffix (\<open>%\<close>) is accepted by the constructor but rejected when the address is exploded;
  both users of the parser turn either error into None, so it is rejected here.
\<close>

definition ipv6_hextets :: "string \<Rightarrow> nat list option" where
  "ipv6_hextets s =
     (if CHR ''%'' \<in> set s \<or> CHR ''/'' \<in> set s then None
      else Option.bind (ipv6_parts (split_on (CHR '':'') s)) ipv6_expand)"

text \<open>\<open>.exploded.lower().split(":")\<close>.\<close>

definition ipv6_exploded :: "string \<Rightarrow> string list option" where
  "ipv6_exploded s = map_option (map (\<lambda>h. zpad 4 (hex_str h))) (ipv6_hextets s)"

lemma parse_hextet_hex:
  assumes "n < 65536" "k \<le> 4"
  shows "parse_hextet (zpad k (hex_str n)) = Some n"
proof -
  have "length (hex_str n) \<le> 4" using hex_str_length [of n 3] assms(1) by simp
  then have "length (zpad k (hex_str n)) \<le> 4" using assms(2) by (simp add: zpad_def)
  moreover have "zpad k (hex_str n) \<noteq> []" by (simp add: zpad_def)
  moreover have "\<forall>c \<in> set digit_chars. hex_value c \<noteq> None" by code_simp
  then have "\<forall>c \<in> set (zpad k (hex_str n)). hex_value c \<noteq> None" using zpad_hex_chars by blast
  ultimately show ?thesis by (auto simp: parse_hextet_def)
qed

end
