(* ===== verification/Topo.thy ===== *)
theory Topo
  imports PyStr
begin

text \<open>
  The topology constants and addressing of \<^verbatim>\<open>srv6_mrc/topo.py\<close>. The module's globals, read once
  from the topology file, are the record \<open>topo\<close>; each function takes it as its first argument.
  Integers come from the caller unchecked, so the checks are part of every function.
\<close>

unbundle bit_operations_syntax

subsection \<open>Module state\<close>

record topo =
  NUM_PLANES :: int
  NUM_SPINES :: int
  NUM_LEAVES :: int
  CLAB_TOPOLOGY_NAME :: string
  TENANTS :: "string list"

text \<open>The dictionary used when neither yaml nor the file is there.\<close>

definition fallback_topo :: json where
  "fallback_topo = JObj
     [(''name'', JStr ''4p-4x8''), (''planes'', JInt 4), (''spines_per_plane'', JInt 4),
      (''leaves_per_plane'', JInt 8), (''tenants'', JList [JStr ''green'', JStr ''yellow'']),
      (''images'', JObj [(''sonic'', JStr ''docker-sonic-vs:latest''),
                         (''host'', JStr ''alpine-srv6-scapy:1.0'')]),
      (''clab'', JObj [(''topology_name'', JStr ''sonic-docker-4p-4x8'')])]"

text \<open>
  The module's assignments from \<open>_TOPO\<close>. They do not convert, so a value of another type would
  only fail later, at its first use; the model rejects it at once.
\<close>

fun as_int :: "json \<Rightarrow> int result" where
  "as_int (JInt k) = Inr k"
| "as_int _ = Inl TypeError"

fun as_str :: "json \<Rightarrow> string result" where
  "as_str (JStr s) = Inr s"
| "as_str _ = Inl TypeError"

fun as_list :: "json \<Rightarrow> json list result" where
  "as_list (JList xs) = Inr xs"
| "as_list _ = Inl TypeError"

definition topo_of :: "json \<Rightarrow> topo result" where
  "topo_of d =
     bindE (bindE (jitem d ''planes'') as_int) (\<lambda>planes.
     bindE (bindE (jitem d ''spines_per_plane'') as_int) (\<lambda>spines.
     bindE (bindE (jitem d ''leaves_per_plane'') as_int) (\<lambda>leaves.
     bindE (case jget d ''clab'' of
              None \<Rightarrow> Inr ''sonic-docker-4p-4x8''
            | Some (JObj c) \<Rightarrow>
                (case dict_get c ''topology_name'' of
                   None \<Rightarrow> Inr ''sonic-docker-4p-4x8'' | Some n \<Rightarrow> as_str n)
            | Some _ \<Rightarrow> Inl AttributeError) (\<lambda>clab.
     bindE (bindE (jitem d ''tenants'') as_list) (\<lambda>ts.
     bindE (mapE as_str ts) (\<lambda>tns.
       Inr \<lparr>NUM_PLANES = planes, NUM_SPINES = spines, NUM_LEAVES = leaves,
            CLAB_TOPOLOGY_NAME = clab, TENANTS = tns\<rparr>))))))"

subsection \<open>Tenant ids\<close>

definition TENANT_ID :: "topo \<Rightarrow> (string \<times> int) list" where
  "TENANT_ID g = foldl (\<lambda>d (i, nm). dict_put nm (int i + 1) d) [] (enumerate 0 (TENANTS g))"

definition TENANT_BY_ID :: "topo \<Rightarrow> (int \<times> string) list" where
  "TENANT_BY_ID g = foldl (\<lambda>d (k, v). dict_put v k d) [] (TENANT_ID g)"

definition tenant_id :: "topo \<Rightarrow> string \<Rightarrow> int result" where
  "tenant_id g tenant =
     (case dict_get (TENANT_ID g) tenant of None \<Rightarrow> Inl ValueError | Some i \<Rightarrow> Inr i)"

definition tenant_name :: "topo \<Rightarrow> int \<Rightarrow> string result" where
  "tenant_name g tid =
     (case dict_get (TENANT_BY_ID g) tid of None \<Rightarrow> Inl ValueError | Some n \<Rightarrow> Inr n)"

subsection \<open>Ports, checks, names\<close>

definition PLANE_NIC :: "int \<Rightarrow> string" where "PLANE_NIC plane = ''eth'' @ int_str (plane + 1)"
definition PLANE_NICS :: "topo \<Rightarrow> string list" where
  "PLANE_NICS g = map (\<lambda>p. PLANE_NIC (int p)) [0..<nat (NUM_PLANES g)]"
definition SPRAY_PORT :: int where "SPRAY_PORT = 9999"
definition SPRAY_PROBE_PORT :: int where "SPRAY_PROBE_PORT = 9998"
definition SPRAY_REPORT_PORT :: int where "SPRAY_REPORT_PORT = 9997"
definition NACK_PORT_BASE :: int where "NACK_PORT_BASE = 9800"
definition nack_port :: "int \<Rightarrow> int" where "nack_port dst_id = NACK_PORT_BASE + dst_id"

definition TRANSPORTS :: "string list" where "TRANSPORTS = [''udp'', ''rdma'']"
definition check_transport :: "string \<Rightarrow> unit result" where
  "check_transport v = raise_if (v \<notin> set TRANSPORTS) ValueError"
definition RDMA_PORT :: int where "RDMA_PORT = 4791"

definition topo_check_tenant :: "topo \<Rightarrow> string \<Rightarrow> unit result" where
  "topo_check_tenant g v = raise_if (v \<notin> set (TENANTS g)) ValueError"

definition check_plane :: "topo \<Rightarrow> int \<Rightarrow> unit result" where
  "check_plane g v = raise_if (\<not> (0 \<le> v \<and> v < NUM_PLANES g)) ValueError"

definition check_spine :: "topo \<Rightarrow> int \<Rightarrow> unit result" where
  "check_spine g v = raise_if (\<not> (0 \<le> v \<and> v < NUM_SPINES g)) ValueError"

definition check_host :: "topo \<Rightarrow> int \<Rightarrow> unit result" where
  "check_host g v = raise_if (\<not> (0 \<le> v \<and> v < NUM_LEAVES g)) ValueError"

definition DQPN_BASE :: int where "DQPN_BASE = 0x010000"

definition dqpn_for_ev :: "topo \<Rightarrow> int \<Rightarrow> int \<Rightarrow> int result" where
  "dqpn_for_ev g plane path =
     bindE (check_plane g plane) (\<lambda>_. bindE (check_spine g path) (\<lambda>_.
       Inr (DQPN_BASE OR push_bit 8 plane OR path)))"

definition ev_from_dqpn :: "int \<Rightarrow> int \<times> int" where
  "ev_from_dqpn dqpn = (drop_bit 8 dqpn AND 0xFF, dqpn AND 0xFF)"

definition dec_pad2 :: "int \<Rightarrow> string" where
  "dec_pad2 k =
     (if k < 0 then CHR ''-'' # zpad 1 (dec_str (nat (- k))) else zpad 2 (dec_str (nat k)))"

definition host_name :: "string \<Rightarrow> int \<Rightarrow> string" where
  "host_name tenant host_id = tenant @ ''-host'' @ dec_pad2 host_id"

subsection \<open>Transit spines\<close>

definition REFERENCE_PAIRS_SPINES :: "((int \<times> int) \<times> int) list" where
  "REFERENCE_PAIRS_SPINES =
     [((0, 15), 0), ((1, 14), 2), ((2, 13), 4), ((3, 12), 6),
      ((4, 11), 1), ((5, 10), 3), ((6, 9), 5), ((7, 8), 7)]"

definition spine_for :: "topo \<Rightarrow> int \<Rightarrow> int \<Rightarrow> int result" where
  "spine_for g src_id dst_id =
     (let (a, b) = (if src_id < dst_id then (src_id, dst_id) else (dst_id, src_id))
      in case dict_get REFERENCE_PAIRS_SPINES (a, b) of
           Some s \<Rightarrow> Inr s
         | None \<Rightarrow> py_mod (a * NUM_LEAVES g + b) (NUM_SPINES g))"

definition FNV_OFFSET :: "64 word" where "FNV_OFFSET = 0xcbf29ce484222325"
definition FNV_PRIME :: "64 word" where "FNV_PRIME = 0x100000001b3"
definition SPLITMIX_GAMMA :: "64 word" where "SPLITMIX_GAMMA = 0x9E3779B97F4A7C15"

text \<open>The mask \<open>& 0xFFFFFFFFFFFFFFFF\<close> is the width of the word.\<close>

definition fnv1a :: "8 word list \<Rightarrow> 64 word" where
  "fnv1a seed = foldl (\<lambda>h b. (h XOR ucast b) * FNV_PRIME) FNV_OFFSET seed"

definition splitmix :: "64 word \<Rightarrow> 64 word" where
  "splitmix x =
     (let x1 = (x XOR drop_bit 30 x) * 0xbf58476d1ce4e5b9;
          x2 = (x1 XOR drop_bit 27 x1) * 0x94d049bb133111eb
      in x2 XOR drop_bit 31 x2)"

fun draw_spines :: "64 word \<Rightarrow> int \<Rightarrow> nat \<Rightarrow> nat \<Rightarrow> int list \<Rightarrow> int list" where
  "draw_spines base spines step 0 pool = []"
| "draw_spines base spines step (Suc n) pool =
     (let x = splitmix (base + of_nat step * SPLITMIX_GAMMA);
          j = nat (uint x mod (spines - int step))
      in pool ! j # draw_spines base spines (Suc step) n (take j pool @ drop (Suc j) pool))"

definition select_spines_from_seed :: "topo \<Rightarrow> string \<Rightarrow> int \<Rightarrow> int list" where
  "select_spines_from_seed g seed_str n =
     draw_spines (fnv1a (utf8 seed_str)) (NUM_SPINES g) 0 (nat n) (map int [0..<nat (NUM_SPINES g)])"

definition select_spines :: "topo \<Rightarrow> int \<Rightarrow> int \<Rightarrow> int \<Rightarrow> int list result" where
  "select_spines g src_id dst_id n =
     bindE (raise_if (\<not> (1 \<le> n \<and> n \<le> NUM_SPINES g)) ValueError) (\<lambda>_.
       Inr (select_spines_from_seed g
              (int_str (min src_id dst_id) @ ''|'' @ int_str (max src_id dst_id)) n))"

definition select_spines_for_addrs :: "topo \<Rightarrow> string \<Rightarrow> string \<Rightarrow> int \<Rightarrow> int list result" where
  "select_spines_for_addrs g src_addr dst_addr n =
     bindE (raise_if (\<not> (1 \<le> n \<and> n \<le> NUM_SPINES g)) ValueError) (\<lambda>_.
       let (lo, hi) = (if str_le src_addr dst_addr then (src_addr, dst_addr) else (dst_addr, src_addr))
       in Inr (select_spines_from_seed g (lo @ ''|'' @ hi) n))"

subsection \<open>Tenant addresses\<close>

abbreviation hex :: "int \<Rightarrow> string" where "hex k \<equiv> hex_str (nat k)"
abbreviation hex2 :: "int \<Rightarrow> string" where "hex2 k \<equiv> zpad 2 (hex_str (nat k))"

definition green_anycast_addr :: "topo \<Rightarrow> int \<Rightarrow> string result" where
  "green_anycast_addr g host_id =
     bindE (check_host g host_id) (\<lambda>_. Inr (''2001:db8:bbbb:'' @ hex2 host_id @ ''::2''))"

definition yellow_anycast_addr :: "topo \<Rightarrow> int \<Rightarrow> string result" where
  "yellow_anycast_addr g host_id =
     bindE (check_host g host_id) (\<lambda>_. Inr (''2001:db8:cccc:'' @ hex2 host_id @ ''::2''))"

definition yellow_loopback_addr :: "topo \<Rightarrow> int \<Rightarrow> string result" where
  "yellow_loopback_addr g host_id = yellow_anycast_addr g host_id"

definition inner_addr :: "topo \<Rightarrow> string \<Rightarrow> int \<Rightarrow> string result" where
  "inner_addr g tenant host_id =
     bindE (topo_check_tenant g tenant) (\<lambda>_.
       if tenant = ''green'' then green_anycast_addr g host_id else yellow_anycast_addr g host_id)"

definition host_underlay_addr :: "topo \<Rightarrow> string \<Rightarrow> int \<Rightarrow> int \<Rightarrow> string result" where
  "host_underlay_addr g tenant plane host_id =
     bindE (topo_check_tenant g tenant) (\<lambda>_. bindE (check_plane g plane) (\<lambda>_.
     bindE (check_host g host_id) (\<lambda>_. inner_addr g tenant host_id)))"

definition host_probe_peer_addr :: "topo \<Rightarrow> string \<Rightarrow> int \<Rightarrow> int \<Rightarrow> string result" where
  "host_probe_peer_addr g tenant plane host_id =
     bindE (topo_check_tenant g tenant) (\<lambda>_. bindE (check_plane g plane) (\<lambda>_.
     bindE (check_host g host_id) (\<lambda>_. inner_addr g tenant host_id)))"

definition leaf_gateway_addr :: "topo \<Rightarrow> string \<Rightarrow> int \<Rightarrow> int \<Rightarrow> string result" where
  "leaf_gateway_addr g tenant plane host_id =
     bindE (topo_check_tenant g tenant) (\<lambda>_. bindE (check_plane g plane) (\<lambda>_.
     bindE (check_host g host_id) (\<lambda>_.
       Inr (if tenant = ''green'' then ''2001:db8:bbbb:'' @ hex2 host_id @ ''::1''
            else ''2001:db8:cccc:'' @ hex plane @ hex2 host_id @ ''::1''))))"

definition host_id_from_inner_addr :: "string \<Rightarrow> (string \<times> int) option" where
  "host_id_from_inner_addr addr =
     (case ipv6_exploded addr of
        None \<Rightarrow> None
      | Some parts \<Rightarrow>
          if length parts \<noteq> 8 then None
          else if parts ! 0 \<noteq> ''2001'' \<or> parts ! 1 \<noteq> ''0db8'' then None
          else let tenant = (if parts ! 2 = ''bbbb'' \<and> parts ! 7 = ''0002'' then Some ''green''
                             else if parts ! 2 = ''cccc'' \<and> parts ! 7 = ''0002'' then Some ''yellow''
                             else None)
               in case tenant of
                    None \<Rightarrow> None
                  | Some tn \<Rightarrow>
                      let host_id = int (hex_int (parts ! 3))
                      in if \<not> (0 \<le> host_id \<and> host_id \<le> 15) then None else Some (tn, host_id))"

subsection \<open>Probe addresses\<close>

definition PROBE_INNER_SRC_PLACEHOLDER :: "(string \<times> string) list" where
  "PROBE_INNER_SRC_PLACEHOLDER =
     [(''yellow'', ''2001:db8:cccc::ffff''), (''green'', ''2001:db8:bbbb::ffff'')]"

definition probe_ev_addr :: "topo \<Rightarrow> string \<Rightarrow> int \<Rightarrow> int \<Rightarrow> int \<Rightarrow> string result" where
  "probe_ev_addr g tenant host_id plane path =
     bindE (topo_check_tenant g tenant) (\<lambda>_. bindE (check_host g host_id) (\<lambda>_.
     bindE (check_plane g plane) (\<lambda>_. bindE (check_spine g path) (\<lambda>_.
       let nic = plane + 1; low_byte = push_bit 4 nic OR path in
       if tenant = ''yellow'' then Inr (''2001:db8:cccc:'' @ hex host_id @ ''::'' @ hex low_byte)
       else if tenant = ''green'' then Inr (''2001:db8:bbbb:'' @ hex host_id @ ''::'' @ hex low_byte)
       else Inl NotImplementedError))))"

definition probe_inner_src :: "topo \<Rightarrow> string \<Rightarrow> string result" where
  "probe_inner_src g tenant =
     bindE (topo_check_tenant g tenant) (\<lambda>_.
       case dict_get PROBE_INNER_SRC_PLACEHOLDER tenant of
         None \<Rightarrow> Inl NotImplementedError | Some addr \<Rightarrow> Inr addr)"

definition probe_outer_dst :: "topo \<Rightarrow> string \<Rightarrow> int \<Rightarrow> int \<Rightarrow> int \<Rightarrow> int \<Rightarrow> string result" where
  "probe_outer_dst g tenant plane src_leaf dst_leaf path =
     bindE (topo_check_tenant g tenant) (\<lambda>_. bindE (check_plane g plane) (\<lambda>_.
     bindE (check_host g src_leaf) (\<lambda>_. bindE (check_host g dst_leaf) (\<lambda>_.
     bindE (check_spine g path) (\<lambda>_.
       if tenant = ''yellow''
       then Inr (''fc00:000'' @ hex plane @ '':f00'' @ hex path @ '':e00'' @ hex dst_leaf @
                 '':e009:f00'' @ hex path @ '':e00'' @ hex src_leaf @ '':dfff'')
       else if tenant = ''green''
       then Inr (''fc00:000'' @ hex plane @ '':f00'' @ hex path @ '':e00'' @ hex dst_leaf @
                 '':f00'' @ hex path @ '':e00'' @ hex src_leaf @ '':d000::'')
       else Inl NotImplementedError)))))"

definition probe_ev_from_inner_dst :: "topo \<Rightarrow> string \<Rightarrow> (string \<times> int \<times> int \<times> int) option" where
  "probe_ev_from_inner_dst g addr =
     (case ipv6_exploded addr of
        None \<Rightarrow> None
      | Some parts \<Rightarrow>
          if length parts \<noteq> 8 then None
          else if parts ! 0 \<noteq> ''2001'' \<or> parts ! 1 \<noteq> ''0db8'' then None
          else let tenant = (if parts ! 2 = ''cccc'' then Some ''yellow''
                             else if parts ! 2 = ''bbbb'' then Some ''green'' else None)
               in case tenant of
                    None \<Rightarrow> None
                  | Some tn \<Rightarrow>
                      if parts ! 4 \<noteq> ''0000'' \<or> parts ! 5 \<noteq> ''0000'' \<or> parts ! 6 \<noteq> ''0000'' then None
                      else let host_id = int (hex_int (parts ! 3));
                               low = int (hex_int (parts ! 7));
                               nic = drop_bit 4 low AND 0xF;
                               path = low AND 0xF
                           in if \<not> (0 \<le> host_id \<and> host_id < NUM_LEAVES g) then None
                              else if low < 0x10 \<or> 0xFF < low then None
                              else if \<not> (1 \<le> nic \<and> nic \<le> NUM_PLANES g) then None
                              else if \<not> (0 \<le> path \<and> path < NUM_SPINES g) then None
                              else Some (tn, host_id, nic - 1, path))"

subsection \<open>Outer destinations\<close>

definition SID_MODES :: "string list" where "SID_MODES = [''uA'', ''uN'']"
definition check_sid_mode :: "string \<Rightarrow> unit result" where
  "check_sid_mode v = raise_if (v \<notin> set SID_MODES) ValueError"

definition usid_outer_dst :: "topo \<Rightarrow> string \<Rightarrow> int \<Rightarrow> int \<Rightarrow> int \<Rightarrow> string \<Rightarrow> string result" where
  "usid_outer_dst g tenant plane spine dst_leaf sid_mode =
     bindE (topo_check_tenant g tenant) (\<lambda>_. bindE (check_plane g plane) (\<lambda>_.
     bindE (check_spine g spine) (\<lambda>_. bindE (check_host g dst_leaf) (\<lambda>_.
     bindE (check_sid_mode sid_mode) (\<lambda>_.
       let (head, yellow_tail) =
         (if sid_mode = ''uA''
          then (''fc00:000'' @ hex plane @ '':f00'' @ hex spine @ '':e00'' @ hex dst_leaf, ''e009:d001::'')
          else (''fc00:000'' @ hex plane @ '':1'' @ hex spine @ '':2'' @ hex dst_leaf, ''d001::''))
       in Inr (if tenant = ''green'' then head @ '':d000::'' else head @ '':'' @ yellow_tail))))))"

subsection \<open>Flows\<close>

record flow_key =
  src_addr :: string
  dst_addr :: string
  src_port :: int
  dst_port :: int

definition hash5 :: "flow_key \<Rightarrow> 64 word" where
  "hash5 f = fnv1a (utf8 (src_addr f @ ''|'' @ dst_addr f @ ''|'' @ int_str (src_port f) @ ''|'' @
                          int_str (dst_port f) @ ''|17''))"

end
