(* ===== verification/PyConv.thy ===== *)
theory PyConv
  imports PyStr
begin

text \<open>
  What Python's conversions and container operations do on a decoded JSON or YAML value, each
  with the exception it raises: \<open>int\<close>, \<open>float\<close>, \<open>str\<close>, iteration, truth, length, membership,
  indexing.
\<close>

subsection \<open>Integers and text\<close>

text \<open>\<open>int(s)\<close> on a string: surrounding blanks, one sign, digits with single underscores inside.\<close>

definition py_space :: "char \<Rightarrow> bool" where
  "py_space c \<longleftrightarrow> (let n = (of_char c :: nat) in n = 32 \<or> 9 \<le> n \<and> n \<le> 13 \<or> 28 \<le> n \<and> n \<le> 31 \<or> n = 133 \<or> n = 160)"

definition py_strip :: "string \<Rightarrow> string" where
  "py_strip s = rev (dropWhile py_space (rev (dropWhile py_space s)))"

fun dec_digits :: "int \<Rightarrow> string \<Rightarrow> int option" where
  "dec_digits a [] = Some a"
| "dec_digits a (c # cs) =
     (let n = (of_char c :: nat) in
      if 48 \<le> n \<and> n \<le> 57 then dec_digits (a * 10 + int (n - 48)) cs
      else if c = CHR ''_'' \<and> cs \<noteq> [] \<and> hd cs \<noteq> CHR ''_'' then dec_digits a cs
      else None)"

definition int_of_string :: "string \<Rightarrow> int option" where
  "int_of_string s =
     (let t = py_strip s;
          neg = (t \<noteq> [] \<and> hd t = CHR ''-'');
          u = (if t \<noteq> [] \<and> (hd t = CHR ''-'' \<or> hd t = CHR ''+'') then tl t else t)
      in if u = [] \<or> hd u = CHR ''_'' then None
         else map_option (\<lambda>k. if neg then - k else k) (dec_digits 0 u))"

text \<open>\<open>int(v)\<close>: floats truncate towards zero.\<close>

fun py_int :: "json \<Rightarrow> int result" where
  "py_int (JInt k) = Inr k"
| "py_int (JBool b) = Inr (if b then 1 else 0)"
| "py_int (JFloat x) = Inr (if x < 0 then - \<lfloor>- x\<rfloor> else \<lfloor>x\<rfloor>)"
| "py_int (JStr s) = (case int_of_string s of None \<Rightarrow> Inl ValueError | Some k \<Rightarrow> Inr k)"
| "py_int _ = Inl TypeError"

text \<open>\<open>str(v)\<close>. The text of a float or of a container is the parameter \<open>repr\<close>.\<close>

fun py_str :: "(json \<Rightarrow> string) \<Rightarrow> json \<Rightarrow> string" where
  "py_str repr (JStr s) = s"
| "py_str repr (JInt k) = int_str k"
| "py_str repr (JBool b) = (if b then ''True'' else ''False'')"
| "py_str repr JNull = ''None''"
| "py_str repr v = repr v"

text \<open>Iteration over a decoded value, and its truth value.\<close>

fun py_iter :: "json \<Rightarrow> json list result" where
  "py_iter (JList xs) = Inr xs"
| "py_iter (JStr s) = Inr (map (\<lambda>c. JStr [c]) s)"
| "py_iter (JObj kv) = Inr (map (JStr \<circ> fst) kv)"
| "py_iter _ = Inl TypeError"

fun py_truth :: "json \<Rightarrow> bool" where
  "py_truth JNull = False"
| "py_truth (JBool b) = b"
| "py_truth (JInt k) = (k \<noteq> 0)"
| "py_truth (JFloat x) = (x \<noteq> 0)"
| "py_truth (JStr s) = (s \<noteq> [])"
| "py_truth (JList xs) = (xs \<noteq> [])"
| "py_truth (JObj kv) = (kv \<noteq> [])"

subsection \<open>Floats\<close>

text \<open>
  \<open>float(s)\<close> on a string: a sign, digits with an optional point, an optional exponent. The names
  of infinities and NaN, which Python also reads, are outside the model of floats.
\<close>

definition py_digit :: "char \<Rightarrow> bool" where
  "py_digit c \<longleftrightarrow> (let n = (of_char c :: nat) in 48 \<le> n \<and> n \<le> 57)"

fun dec_value :: "nat \<Rightarrow> string \<Rightarrow> nat" where
  "dec_value a [] = a"
| "dec_value a (c # cs) = dec_value (a * 10 + (of_char c - 48)) cs"

fun split_sign :: "string \<Rightarrow> bool \<times> string" where
  "split_sign [] = (False, [])"
| "split_sign (c # cs) =
     (if c = CHR ''-'' then (True, cs) else if c = CHR ''+'' then (False, cs) else (False, c # cs))"

definition exponent_of_string :: "string \<Rightarrow> int option" where
  "exponent_of_string s =
     (case s of
        [] \<Rightarrow> Some 0
      | c # cs \<Rightarrow>
          if c \<noteq> CHR ''e'' \<and> c \<noteq> CHR ''E'' then None
          else let (neg, ds) = split_sign cs
               in if ds = [] \<or> \<not> list_all py_digit ds then None
                  else Some (if neg then - int (dec_value 0 ds) else int (dec_value 0 ds)))"

definition float_of_string :: "string \<Rightarrow> pyfloat option" where
  "float_of_string s =
     (let (neg, u) = split_sign (py_strip s);
          whole = takeWhile py_digit u; u1 = dropWhile py_digit u;
          point = (u1 \<noteq> [] \<and> hd u1 = CHR ''.''); u2 = (if point then tl u1 else u1);
          frac = (if point then takeWhile py_digit u2 else []);
          rest = (if point then dropWhile py_digit u2 else u1)
      in if whole = [] \<and> frac = [] then None
         else case exponent_of_string rest of
                None \<Rightarrow> None
              | Some e \<Rightarrow>
                  let m = rat_of_nat (dec_value 0 (whole @ frac)) * 10 powi (e - int (length frac))
                  in Some (rnd (if neg then - m else m)))"

fun py_float :: "json \<Rightarrow> pyfloat result" where
  "py_float (JFloat x) = Inr x"
| "py_float (JInt k) = Inr (float_of_int k)"
| "py_float (JBool b) = Inr (if b then 1 else 0)"
| "py_float (JStr s) = (case float_of_string s of None \<Rightarrow> Inl ValueError | Some x \<Rightarrow> Inr x)"
| "py_float _ = Inl TypeError"

subsection \<open>Containers\<close>

fun py_len :: "json \<Rightarrow> int result" where
  "py_len (JList xs) = Inr (int (length xs))"
| "py_len (JStr s) = Inr (int (length s))"
| "py_len (JObj kv) = Inr (int (length kv))"
| "py_len _ = Inl TypeError"

text \<open>\<open>s in v\<close> for a string \<open>s\<close>, and \<open>v[s]\<close>, \<open>v[i]\<close>.\<close>

definition py_substring :: "string \<Rightarrow> string \<Rightarrow> bool" where
  "py_substring t s \<longleftrightarrow> list_ex (\<lambda>i. take (length t) (drop i s) = t) [0..<Suc (length s)]"

fun py_contains :: "string \<Rightarrow> json \<Rightarrow> bool result" where
  "py_contains t (JObj kv) = Inr (dict_get kv t \<noteq> None)"
| "py_contains t (JList xs) = Inr (JStr t \<in> set xs)"
| "py_contains t (JStr s) = Inr (py_substring t s)"
| "py_contains t _ = Inl TypeError"

fun py_index :: "json \<Rightarrow> nat \<Rightarrow> json result" where
  "py_index (JList xs) i = (if i < length xs then Inr (xs ! i) else Inl IndexError)"
| "py_index (JStr s) i = (if i < length s then Inr (JStr [s ! i]) else Inl IndexError)"
| "py_index (JObj kv) i = Inl KeyError"
| "py_index _ i = Inl TypeError"

text \<open>\<open>v.get(k, default)\<close>: only a dictionary has the method.\<close>

fun py_get :: "json \<Rightarrow> string \<Rightarrow> json \<Rightarrow> json result" where
  "py_get (JObj kv) k dflt = Inr (case dict_get kv k of None \<Rightarrow> dflt | Some v \<Rightarrow> v)"
| "py_get _ k dflt = Inl AttributeError"

end
