(* ===== verification/Agent.thy ===== *)
theory Agent
  imports LossCompute LossWindow Topo PyConv
begin

text \<open>
  The agents of \<^verbatim>\<open>srv6_mrc/mrc/agent.py\<close>. The sender's agent joins the EV table, the sent windows
  and the fusion of loss reports; the receiver's joins the loss windows, the cache of the senders'
  last EVs and the reports and NACKs it sends. A thread is the body of its loop; time and the
  outcome of each transmission are arguments, what was transmitted is a result. The thread
  control (start, stop, waiting, the start-up jitter) is not modelled.
\<close>

subsection \<open>Configuration\<close>

definition DEFAULT_PROBE_INTERVAL_MS :: int where "DEFAULT_PROBE_INTERVAL_MS = 500"
definition DEFAULT_PROBE_TIMEOUT_MS :: int where "DEFAULT_PROBE_TIMEOUT_MS = 500"
definition DEFAULT_LOSS_WINDOW_MS :: int where "DEFAULT_LOSS_WINDOW_MS = 300"
definition DEFAULT_MAX_WINDOW_SKEW_MS :: int where "DEFAULT_MAX_WINDOW_SKEW_MS = 500"

record agent_config =
  probe_interval_ms :: int
  probe_timeout_ms :: int
  loss_window_ms :: int
  max_window_skew_ms :: int
  use_loopback :: bool

definition default_agent_config :: agent_config where
  "default_agent_config =
     \<lparr>probe_interval_ms = DEFAULT_PROBE_INTERVAL_MS, probe_timeout_ms = DEFAULT_PROBE_TIMEOUT_MS,
      loss_window_ms = DEFAULT_LOSS_WINDOW_MS, max_window_skew_ms = DEFAULT_MAX_WINDOW_SKEW_MS,
      use_loopback = False\<rparr>"

definition agent_config_post_init :: "agent_config \<Rightarrow> unit result" where
  "agent_config_post_init c =
     bindE (raise_if (probe_interval_ms c \<le> 0) ValueError) (\<lambda>_.
     bindE (raise_if (probe_timeout_ms c \<le> 0) ValueError) (\<lambda>_.
     bindE (raise_if (loss_window_ms c \<le> 0) ValueError) (\<lambda>_.
       raise_if (max_window_skew_ms c \<le> 0) ValueError)))"

definition AGENT_CONFIG_FIELDS :: "string list" where
  "AGENT_CONFIG_FIELDS =
     [''probe_interval_ms'', ''probe_timeout_ms'', ''loss_window_ms'', ''max_window_skew_ms'']"

definition EV_STATE_CONFIG_FIELDS :: "string list" where
  "EV_STATE_CONFIG_FIELDS =
     [''probe_window_ticks'', ''probe_min_samples'', ''probe_fail_ratio'', ''probe_recover_ratio'',
      ''probe_recover_ticks'', ''loss_threshold'', ''loss_demote_consecutive'', ''min_active_evs'',
      ''loss_backoff_max_level'', ''loss_backoff_reset_ticks'']"

text \<open>
  \<open>load_configs_from_env\<close> up to the two constructor calls: None for the defaults, otherwise the
  keyword arguments of \<open>AgentConfig\<close> and of \<open>EVStateConfig\<close>, which is only built when it has any.
\<close>

definition config_kwargs ::
  "(string \<Rightarrow> json result) \<Rightarrow> string option \<Rightarrow> string option \<Rightarrow>
   ((string \<times> json) list \<times> (string \<times> json) list option) option result" where
  "config_kwargs loads env value =
     (case (case value of None \<Rightarrow> env | Some v \<Rightarrow> Some v) of
        None \<Rightarrow> Inr None
      | Some v \<Rightarrow>
          if v = [] then Inr None
          else
            (case loads v of
               Inl e \<Rightarrow> Inl (if e = JSONDecodeError then ValueError else e)
             | Inr (JObj payload) \<Rightarrow>
                 if list_ex (\<lambda>(k, _). k \<notin> set (AGENT_CONFIG_FIELDS @ EV_STATE_CONFIG_FIELDS)) payload
                 then Inl ValueError
                 else let agent_kwargs = filter (\<lambda>(k, _). k \<in> set AGENT_CONFIG_FIELDS) payload;
                          ev_kwargs = filter (\<lambda>(k, _). k \<in> set EV_STATE_CONFIG_FIELDS) payload
                      in Inr (Some (agent_kwargs, if ev_kwargs \<noteq> [] then Some ev_kwargs else None))
             | Inr _ \<Rightarrow> Inl ValueError))"

subsection \<open>The sender's agent\<close>

record emit_buckets =
  lt_100us :: int
  lt_1ms :: int
  lt_10ms :: int
  lt_100ms :: int
  lt_1s :: int
  ge_1s :: int

record sender_agent =
  sa_planes :: nat
  sa_spines :: nat
  sa_tenant :: string
  sa_tenant_id :: int
  sa_src_id :: int
  sa_dst_id :: int
  sa_table :: ev_table
  sa_config :: agent_config
  sa_stats :: fusion_stats
  sa_buckets :: emit_buckets
  sa_ring :: sent_ring
  sa_window_sent :: "int list list"
  sa_window_start_ns :: int
  sa_window_id :: int

definition mk_sender_agent ::
  "topo \<Rightarrow> string \<Rightarrow> int \<Rightarrow> int \<Rightarrow> ev_table \<Rightarrow> agent_config \<Rightarrow> int \<Rightarrow> sender_agent result" where
  "mk_sender_agent g tenant src_id dst_id table config now_ns =
     bindE (raise_if (int (num_planes table) \<noteq> NUM_PLANES g) ValueError) (\<lambda>_.
     bindE (raise_if (tenant \<notin> set (tenants table)) ValueError) (\<lambda>_.
     bindE (tenant_id g tenant) (\<lambda>tid.
     bindE (mk_sent_ring (NUM_PLANES g) (NUM_SPINES g) 16) (\<lambda>ring.
       Inr \<lparr>sa_planes = nat (NUM_PLANES g), sa_spines = nat (NUM_SPINES g), sa_tenant = tenant,
            sa_tenant_id = tid, sa_src_id = src_id, sa_dst_id = dst_id, sa_table = table,
            sa_config = config, sa_stats = new_fusion_stats,
            sa_buckets = \<lparr>lt_100us = 0, lt_1ms = 0, lt_10ms = 0, lt_100ms = 0, lt_1s = 0, ge_1s = 0\<rparr>,
            sa_ring = ring,
            sa_window_sent = grid_const (nat (NUM_PLANES g)) (nat (NUM_SPINES g)) 0,
            sa_window_start_ns = now_ns, sa_window_id = 0\<rparr>))))"

definition sa_record_sent :: "sender_agent \<Rightarrow> int \<Rightarrow> int \<Rightarrow> sender_agent" where
  "sa_record_sent a plane path =
     (if 0 \<le> plane \<and> plane < int (sa_planes a) \<and> 0 \<le> path \<and> path < int (sa_spines a)
      then a\<lparr>sa_window_sent := gset (sa_window_sent a) (nat plane) (nat path)
               (gget (sa_window_sent a) (nat plane) (nat path) + 1)\<rparr>
      else a)"

text \<open>The table call with ValueError and KeyError swallowed; it raises nothing else.\<close>

definition ignoring :: "ev_table \<Rightarrow> ev_table result \<Rightarrow> ev_table" where
  "ignoring t r = (case r of Inl e \<Rightarrow> t | Inr t' \<Rightarrow> t')"

definition sa_record_probe_recv :: "sender_agent \<Rightarrow> int \<Rightarrow> int \<Rightarrow> sender_agent" where
  "sa_record_probe_recv a plane path =
     a\<lparr>sa_table := ignoring (sa_table a) (record_probe_recv (sa_table a) (sa_tenant a) plane path)\<rparr>"

subsubsection \<open>Emitting probes\<close>

definition bump_bucket :: "int \<Rightarrow> emit_buckets \<Rightarrow> emit_buckets" where
  "bump_bucket elapsed_ns b =
     (if elapsed_ns < 100000 then b\<lparr>lt_100us := lt_100us b + 1\<rparr>
      else if elapsed_ns < 1000000 then b\<lparr>lt_1ms := lt_1ms b + 1\<rparr>
      else if elapsed_ns < 10000000 then b\<lparr>lt_10ms := lt_10ms b + 1\<rparr>
      else if elapsed_ns < 100000000 then b\<lparr>lt_100ms := lt_100ms b + 1\<rparr>
      else if elapsed_ns < 1000000000 then b\<lparr>lt_1s := lt_1s b + 1\<rparr>
      else b\<lparr>ge_1s := ge_1s b + 1\<rparr>)"

text \<open>A transmission: the EV, the destination leaf, the payload.\<close>

type_synonym transmission = "int \<times> int \<times> int \<times> bytes"

text \<open>One EV's turn in a round. Only OSError is caught around the transport.\<close>

definition emit_probe ::
  "sender_agent \<Rightarrow> nat \<times> nat \<Rightarrow> unit result \<Rightarrow> int \<Rightarrow>
   sender_agent \<times> transmission list \<times> unit result" where
  "emit_probe a ev outcome elapsed_ns =
     (let plane = int (fst ev); path = int (snd ev) in
      case encode_probe plane path (sa_tenant_id a) (sa_src_id a) (sa_dst_id a) of
        Inl e \<Rightarrow> if e = ValueError then (a, [], Inr ()) else (a, [], Inl e)
      | Inr payload \<Rightarrow>
          (case outcome of
             Inl e \<Rightarrow> if e = OSError then (a, [], Inr ()) else (a, [], Inl e)
           | Inr _ \<Rightarrow>
               (a\<lparr>sa_table := ignoring (sa_table a) (record_probe_sent (sa_table a) (sa_tenant a) plane path),
                  sa_buckets := bump_bucket elapsed_ns (sa_buckets a)\<rparr>,
                [(plane, path, sa_dst_id a, payload)], Inr ())))"

fun emit_evs ::
  "(nat \<times> nat) list \<Rightarrow> (nat \<times> nat \<Rightarrow> unit result) \<Rightarrow> (nat \<times> nat \<Rightarrow> int) \<Rightarrow> sender_agent \<Rightarrow>
   transmission list \<Rightarrow> sender_agent \<times> transmission list \<times> unit result" where
  "emit_evs [] outcome elapsed a out = (a, out, Inr ())"
| "emit_evs (ev # evl) outcome elapsed a out =
     (case emit_probe a ev (outcome ev) (elapsed ev) of
        (a1, tx, Inl e) \<Rightarrow> (a1, out @ tx, Inl e)
      | (a1, tx, Inr _) \<Rightarrow> emit_evs evl outcome elapsed a1 (out @ tx))"

definition emit_round ::
  "sender_agent \<Rightarrow> (nat \<times> nat \<Rightarrow> unit result) \<Rightarrow> (nat \<times> nat \<Rightarrow> int) \<Rightarrow>
   sender_agent \<times> transmission list \<times> unit result" where
  "emit_round a outcome elapsed = emit_evs (cells (sa_planes a) (sa_spines a)) outcome elapsed a []"

subsubsection \<open>Loss reports and windows\<close>

definition handle_loss_report :: "sender_agent \<Rightarrow> bytes \<Rightarrow> int \<Rightarrow> sender_agent \<times> py_error option" where
  "handle_loss_report a payload now_ns =
     (case decode_loss_report payload of
        Inl e \<Rightarrow> if e = ProbeDecodeError then (a, None) else (a, Some e)
      | Inr rep \<Rightarrow>
          (case apply_loss_report (sa_table a) (sa_tenant a) rep (sa_ring a) now_ns
                  (max_window_skew_ms (sa_config a) * 1000000) (sa_stats a) MIN_SENT_FOR_ABSENT_LOSS of
             (t, st, e) \<Rightarrow> (a\<lparr>sa_table := t, sa_stats := st\<rparr>, e)))"

text \<open>
  \<open>_rotate_window\<close>. \<open>source\<close> is the outcome of the call of \<open>sent_source\<close>: None when it is not set, an
  exception is swallowed. Rows and cells beyond the topology are cut off.
\<close>

fun add_row :: "int list \<Rightarrow> int list \<Rightarrow> int list" where
  "add_row cur [] = cur"
| "add_row [] ns = []"
| "add_row (c # cur) (n # ns) = (c + n) # add_row cur ns"

fun add_delta :: "int list list \<Rightarrow> int list list \<Rightarrow> int list list" where
  "add_delta cur [] = cur"
| "add_delta [] rows = []"
| "add_delta (c # cur) (row # rows) = add_row c row # add_delta cur rows"

definition window_delta :: "int list list option result option \<Rightarrow> int list list" where
  "window_delta source =
     (case source of Some (Inr (Some delta)) \<Rightarrow> delta | _ \<Rightarrow> [])"

definition rotate_window ::
  "sender_agent \<Rightarrow> int list list option result option \<Rightarrow> int \<Rightarrow> sender_agent \<times> unit result" where
  "rotate_window a source now_ns =
     (let sent = add_delta (sa_window_sent a) (window_delta source);
          start = sa_window_start_ns a;
          wid = sa_window_id a;
          a1 = a\<lparr>sa_window_sent := grid_const (sa_planes a) (sa_spines a) 0,
                 sa_window_start_ns := now_ns, sa_window_id := (wid + 1) mod 0x10000\<rparr>
      in if list_ex (list_ex (\<lambda>n. n \<noteq> 0)) sent
         then (case ring_push (sa_ring a1)
                     \<lparr>sw_start_ns = start, sw_end_ns = now_ns, sw_sent = sent, sw_window_id = wid\<rparr> of
                 Inl e \<Rightarrow> (a1, Inl e)
               | Inr ring \<Rightarrow> (a1\<lparr>sa_ring := ring\<rparr>, Inr ()))
         else (a1, Inr ()))"

text \<open>One turn of \<open>_window_loop\<close> after its sleep: both deadlines are checked against the same time.\<close>

record deadlines =
  next_probe_tick :: pyfloat
  next_window_tick :: pyfloat

definition advance :: "pyfloat \<Rightarrow> pyfloat \<Rightarrow> pyfloat \<Rightarrow> pyfloat" where
  "advance deadline interval now =
     (let d = fadd deadline interval in if d \<le> now then fadd now interval else d)"

definition window_turn ::
  "sender_agent \<Rightarrow> deadlines \<Rightarrow> pyfloat \<Rightarrow> int list list option result option \<Rightarrow> int \<Rightarrow>
   sender_agent \<times> deadlines \<times> unit result" where
  "window_turn a d now source now_ns =
     (let (a1, d1) =
        (if next_probe_tick d \<le> now
         then (a\<lparr>sa_table := fst (tick (sa_table a) (sa_tenant a))\<rparr>,
               d\<lparr>next_probe_tick := advance (next_probe_tick d)
                   (int_truediv (probe_interval_ms (sa_config a)) 1000) now\<rparr>)
         else (a, d))
      in if next_window_tick d1 \<le> now
         then (case rotate_window a1 source now_ns of
                 (a2, Inl e) \<Rightarrow> (a2, d1, Inl e)
               | (a2, Inr _) \<Rightarrow>
                   (a2, d1\<lparr>next_window_tick := advance (next_window_tick d1)
                          (int_truediv (loss_window_ms (sa_config a2)) 1000) now\<rparr>, Inr ()))
         else (a1, d1, Inr ()))"

subsection \<open>The receiver's agent\<close>

text \<open>
  Flow keys are tuples of integers, (tenant id, source, destination) from the data path; a key of
  fewer than two elements stays possible, as the code allows for it.
\<close>

type_synonym flow_tuple = "int list"

record sender_addr =
  ad_src_id :: int
  ad_last_plane :: int
  ad_last_path :: int

record receiver_agent =
  ra_my_id :: int
  ra_loss :: "flow_tuple loss_window_table"
  ra_senders :: "((int \<times> int) \<times> sender_addr) list"
  trimmed_seen :: int
  nacks_sent :: int
  nack_send_errors :: int

definition mk_receiver_agent :: "topo \<Rightarrow> int \<Rightarrow> receiver_agent result" where
  "mk_receiver_agent g my_id =
     bindE (mk_loss_window_table (NUM_PLANES g) (NUM_SPINES g)) (\<lambda>t.
       Inr \<lparr>ra_my_id = my_id, ra_loss = t, ra_senders = [], trimmed_seen = 0, nacks_sent = 0,
            nack_send_errors = 0\<rparr>)"

definition record_data :: "receiver_agent \<Rightarrow> flow_tuple \<Rightarrow> int \<Rightarrow> int \<Rightarrow> int \<Rightarrow> receiver_agent result" where
  "record_data a flow_key plane path sq =
     bindE (lw_record (ra_loss a) flow_key plane path sq) (\<lambda>t.
       let a1 = a\<lparr>ra_loss := t\<rparr> in
       case flow_key of
         tid # src # _ \<Rightarrow>
           Inr (a1\<lparr>ra_senders := dict_put (tid, src)
                     \<lparr>ad_src_id = src, ad_last_plane = plane, ad_last_path = path\<rparr> (ra_senders a1)\<rparr>)
       | _ \<Rightarrow> Inr a1)"

text \<open>A NACK on the wire: the EV it is sent on, the leaf, the port, the payload.\<close>

type_synonym nack_transmission = "int \<times> int \<times> int \<times> int \<times> bytes"

definition ra_record_trimmed ::
  "receiver_agent \<Rightarrow> flow_tuple \<Rightarrow> int \<Rightarrow> int \<Rightarrow> int \<Rightarrow> unit result \<Rightarrow>
   receiver_agent \<times> nack_transmission list \<times> unit result" where
  "ra_record_trimmed a flow_key plane path sq outcome =
     (case lw_record_trimmed (ra_loss a) flow_key plane path of
        Inl e \<Rightarrow> (a, [], Inl e)
      | Inr t \<Rightarrow>
          (let a1 = a\<lparr>ra_loss := t, trimmed_seen := trimmed_seen a + 1\<rparr> in
           case flow_key of
             tid # src # _ \<Rightarrow>
               (let (rev_plane, rev_path) =
                  (case dict_get (ra_senders a1) (tid, src) of
                     Some s \<Rightarrow> (ad_last_plane s, ad_last_path s) | None \<Rightarrow> (plane, path))
                in case bindE (mk_nack plane path tid src (ra_my_id a1) sq) encode_nack of
                     Inl e \<Rightarrow> (a1, [], Inl e)
                   | Inr payload \<Rightarrow>
                       (case outcome of
                          Inr _ \<Rightarrow> (a1\<lparr>nacks_sent := nacks_sent a1 + 1\<rparr>,
                                    [(rev_plane, rev_path, src, nack_port (ra_my_id a1), payload)], Inr ())
                        | Inl e \<Rightarrow>
                            if e = OSError
                            then (a1\<lparr>nack_send_errors := nack_send_errors a1 + 1\<rparr>, [], Inr ())
                            else (a1, [], Inl e)))
           | _ \<Rightarrow> (a1, [], Inr ())))"

definition known_senders :: "receiver_agent \<Rightarrow> (int \<times> int) list" where
  "known_senders a = map fst (ra_senders a)"

definition diagnostic_snapshot :: "receiver_agent \<Rightarrow> json" where
  "diagnostic_snapshot a =
     (if trimmed_seen a = 0 then JObj []
      else JObj [(''trim'', JObj [(''trimmed_seen'', JInt (trimmed_seen a)),
                  (''nacks_sent'', JInt (nacks_sent a)), (''nack_send_errors'', JInt (nack_send_errors a))])])"

text \<open>
  \<open>_emit_one_round\<close>: the report of each known flow. \<open>outcome\<close> is the transport's answer for a
  flow; only OSError is caught, as for the ValueError of the encoder.
\<close>

definition emit_report ::
  "receiver_agent \<Rightarrow> flow_tuple \<Rightarrow> unit result \<Rightarrow> receiver_agent \<times> transmission list \<times> unit result" where
  "emit_report a flow_key outcome =
     (case snapshot_and_reset (ra_loss a) flow_key of
        (t, Inl e) \<Rightarrow> (a\<lparr>ra_loss := t\<rparr>, [], Inl e)
      | (t, Inr report) \<Rightarrow>
          (let a1 = a\<lparr>ra_loss := t\<rparr> in
           if rp_planes report = [] then (a1, [], Inr ())
           else case flow_key of
             tid # src # _ \<Rightarrow>
               (case dict_get (ra_senders a1) (tid, src) of
                  None \<Rightarrow> (a1, [], Inr ())
                | Some s \<Rightarrow>
                    (case encode_loss_report (rp_window_id report) (rp_planes report) of
                       Inl e \<Rightarrow> if e = ValueError then (a1, [], Inr ()) else (a1, [], Inl e)
                     | Inr payload \<Rightarrow>
                         (case outcome of
                            Inl e \<Rightarrow> if e = OSError then (a1, [], Inr ()) else (a1, [], Inl e)
                          | Inr _ \<Rightarrow>
                              (a1, [(ad_last_plane s, ad_last_path s, ad_src_id s, payload)], Inr ()))))
           | _ \<Rightarrow> (a1, [], Inr ())))"

fun emit_reports ::
  "flow_tuple list \<Rightarrow> (flow_tuple \<Rightarrow> unit result) \<Rightarrow> receiver_agent \<Rightarrow> transmission list \<Rightarrow>
   receiver_agent \<times> transmission list \<times> unit result" where
  "emit_reports [] outcome a out = (a, out, Inr ())"
| "emit_reports (k # ks) outcome a out =
     (case emit_report a k (outcome k) of
        (a1, tx, Inl e) \<Rightarrow> (a1, out @ tx, Inl e)
      | (a1, tx, Inr _) \<Rightarrow> emit_reports ks outcome a1 (out @ tx))"

definition emit_one_round ::
  "receiver_agent \<Rightarrow> (flow_tuple \<Rightarrow> unit result) \<Rightarrow> receiver_agent \<times> transmission list \<times> unit result" where
  "emit_one_round a outcome = emit_reports (known_flows (ra_loss a)) outcome a []"

end
