(* ===== verification/EvRecovery.thy ===== *)
theory EvRecovery
  imports LossCompute
begin

text \<open>
  Recovery of an EV: from a demotion, or from any state without a loss streak, probes that come back
  promote the EV to GOOD within a number of the tenant's ticks that the configuration bounds,
  whatever other calls the table gets in between, a lossy window of this very EV excepted.
\<close>

subsection \<open>A demotion consumes the loss streak\<close>

lemma same_config_level: "same_config t u \<Longrightarrow> loss_backoff_max_level (cfg u) = loss_backoff_max_level (cfg t)"
  by (simp add: same_config_def)

lemma eval_record_bad_streak:
  assumes "rstate (eval_record c now b r) = ASSUMED_BAD" "rstate r \<noteq> ASSUMED_BAD"
  shows "consecutive_loss_demote_windows (eval_record c now b r) = 0"
  using assms by (auto simp: eval_record_def Let_def split: probe_verdict.splits if_splits)

lemma loss_record_step_bad_streak:
  assumes "rstate (loss_record_step c now b x r) = ASSUMED_BAD" "rstate r \<noteq> ASSUMED_BAD"
  shows "consecutive_loss_demote_windows (loss_record_step c now b x r) = 0"
  using assms by (auto simp: loss_record_step_def Let_def split: if_splits)

lemma tick_other_or_eval:
  assumes "ev_wf s" "0 \<le> loss_backoff_max_level (cfg s)" "tick s tn' = (t, e)" "valid_ev s tn p q"
  shows "tn' \<noteq> tn \<and> rec_at t tn p q = rec_at s tn p q
    \<or> tn' = tn \<and> (\<exists>now b. rec_at t tn p q = eval_record (cfg s) now b (rotate_bucket (rec_at s tn p q)))"
proof (cases "tn' \<in> set (tenants s)")
  case True
  have "snd (tick s tn') = None" by (rule tick_total(2) [OF assms(1) True assms(2)])
  then obtain B where B: "\<forall>u p q. rec_at t u p q =
      (if u = tn' \<and> p < num_planes s \<and> q < num_paths s
       then eval_record (cfg s) (the (ticks s tn') + 1) (B p q) (rotate_bucket (rec_at s tn' p q)) else rec_at s u p q)"
    using tick_local [OF assms(1) True] assms(3) by (metis fst_conv)
  show ?thesis
  proof (cases "tn' = tn")
    case True
    then show ?thesis using B assms(4) by (simp add: valid_ev_def, blast)
  qed (use B in simp)
next
  case False
  have "ev_shape s" using assms(1) by simp
  then have "tn' \<notin> dom (evs s)" using False by (simp add: ev_shape_def)
  then have "evs s tn' = None" by (simp add: dom_def)
  then have "t = s" using assms(3) by (simp add: tick_def check_tenant_def raise_if_def)
  then show ?thesis using False valid_ev_tenant [OF assms(4)] by auto
qed

lemma step_demotion_clears:
  assumes "ev_step s t" "ev_wf s" "valid_ev s tn p q" "0 \<le> loss_backoff_max_level (cfg s)"
    and "rstate (rec_at s tn p q) \<noteq> ASSUMED_BAD" "rstate (rec_at t tn p q) = ASSUMED_BAD"
  shows "consecutive_loss_demote_windows (rec_at t tn p q) = 0"
  using assms(1)
proof cases
  case (sent tn' plane path)
  then have "valid_ev s tn' (nat plane) (nat path)"
    using assms(2) by (auto simp: record_probe_sent_def py_simps intro!: valid_of_checks)
  then show ?thesis
    using sent assms by (auto simp: record_probe_sent_def py_simps rec_at_upd_rec split: if_splits)
next
  case (recv tn' plane path)
  then have "valid_ev s tn' (nat plane) (nat path)"
    using assms(2) by (auto simp: record_probe_recv_def py_simps intro!: valid_of_checks)
  then show ?thesis
    using recv assms by (auto simp: record_probe_recv_def py_simps rec_at_upd_rec split: if_splits)
next
  case (tick tn' e)
  from tick_other_or_eval [OF assms(2,4) this assms(3)] show ?thesis
    using assms(5,6) eval_record_bad_streak by fastforce
next
  case (loss tn' plane path seen expected)
  have sh: "ev_shape s" using assms(2) by simp
  show ?thesis
    using record_loss_window_cases [OF sh loss] sh assms(5,6)
    by (auto simp: apply_loss_ratio_local loss_record_step_bad_streak split: if_splits)
qed

subsection \<open>Recovery is reached\<close>

text \<open>
  What may happen to the table between two ticks of the tenant: probes sent and returned on any EV,
  loss windows of any EV, ticks of other tenants. Only a window of EV (p, q) itself must not be
  lossy, its ratio at most \<open>loss_threshold\<close>.
\<close>

definition lossy :: "ev_state_config \<Rightarrow> int \<Rightarrow> int \<Rightarrow> bool" where
  "lossy c seen expected \<longleftrightarrow>
     expected \<noteq> 0 \<and> loss_threshold c < int_truediv (expected - min seen expected) expected"

inductive other_calls :: "string \<Rightarrow> nat \<Rightarrow> nat \<Rightarrow> ev_table \<Rightarrow> ev_table \<Rightarrow> bool"
  for tn :: string and p q :: nat where
  none: "other_calls tn p q t t"
| sent: "other_calls tn p q t u \<Longrightarrow> record_probe_sent u tn' plane path = Inr v \<Longrightarrow> other_calls tn p q t v"
| recv: "other_calls tn p q t u \<Longrightarrow> record_probe_recv u tn' plane path = Inr v \<Longrightarrow> other_calls tn p q t v"
| loss: "other_calls tn p q t u \<Longrightarrow> record_loss_window u tn' plane path seen expected = Inr v \<Longrightarrow>
     \<not> ((tn', plane, path) = (tn, int p, int q) \<and> lossy (cfg u) seen expected) \<Longrightarrow> other_calls tn p q t v"
| tick: "other_calls tn p q t u \<Longrightarrow> tn' \<noteq> tn \<Longrightarrow> tick u tn' = (v, e) \<Longrightarrow> other_calls tn p q t v"

text \<open>
  \<open>healthy_rounds n tn p q t k u\<close>: from \<open>t\<close>, \<open>k\<close> ticks of the tenant lead to \<open>u\<close>, and before
  each of them at least \<open>n\<close> probes were sent on EV (p, q) and no fewer came back. \<open>u\<close> is the table
  after the last of these ticks.
\<close>

inductive healthy_rounds ::
  "int \<Rightarrow> string \<Rightarrow> nat \<Rightarrow> nat \<Rightarrow> ev_table \<Rightarrow> nat \<Rightarrow> ev_table \<Rightarrow> bool"
  for n :: int and tn :: string and p q :: nat and t :: ev_table where
  start: "healthy_rounds n tn p q t 0 t"
| round: "healthy_rounds n tn p q t k u \<Longrightarrow> other_calls tn p q u v \<Longrightarrow>
     n \<le> current_sent (rec_at v tn p q) \<Longrightarrow>
     current_sent (rec_at v tn p q) \<le> current_recv (rec_at v tn p q) \<Longrightarrow>
     tick v tn = (w, None) \<Longrightarrow> healthy_rounds n tn p q t (Suc k) w"

definition same_health :: "ev_record \<Rightarrow> ev_record \<Rightarrow> bool" where
  "same_health r r' \<longleftrightarrow>
     rstate r' = rstate r \<and> buckets r' = buckets r
     \<and> consecutive_healthy_windows r' = consecutive_healthy_windows r
     \<and> (consecutive_loss_demote_windows r = 0 \<longrightarrow> consecutive_loss_demote_windows r' = 0)"

lemma same_health_trans: "same_health r s \<Longrightarrow> same_health s t \<Longrightarrow> same_health r t"
  by (simp add: same_health_def)

lemma loss_record_step_same_health:
  "\<not> loss_threshold c < x \<Longrightarrow> same_health r (loss_record_step c now b x r)"
  by (simp add: loss_record_step_def same_health_def Let_def)

lemma other_loss_same_health:
  assumes "ev_wf u" "record_loss_window u tn' plane path s e = Inr v"
    and "\<not> ((tn', plane, path) = (tn, int p, int q) \<and> lossy (cfg u) s e)"
  shows "same_health (rec_at u tn p q) (rec_at v tn p q)"
proof -
  have sh: "ev_shape u" using assms(1) by simp
  note c = record_loss_window_cases [OF sh assms(2)]
  show ?thesis
  proof (cases "e \<noteq> 0 \<and> tn' = tn \<and> p = nat plane \<and> q = nat path")
    case True
    then have "\<not> loss_threshold (cfg u) < int_truediv (e - min s e) e"
      using assms(3) c(2,3) by (auto simp: lossy_def)
    then show ?thesis
      using True c sh by (simp add: apply_loss_ratio_local loss_record_step_same_health)
  next
    case False
    then have "rec_at v tn p q = rec_at u tn p q"
      using c sh by (auto simp: apply_loss_ratio_local)
    then show ?thesis by (simp add: same_health_def)
  qed
qed

lemma other_calls_keep:
  assumes "other_calls tn p q t u" "ev_wf t" "valid_ev t tn p q" "0 \<le> loss_backoff_max_level (cfg t)"
  shows "ev_wf u" "same_config t u" "same_health (rec_at t tn p q) (rec_at u tn p q)"
proof -
  have "ev_wf u \<and> same_config t u \<and> same_health (rec_at t tn p q) (rec_at u tn p q)"
    using assms
  proof (induction rule: other_calls.induct)
    case (sent t u tn' plane path v)
    have v: "valid_ev u tn' (nat plane) (nat path)" "ev_shape u"
      using sent by (auto simp: record_probe_sent_def py_simps intro!: valid_of_checks)
    have "same_health (rec_at u tn p q) (rec_at v tn p q)"
      using sent.hyps v by (auto simp: record_probe_sent_def py_simps rec_at_upd_rec same_health_def)
    then show ?case
      using sent record_probe_sent_wf by (blast intro: same_config_trans same_health_trans)
  next
    case (recv t u tn' plane path v)
    have v: "valid_ev u tn' (nat plane) (nat path)" "ev_shape u"
      using recv by (auto simp: record_probe_recv_def py_simps intro!: valid_of_checks)
    have "same_health (rec_at u tn p q) (rec_at v tn p q)"
      using recv.hyps v by (auto simp: record_probe_recv_def py_simps rec_at_upd_rec same_health_def)
    then show ?case
      using recv record_probe_recv_wf by (blast intro: same_config_trans same_health_trans)
  next
    case (loss t u tn' plane path s e v)
    then show ?case
      using other_loss_same_health record_loss_window_wf by (blast intro: same_config_trans same_health_trans)
  next
    case (tick t u tn' v e)
    then have u: "ev_wf u" "same_config t u" "same_health (rec_at t tn p q) (rec_at u tn p q)" by auto
    then have "valid_ev u tn p q" "0 \<le> loss_backoff_max_level (cfg u)"
      using tick.prems same_config_level [OF u(2)] same_config_valid [OF u(2)] by simp_all
    then have "rec_at v tn p q = rec_at u tn p q"
      using tick_other_or_eval [OF u(1) _ tick.hyps(3)] tick.hyps(2) by blast
    moreover have "ev_wf v" "same_config u v"
      using tick_wf [OF u(1), of tn'] tick.hyps(3) by auto
    ultimately show ?case using u same_config_trans by auto
  qed (simp add: same_health_def)
  then show "ev_wf u" "same_config t u" "same_health (rec_at t tn p q) (rec_at u tn p q)" by auto
qed

text \<open>The last \<open>j\<close> buckets of the window hold at least \<open>n\<close> probes each, all returned.\<close>

definition clean_tail :: "int \<Rightarrow> nat \<Rightarrow> ev_record \<Rightarrow> bool" where
  "clean_tail n j r \<longleftrightarrow>
     (let xs = dq_items (buckets r) in
      j \<le> length xs \<and> (\<forall>(s, v) \<in> set (drop (length xs - j) xs). n \<le> s \<and> s \<le> v))"

lemma clean_tail_cong: "buckets r' = buckets r \<Longrightarrow> clean_tail n j r' = clean_tail n j r"
  by (simp add: clean_tail_def)

lemma drop_tail_of_tail:
  assumes "i \<le> m" "i \<le> length ys"
  shows "drop (length (drop (length ys - m) ys) - i) (drop (length ys - m) ys) = drop (length ys - i) ys"
proof -
  have "length (drop (length ys - m) ys) - i + (length ys - m) = length ys - i"
    using assms by simp
  then show ?thesis by (simp only: drop_drop)
qed

lemma clean_tail_rotate:
  assumes "clean_tail n j r" "n \<le> current_sent r" "current_sent r \<le> current_recv r"
    and "dq_ok (buckets r)" "i \<le> Suc j" "i \<le> dq_maxlen (buckets r)"
  shows "clean_tail n i (rotate_bucket r)"
proof -
  let ?xs = "dq_items (buckets r)" and ?b = "(current_sent r, current_recv r)"
  let ?ys = "?xs @ [?b]" and ?m = "dq_maxlen (buckets r)"
  have items: "dq_items (buckets (rotate_bucket r)) = drop (length ?ys - ?m) ?ys"
    by (simp add: rotate_bucket_def dq_append_def Let_def)
  have j: "j \<le> length ?xs" "\<forall>(s, v) \<in> set (drop (length ?xs - j) ?xs). n \<le> s \<and> s \<le> v"
    using assms(1) by (auto simp: clean_tail_def Let_def)
  let ?zs = "drop (length ?ys - ?m) ?ys"
  have tail: "drop (length ?zs - i) ?zs = drop (length ?ys - i) ?ys"
    using assms(6) j(1) assms(5) by (intro drop_tail_of_tail) simp_all
  have "set (drop (length ?ys - i) ?ys) \<subseteq> set (drop (length ?xs - j) ?xs) \<union> {?b}"
  proof (cases i)
    case (Suc k)
    then have "drop (length ?ys - i) ?ys = drop (length ?xs - k) ?xs @ [?b]" by simp
    moreover have "set (drop (length ?xs - k) ?xs) \<subseteq> set (drop (length ?xs - j) ?xs)"
      using assms(5) Suc by (intro set_drop_subset_set_drop) auto
    ultimately show ?thesis by auto
  qed simp
  moreover have "\<forall>(s, v) \<in> set (drop (length ?xs - j) ?xs) \<union> {?b}. n \<le> s \<and> s \<le> v"
    using j(2) assms(2,3) by simp
  ultimately have "\<forall>(s, v) \<in> set (drop (length ?ys - i) ?ys). n \<le> s \<and> s \<le> v" by blast
  moreover have "i \<le> length ?zs" using j(1) assms(5,6) by simp
  ultimately show ?thesis unfolding clean_tail_def Let_def items tail by blast
qed

lemma sum_list_ge_const:
  fixes f :: "'a \<Rightarrow> int"
  assumes "\<forall>x \<in> set xs. n \<le> f x"
  shows "n * int (length xs) \<le> sum_list (map f xs)"
  using assms by (induction xs) (auto simp: algebra_simps)

lemma clean_window_healthy:
  assumes r: "rec_wf c r" and clean: "clean_tail n (nat (probe_window_ticks c)) r"
    and n: "1 \<le> n" "1 \<le> probe_window_ticks c" "probe_min_samples c \<le> n * probe_window_ticks c"
    and ratios: "probe_fail_ratio c \<le> 1" "probe_recover_ratio c \<le> 1"
  shows "probe_verdict c r = Healthy"
proof -
  let ?xs = "dq_items (buckets r)"
  have len: "length ?xs = nat (probe_window_ticks c)"
    using r clean by (auto simp: rec_wf_def clean_tail_def dq_ok_def Let_def)
  have all: "\<forall>(s, v) \<in> set ?xs. n \<le> s \<and> s \<le> v"
    using clean len by (auto simp: clean_tail_def Let_def)
  then have "\<forall>x \<in> set ?xs. n \<le> fst x" by auto
  from sum_list_ge_const [OF this] have s: "n * probe_window_ticks c \<le> window_sent r"
    using len n by (simp add: window_sent_def)
  have "window_sent r \<le> window_recv r"
    unfolding window_sent_def window_recv_def using all by (intro sum_list_mono) auto
  moreover have "1 * 1 \<le> n * probe_window_ticks c" using n by (intro mult_mono) auto
  ultimately have "window_ratio r = 1" "0 < window_sent r"
    using s by (auto simp: window_ratio_def min_def)
  with s n ratios show ?thesis by (simp add: probe_verdict_def)
qed

lemma hold_bound:
  assumes "rec_wf c r" "0 \<le> probe_recover_ticks c" "0 \<le> loss_backoff_max_level c"
  shows "\<exists>hold. recovery_hold c (one_more_healthy r) = Inr hold
    \<and> hold \<le> probe_recover_ticks c * 2 ^ nat (loss_backoff_max_level c)"
proof -
  have lv: "0 \<le> loss_backoff_level r" "loss_backoff_level r \<le> loss_backoff_max_level c"
    using assms by (simp_all add: rec_wf_def)
  then have "(2 :: int) ^ nat (loss_backoff_level r) \<le> 2 ^ nat (loss_backoff_max_level c)"
    by (intro power_increasing) auto
  then have a: "probe_recover_ticks c * 2 ^ nat (loss_backoff_level r) \<le>
      probe_recover_ticks c * 2 ^ nat (loss_backoff_max_level c)"
    using assms(2) by (rule mult_left_mono)
  have b: "probe_recover_ticks c * 1 \<le> probe_recover_ticks c * 2 ^ nat (loss_backoff_max_level c)"
    using assms(2) by (intro mult_left_mono) auto
  show ?thesis
    using a b lv by (auto simp: recovery_hold_def py_shl_def one_more_healthy_def seen_ratio_def Let_def)
qed

text \<open>One evaluated record, once its window is clean.\<close>

lemma eval_healthy_progress:
  assumes "rec_wf c r" "probe_verdict c r = Healthy" "consecutive_loss_demote_windows r = 0"
    and "0 \<le> probe_recover_ticks c" "0 \<le> loss_backoff_max_level c"
    and "rstate r = GOOD \<or> int i \<le> consecutive_healthy_windows r"
  shows "rstate (eval_record c now b r) = GOOD
    \<or> (int (Suc i) \<le> consecutive_healthy_windows (eval_record c now b r)
        \<and> int (Suc i) < probe_recover_ticks c * 2 ^ nat (loss_backoff_max_level c))"
proof (cases "recovers c (one_more_healthy r)")
  case False
  obtain hold where h: "recovery_hold c (one_more_healthy r) = Inr hold"
    "hold \<le> probe_recover_ticks c * 2 ^ nat (loss_backoff_max_level c)"
    using hold_bound [OF assms(1,4,5)] by blast
  have "rstate r = GOOD \<or> consecutive_healthy_windows r + 1 < hold"
    using False h(1) assms(3)
    by (auto simp: recovers_def one_more_healthy_def seen_ratio_def Let_def)
  then show ?thesis
    using assms(2,6) h(2) False
    by (auto simp: eval_record_def) (auto simp: one_more_healthy_def seen_ratio_def Let_def)
qed (use assms in \<open>simp add: eval_record_def\<close>)

lemma eval_keeps_window:
  "buckets (eval_record c now b r) = buckets r"
  "consecutive_loss_demote_windows r = 0 \<Longrightarrow>
   consecutive_loss_demote_windows (eval_record c now b r) = 0"
  by (auto simp: eval_record_def seen_ratio_def one_more_healthy_def clear_healthy_def Let_def
      split: probe_verdict.splits)

text \<open>One round: traffic, then the tick.\<close>

lemma healthy_round:
  assumes "ev_wf u" "valid_ev u tn p q" "0 \<le> loss_backoff_max_level (cfg u)"
    and "other_calls tn p q u v" "tick v tn = (w, None)"
  obtains now b where
    "rec_at w tn p q = eval_record (cfg u) now b (rotate_bucket (rec_at v tn p q))"
    "ev_wf v" "ev_wf w" "same_config u w" "same_health (rec_at u tn p q) (rec_at v tn p q)"
    "valid_ev v tn p q" "same_config u v"
proof -
  note v = other_calls_keep [OF assms(4,1-3)]
  have val: "valid_ev v tn p q" using same_config_valid [OF v(2)] assms(2) by simp
  then have tn: "tn \<in> set (tenants v)" by (rule valid_ev_tenant)
  have w: "w = fst (tick v tn)" "snd (tick v tn) = None" using assms(5) by auto
  obtain B where "rec_at w tn p q =
      eval_record (cfg v) (the (ticks v tn) + 1) (B p q) (rotate_bucket (rec_at v tn p q))"
    using tick_local [OF v(1) tn w(2)] val w(1) by (auto simp: valid_ev_def)
  moreover have "cfg v = cfg u" using v(2) by (simp add: same_config_def)
  moreover have "ev_wf w" "same_config u w"
    using tick_wf [OF v(1)] w(1) same_config_trans [OF v(2)] by auto
  ultimately show thesis using that [of "the (ticks v tn) + 1" "B p q"] v val by simp
qed

definition recovery_bound :: "ev_state_config \<Rightarrow> int" where
  "recovery_bound c = probe_recover_ticks c * 2 ^ nat (loss_backoff_max_level c)"

text \<open>
  What \<open>k\<close> healthy rounds leave behind in the record: a clean tail of the window, and once the
  whole window is clean, either GOOD or one more healthy window per round.
\<close>

definition recovery_progress :: "ev_state_config \<Rightarrow> int \<Rightarrow> nat \<Rightarrow> ev_record \<Rightarrow> bool" where
  "recovery_progress c n k r \<longleftrightarrow>
     (let win = nat (probe_window_ticks c) in
      consecutive_loss_demote_windows r = 0 \<and> clean_tail n (min k win) r
      \<and> (win \<le> k \<longrightarrow> rstate r = GOOD
           \<or> (int (Suc (k - win)) \<le> consecutive_healthy_windows r
               \<and> int (Suc (k - win)) < recovery_bound c)))"

definition recovery_config :: "int \<Rightarrow> ev_state_config \<Rightarrow> bool" where
  "recovery_config n c \<longleftrightarrow>
     1 \<le> n \<and> 1 \<le> probe_window_ticks c \<and> probe_min_samples c \<le> n * probe_window_ticks c
     \<and> probe_fail_ratio c \<le> 1 \<and> probe_recover_ratio c \<le> 1
     \<and> 0 \<le> probe_recover_ticks c \<and> 0 \<le> loss_backoff_max_level c"

lemma recovery_progress_start:
  assumes "recovery_config n c" "consecutive_loss_demote_windows r = 0"
  shows "recovery_progress c n 0 r"
  using assms by (simp add: recovery_progress_def recovery_config_def clean_tail_def Let_def)

lemma rotate_bucket_fields [simp]:
  "consecutive_healthy_windows (rotate_bucket r) = consecutive_healthy_windows r"
  "consecutive_loss_demote_windows (rotate_bucket r) = consecutive_loss_demote_windows r"
  by (simp_all add: rotate_bucket_def)

lemma recovery_progress_round:
  assumes c: "recovery_config n c" and p: "recovery_progress c n k r" and h: "same_health r r'"
    and wf: "rec_wf c r'" and sent: "n \<le> current_sent r'" "current_sent r' \<le> current_recv r'"
  shows "recovery_progress c n (Suc k) (eval_record c now b (rotate_bucket r'))"
proof -
  let ?w = "nat (probe_window_ticks c)" and ?z = "rotate_bucket r'"
  let ?e = "eval_record c now b ?z"
  have streak: "consecutive_loss_demote_windows r' = 0" and tail: "clean_tail n (min k ?w) r'"
    using p h by (auto simp: recovery_progress_def same_health_def Let_def
        clean_tail_cong [of r' r])
  have dq: "dq_ok (buckets r')" "dq_maxlen (buckets r') = ?w" using wf by (simp_all add: rec_wf_def)
  have clean: "clean_tail n (min (Suc k) ?w) ?z"
    using tail sent dq by (intro clean_tail_rotate [of n "min k ?w"]) auto
  have wfz: "rec_wf c ?z" by (rule rec_wf_rotate [OF wf])
  have prog: "rstate ?e = GOOD \<or> (int (Suc (Suc k - ?w)) \<le> consecutive_healthy_windows ?e
      \<and> int (Suc (Suc k - ?w)) < recovery_bound c)" if k: "?w \<le> Suc k"
  proof -
    have "min (Suc k) ?w = ?w" using k by simp
    then have v: "probe_verdict c ?z = Healthy"
      using clean c by (intro clean_window_healthy [where n = n] wfz) (auto simp: recovery_config_def)
    have "rstate r' = GOOD \<or> int (Suc k - ?w) \<le> consecutive_healthy_windows r'"
    proof (cases "?w \<le> k")
      case True
      then show ?thesis using p h by (auto simp: recovery_progress_def same_health_def Let_def Suc_diff_le)
    next
      case False
      then show ?thesis using wf k by (auto simp: rec_wf_def)
    qed
    then show ?thesis
      using eval_healthy_progress [OF wfz v, of "Suc k - ?w" now b] streak c
      by (auto simp: recovery_config_def recovery_bound_def)
  qed
  then show ?thesis
    using clean streak eval_keeps_window(1) [of c now b ?z] eval_keeps_window(2) [of ?z c now b]
    by (auto simp: recovery_progress_def Let_def clean_tail_cong [of ?e ?z])
qed

lemma healthy_rounds_progress:
  assumes "healthy_rounds n tn p q t k u" "ev_wf t" "valid_ev t tn p q"
    and "recovery_config n (cfg t)" "consecutive_loss_demote_windows (rec_at t tn p q) = 0"
  shows "ev_wf u \<and> same_config t u \<and> recovery_progress (cfg t) n k (rec_at u tn p q)"
  using assms(1)
proof (induction rule: healthy_rounds.induct)
  case start
  show ?case using assms recovery_progress_start by simp
next
  case (round k u v w)
  have u: "ev_wf u" "same_config t u" "recovery_progress (cfg t) n k (rec_at u tn p q)"
    using round.IH by auto
  have v: "valid_ev u tn p q" "0 \<le> loss_backoff_max_level (cfg u)"
    using assms(3,4) same_config_level [OF u(2)] same_config_valid [OF u(2)] by (simp_all add: recovery_config_def)
  from healthy_round [OF u(1) v round.hyps(2,5)] obtain now b where
    r: "rec_at w tn p q = eval_record (cfg u) now b (rotate_bucket (rec_at v tn p q))"
    "ev_wf v" "ev_wf w" "same_config u w" "same_health (rec_at u tn p q) (rec_at v tn p q)"
    "valid_ev v tn p q" "same_config u v" by metis
  have c: "cfg u = cfg t" "cfg v = cfg t" using u(2) r(7) by (simp_all add: same_config_def)
  have "rec_wf (cfg t) (rec_at v tn p q)" using ev_wf_rec [OF r(2,6)] c by simp
  then have "recovery_progress (cfg t) n (Suc k) (rec_at w tn p q)"
    unfolding r(1) c using assms(4) u(3) r(5) round.hyps(3,4) by (intro recovery_progress_round)
  then show ?case using r(3) same_config_trans [OF u(2) r(4)] by blast
qed

text \<open>
  C6. Recovery: an EV that a call on the table has just demoted to ASSUMED_BAD, whichever call it was,
  is GOOD again once its probes come back for long enough; so is an EV in any state that has no
  pending loss streak. Long enough is \<open>probe_window_ticks + max 1 (probe_recover_ticks * 2 ^
  loss_backoff_max_level) - 1\<close> ticks of its tenant or more, before each of which at least \<open>n\<close>
  probes were sent on the EV and no fewer came back. Between them the table may get any other
  calls, loss windows and ticks of other tenants included, except a lossy window of this EV. The
  configuration makes recovery possible: \<open>n >= 1\<close> and \<open>n\<close> probes a tick fill the window's
  \<open>probe_min_samples\<close>, the two ratios are at most 1, window, hold and backoff level are not negative.
\<close>

theorem ev_recovery_reached:
  assumes "ev_reachable t" and "valid_ev t tn p q" and "recovery_config n (cfg t)"
    and "consecutive_loss_demote_windows (rec_at t tn p q) = 0
      \<or> (\<exists>s. ev_reachable s \<and> ev_step s t \<and> ev_state_of s tn (int p) (int q) \<noteq> Inr ASSUMED_BAD
            \<and> ev_state_of t tn (int p) (int q) = Inr ASSUMED_BAD)"
    and "healthy_rounds n tn p q t k u"
    and "probe_window_ticks (cfg t) + max 1 (recovery_bound (cfg t)) \<le> int k + 1"
  shows "ev_state_of u tn (int p) (int q) = Inr GOOD"
proof -
  have "consecutive_loss_demote_windows (rec_at t tn p q) = 0"
    using assms(4)
  proof
    assume "\<exists>s. ev_reachable s \<and> ev_step s t \<and> ev_state_of s tn (int p) (int q) \<noteq> Inr ASSUMED_BAD
            \<and> ev_state_of t tn (int p) (int q) = Inr ASSUMED_BAD"
    then obtain s where s: "ev_reachable s" "ev_step s t" "ev_state_of s tn (int p) (int q) \<noteq> Inr ASSUMED_BAD"
      "ev_state_of t tn (int p) (int q) = Inr ASSUMED_BAD" by blast
    have wf: "ev_wf s" "same_config s t" "ev_wf t"
      using ev_reachable_wf s(1) assms(1) ev_step_keeps [OF s(2)] by blast+
    then have "valid_ev s tn p q" "0 \<le> loss_backoff_max_level (cfg s)"
      using assms(2,3) same_config_level [OF wf(2)] same_config_valid [OF wf(2)] by (simp_all add: recovery_config_def)
    then show ?thesis
      using step_demotion_clears [OF s(2) wf(1)] s(3,4) wf(1,3) assms(2) by (simp add: ev_state_of_valid)
  qed
  then have u: "ev_wf u" "same_config t u" "recovery_progress (cfg t) n k (rec_at u tn p q)"
    using healthy_rounds_progress [OF assms(5) ev_reachable_wf [OF assms(1)] assms(2,3)] by auto
  have w: "1 \<le> probe_window_ticks (cfg t)" using assms(3) by (simp add: recovery_config_def)
  then have le: "nat (probe_window_ticks (cfg t)) \<le> k" using assms(6) by simp
  then have "recovery_bound (cfg t) \<le> int (Suc (k - nat (probe_window_ticks (cfg t))))"
    using assms(6) w by simp
  then have "rstate (rec_at u tn p q) = GOOD"
    using u(3) le by (auto simp: recovery_progress_def Let_def)
  then show ?thesis using u same_config_valid [OF u(2)] assms(2) by (simp add: ev_state_of_valid)
qed

end
