(* ===== verification/EvWitness.thy ===== *)
theory EvWitness
  imports EvRecovery
begin

text \<open>
  Concrete runs of the EV table, evaluated in the kernel: a table of one tenant with two planes
  of one path, which a probe round promotes, a lost round demotes and a loss report demotes.
  They instantiate the properties of \<open>EvProperties\<close> and \<open>EvRecovery\<close>.
\<close>

definition ok_or :: "'a \<Rightarrow> 'a result \<Rightarrow> 'a" where
  "ok_or d m = (case m of Inr x \<Rightarrow> x | Inl e \<Rightarrow> d)"

definition demo_cfg :: ev_state_config where
  "demo_cfg = default_ev_state_config\<lparr>probe_window_ticks := 2, probe_min_samples := 1,
     probe_recover_ticks := 1, loss_demote_consecutive := 1, loss_backoff_max_level := 0\<rparr>"

definition demo_table :: ev_table where
  "demo_table = (case mk_ev_table [''green''] 2 1 demo_cfg True of Inr t \<Rightarrow> t | Inl e \<Rightarrow> undefined)"

definition demo_sent :: "ev_table \<Rightarrow> ev_table" where
  "demo_sent t = ok_or t (record_probe_sent t ''green'' 0 0)"

definition demo_recv :: "ev_table \<Rightarrow> ev_table" where
  "demo_recv t = ok_or t (record_probe_recv t ''green'' 0 0)"

definition demo_tick :: "ev_table \<Rightarrow> ev_table" where
  "demo_tick t = fst (tick t ''green'')"

definition demo_loss :: "ev_table \<Rightarrow> int \<Rightarrow> ev_table" where
  "demo_loss t seen = ok_or t (record_loss_window t ''green'' 0 0 seen 10)"

definition demo_good :: ev_table where
  "demo_good = demo_tick (demo_recv (demo_sent demo_table))"

lemma demo_table_new: "mk_ev_table [''green''] 2 1 demo_cfg True = Inr demo_table"
  by (simp add: demo_table_def mk_ev_table_def demo_cfg_def default_ev_state_config_def)

lemma demo_table_reachable: "ev_reachable demo_table"
  by (rule ev_reachable.init [OF demo_table_new])

lemma demo_steps:
  assumes "ev_reachable t"
  shows "ev_reachable (demo_sent t)" "ev_reachable (demo_recv t)" "ev_reachable (demo_tick t)"
    "ev_reachable (demo_loss t seen)"
proof -
  show "ev_reachable (demo_tick t)"
    unfolding demo_tick_def by (rule ev_reachable.step [OF assms ev_step.tick]) (rule surjective_pairing)
qed (use assms in \<open>auto simp: demo_sent_def demo_recv_def demo_loss_def ok_or_def
      split: sum.splits intro: ev_reachable.step ev_step.intros\<close>)

lemmas demo_reachable = demo_table_reachable demo_steps demo_good_def

lemma demo_good_facts:
  "valid_ev demo_table ''green'' 0 0" "valid_ev demo_good ''green'' 0 0"
  "ev_state_of demo_table ''green'' 0 0 = Inr UNKNOWN" "ev_state_of demo_good ''green'' 0 0 = Inr GOOD"
  by code_simp+

lemma demo_good_reachable: "ev_reachable demo_good"
  unfolding demo_good_def by (intro demo_steps demo_table_reachable)

theorem ev_usable_floor_witness:
  "1 \<le> min_active demo_good \<and> min_active demo_good \<le>
    int (card {(p, q). p < num_planes demo_good \<and> q < num_paths demo_good
                       \<and> ev_state_of demo_good ''green'' (int p) (int q) \<noteq> Inr ASSUMED_BAD})"
  by (rule ev_usable_floor [OF demo_good_reachable]) code_simp

theorem ev_weights_sound_witness:
  "\<exists>w. weights_ev demo_good ''green'' = Inr w"
proof -
  have "''green'' \<in> set (tenants demo_good)" by code_simp
  from ev_weights_sound [OF demo_good_reachable this] show ?thesis by blast
qed

theorem ev_step_refines_witness:
  "\<exists>ls. health_run (set (tenants demo_good)) (num_planes demo_good) (num_paths demo_good)
      (min_active demo_good) (views demo_good) ls (views (demo_tick demo_good))"
proof -
  have "ev_step demo_good (demo_tick demo_good)"
    unfolding demo_tick_def by (rule ev_step.tick) (rule surjective_pairing)
  from ev_step_refines [OF demo_good_reachable this] show ?thesis by blast
qed

theorem ev_callbacks_complete_witness:
  "transition_calls demo_good = [(''green'', 0, 0, UNKNOWN, GOOD)]
   \<and> replay (transition_calls demo_good) (\<lambda>_ _. UNKNOWN) = views demo_good"
proof
  show "transition_calls demo_good = [(''green'', 0, 0, UNKNOWN, GOOD)]" by code_simp
  have "on_transition demo_good" by code_simp
  from ev_callbacks_complete [OF demo_good_reachable this]
  show "replay (transition_calls demo_good) (\<lambda>_ _. UNKNOWN) = views demo_good" by blast
qed

theorem ev_tick_total_witness: "snd (tick demo_good ''green'') = None"
proof -
  have "''green'' \<in> set (tenants demo_good)" "0 \<le> loss_backoff_max_level (cfg demo_good)"
    by code_simp+
  from ev_tick_total [OF demo_good_reachable this] show ?thesis by blast
qed

lemma demo_tick_ok: "snd (tick t ''green'') = None \<Longrightarrow> tick t ''green'' = (demo_tick t, None)"
  by (simp add: demo_tick_def prod_eq_iff)

definition demo_probed :: ev_table where
  "demo_probed = demo_recv (demo_sent demo_table)"

theorem ev_promotion_evidence_witness:
  "ev_state_of (demo_tick demo_probed) ''green'' 0 0 = Inr GOOD
   \<and> consecutive_loss_demote_windows (rec_at demo_probed ''green'' 0 0) = 0
   \<and> 0 < window_sent (rotate_bucket (rec_at demo_probed ''green'' 0 0))"
proof -
  have r: "ev_reachable demo_probed"
    unfolding demo_probed_def by (intro demo_steps demo_table_reachable)
  have v: "valid_ev demo_probed ''green'' 0 0" by code_simp
  have t: "tick demo_probed ''green'' = (demo_tick demo_probed, None)"
    by (rule demo_tick_ok) code_simp
  have s: "ev_state_of demo_probed ''green'' (int 0) (int 0) \<noteq> Inr GOOD"
    "ev_state_of (demo_tick demo_probed) ''green'' (int 0) (int 0) = Inr GOOD" by code_simp+
  show ?thesis using ev_promotion_evidence [OF r v t s] s(2) by (simp add: Let_def)
qed

definition demo_lost :: ev_table where
  "demo_lost = demo_sent demo_table"

theorem ev_probe_demotion_evidence_witness:
  "ev_state_of (demo_tick demo_lost) ''green'' 0 0 = Inr ASSUMED_BAD
   \<and> window_ratio (rotate_bucket (rec_at demo_lost ''green'' 0 0)) < probe_fail_ratio (cfg demo_lost)"
proof -
  have r: "ev_reachable demo_lost"
    unfolding demo_lost_def by (intro demo_steps demo_table_reachable)
  have v: "valid_ev demo_lost ''green'' 0 0" by code_simp
  have t: "tick demo_lost ''green'' = (demo_tick demo_lost, None)"
    by (rule demo_tick_ok) code_simp
  have s: "ev_state_of demo_lost ''green'' (int 0) (int 0) \<noteq> Inr ASSUMED_BAD"
    "ev_state_of (demo_tick demo_lost) ''green'' (int 0) (int 0) = Inr ASSUMED_BAD" by code_simp+
  show ?thesis using ev_probe_demotion_evidence [OF r v t s] s(2) by (simp add: Let_def)
qed

theorem ev_loss_demotion_evidence_witness:
  "ev_state_of (demo_loss demo_good 5) ''green'' 0 0 = Inr ASSUMED_BAD
   \<and> loss_threshold (cfg demo_good) < int_truediv (10 - min 5 10) 10"
proof -
  have v: "valid_ev demo_good ''green'' 0 0" by code_simp
  have "isl (record_loss_window demo_good ''green'' 0 0 5 10) = False" by code_simp
  then have l: "record_loss_window demo_good ''green'' (int 0) (int 0) 5 10 = Inr (demo_loss demo_good 5)"
    by (auto simp: demo_loss_def ok_or_def split: sum.splits)
  have s: "ev_state_of demo_good ''green'' (int 0) (int 0) \<noteq> Inr ASSUMED_BAD"
    "ev_state_of (demo_loss demo_good 5) ''green'' (int 0) (int 0) = Inr ASSUMED_BAD" by code_simp+
  show ?thesis using ev_loss_demotion_evidence [OF demo_good_reachable v l s] s(2) by simp
qed

text \<open>A loss demotion of a GOOD EV, and the two rounds of probes that bring it back.\<close>

definition demo_demoted :: ev_table where
  "demo_demoted = demo_loss demo_good 5"

definition demo_round :: "ev_table \<Rightarrow> ev_table" where
  "demo_round t = demo_tick (demo_recv (demo_sent t))"

lemma demo_round_healthy:
  assumes "healthy_rounds 1 ''green'' 0 0 t k u"
    and "1 \<le> current_sent (rec_at (demo_recv (demo_sent u)) ''green'' 0 0)"
    and "current_sent (rec_at (demo_recv (demo_sent u)) ''green'' 0 0) \<le>
      current_recv (rec_at (demo_recv (demo_sent u)) ''green'' 0 0)"
    and "snd (tick (demo_recv (demo_sent u)) ''green'') = None"
  shows "healthy_rounds 1 ''green'' 0 0 t (Suc k) (demo_round u)"
proof -
  have "other_calls ''green'' 0 0 u (demo_sent u)"
    by (auto simp: demo_sent_def ok_or_def split: sum.splits
        intro: other_calls.none other_calls.sent [OF other_calls.none])
  then have "other_calls ''green'' 0 0 u (demo_recv (demo_sent u))"
    by (auto simp: demo_recv_def ok_or_def split: sum.splits intro: other_calls.recv)
  from healthy_rounds.round [OF assms(1) this assms(2,3) demo_tick_ok [OF assms(4)]]
  show ?thesis by (simp add: demo_round_def)
qed

theorem ev_recovery_reached_witness:
  "ev_state_of demo_demoted ''green'' 0 0 = Inr ASSUMED_BAD
   \<and> ev_state_of (demo_round (demo_round demo_demoted)) ''green'' 0 0 = Inr GOOD"
proof -
  have one: "1 \<le> current_sent (rec_at (demo_recv (demo_sent demo_demoted)) ''green'' 0 0)"
    "current_sent (rec_at (demo_recv (demo_sent demo_demoted)) ''green'' 0 0) \<le>
      current_recv (rec_at (demo_recv (demo_sent demo_demoted)) ''green'' 0 0)"
    "snd (tick (demo_recv (demo_sent demo_demoted)) ''green'') = None" by code_simp+
  have two: "1 \<le> current_sent (rec_at (demo_recv (demo_sent (demo_round demo_demoted))) ''green'' 0 0)"
    "current_sent (rec_at (demo_recv (demo_sent (demo_round demo_demoted))) ''green'' 0 0) \<le>
      current_recv (rec_at (demo_recv (demo_sent (demo_round demo_demoted))) ''green'' 0 0)"
    "snd (tick (demo_recv (demo_sent (demo_round demo_demoted))) ''green'') = None" by code_simp+
  have h: "healthy_rounds 1 ''green'' 0 0 demo_demoted (Suc (Suc 0)) (demo_round (demo_round demo_demoted))"
    by (intro demo_round_healthy healthy_rounds.start one two)
  have c: "valid_ev demo_demoted ''green'' 0 0" "recovery_config 1 (cfg demo_demoted)"
    "probe_window_ticks (cfg demo_demoted) + max 1 (recovery_bound (cfg demo_demoted)) \<le> int (Suc (Suc 0)) + 1"
    by code_simp+
  have bad: "ev_state_of demo_demoted ''green'' (int 0) (int 0) = Inr ASSUMED_BAD"
    "ev_state_of demo_good ''green'' (int 0) (int 0) \<noteq> Inr ASSUMED_BAD" by code_simp+
  have "isl (record_loss_window demo_good ''green'' 0 0 5 10) = False" by code_simp
  then have "ev_step demo_good demo_demoted"
    by (auto simp: demo_demoted_def demo_loss_def ok_or_def split: sum.splits intro: ev_step.loss)
  then have d: "consecutive_loss_demote_windows (rec_at demo_demoted ''green'' 0 0) = 0
      \<or> (\<exists>s. ev_reachable s \<and> ev_step s demo_demoted \<and> ev_state_of s ''green'' (int 0) (int 0) \<noteq> Inr ASSUMED_BAD
            \<and> ev_state_of demo_demoted ''green'' (int 0) (int 0) = Inr ASSUMED_BAD)"
    using demo_good_reachable bad by blast
  have r: "ev_reachable demo_demoted" unfolding demo_demoted_def by (intro demo_steps demo_good_reachable)
  show ?thesis
    using ev_recovery_reached [OF r c(1,2) d h c(3)] bad(1) by simp
qed

theorem ev_thresholds_exact_witness:
  "loss_threshold default_ev_state_config < int_truediv (8 - 5) 8"
proof -
  let ?r = "new_ev_record 5"
  have "0 \<le> window_sent ?r" "0 \<le> window_recv ?r" "window_sent ?r * 10 < 2 ^ 53" by code_simp+
  from ev_thresholds_exact [OF this, of 5 8] show ?thesis by simp
qed

end
