(* ===== verification/LossProperties.thy ===== *)
theory LossProperties
  imports LossCompute EvWitness
begin

text \<open>
  The properties of the loss path: which window a report is paired with, what a report may and
  may not do to the EV table, the accounting of the fusion, and the detection of a blackholed EV:
  when the lost window extends its streak, demotes it, or is held back by the floor.
\<close>

subsection \<open>Pairing\<close>

text \<open>
  A report is paired with the window whose midpoint is closest to its arrival, the oldest one
  on a tie; there is no pairing exactly when every window in the ring is further away than the
  allowed skew.
\<close>

theorem find_closest_correct:
  "case find_closest ring target max_skew of
     None \<Rightarrow> \<forall>w \<in> set (dq_items (sr_ring ring)). max_skew < \<bar>midpoint_ns w - target\<bar>
   | Some w \<Rightarrow> \<exists>older newer. dq_items (sr_ring ring) = older @ w # newer
       \<and> \<bar>midpoint_ns w - target\<bar> \<le> max_skew
       \<and> (\<forall>v \<in> set older. \<bar>midpoint_ns w - target\<bar> < \<bar>midpoint_ns v - target\<bar>)
       \<and> (\<forall>v \<in> set newer. \<bar>midpoint_ns w - target\<bar> \<le> \<bar>midpoint_ns v - target\<bar>)"
proof -
  have "closest_loop target (dq_items (sr_ring ring)) None (max_skew + 1) = find_closest ring target max_skew"
    by (simp add: find_closest_def)
  from closest_loop_spec [OF this] show ?thesis
    by (auto simp: skew_def split: option.split) fastforce+
qed

definition demo_ring :: sent_ring where
  "demo_ring = \<lparr>sr_num_planes = 2, sr_num_paths = 1, sr_ring =
     foldl dq_append (dq_new 2) (map (\<lambda>i. \<lparr>sw_start_ns = i * 10, sw_end_ns = i * 10 + 10,
       sw_sent = [[10], [5]], sw_window_id = i\<rparr>) [1, 2, 3])\<rparr>"

definition demo_window :: sent_window where
  "demo_window = \<lparr>sw_start_ns = 20, sw_end_ns = 30, sw_sent = [[10], [5]], sw_window_id = 2\<rparr>"

lemma demo_paired: "find_closest demo_ring 30 10 = Some demo_window"
  by code_simp

theorem find_closest_correct_witness:
  "find_closest demo_ring 30 10 = Some demo_window
   \<and> (\<exists>older newer. dq_items (sr_ring demo_ring) = older @ demo_window # newer)"
  using find_closest_correct [where ring = demo_ring and target = 30 and max_skew = 10] demo_paired by auto

subsection \<open>What a report may do\<close>

lemma apply_loss_report_sink:
  assumes "ev_reachable t" "0 \<le> loss_threshold (cfg t)"
  shows "sink_inv t t" "sink_inv t (fst (apply_loss_report t tn rep ring now sk st ms))"
proof -
  show "sink_inv t t" using assms by (simp add: sink_inv_def)
  then show "sink_inv t (fst (apply_loss_report t tn rep ring now sk st ms))"
    unfolding apply_loss_report_def by (rule ev_sink.fuse_inv)
qed

text \<open>
  Loss feedback is just another client of the table: from a reachable table it leads to a
  reachable table, even when a call in the middle raises, so the floor on usable EVs of every
  tenant survives every report.
\<close>

theorem loss_report_keeps_floor:
  assumes "ev_reachable t" and "0 \<le> loss_threshold (cfg t)" and "tn' \<in> set (tenants t)"
  shows "let t' = fst (apply_loss_report t tn rep ring now sk st ms) in
    ev_reachable t' \<and> min_active t \<le> int (usable (num_planes t) (num_paths t) (grid_at t' tn'))"
proof -
  let ?t = "fst (apply_loss_report t tn rep ring now sk st ms)"
  have r: "ev_reachable ?t" "same_config t ?t"
    using apply_loss_report_sink(2) [OF assms(1,2)] by (auto simp: sink_inv_def)
  then have "ev_wf ?t" using ev_reachable_wf by blast
  then show ?thesis
    using r assms(3) by (auto simp: ev_wf_def same_config_def Let_def)
qed

definition demo_report :: loss_report where
  "demo_report = \<lparr>rp_window_id = 0, rp_planes =
     [\<lparr>lr_plane_id = 0, lr_path_id = 0, lr_seen = 9, lr_expected = 15, lr_max_gap = 3, lr_trimmed = 1\<rparr>]\<rparr>"

lemma demo_threshold: "0 \<le> loss_threshold (cfg demo_table)"
  by code_simp

theorem loss_report_keeps_floor_witness:
  "ev_reachable (fst (apply_loss_report demo_table ''green'' demo_report demo_ring 30 10 new_fusion_stats 2))"
proof -
  have "''green'' \<in> set (tenants demo_table)" by code_simp
  from loss_report_keeps_floor [OF demo_table_reachable demo_threshold this] show ?thesis
    by (simp add: Let_def)
qed

text \<open>
  No phantom demotion: a report leaves an EV exactly as it was when no sent window is close
  enough in time, when the sender sent nothing on that EV in the paired window, or when the EV
  belongs to another tenant, whatever the report claims.
\<close>

theorem loss_report_untouched:
  assumes "ev_reachable t" and "0 \<le> loss_threshold (cfg t)" and "1 \<le> ms"
    and "\<And>w. find_closest ring now sk = Some w \<Longrightarrow> tn' = tn \<Longrightarrow> sent_on w a b \<le> 0"
  shows "rec_at (fst (apply_loss_report t tn rep ring now sk st ms)) tn' a b = rec_at t tn' a b"
  unfolding apply_loss_report_def
  using apply_loss_report_sink(1) [OF assms(1,2)] assms(3,4) by (rule ev_sink.fuse_elsewhere)

theorem loss_report_untouched_witness:
  "rec_at (fst (apply_loss_report demo_table ''green'' demo_report demo_ring 300 10 new_fusion_stats 2))
     ''green'' 0 0 = rec_at demo_table ''green'' 0 0"
proof -
  have "find_closest demo_ring 300 10 = None" by code_simp
  then show ?thesis
    by (intro loss_report_untouched [OF demo_table_reachable demo_threshold]) simp_all
qed

text \<open>
  Congestion is not path failure: if every record of an EV accounts for all the packets sent
  on it, as seen or as trimmed, and the EV is not inferred lost, then the report does not demote
  it.
\<close>

theorem loss_report_delivered:
  assumes "ev_reachable t" and "0 \<le> loss_threshold (cfg t)" and "valid_ev t tn a b"
    and "ev_state_of t tn (int a) (int b) \<noteq> Inr ASSUMED_BAD"
    and "find_closest ring now sk = Some w"
    and "(int a, int b) \<in> reported_evs rep \<or> sent_on w a b < ms"
    and "\<And>r. r \<in> set (rp_planes rep) \<Longrightarrow> lr_plane_id r = int a \<Longrightarrow> lr_path_id r = int b \<Longrightarrow>
      sent_on w a b \<le> lr_seen r + lr_trimmed r"
    and "\<And>r. r \<in> set (rp_planes rep) \<Longrightarrow> loss_record_ok r"
  shows "ev_state_of (fst (apply_loss_report t tn rep ring now sk st ms)) tn (int a) (int b)
    \<noteq> Inr ASSUMED_BAD"
proof -
  let ?t = "fst (apply_loss_report t tn rep ring now sk st ms)"
  have sh: "ev_shape t" using ev_reachable_wf [OF assms(1)] by simp
  have u: "rstate (rec_at t tn a b) \<noteq> ASSUMED_BAD" using assms(3,4) sh by (simp add: ev_state_of_valid)
  have nn: "\<And>r. r \<in> set (rp_planes rep) \<Longrightarrow> 0 \<le> lr_seen r + lr_trimmed r"
    using assms(8) by (simp add: loss_record_ok_iff)
  have "rstate (rec_at ?t tn a b) \<noteq> ASSUMED_BAD"
    unfolding apply_loss_report_def
    using apply_loss_report_sink(1) [OF assms(1,2)] u assms(5,6,7) nn by (rule ev_sink.fuse_delivered)
  moreover have "ev_wf ?t" "same_config t ?t"
    using apply_loss_report_sink(2) [OF assms(1,2)] ev_reachable_wf by (auto simp: sink_inv_def)
  ultimately show ?thesis
    using assms(3) same_config_valid by (simp add: ev_state_of_valid)
qed

theorem loss_report_delivered_witness:
  "ev_state_of (fst (apply_loss_report demo_table ''green'' demo_report demo_ring 30 10
     new_fusion_stats 2)) ''green'' (int 0) (int 0) \<noteq> Inr ASSUMED_BAD"
proof (rule loss_report_delivered [OF demo_table_reachable demo_threshold demo_good_facts(1) _ demo_paired])
  show "ev_state_of demo_table ''green'' (int 0) (int 0) \<noteq> Inr ASSUMED_BAD" by code_simp
  show "(int 0, int 0) \<in> reported_evs demo_report \<or> sent_on demo_window 0 0 < 2"
    by (simp add: demo_report_def reported_evs_def)
qed (auto simp: demo_report_def sent_on_def demo_window_def loss_record_ok_iff)

subsection \<open>Blackholes\<close>

lemma sent_cells_distinct: "distinct (map (\<lambda>(p, q, s). (p, q)) (sent_cells w))"
proof -
  have row: "map (\<lambda>(p, q, s). (p, q)) (map (\<lambda>(q, s). (p, q, s)) (enumerate 0 xs)) =
      map (Pair p) [0..<length xs]" for p :: nat and xs :: "int list"
  proof -
    have "map (\<lambda>(p, q, s). (p, q)) (map (\<lambda>(q, s). (p, q, s)) (enumerate 0 xs)) =
        map (Pair p) (map fst (enumerate 0 xs))"
      unfolding map_map by (rule map_cong [OF refl]) auto
    then show ?thesis unfolding map_fst_enumerate by simp
  qed
  have "distinct (concat (map (\<lambda>(p, xs). map (Pair p) [0..<length xs]) (enumerate n g)))
      \<and> (\<forall>(p, q) \<in> set (concat (map (\<lambda>(p, xs). map (Pair p) [0..<length xs]) (enumerate n g))). n \<le> p)"
    for n and g :: "int list list"
  proof (induction g arbitrary: n)
    case (Cons xs g)
    then show ?case using Cons.IH [of "Suc n"] by (fastforce simp: distinct_map inj_on_def)
  qed simp
  then have "distinct (concat (map (\<lambda>(p, xs). map (Pair p) [0..<length xs]) (enumerate 0 (sw_sent w))))"
    by blast
  also have "concat (map (\<lambda>(p, xs). map (Pair p) [0..<length xs]) (enumerate 0 (sw_sent w))) =
      map (\<lambda>(p, q, s). (p, q)) (sent_cells w)"
    unfolding sent_cells_def map_concat map_map
    by (rule arg_cong [where f = concat], rule map_cong [OF refl]) (clarsimp simp: row [unfolded map_map, simplified])
  finally show ?thesis .
qed

text \<open>A successful fusion of a paired report with enough coverage runs both loops to the end.\<close>

lemma apply_loss_report_loops:
  assumes "apply_loss_report t tn rep ring now sk st ms = (t', st', None)"
    and "find_closest ring now sk = Some w" "\<not> low_coverage w rep" "rp_planes rep \<noteq> []"
  obtains st2 t1 st3 where
    "feed_records record_loss_window tn (Some w) (rp_planes rep) t st2 = (t1, st3, None)"
    "feed_absent record_loss_window ev_state_of tn ms (reported_evs rep) (sent_cells w) t1 st3
       = (t', st', None)"
proof -
  define st2 where "st2 = st\<lparr>reports_processed := reports_processed st + 1\<rparr>"
  obtain t1 st3 e where r:
    "feed_records record_loss_window tn (Some w) (rp_planes rep) t st2 = (t1, st3, e)"
    by (metis prod_cases3)
  have "e = None \<and> feed_absent record_loss_window ev_state_of tn ms (reported_evs rep) (sent_cells w) t1 st3
      = (t', st', None)"
    using assms r
    by (cases e) (auto simp: apply_loss_report_def fuse_report_def Let_def simp flip: st2_def)
  with r show thesis using that by blast
qed

lemma loss_record_step_total:
  assumes "loss_threshold c < 1" "rstate r \<noteq> ASSUMED_BAD"
  shows "if consecutive_loss_demote_windows r + 1 < loss_demote_consecutive c \<or> blocked
    then rstate (loss_record_step c now blocked 1 r) = rstate r
      \<and> consecutive_loss_demote_windows (loss_record_step c now blocked 1 r) = consecutive_loss_demote_windows r + 1
    else rstate (loss_record_step c now blocked 1 r) = ASSUMED_BAD
      \<and> consecutive_loss_demote_windows (loss_record_step c now blocked 1 r) = 0"
  using assms by (simp add: loss_record_step_def Let_def demote_fields_def)

text \<open>
  What a totally lost window does to an EV that is not ASSUMED_BAD: the streak grows by one as long
  as it is short of \<open>loss_demote_consecutive\<close>; when it is completed the EV is demoted and its
  streak starts over, unless the tenant is down to its last \<open>min_active\<close> EVs.
\<close>

definition lost_window_outcome :: "ev_table \<Rightarrow> ev_table \<Rightarrow> string \<Rightarrow> nat \<Rightarrow> nat \<Rightarrow> bool" where
  "lost_window_outcome t t' tn a b \<longleftrightarrow>
     (let streak = consecutive_loss_demote_windows (rec_at t tn a b);
          kept = (ev_state_of t' tn (int a) (int b) = ev_state_of t tn (int a) (int b)
                  \<and> consecutive_loss_demote_windows (rec_at t' tn a b) = streak + 1)
      in if streak + 1 < loss_demote_consecutive (cfg t) then kept
         else ev_state_of t' tn (int a) (int b) = Inr ASSUMED_BAD
                \<and> consecutive_loss_demote_windows (rec_at t' tn a b) = 0
              \<or> kept \<and> int (usable (num_planes t) (num_paths t) (grid_at t' tn)) = min_active t)"

text \<open>The record's side of it, before and after the one observation.\<close>

lemma feed_total_loss:
  assumes "ev_shape u" "record_loss_window u tn (int a) (int b) 0 s = Inr u'" "0 < s"
    and "loss_threshold (cfg u) < 1" "rstate (rec_at u tn a b) \<noteq> ASSUMED_BAD"
  shows "if consecutive_loss_demote_windows (rec_at u tn a b) + 1 < loss_demote_consecutive (cfg u)
      \<or> floor_blocks u tn a b
    then rstate (rec_at u' tn a b) = rstate (rec_at u tn a b)
      \<and> consecutive_loss_demote_windows (rec_at u' tn a b) = consecutive_loss_demote_windows (rec_at u tn a b) + 1
    else rstate (rec_at u' tn a b) = ASSUMED_BAD \<and> consecutive_loss_demote_windows (rec_at u' tn a b) = 0"
proof -
  have "int_truediv (s - min 0 s) s = 1" using assms(3) by (simp add: int_truediv_def min_def)
  then have "rec_at u' tn a b = loss_record_step (cfg u) (the (ticks u tn)) (floor_blocks u tn a b) 1 (rec_at u tn a b)"
    using record_loss_window_cases [OF assms(1,2)] assms(3) by (simp add: apply_loss_ratio_local assms(1))
  then show ?thesis using loss_record_step_total [OF assms(4,5)] by simp
qed

lemma feed_keeps_other_states:
  assumes "sink_inv t u" "record_loss_window u tn (int a) (int b) s e = Inr u'"
  shows "usable_after P Q (grid_at u' tn) a b = usable_after P Q (grid_at u tn) a b"
proof -
  have "rec_at u' tn p q = rec_at u tn p q" if "(p, q) \<noteq> (a, b)" for p q
    using ev_sink.feed_elsewhere [OF assms, of tn p q] that by auto
  then show ?thesis
    unfolding usable_after_def by (intro arg_cong [where f = length] filter_cong) (auto simp: rec_at_def)
qed

lemma reported_evs_mem: "r \<in> set (rp_planes rep) \<Longrightarrow> (lr_plane_id r, lr_path_id r) \<in> reported_evs rep"
  by (simp add: reported_evs_def)

lemma loss_report_blackhole_sink:
  assumes "ev_reachable t" and "0 \<le> loss_threshold (cfg t)" and "loss_threshold (cfg t) < 1"
    and "valid_ev t tn a b" and "ev_state_of t tn (int a) (int b) \<noteq> Inr ASSUMED_BAD"
    and "find_closest ring now sk = Some w" and "\<not> low_coverage w rep" and "rp_planes rep \<noteq> []"
    and "1 \<le> ms" and "ms \<le> sent_on w a b" and "(int a, int b) \<notin> reported_evs rep"
    and "apply_loss_report t tn rep ring now sk st ms = (t', st', None)"
  shows "lost_window_outcome t t' tn a b"
proof -
  obtain st2 t1 st3 where r: "feed_records record_loss_window tn (Some w) (rp_planes rep) t st2 = (t1, st3, None)"
    and f: "feed_absent record_loss_window ev_state_of tn ms (reported_evs rep) (sent_cells w) t1 st3
       = (t', st', None)"
    by (rule apply_loss_report_loops [OF assms(12,6,7,8)])
  note inv = apply_loss_report_sink(1) [OF assms(1,2)]
  have t1: "sink_inv t t1" using ev_sink.records_inv [OF inv] r by (metis fst_conv)
  have "tn \<noteq> tn \<or> (\<forall>r \<in> set (rp_planes rep). lr_plane_id r = int a \<and> lr_path_id r = int b
      \<longrightarrow> sent_denominator (Some w) r = 0)"
    using assms(11) reported_evs_mem by metis
  from ev_sink.records_elsewhere [OF inv this] have keep: "rec_at t1 tn a b = rec_at t tn a b"
    using r by (metis fst_conv)
  have mem: "(a, b, sent_on w a b) \<in> set (sent_cells w)"
    using assms(9,10) by (auto simp: sent_cells_sent_on sent_on_def split: if_splits)
  obtain u x where u: "sink_inv t u" "rec_at u tn a b = rec_at t1 tn a b"
    "ev_state_of u tn (int a) (int b) = Inr x"
    "if x = ASSUMED_BAD then rec_at t' tn a b = rec_at u tn a b
       else \<exists>u' cs2 st2. record_loss_window u tn (int a) (int b) 0 (sent_on w a b) = Inr u'
              \<and> rec_at t' tn a b = rec_at u' tn a b
              \<and> t' = fst (feed_absent record_loss_window ev_state_of tn ms (reported_evs rep) cs2 u' st2)"
    using ev_sink.absent_hit [OF t1 sent_cells_distinct mem assms(10,11) f] by blast
  have wf: "ev_wf u" "same_config t u" "ev_shape t"
    using u(1) ev_reachable_wf [OF assms(1)] ev_reachable_wf by (auto simp: sink_inv_def)
  then have x: "x = rstate (rec_at t tn a b)" "x \<noteq> ASSUMED_BAD"
    using u(2,3) keep assms(4,5) same_config_valid by (auto simp: ev_state_of_valid)
  then obtain u' cs2 st4 where u': "record_loss_window u tn (int a) (int b) 0 (sent_on w a b) = Inr u'"
    "rec_at t' tn a b = rec_at u' tn a b"
    "t' = fst (feed_absent record_loss_window ev_state_of tn ms (reported_evs rep) cs2 u' st4)"
    using u(4) by auto
  have inv': "sink_inv t u'" by (rule record_loss_window_sink_inv [OF u(1) u'(1)])
  have "sink_after t u' t'"
    unfolding u'(3) by (rule ev_after.absent_inv) (simp add: sink_after_def inv')
  from sink_after_usable [OF this]
  have mono: "usable (num_planes t) (num_paths t) (grid_at t' tn) \<le> usable (num_planes t) (num_paths t) (grid_at u' tn)" .
  have t': "ev_wf t'" "same_config t t'"
    using apply_loss_report_sink(2) [OF assms(1,2), of tn rep ring now sk st ms] assms(12) ev_reachable_wf
    by (auto simp: sink_inv_def)
  have st: "ev_state_of t' tn (int a) (int b) = Inr (rstate (rec_at t' tn a b))"
    "ev_state_of t tn (int a) (int b) = Inr (rstate (rec_at t tn a b))"
    using t' assms(4) same_config_valid wf(3) by (auto simp: ev_state_of_valid)
  have "int (usable (num_planes t) (num_paths t) (grid_at t' tn)) = min_active t"
    if blocked: "floor_blocks u tn a b" and kept: "rstate (rec_at u' tn a b) = rstate (rec_at u tn a b)"
  proof -
    have "usable (num_planes t) (num_paths t) (grid_at u' tn) = usable_after (num_planes t) (num_paths t) (grid_at u tn) a b + 1"
      using usable_split [of a "num_planes t" b "num_paths t" "grid_at u' tn"] assms(4) kept x u(2) keep
      by (simp add: feed_keeps_other_states [OF u(1) u'(1)] valid_ev_def rec_at_def)
    moreover have "int (usable_after (num_planes t) (num_paths t) (grid_at u tn) a b) < min_active t"
      using blocked wf(2) by (simp add: floor_blocks_def same_config_def)
    moreover have "min_active t \<le> int (usable (num_planes t) (num_paths t) (grid_at t' tn))"
      using t' valid_ev_tenant [OF assms(4)] by (auto simp: ev_wf_def same_config_def)
    ultimately show ?thesis using mono by linarith
  qed
  moreover have "ev_shape u" "0 < sent_on w a b" "loss_threshold (cfg u) < 1" "cfg u = cfg t"
    "rstate (rec_at u tn a b) \<noteq> ASSUMED_BAD"
    using wf assms(3,9,10) x u(2) keep by (auto simp: same_config_def)
  ultimately show ?thesis
    using feed_total_loss [OF _ u'(1)] u(2) keep u'(2) st unfolding lost_window_outcome_def Let_def
    by (auto split: if_splits)
qed

lemma lost_window_outcome_charged:
  "lost_window_outcome t t' tn a b \<Longrightarrow> ev_state_of t' tn (int a) (int b) = Inr ASSUMED_BAD
    \<or> consecutive_loss_demote_windows (rec_at t' tn a b) =
        consecutive_loss_demote_windows (rec_at t tn a b) + 1"
  by (auto simp: lost_window_outcome_def Let_def split: if_splits)

text \<open>
  C7. A blackhole is noticed: an EV on which the sender sent enough in the paired window, and
  which a report covering the window's traffic omits, is charged with a totally lost window: the
  report demotes it or extends its streak of bad windows by one.
\<close>

theorem loss_report_blackhole:
  assumes "ev_reachable t" and "0 \<le> loss_threshold (cfg t)" and "loss_threshold (cfg t) < 1"
    and "valid_ev t tn a b" and "ev_state_of t tn (int a) (int b) \<noteq> Inr ASSUMED_BAD"
    and "find_closest ring now sk = Some w" and "\<not> low_coverage w rep" and "rp_planes rep \<noteq> []"
    and "1 \<le> ms" and "ms \<le> sent_on w a b" and "(int a, int b) \<notin> reported_evs rep"
    and "apply_loss_report t tn rep ring now sk st ms = (t', st', None)"
  shows "ev_state_of t' tn (int a) (int b) = Inr ASSUMED_BAD
    \<or> consecutive_loss_demote_windows (rec_at t' tn a b) =
        consecutive_loss_demote_windows (rec_at t tn a b) + 1"
  using loss_report_blackhole_sink [OF assms] by (rule lost_window_outcome_charged)

theorem loss_report_blackhole_witness:
  "ev_state_of (fst (apply_loss_report demo_table ''green'' demo_report demo_ring 30 10
     new_fusion_stats 2)) ''green'' (int 1) (int 0) = Inr ASSUMED_BAD
   \<or> consecutive_loss_demote_windows (rec_at (fst (apply_loss_report demo_table ''green'' demo_report
       demo_ring 30 10 new_fusion_stats 2)) ''green'' 1 0) =
     consecutive_loss_demote_windows (rec_at demo_table ''green'' 1 0) + 1"
proof -
  let ?r = "apply_loss_report demo_table ''green'' demo_report demo_ring 30 10 new_fusion_stats 2"
  have "snd (snd ?r) = None" by code_simp
  then have r: "?r = (fst ?r, fst (snd ?r), None)" by (simp add: prod_eq_iff)
  have h: "loss_threshold (cfg demo_table) < 1" "valid_ev demo_table ''green'' 1 0"
    "ev_state_of demo_table ''green'' (int 1) (int 0) \<noteq> Inr ASSUMED_BAD"
    "\<not> low_coverage demo_window demo_report" "rp_planes demo_report \<noteq> []"
    "2 \<le> sent_on demo_window 1 0" "(int 1, int 0) \<notin> reported_evs demo_report" by code_simp+
  show ?thesis
    by (rule loss_report_blackhole [OF demo_table_reachable demo_threshold h(1,2,3) demo_paired h(4,5)
        _ h(6,7) r]) simp
qed

subsection \<open>Accounting\<close>

definition stats_delta :: "(fusion_stats \<Rightarrow> int) \<Rightarrow> fusion_stats \<Rightarrow> fusion_stats \<Rightarrow> int" where
  "stats_delta f st st' = f st' - f st"

lemma feed_records_stats:
  assumes "feed_records feed tn paired rs t st = (t', st', None)"
  shows "stats_delta planes_updated st st' + stats_delta planes_skipped_no_data st st'
      + stats_delta fell_back_to_receiver_expected st st' = int (length rs)"
    and "stats_delta paired_with_sent_window st st' = stats_delta planes_updated st st'"
    and "reports_processed st' = reports_processed st"
    and "no_pairing_window_in_ring st' = no_pairing_window_in_ring st"
    and "paired = None \<Longrightarrow> planes_updated st' = planes_updated st"
proof -
  have "stats_delta planes_updated st st' + stats_delta planes_skipped_no_data st st'
      + stats_delta fell_back_to_receiver_expected st st' = int (length rs)
    \<and> stats_delta paired_with_sent_window st st' = stats_delta planes_updated st st'
    \<and> reports_processed st' = reports_processed st
    \<and> no_pairing_window_in_ring st' = no_pairing_window_in_ring st
    \<and> (paired = None \<longrightarrow> planes_updated st' = planes_updated st)"
    using assms
  proof (induction rs arbitrary: t st)
    case (Cons r rs)
    let ?d = "sent_denominator paired r"
    show ?case
    proof (cases "lr_seen r = 0 \<and> lr_expected r = 0 \<and> lr_trimmed r = 0")
      case True
      then have "feed_records feed tn paired rs t
          (st\<lparr>planes_skipped_no_data := planes_skipped_no_data st + 1\<rparr>) = (t', st', None)"
        using Cons.prems by simp
      from Cons.IH [OF this] show ?thesis by (simp add: stats_delta_def)
    next
      case data: False
      show ?thesis
      proof (cases "?d = 0")
        case True
        then have "feed_records feed tn paired rs t (st\<lparr>fell_back_to_receiver_expected :=
            fell_back_to_receiver_expected st + 1\<rparr>) = (t', st', None)"
          using Cons.prems data by simp
        from Cons.IH [OF this] show ?thesis by (simp add: stats_delta_def)
      next
        case False
        then obtain t1 where "feed_records feed tn paired rs t1 (st\<lparr>planes_updated := planes_updated st + 1,
            paired_with_sent_window := paired_with_sent_window st + 1\<rparr>) = (t', st', None)"
          using Cons.prems data by (auto split: sum.splits)
        moreover have "paired \<noteq> None" using False by (cases paired) (simp_all add: sent_denominator_def)
        ultimately show ?thesis using Cons.IH by (fastforce simp: stats_delta_def)
      qed
    qed
  qed (simp add: stats_delta_def)
  then show "stats_delta planes_updated st st' + stats_delta planes_skipped_no_data st st'
      + stats_delta fell_back_to_receiver_expected st st' = int (length rs)"
    "stats_delta paired_with_sent_window st st' = stats_delta planes_updated st st'"
    "reports_processed st' = reports_processed st"
    "no_pairing_window_in_ring st' = no_pairing_window_in_ring st"
    "paired = None \<Longrightarrow> planes_updated st' = planes_updated st" by auto
qed

lemma feed_absent_stats:
  assumes "feed_absent feed state_of tn ms rep cs t st = (t', st', e)"
  shows "planes_updated st' = planes_updated st" "planes_skipped_no_data st' = planes_skipped_no_data st"
    "fell_back_to_receiver_expected st' = fell_back_to_receiver_expected st"
    "paired_with_sent_window st' = paired_with_sent_window st"
    "reports_processed st' = reports_processed st"
    "no_pairing_window_in_ring st' = no_pairing_window_in_ring st"
proof -
  have "planes_updated st' = planes_updated st \<and> planes_skipped_no_data st' = planes_skipped_no_data st
    \<and> fell_back_to_receiver_expected st' = fell_back_to_receiver_expected st
    \<and> paired_with_sent_window st' = paired_with_sent_window st
    \<and> reports_processed st' = reports_processed st
    \<and> no_pairing_window_in_ring st' = no_pairing_window_in_ring st"
    using assms
  proof (induction cs arbitrary: t st)
    case (Cons c cs)
    obtain p q s where c: "c = (p, q, s)" by (cases c)
    show ?case
    proof (cases "\<exists>t1 st1. feed_absent feed state_of tn ms rep cs t1 st1 = (t', st', e) \<and>
        (st1 = st \<or> st1 = st\<lparr>absent_evs_counted_as_lost := absent_evs_counted_as_lost st + 1\<rparr>)")
      case True
      then show ?thesis using Cons.IH by fastforce
    next
      case False
      then have "st' = st"
        using Cons.prems c by (auto split: if_splits sum.splits)
      then show ?thesis by simp
    qed
  qed simp
  then show "planes_updated st' = planes_updated st" "planes_skipped_no_data st' = planes_skipped_no_data st"
    "fell_back_to_receiver_expected st' = fell_back_to_receiver_expected st"
    "paired_with_sent_window st' = paired_with_sent_window st"
    "reports_processed st' = reports_processed st"
    "no_pairing_window_in_ring st' = no_pairing_window_in_ring st" by auto
qed

text \<open>
  The fusion counters account for every record of a processed report: each is either fed to
  the table, skipped as empty, or skipped for want of a denominator; fed and paired records are
  the same; and a report that could not be paired feeds nothing.
\<close>

theorem fusion_stats_account:
  assumes "apply_loss_report t tn rep ring now sk st ms = (t', st', None)" and "rp_planes rep \<noteq> []"
  shows "stats_delta reports_processed st st' = 1
    \<and> stats_delta planes_updated st st' + stats_delta planes_skipped_no_data st st'
        + stats_delta fell_back_to_receiver_expected st st' = int (length (rp_planes rep))
    \<and> stats_delta paired_with_sent_window st st' = stats_delta planes_updated st st'
    \<and> stats_delta no_pairing_window_in_ring st st' = (if find_closest ring now sk = None then 1 else 0)
    \<and> (find_closest ring now sk = None \<longrightarrow> stats_delta planes_updated st st' = 0 \<and> t' = t)"
proof -
  let ?pr = "find_closest ring now sk"
  define st2 where "st2 = (let st1 = st\<lparr>reports_processed := reports_processed st + 1\<rparr> in
    if ?pr = None then st1\<lparr>no_pairing_window_in_ring := no_pairing_window_in_ring st1 + 1\<rparr> else st1)"
  obtain t1 st3 e where r: "feed_records record_loss_window tn ?pr (rp_planes rep) t st2 = (t1, st3, e)"
    by (metis prod_cases3)
  have e: "e = None"
    using assms r unfolding apply_loss_report_def fuse_report_def Let_def st2_def
    by (cases e) auto
  note R = feed_records_stats [OF r [unfolded e]]
  have tail: "(?pr = None \<longrightarrow> t' = t1) \<and> planes_updated st' = planes_updated st3
    \<and> planes_skipped_no_data st' = planes_skipped_no_data st3
    \<and> fell_back_to_receiver_expected st' = fell_back_to_receiver_expected st3
    \<and> paired_with_sent_window st' = paired_with_sent_window st3
    \<and> reports_processed st' = reports_processed st3
    \<and> no_pairing_window_in_ring st' = no_pairing_window_in_ring st3"
  proof (cases "\<exists>w. ?pr = Some w \<and> \<not> low_coverage w rep")
    case True
    then obtain w where "feed_absent record_loss_window ev_state_of tn ms (reported_evs rep)
        (sent_cells w) t1 st3 = (t', st', None)"
      using assms r e unfolding apply_loss_report_def fuse_report_def Let_def st2_def by auto
    from feed_absent_stats [OF this] True show ?thesis by auto
  next
    case False
    then show ?thesis
      using assms r e unfolding apply_loss_report_def fuse_report_def Let_def st2_def
      by (cases ?pr) auto
  qed
  have "?pr = None \<Longrightarrow> t1 = t" using feed_records_unpaired r by (metis fst_conv)
  then show ?thesis
    using R tail by (auto simp: stats_delta_def st2_def Let_def)
qed

theorem fusion_stats_account_witness:
  "stats_delta planes_updated new_fusion_stats (fst (snd (apply_loss_report demo_table ''green'' demo_report
     demo_ring 30 10 new_fusion_stats 2))) \<le> 1"
proof -
  let ?r = "apply_loss_report demo_table ''green'' demo_report demo_ring 30 10 new_fusion_stats 2"
  have "snd (snd ?r) = None" by code_simp
  then have r: "?r = (fst ?r, fst (snd ?r), None)" by (simp add: prod_eq_iff)
  have st: "rp_planes demo_report \<noteq> []" "length (rp_planes demo_report) = 1"
    "0 \<le> stats_delta planes_skipped_no_data new_fusion_stats (fst (snd ?r))"
    "0 \<le> stats_delta fell_back_to_receiver_expected new_fusion_stats (fst (snd ?r))" by code_simp+
  from fusion_stats_account [OF r st(1)] st(2-4) show ?thesis by linarith
qed

end
