(* ===== verification/TopoProperties.thy ===== *)
theory TopoProperties
  imports Topo
begin

text \<open>
  Properties of the addressing: the spine subsets are samples without replacement, the addresses
  the functions print parse back to what they encode, and distinct EVs never share an outer
  destination.
\<close>

subsection \<open>Spine subsets\<close>

lemma draw_spines_sample:
  assumes "distinct pool" "int (length pool) = spines - int step" "n \<le> length pool"
  shows "length (draw_spines base spines step n pool) = n
    \<and> distinct (draw_spines base spines step n pool)
    \<and> set (draw_spines base spines step n pool) \<subseteq> set pool"
  using assms
proof (induction base spines step n pool rule: draw_spines.induct)
  case (2 base spines step n pool)
  define x where "x = splitmix (base + of_nat step * SPLITMIX_GAMMA)"
  define j where "j = nat (uint x mod (spines - int step))"
  have pos: "0 < spines - int step" using "2.prems" by linarith
  have j: "j < length pool"
    using pos_mod_bound [OF pos, of "uint x"] pos_mod_sign [OF pos, of "uint x"] "2.prems"(2)
    by (simp add: j_def)
  let ?rest = "take j pool @ drop (Suc j) pool"
  have split: "pool = take j pool @ pool ! j # drop (Suc j) pool" using j by (rule id_take_nth_drop)
  have d: "distinct ?rest" "pool ! j \<notin> set ?rest" "set ?rest \<subseteq> set pool"
  proof -
    have "distinct (take j pool @ pool ! j # drop (Suc j) pool)" using "2.prems"(1) split by simp
    then show "distinct ?rest" "pool ! j \<notin> set ?rest" by auto
    show "set ?rest \<subseteq> set pool" by (auto dest: in_set_takeD in_set_dropD)
  qed
  have l: "length ?rest = length pool - 1" using j by simp
  have "length (draw_spines base spines (Suc step) n ?rest) = n
    \<and> distinct (draw_spines base spines (Suc step) n ?rest)
    \<and> set (draw_spines base spines (Suc step) n ?rest) \<subseteq> set ?rest"
    using "2.IH" [OF x_def j_def d(1)] l "2.prems" by simp
  then show ?case using d j by (auto simp: Let_def simp flip: x_def j_def)
qed simp

lemma seeded_spines_sample:
  assumes "1 \<le> n" "n \<le> NUM_SPINES g"
  shows "let s = select_spines_from_seed g seed_str n in
    length s = nat n \<and> distinct s \<and> set s \<subseteq> {0..<NUM_SPINES g}"
proof -
  let ?pool = "map int [0..<nat (NUM_SPINES g)]"
  have "distinct ?pool" by (simp add: distinct_map)
  moreover have "int (length ?pool) = NUM_SPINES g - int 0" "nat n \<le> length ?pool" using assms by auto
  moreover have "set ?pool \<subseteq> {0..<NUM_SPINES g}" using assms by auto
  ultimately show ?thesis
    using draw_spines_sample [of ?pool "NUM_SPINES g" 0 "nat n" "fnv1a (utf8 seed_str)"]
    unfolding select_spines_from_seed_def Let_def by blast
qed

text \<open>
  C31. The spine subset of a flow is a sample without replacement: for every count in range it has
  exactly that many distinct spines, all of the topology, it is the same in both directions of
  the flow, and the full count visits every spine once. A count out of range raises.
\<close>

theorem select_spines_sample:
  assumes "1 \<le> n" and "n \<le> NUM_SPINES g"
  shows "\<exists>s. select_spines_for_addrs g a b n = Inr s \<and> select_spines_for_addrs g b a n = Inr s
    \<and> length s = nat n \<and> distinct s \<and> set s \<subseteq> {0..<NUM_SPINES g}
    \<and> (n = NUM_SPINES g \<longrightarrow> set s = {0..<NUM_SPINES g})"
proof -
  obtain sd where sd: "select_spines_for_addrs g a b n = Inr (select_spines_from_seed g sd n)"
    "select_spines_for_addrs g b a n = Inr (select_spines_from_seed g sd n)"
    using assms str_le_antisym [of a b] str_le_total [of a b]
    by (cases "str_le a b"; cases "str_le b a") (auto simp: select_spines_for_addrs_def Let_def)
  let ?s = "select_spines_from_seed g sd n"
  have s: "length ?s = nat n" "distinct ?s" "set ?s \<subseteq> {0..<NUM_SPINES g}"
    using seeded_spines_sample [OF assms, of sd] by (auto simp: Let_def)
  moreover have "set ?s = {0..<NUM_SPINES g}" if "n = NUM_SPINES g"
  proof (rule card_subset_eq [OF _ s(3)])
    show "card (set ?s) = card {0..<NUM_SPINES g}"
      using s(1,2) that assms by (simp add: distinct_card)
  qed simp
  ultimately show ?thesis using sd by blast
qed

definition demo_topo :: topo where
  "demo_topo = \<lparr>NUM_PLANES = 4, NUM_SPINES = 4, NUM_LEAVES = 8,
     CLAB_TOPOLOGY_NAME = ''sonic-docker-4p-4x8'', TENANTS = [''green'', ''yellow'']\<rparr>"

lemma demo_topo_fallback: "topo_of fallback_topo = Inr demo_topo"
  by (simp add: topo_of_def fallback_topo_def demo_topo_def)

theorem select_spines_sample_witness:
  "\<exists>s. select_spines_for_addrs demo_topo ''2001:db8:bbbb:00::2'' ''2001:db8:bbbb:07::2'' 4 = Inr s
     \<and> set s = {0..<4}"
proof -
  have n: "(1 :: int) \<le> 4" "4 \<le> NUM_SPINES demo_topo" by (simp_all add: demo_topo_def)
  show ?thesis
    using select_spines_sample [OF n, of "''2001:db8:bbbb:00::2''" "''2001:db8:bbbb:07::2''"]
    by (auto simp: demo_topo_def)
qed

subsection \<open>Queue pair numbers\<close>

lemma or_push_bit:
  fixes p q :: int
  assumes "0 \<le> q" "q < 2 ^ n"
  shows "push_bit n p OR q = p * 2 ^ n + q"
proof -
  have t: "take_bit n q = q" using assms by (simp add: take_bit_int_eq_self)
  have "push_bit n p AND q = 0"
  proof (rule bit_eqI)
    fix m
    have "bit q m \<longleftrightarrow> m < n \<and> bit q m" using t by (metis bit_take_bit_iff)
    then show "bit (push_bit n p AND q) m \<longleftrightarrow> bit (0 :: int) m" by (auto simp: bit_simps)
  qed
  then have "push_bit n p + q = push_bit n p OR q" by (rule disjunctive_add_eq_or)
  then show ?thesis by (simp add: push_bit_eq_mult)
qed

lemma and_mask_int:
  fixes a :: int
  shows "a AND 0xFF = a mod 256" "a AND 0xF = a mod 16"
  using take_bit_eq_mask [of 8 a] take_bit_eq_mask [of 4 a]
  by (simp_all add: take_bit_eq_mod mask_eq_exp_minus_1)

text \<open>
  The queue pair number names the EV: it decodes to the (plane, path) it was made from, fits
  24 bits and never is one of the reserved QP0 and QP1, for topologies of at most 256 planes and
  spines.
\<close>

theorem dqpn_roundtrip:
  assumes "NUM_PLANES g \<le> 256" and "NUM_SPINES g \<le> 256" and "dqpn_for_ev g plane path = Inr q"
  shows "ev_from_dqpn q = (plane, path) \<and> 0x010000 \<le> q \<and> q < 0x020000"
proof -
  have b: "0 \<le> plane" "plane < 256" "0 \<le> path" "path < 256"
    "q = DQPN_BASE OR (push_bit 8 plane OR path)"
    using assms by (auto simp: dqpn_for_ev_def check_plane_def check_spine_def or.assoc split: if_splits)
  have "push_bit 8 plane OR path = plane * 256 + path" using or_push_bit [of path 8 plane] b by simp
  then have "q = push_bit 16 1 OR (plane * 256 + path)" using b(5) by (simp add: DQPN_BASE_def)
  then have q: "q = 65536 + plane * 256 + path"
    using or_push_bit [of "plane * 256 + path" 16 1] b by simp
  have "q = path + (256 + plane) * 256" using q by simp
  then have "q div 256 = 256 + plane" "q mod 256 = path"
    using b by (simp_all only: div_mult_self1 mod_mult_self1 div_pos_pos_trivial mod_pos_pos_trivial)
  then show ?thesis
    using q b by (simp add: ev_from_dqpn_def and_mask_int drop_bit_eq_div)
qed

theorem dqpn_roundtrip_witness:
  "ev_from_dqpn 0x010203 = (2, 3)"
proof -
  have h: "NUM_PLANES demo_topo \<le> 256" "NUM_SPINES demo_topo \<le> 256"
    "dqpn_for_ev demo_topo 2 3 = Inr 0x010203" by code_simp+
  from dqpn_roundtrip [OF h] show ?thesis by blast
qed

subsection \<open>Parsing what is printed\<close>

definition plain :: "string \<Rightarrow> bool" where
  "plain s \<longleftrightarrow> CHR '':'' \<notin> set s \<and> CHR ''.'' \<notin> set s \<and> CHR ''%'' \<notin> set s \<and> CHR ''/'' \<notin> set s"

lemma plain_append [simp]: "plain (a @ b) \<longleftrightarrow> plain a \<and> plain b"
  by (auto simp: plain_def)

lemma plain_Cons [simp]:
  "plain (c # s) \<longleftrightarrow> c \<noteq> CHR '':'' \<and> c \<noteq> CHR ''.'' \<and> c \<noteq> CHR ''%'' \<and> c \<noteq> CHR ''/'' \<and> plain s"
  by (auto simp: plain_def)

lemma plain_digits: "set s \<subseteq> set digit_chars \<Longrightarrow> plain s"
proof -
  have "\<forall>c \<in> set digit_chars. c \<noteq> CHR '':'' \<and> c \<noteq> CHR ''.'' \<and> c \<noteq> CHR ''%'' \<and> c \<noteq> CHR ''/''"
    by code_simp
  then show "set s \<subseteq> set digit_chars \<Longrightarrow> plain s" unfolding plain_def by blast
qed

lemma plain_hex [simp]: "plain (hex_str n)" "plain (zpad k (hex_str n))"
  by (rule plain_digits, rule hex_str_chars) (rule plain_digits, rule zpad_hex_chars)

lemma ipv6_of_parts:
  assumes "ss \<noteq> []" "\<forall>s \<in> set ss. plain s" "3 \<le> length ss"
  shows "ipv6_hextets (join_with (CHR '':'') ss) = ipv6_expand ss"
proof -
  have set: "set (join_with (CHR '':'') ss) \<subseteq> insert (CHR '':'') (\<Union> (set ` set ss))" for ss
    by (induction "CHR '':''" ss rule: join_with.induct) auto
  have "CHR ''%'' \<notin> set (join_with (CHR '':'') ss)" "CHR ''/'' \<notin> set (join_with (CHR '':'') ss)"
    using set [of ss] assms(2) by (auto simp: plain_def)
  moreover have "split_on (CHR '':'') (join_with (CHR '':'') ss) = ss"
    using assms by (intro split_join) (auto simp: plain_def)
  moreover have "CHR ''.'' \<notin> set (last ss)" using assms(1,2) by (auto simp: plain_def)
  ultimately show ?thesis using assms(3) by (simp add: ipv6_hextets_def ipv6_parts_def)
qed

text \<open>Four groups, a gap, and one group at the end; and the shapes of the outer destinations.\<close>

lemma expand_gap1:
  assumes "a \<noteq> []" "b \<noteq> []" "c \<noteq> []" "d \<noteq> []" "e \<noteq> []"
  shows "ipv6_expand [a, b, c, d, [], e] =
    (case (all_hextets [a, b, c, d], all_hextets [e]) of
       (Some x, Some y) \<Rightarrow> Some (x @ [0, 0, 0] @ y) | _ \<Rightarrow> None)"
  using assms
  by (cases "all_hextets [a, b, c, d]"; cases "all_hextets [e]")
    (simp_all add: ipv6_expand_def upt_rec numeral_eq_Suc)

lemma all_hextets_known:
  "list_all2 (\<lambda>s h. parse_hextet s = Some h) ss hs \<Longrightarrow> all_hextets ss = Some hs"
  by (induction rule: list_all2_induct) (auto simp: all_hextets_def split: if_splits)

lemma parse_hex_nat: "n < 65536 \<Longrightarrow> parse_hextet (hex_str n) = Some n"
  using parse_hextet_hex [of n 0] by (simp add: zpad_def)

lemma parse_hex2_nat: "n < 65536 \<Longrightarrow> parse_hextet (zpad 2 (hex_str n)) = Some n"
  using parse_hextet_hex [of n 2] by simp

lemma parse_constants:
  "parse_hextet ''2001'' = Some 0x2001" "parse_hextet ''db8'' = Some 0x0db8"
  "parse_hextet ''bbbb'' = Some 0xbbbb" "parse_hextet ''cccc'' = Some 0xcccc"
  "parse_hextet ''fc00'' = Some 0xfc00" "parse_hextet ''e009'' = Some 0xe009"
  "parse_hextet ''d000'' = Some 0xd000" "parse_hextet ''d001'' = Some 0xd001"
  "parse_hextet ''dfff'' = Some 0xdfff" "parse_hextet ''2'' = Some 2"
  by (simp_all add: parse_hextet_def hex_int_def hex_value_def)

lemma plain_constants:
  "plain ''2001''" "plain ''db8''" "plain ''bbbb''" "plain ''cccc''" "plain ''fc00''" "plain ''e009''"
  "plain ''d000''" "plain ''d001''" "plain ''dfff''" "plain ''2''" "plain ''000''" "plain ''f00''"
  "plain ''e00''" "plain ''1''" "plain []"
  by (simp_all add: plain_def)

lemma tenant_address_hextets:
  assumes "plain h" "h \<noteq> []" "parse_hextet h = Some x" "plain l" "l \<noteq> []" "parse_hextet l = Some y"
    and "t = ''bbbb'' \<and> v = 0xbbbb \<or> t = ''cccc'' \<and> v = 0xcccc"
  shows "ipv6_hextets (''2001:db8:'' @ t @ '':'' @ h @ ''::'' @ l) = Some [0x2001, 0x0db8, v, x, 0, 0, 0, y]"
proof -
  let ?ss = "[''2001'', ''db8'', t, h, [], l]"
  have "''2001:db8:'' @ t @ '':'' @ h @ ''::'' @ l = join_with (CHR '':'') ?ss" by simp
  moreover have "\<forall>s \<in> set ?ss. plain s" using assms(1,4,7) by (auto simp: plain_constants)
  moreover have "all_hextets [''2001'', ''db8'', t, h] = Some [0x2001, 0x0db8, v, x]"
    using assms(3,7) by (intro all_hextets_known) (auto simp: parse_constants)
  moreover have "all_hextets [l] = Some [y]" using assms(6) by (intro all_hextets_known) simp
  ultimately show ?thesis
    using expand_gap1 [of "''2001''" "''db8''" t h l] assms(2,5,7) ipv6_of_parts [of ?ss] by auto
qed

subsection \<open>Addresses parse back\<close>

lemma exploded_of_hextets:
  "ipv6_hextets s = Some hs \<Longrightarrow> ipv6_exploded s = Some (map (\<lambda>h. zpad 4 (hex_str h)) hs)"
  by (simp add: ipv6_exploded_def)

lemma exploded_constants:
  "zpad 4 (hex_str 0x2001) = ''2001''" "zpad 4 (hex_str 0x0db8) = ''0db8''"
  "zpad 4 (hex_str 0xbbbb) = ''bbbb''" "zpad 4 (hex_str 0xcccc) = ''cccc''"
  "zpad 4 (hex_str 0) = ''0000''" "zpad 4 (hex_str 2) = ''0002''"
  by (simp_all add: zpad_def hex_str_def digits.simps digit_chars_def numeral_3_eq_3)

text \<open>
  The demultiplexing key of a returning probe is right: the inner destination printed for an
  EV of a host parses back to that tenant, host, plane and path, for both tenants, in topologies
  of at most 15 planes, 16 spines and 65536 hosts per tenant.
\<close>

theorem probe_ev_addr_roundtrip:
  assumes "NUM_PLANES g \<le> 15" and "NUM_SPINES g \<le> 16" and "NUM_LEAVES g \<le> 65536"
    and "probe_ev_addr g tenant host_id plane path = Inr addr"
  shows "probe_ev_from_inner_dst g addr = Some (tenant, host_id, plane, path)"
proof -
  have b: "0 \<le> host_id" "host_id < NUM_LEAVES g" "0 \<le> plane" "plane < NUM_PLANES g"
    "0 \<le> path" "path < NUM_SPINES g" "tenant = ''yellow'' \<or> tenant = ''green''"
    using assms(4)
    by (auto simp: probe_ev_addr_def check_host_def check_plane_def check_spine_def Let_def
        topo_check_tenant_def split: if_splits)
  define low where "low = (plane + 1) * 16 + path"
  have low: "push_bit 4 (plane + 1) OR path = low" "16 \<le> low" "low \<le> 255" "0 \<le> low"
    using or_push_bit [of path 4 "plane + 1"] b assms(1,2) by (simp_all add: low_def)
  have "low = path + (plane + 1) * 16" by (simp add: low_def)
  then have parts: "low div 16 = plane + 1" "low mod 16 = path"
    using b assms(2) by (simp_all only: div_mult_self1 mod_mult_self1 div_pos_pos_trivial mod_pos_pos_trivial)
  then have nib: "drop_bit 4 low AND 0xF = plane + 1" "low AND 0xF = path"
    using b assms(1) by (simp_all add: and_mask_int drop_bit_eq_div)
  obtain t and v :: nat where t: "t = ''bbbb'' \<and> v = 0xbbbb \<and> tenant = ''green'' \<or> t = ''cccc'' \<and> v = 0xcccc \<and> tenant = ''yellow''"
    "addr = ''2001:db8:'' @ t @ '':'' @ hex host_id @ ''::'' @ hex low"
  proof (cases "tenant = ''yellow''")
    case True
    then show ?thesis
      using that [of "''cccc''" "0xcccc"] assms(4) low(1)
      by (auto simp: probe_ev_addr_def Let_def py_simps)
  next
    case False
    then show ?thesis
      using that [of "''bbbb''" "0xbbbb"] b(7) assms(4) low(1)
      by (auto simp: probe_ev_addr_def Let_def py_simps)
  qed
  have "nat host_id < 65536" "nat low < 65536" using b assms(3) low by auto
  then have "ipv6_hextets addr = Some [0x2001, 0x0db8, v, nat host_id, 0, 0, 0, nat low]"
    unfolding t(2) using t(1)
    by (intro tenant_address_hextets) (auto simp: parse_hex_nat)
  from exploded_of_hextets [OF this] show ?thesis
    using t(1) b low nib by (auto simp: probe_ev_from_inner_dst_def Let_def exploded_constants)
qed

theorem probe_ev_addr_roundtrip_witness:
  "probe_ev_from_inner_dst demo_topo ''2001:db8:cccc:7::43'' = Some (''yellow'', 7, 3, 3)"
proof -
  have h: "NUM_PLANES demo_topo \<le> 15" "NUM_SPINES demo_topo \<le> 16" "NUM_LEAVES demo_topo \<le> 65536"
    "probe_ev_addr demo_topo ''yellow'' 7 3 3 = Inr ''2001:db8:cccc:7::43''" by code_simp+
  from probe_ev_addr_roundtrip [OF h] show ?thesis .
qed

text \<open>
  The receiver attributes a packet to its sender: the inner address of a host parses back to
  its tenant and host id, for the two tenants the address plan knows and up to 16 hosts.
\<close>

theorem inner_addr_roundtrip:
  assumes "NUM_LEAVES g \<le> 16" and "tenant = ''green'' \<or> tenant = ''yellow''"
    and "inner_addr g tenant host_id = Inr addr"
  shows "host_id_from_inner_addr addr = Some (tenant, host_id)"
proof -
  have b: "0 \<le> host_id" "host_id < NUM_LEAVES g"
    using assms(3) by (auto simp: inner_addr_def green_anycast_addr_def yellow_anycast_addr_def
        check_host_def topo_check_tenant_def split: if_splits)
  obtain t and v :: nat where t: "t = ''bbbb'' \<and> v = 0xbbbb \<and> tenant = ''green'' \<or> t = ''cccc'' \<and> v = 0xcccc \<and> tenant = ''yellow''"
    "addr = ''2001:db8:'' @ t @ '':'' @ hex2 host_id @ ''::'' @ ''2''"
  proof (cases "tenant = ''yellow''")
    case True
    then show ?thesis
      using that [of "''cccc''" "0xcccc"] assms(3)
      by (auto simp: inner_addr_def yellow_anycast_addr_def py_simps)
  next
    case False
    then show ?thesis
      using that [of "''bbbb''" "0xbbbb"] assms(2,3)
      by (auto simp: inner_addr_def green_anycast_addr_def py_simps)
  qed
  have n: "nat host_id < 65536" using b assms(1) by auto
  have "zpad 2 (hex_str (nat host_id)) \<noteq> []" by (simp add: zpad_def)
  then have "ipv6_hextets addr = Some [0x2001, 0x0db8, v, nat host_id, 0, 0, 0, 2]"
    unfolding t(2) using t(1) n
    by (intro tenant_address_hextets) (auto simp: parse_hex2_nat parse_constants plain_constants)
  from exploded_of_hextets [OF this] show ?thesis
    using t(1) b assms(1) by (auto simp: host_id_from_inner_addr_def Let_def exploded_constants)
qed

theorem inner_addr_roundtrip_witness:
  "host_id_from_inner_addr ''2001:db8:bbbb:07::2'' = Some (''green'', 7)"
proof -
  have h: "NUM_LEAVES demo_topo \<le> 16" "''green'' = ''green'' \<or> ''green'' = ''yellow''"
    "inner_addr demo_topo ''green'' 7 = Inr ''2001:db8:bbbb:07::2''" by code_simp+
  from inner_addr_roundtrip [OF h] show ?thesis .
qed

subsection \<open>Outer destinations\<close>

text \<open>A hextet written as a constant prefix and one hexadecimal digit.\<close>

lemma hex_str_digit: "n < 16 \<Longrightarrow> hex_str n = [digit_chars ! n]"
  by (simp add: hex_str_def digits.simps)

lemma parse_prefix_digit:
  assumes "parse_hextet pre = Some v" "length pre \<le> 3" "n < 16"
  shows "parse_hextet (pre @ hex_str n) = Some (v * 16 + n)"
  using assms digit_char_facts [of n]
  by (auto simp: hex_str_digit parse_hextet_def hex_int_def split: if_splits)

lemma parse_prefixes:
  "parse_hextet ''000'' = Some 0" "parse_hextet ''f00'' = Some 0xf00"
  "parse_hextet ''e00'' = Some 0xe00" "parse_hextet ''1'' = Some 1" "parse_hextet ''2'' = Some 2"
  by (simp_all add: parse_hextet_def hex_int_def hex_value_def)

lemma expand_tail5:
  assumes "a \<noteq> []" "b \<noteq> []" "c \<noteq> []" "d \<noteq> []" "e \<noteq> []" "all_hextets [a, b, c, d, e] = Some x"
  shows "ipv6_expand [a, b, c, d, e, [], []] = Some (x @ [0, 0, 0])"
  using assms by (simp add: ipv6_expand_def upt_rec numeral_eq_Suc all_hextets_def)

lemma expand_tail6:
  assumes "a \<noteq> []" "b \<noteq> []" "c \<noteq> []" "d \<noteq> []" "e \<noteq> []" "f \<noteq> []"
    "all_hextets [a, b, c, d, e, f] = Some x"
  shows "ipv6_expand [a, b, c, d, e, f, [], []] = Some (x @ [0, 0])"
  using assms by (simp add: ipv6_expand_def upt_rec numeral_eq_Suc all_hextets_def)

text \<open>The slots of the compressed uSID list, and the hextets of the address that carries them.\<close>

definition usid_slots :: "string \<Rightarrow> int \<Rightarrow> int \<Rightarrow> int \<Rightarrow> string \<Rightarrow> nat list" where
  "usid_slots tenant plane spine leaf mode =
     [0xfc00, nat plane] @
     (if mode = ''uA'' then [0xf000 + nat spine, 0xe000 + nat leaf] else [0x10 + nat spine, 0x20 + nat leaf]) @
     (if tenant = ''green'' then [0xd000] else if mode = ''uA'' then [0xe009, 0xd001] else [0xd001])"

lemma usid_head5:
  assumes "p < 16" "s < 16" "l < 16" "plain a" "parse_hextet a = Some va" "a \<noteq> []" "length a \<le> 3"
    "plain b" "parse_hextet b = Some vb" "b \<noteq> []" "length b \<le> 3" "plain t" "t \<noteq> []" "parse_hextet t = Some vt"
  shows "ipv6_hextets (''fc00:000'' @ hex_str p @ '':'' @ a @ hex_str s @ '':'' @ b @ hex_str l @ '':'' @ t @ ''::'')
    = Some [0xfc00, p, va * 16 + s, vb * 16 + l, vt, 0, 0, 0]"
proof -
  let ?ss = "[''fc00'', ''000'' @ hex_str p, a @ hex_str s, b @ hex_str l, t, [], []]"
  have "''fc00:000'' @ hex_str p @ '':'' @ a @ hex_str s @ '':'' @ b @ hex_str l @ '':'' @ t @ ''::''
      = join_with (CHR '':'') ?ss" by simp
  moreover have "\<forall>s \<in> set ?ss. plain s" using assms(4,8,12) by (auto simp: plain_constants)
  moreover have "all_hextets (take 5 ?ss) = Some [0xfc00, p, va * 16 + s, vb * 16 + l, vt]"
    using assms parse_prefix_digit [OF parse_prefixes(1), of p]
    by (intro all_hextets_known) (simp add: parse_constants parse_prefix_digit)
  ultimately show ?thesis
    using expand_tail5 [of "''fc00''" "''000'' @ hex_str p" "a @ hex_str s" "b @ hex_str l" t] assms(6,10,13)
      ipv6_of_parts [of ?ss] by simp
qed

lemma usid_head6:
  assumes "p < 16" "s < 16" "l < 16"
  shows "ipv6_hextets (''fc00:000'' @ hex_str p @ '':f00'' @ hex_str s @ '':e00'' @ hex_str l @ '':e009:d001::'')
    = Some [0xfc00, p, 0xf000 + s, 0xe000 + l, 0xe009, 0xd001, 0, 0]"
proof -
  let ?ss = "[''fc00'', ''000'' @ hex_str p, ''f00'' @ hex_str s, ''e00'' @ hex_str l, ''e009'', ''d001'', [], []]"
  have "''fc00:000'' @ hex_str p @ '':f00'' @ hex_str s @ '':e00'' @ hex_str l @ '':e009:d001::''
      = join_with (CHR '':'') ?ss" by simp
  moreover have "\<forall>s \<in> set ?ss. plain s" by (auto simp: plain_constants)
  moreover have "all_hextets (take 6 ?ss) = Some [0xfc00, p, 0xf000 + s, 0xe000 + l, 0xe009, 0xd001]"
    using assms parse_prefix_digit [OF parse_prefixes(1), of p]
      parse_prefix_digit [OF parse_prefixes(2), of s] parse_prefix_digit [OF parse_prefixes(3), of l]
    by (intro all_hextets_known) (simp add: parse_constants)
  ultimately show ?thesis
    using expand_tail6 [of "''fc00''" "''000'' @ hex_str p" "''f00'' @ hex_str s" "''e00'' @ hex_str l" "''e009''" "''d001''"]
      ipv6_of_parts [of ?ss] by simp
qed

lemma usid_outer_dst_slots:
  assumes "NUM_PLANES g \<le> 16" "NUM_SPINES g \<le> 16" "NUM_LEAVES g \<le> 16"
    and "usid_outer_dst g tenant plane spine leaf mode = Inr addr"
  shows "ipv6_hextets addr = Some (usid_slots tenant plane spine leaf mode @
    replicate (8 - length (usid_slots tenant plane spine leaf mode)) 0)
    \<and> 0 \<le> plane \<and> 0 \<le> spine \<and> 0 \<le> leaf \<and> plane < 16 \<and> spine < 16 \<and> leaf < 16 \<and> mode \<in> set SID_MODES"
proof -
  have b: "0 \<le> plane" "0 \<le> spine" "0 \<le> leaf" "plane < 16" "spine < 16" "leaf < 16" "mode \<in> set SID_MODES"
    using assms by (auto simp: usid_outer_dst_def check_plane_def check_spine_def check_host_def
        topo_check_tenant_def check_sid_mode_def split: if_splits)
  then have n: "nat plane < 16" "nat spine < 16" "nat leaf < 16" by auto
  note h5 = usid_head5 [OF n, of "''f00''" "0xf00" "''e00''" "0xe00" "''d000''" "0xd000"]
    usid_head5 [OF n, of "''1''" 1 "''2''" 2 "''d000''" "0xd000"]
    usid_head5 [OF n, of "''1''" 1 "''2''" 2 "''d001''" "0xd001"]
  have "ipv6_hextets addr = Some (usid_slots tenant plane spine leaf mode @
      replicate (8 - length (usid_slots tenant plane spine leaf mode)) 0)"
    using assms(4) b(7) h5 usid_head6 [OF n]
    by (cases "tenant = ''green''"; cases "mode = ''uA''")
      (auto simp: usid_outer_dst_def usid_slots_def py_simps parse_prefixes parse_constants plain_constants
        SID_MODES_def numeral_3_eq_3 split: if_splits)
  with b show ?thesis by simp
qed

text \<open>
  The compressed uSID list names the path: two outer destinations are the same address only
  when they have the same plane, spine, destination leaf and mode, and both are for green or both
  for the other tenant. As every printed address parses, distinct EVs never share a destination.
  For fabrics of at most 16 planes, spines and leaves.
\<close>

theorem usid_outer_dst_injective:
  assumes "NUM_PLANES g \<le> 16" "NUM_SPINES g \<le> 16" "NUM_LEAVES g \<le> 16"
    and "usid_outer_dst g tenant plane spine leaf mode = Inr addr"
    and "usid_outer_dst g tenant' plane' spine' leaf' mode' = Inr addr'"
  shows "ipv6_hextets addr \<noteq> None \<and>
    (ipv6_hextets addr = ipv6_hextets addr' \<longrightarrow>
       (plane, spine, leaf, mode) = (plane', spine', leaf', mode') \<and> (tenant = ''green'' \<longleftrightarrow> tenant' = ''green''))"
  using usid_outer_dst_slots [OF assms(1-4)] usid_outer_dst_slots [OF assms(1-3,5)]
  by (auto simp: usid_slots_def SID_MODES_def nat_eq_iff2 nat_eq_iff split: if_splits)

theorem usid_outer_dst_injective_witness:
  "ipv6_hextets ''fc00:0002:f003:e007:e009:d001::'' \<noteq> ipv6_hextets ''fc00:0002:f002:e007:e009:d001::''"
proof -
  have h: "NUM_PLANES demo_topo \<le> 16" "NUM_SPINES demo_topo \<le> 16" "NUM_LEAVES demo_topo \<le> 16"
    "usid_outer_dst demo_topo ''yellow'' 2 3 7 ''uA'' = Inr ''fc00:0002:f003:e007:e009:d001::''"
    "usid_outer_dst demo_topo ''yellow'' 2 2 7 ''uA'' = Inr ''fc00:0002:f002:e007:e009:d001::''" by code_simp+
  from usid_outer_dst_injective [OF h] show ?thesis by auto
qed

end
