(* ===== verification/AgentProperties.thy ===== *)
theory AgentProperties
  imports Agent LossProperties TopoProperties
begin

text \<open>
  Properties of the agents: what a round of probes counts, what a closed window holds, and how a
  loss report gets from the receiver's counters into the sender's EV table.
\<close>

subsection \<open>A round of probes\<close>

text \<open>The ids a probe can carry; the transport either sends or raises OSError.\<close>

definition probe_ids_ok :: "sender_agent \<Rightarrow> bool" where
  "probe_ids_ok a \<longleftrightarrow> sa_planes a \<le> 0x100 \<and> sa_spines a \<le> 0x100
     \<and> 0 \<le> sa_tenant_id a \<and> sa_tenant_id a \<le> 0xFFFF \<and> 0 \<le> sa_src_id a \<and> sa_src_id a \<le> 0xFFFF
     \<and> 0 \<le> sa_dst_id a \<and> sa_dst_id a \<le> 0xFF"

definition probe_of :: "sender_agent \<Rightarrow> nat \<times> nat \<Rightarrow> probe" where
  "probe_of a ev = \<lparr>pr_plane_id = int (fst ev), pr_path_id = int (snd ev), pr_tenant_id = sa_tenant_id a,
     pr_src_id = sa_src_id a, pr_dst_id = sa_dst_id a\<rparr>"

definition sender_ok :: "sender_agent \<Rightarrow> bool" where
  "sender_ok a \<longleftrightarrow> ev_shape (sa_table a) \<and> sa_tenant a \<in> set (tenants (sa_table a))
     \<and> num_planes (sa_table a) = sa_planes a \<and> num_paths (sa_table a) = sa_spines a"

definition sent_count :: "sender_agent \<Rightarrow> nat \<times> nat \<Rightarrow> int" where
  "sent_count a ev = current_sent (rec_at (sa_table a) (sa_tenant a) (fst ev) (snd ev))"

definition send_outcome :: "(nat \<times> nat \<Rightarrow> bool) \<Rightarrow> nat \<times> nat \<Rightarrow> unit result" where
  "send_outcome ok ev = (if ok ev then Inr () else Inl OSError)"

definition probe_tx :: "sender_agent \<Rightarrow> nat \<times> nat \<Rightarrow> bytes \<Rightarrow> transmission" where
  "probe_tx a ev payload = (int (fst ev), int (snd ev), sa_dst_id a, payload)"

lemma sender_valid_ev: "sender_ok a \<Longrightarrow> p < sa_planes a \<Longrightarrow> q < sa_spines a \<Longrightarrow>
    valid_ev (sa_table a) (sa_tenant a) p q"
  by (simp add: sender_ok_def valid_ev_def)

lemma emit_probe_effect:
  assumes "sender_ok a" "probe_ids_ok a" "p < sa_planes a" "q < sa_spines a"
  shows "\<exists>a' out. emit_probe a (p, q) (send_outcome ok (p, q)) ns = (a', out, Inr ())
    \<and> sender_ok a' \<and> probe_ids_ok a' \<and> sa_planes a' = sa_planes a \<and> sa_spines a' = sa_spines a
    \<and> (\<forall>ev. probe_of a' ev = probe_of a ev) \<and> sa_dst_id a' = sa_dst_id a
    \<and> (\<forall>ev. sent_count a' ev = sent_count a ev + (if ev = (p, q) \<and> ok ev then 1 else 0))
    \<and> (if ok (p, q) then \<exists>bs. out = [probe_tx a (p, q) bs] \<and> (\<forall>tail. decode_probe (bs @ tail) = Inr (probe_of a (p, q)))
       else out = [])"
proof -
  have pok: "probe_ok (probe_of a (p, q))"
    using assms(2-4) by (simp add: probe_ok_iff probe_of_def probe_ids_ok_def)
  obtain bs where bs: "enc_probe (probe_of a (p, q)) = Inr bs"
    "\<forall>tail. decode_probe (bs @ tail) = Inr (probe_of a (p, q))" using enc_probe_ok [OF pok] by blast
  have enc: "encode_probe (int p) (int q) (sa_tenant_id a) (sa_src_id a) (sa_dst_id a) = Inr bs"
    using bs(1) by (simp add: enc_probe_def probe_of_def)
  show ?thesis
  proof (cases "ok (p, q)")
    case False
    then show ?thesis using enc assms(1,2) by (simp add: emit_probe_def send_outcome_def)
  next
    case True
    let ?f = "\<lambda>r. r\<lparr>current_sent := current_sent r + 1, total_sent := ev_record.total_sent r + 1\<rparr>"
    let ?t = "upd_rec (sa_table a) (sa_tenant a) p q ?f"
    have sh: "ev_shape (sa_table a)" and v: "valid_ev (sa_table a) (sa_tenant a) p q"
      using assms by (simp_all add: sender_ok_def valid_ev_def)
    have "record_probe_sent (sa_table a) (sa_tenant a) (int p) (int q) = Inr ?t"
      using sh v by (auto simp: record_probe_sent_def check_tenant_def check_ev_def valid_ev_def ev_shape_def)
    then show ?thesis
      using True enc bs(2) assms(1,2) sh v
      by (auto simp: emit_probe_def send_outcome_def ignoring_def sender_ok_def probe_ids_ok_def probe_of_def
          sent_count_def rec_at_upd_rec probe_tx_def)
  qed
qed

text \<open>
  C16. A round of probes accounts for itself: every EV whose transmission succeeds gets its sent
  count raised by exactly one, the others keep theirs; the probes on the wire are one per such EV,
  in the order of the EVs, addressed to the flow's destination, and each decodes to the identity of
  its EV and flow, so that a probe that comes back is credited to the EV it was sent on.
\<close>

theorem probe_round_accounts:
  assumes "sender_ok a" and "probe_ids_ok a"
  shows "\<exists>a' out. emit_round a (send_outcome ok) elapsed = (a', out, Inr ())
    \<and> (\<forall>p < sa_planes a. \<forall>q < sa_spines a.
         sent_count a' (p, q) = sent_count a (p, q) + (if ok (p, q) then 1 else 0))
    \<and> list_all2 (\<lambda>ev tx. \<exists>bs. tx = probe_tx a ev bs \<and> decode_probe bs = Inr (probe_of a ev))
        (filter ok (cells (sa_planes a) (sa_spines a))) out"
proof -
  have "\<exists>a' out'. emit_evs evl (send_outcome ok) elapsed b out = (a', out @ out', Inr ())
      \<and> (\<forall>ev. sent_count a' ev = sent_count b ev + (if ev \<in> set evl \<and> ok ev then 1 else 0))
      \<and> list_all2 (\<lambda>ev tx. \<exists>bs. tx = probe_tx b ev bs \<and> decode_probe bs = Inr (probe_of b ev)) (filter ok evl) out'"
    if "sender_ok b" "probe_ids_ok b" "distinct evl"
      "\<forall>ev \<in> set evl. fst ev < sa_planes b \<and> snd ev < sa_spines b" for evl b out
    using that
  proof (induction evl arbitrary: b out)
    case (Cons ev evl)
    obtain p q where ev: "ev = (p, q)" by (cases ev)
    then have pq: "p < sa_planes b" "q < sa_spines b" using Cons.prems(4) by simp_all
    obtain b1 out1 where e: "emit_probe b (p, q) (send_outcome ok (p, q)) (elapsed (p, q)) = (b1, out1, Inr ())"
      "sender_ok b1" "probe_ids_ok b1" "sa_planes b1 = sa_planes b" "sa_spines b1 = sa_spines b"
      "\<forall>ev. probe_of b1 ev = probe_of b ev" "sa_dst_id b1 = sa_dst_id b"
      "\<forall>ev. sent_count b1 ev = sent_count b ev + (if ev = (p, q) \<and> ok ev then 1 else 0)"
      "if ok (p, q) then \<exists>bs. out1 = [probe_tx b (p, q) bs]
         \<and> (\<forall>tail. decode_probe (bs @ tail) = Inr (probe_of b (p, q))) else out1 = []"
      using emit_probe_effect [OF Cons.prems(1,2) pq, of ok "elapsed (p, q)"] by blast
    have tx: "probe_tx b1 = probe_tx b" using e(7) by (auto simp: probe_tx_def fun_eq_iff)
    obtain a' out' where r: "emit_evs evl (send_outcome ok) elapsed b1 (out @ out1) = (a', (out @ out1) @ out', Inr ())"
      "\<forall>ev. sent_count a' ev = sent_count b1 ev + (if ev \<in> set evl \<and> ok ev then 1 else 0)"
      "list_all2 (\<lambda>ev tx. \<exists>bs. tx = probe_tx b ev bs \<and> decode_probe bs = Inr (probe_of b ev)) (filter ok evl) out'"
      using Cons.IH [OF e(2,3), of "out @ out1"] Cons.prems(3,4) e(4-6) unfolding tx by auto
    have "list_all2 (\<lambda>ev tx. \<exists>bs. tx = probe_tx b ev bs \<and> decode_probe bs = Inr (probe_of b ev))
        (filter ok (ev # evl)) (out1 @ out')"
    proof (cases "ok (p, q)")
      case True
      then obtain bs where bs: "out1 = [probe_tx b (p, q) bs]"
        "\<forall>tail. decode_probe (bs @ tail) = Inr (probe_of b (p, q))" using e(9) by auto
      then have "decode_probe bs = Inr (probe_of b (p, q))" by (metis append_Nil2)
      with bs(1) show ?thesis using r(3) True ev by auto
    next
      case False
      then show ?thesis using e(9) r(3) ev by simp
    qed
    moreover have "sent_count a' x = sent_count b x + (if x \<in> set (ev # evl) \<and> ok x then 1 else 0)" for x
      using r(2) e(8) Cons.prems(3) ev by (cases x) auto
    ultimately show ?case using e(1) r(1) ev by simp
  qed simp
  note loop = this
  have "\<forall>ev \<in> set (cells (sa_planes a) (sa_spines a)). fst ev < sa_planes a \<and> snd ev < sa_spines a" by auto
  from loop [OF assms distinct_cells this, of "[]"] obtain a' out where
    r: "emit_evs (cells (sa_planes a) (sa_spines a)) (send_outcome ok) elapsed a [] = (a', [] @ out, Inr ())"
    "\<forall>ev. sent_count a' ev = sent_count a ev
       + (if ev \<in> set (cells (sa_planes a) (sa_spines a)) \<and> ok ev then 1 else 0)"
    "list_all2 (\<lambda>ev tx. \<exists>bs. tx = probe_tx a ev bs \<and> decode_probe bs = Inr (probe_of a ev))
       (filter ok (cells (sa_planes a) (sa_spines a))) out"
    by blast
  then show ?thesis unfolding emit_round_def by (intro exI [of _ a'] exI [of _ out]) simp
qed

subsection \<open>Sent windows\<close>

datatype sender_event = SentPacket int int | Rotate "int list list option result option" int

fun sender_do :: "sender_agent \<Rightarrow> sender_event \<Rightarrow> sender_agent" where
  "sender_do a (SentPacket plane path) = sa_record_sent a plane path"
| "sender_do a (Rotate source now_ns) = fst (rotate_window a source now_ns)"

definition sender_run :: "sender_agent \<Rightarrow> sender_event list \<Rightarrow> sender_agent" where
  "sender_run a es = foldl sender_do a es"

text \<open>The events since the last rotation, the packets sent on an EV, and a cell of a delta.\<close>

definition since_rotation :: "sender_event list \<Rightarrow> sender_event list" where
  "since_rotation es = takeWhile (\<lambda>e. \<not> (\<exists>s n. e = Rotate s n)) (rev es)"

definition packets_on :: "nat \<Rightarrow> nat \<Rightarrow> sender_event list \<Rightarrow> int" where
  "packets_on p q es = int (length (filter (\<lambda>e. e = SentPacket (int p) (int q)) (since_rotation es)))"

fun rotation_times :: "sender_event list \<Rightarrow> int list" where
  "rotation_times [] = []"
| "rotation_times (Rotate s n # es) = n # rotation_times es"
| "rotation_times (SentPacket p q # es) = rotation_times es"

definition delta_cell :: "int list list \<Rightarrow> nat \<Rightarrow> nat \<Rightarrow> int" where
  "delta_cell d p q = (if p < length d \<and> q < length (d ! p) then gget d p q else 0)"

lemma rotation_times_snoc:
  "rotation_times (es @ [e]) = rotation_times es @ (case e of Rotate s n \<Rightarrow> [n] | _ \<Rightarrow> [])"
  by (induction es rule: rotation_times.induct) (auto split: sender_event.splits)

lemma packets_on_snoc:
  "packets_on p q (es @ [SentPacket a b]) = packets_on p q es + (if a = int p \<and> b = int q then 1 else 0)"
  "packets_on p q (es @ [Rotate s n]) = 0"
  by (simp_all add: packets_on_def since_rotation_def)

lemma length_add_row [simp]: "length (add_row cur ns) = length cur"
  by (induction cur ns rule: add_row.induct) auto

lemma nth_add_row: "q < length cur \<Longrightarrow> add_row cur ns ! q = cur ! q + (if q < length ns then ns ! q else 0)"
proof (induction cur ns arbitrary: q rule: add_row.induct)
  case (3 c cur n ns)
  then show ?case by (cases q) auto
qed auto

lemma length_add_delta [simp]: "length (add_delta g d) = length g"
  by (induction g d rule: add_delta.induct) auto

lemma shaped_add_delta: "shaped P Q g \<Longrightarrow> shaped P Q (add_delta g d)"
proof -
  have "\<forall>row \<in> set g. length row = Q \<Longrightarrow> \<forall>row \<in> set (add_delta g d). length row = Q"
    by (induction g d rule: add_delta.induct) auto
  then show "shaped P Q g \<Longrightarrow> shaped P Q (add_delta g d)" by (simp add: shaped_def)
qed

lemma gget_add_delta:
  assumes "shaped P Q g" "p < P" "q < Q"
  shows "gget (add_delta g d) p q = gget g p q + delta_cell d p q"
proof -
  have "p < length g \<Longrightarrow> q < length (g ! p) \<Longrightarrow> gget (add_delta g d) p q = gget g p q + delta_cell d p q"
  proof (induction g d arbitrary: p rule: add_delta.induct)
    case (3 c cur row rows)
    then show ?case by (cases p) (auto simp: gget_def delta_cell_def nth_add_row)
  qed (auto simp: gget_def delta_cell_def)
  then show ?thesis using assms shaped_row [OF assms(1,2)] by (simp add: shaped_def)
qed

definition window_inv :: "sender_agent \<Rightarrow> sender_event list \<Rightarrow> sender_agent \<Rightarrow> bool" where
  "window_inv a0 es a \<longleftrightarrow>
     sa_planes a = sa_planes a0 \<and> sa_spines a = sa_spines a0
   \<and> sr_num_planes (sa_ring a) = sa_planes a0 \<and> sr_num_paths (sa_ring a) = sa_spines a0
   \<and> shaped (sa_planes a0) (sa_spines a0) (sa_window_sent a)
   \<and> (\<forall>p < sa_planes a0. \<forall>q < sa_spines a0. gget (sa_window_sent a) p q = packets_on p q es)
   \<and> sa_window_start_ns a = List.last (sa_window_start_ns a0 # rotation_times es)
   \<and> sa_window_id a = int (length (rotation_times es)) mod 0x10000"

definition fresh_sender :: "sender_agent \<Rightarrow> bool" where
  "fresh_sender a \<longleftrightarrow> sa_window_sent a = grid_const (sa_planes a) (sa_spines a) 0 \<and> sa_window_id a = 0
     \<and> sr_num_planes (sa_ring a) = sa_planes a \<and> sr_num_paths (sa_ring a) = sa_spines a"

lemma mk_sender_agent_fresh: "mk_sender_agent g tn src dst t c now = Inr a \<Longrightarrow> fresh_sender a"
  by (auto simp: mk_sender_agent_def mk_sent_ring_def py_simps fresh_sender_def split: if_splits)

text \<open>A rotation on a well-shaped agent never raises.\<close>

lemma rotate_window_push:
  assumes "window_inv a0 es a" and sent: "sent = add_delta (sa_window_sent a) (window_delta source)"
  shows "rotate_window a source now =
    (a\<lparr>sa_window_sent := grid_const (sa_planes a0) (sa_spines a0) 0, sa_window_start_ns := now,
       sa_window_id := (sa_window_id a + 1) mod 0x10000,
       sa_ring := (if list_ex (list_ex (\<lambda>n. n \<noteq> 0)) sent
         then (sa_ring a)\<lparr>sr_ring := dq_append (sr_ring (sa_ring a))
                \<lparr>sw_start_ns = sa_window_start_ns a, sw_end_ns = now, sw_sent = sent,
                 sw_window_id = sa_window_id a\<rparr>\<rparr>
         else sa_ring a)\<rparr>, Inr ())"
proof -
  have "shaped (sa_planes a0) (sa_spines a0) sent"
    using assms shaped_add_delta by (simp add: window_inv_def)
  then show ?thesis
    using assms(1) by (auto simp: rotate_window_def sent [symmetric] ring_push_def window_inv_def
        shaped_def Let_def raise_if_def)
qed

lemma mod_Suc_16: "(int n mod 0x10000 + 1) mod 0x10000 = int (Suc n) mod 0x10000"
  unfolding mod_add_left_eq by (simp only: of_nat_Suc add.commute)

lemma sender_run_inv:
  assumes "fresh_sender a0"
  shows "window_inv a0 es (sender_run a0 es)"
proof (induction es rule: rev_induct)
  case Nil
  then show ?case using assms
    by (simp add: sender_run_def window_inv_def fresh_sender_def packets_on_def since_rotation_def)
next
  case (snoc e es)
  let ?a = "sender_run a0 es"
  have step: "sender_run a0 (es @ [e]) = sender_do ?a e" by (simp add: sender_run_def)
  show ?case
  proof (cases e)
    case (SentPacket plane path)
    have sh: "shaped (sa_planes a0) (sa_spines a0) (sa_window_sent ?a)" using snoc by (simp add: window_inv_def)
    show ?thesis
    proof (cases "0 \<le> plane \<and> plane < int (sa_planes a0) \<and> 0 \<le> path \<and> path < int (sa_spines a0)")
      case True
      then obtain p q where pq: "plane = int p" "path = int q" "p < sa_planes a0" "q < sa_spines a0"
        by (metis nonneg_int_cases of_nat_less_iff)
      then show ?thesis using snoc sh SentPacket unfolding step
        by (simp add: window_inv_def sa_record_sent_def packets_on_snoc rotation_times_snoc gget_gset [OF sh])
    next
      case False
      then have "sender_do ?a e = ?a" using SentPacket snoc by (auto simp: sa_record_sent_def window_inv_def)
      moreover have "packets_on p q (es @ [e]) = packets_on p q es" if "p < sa_planes a0" "q < sa_spines a0" for p q
        using False that SentPacket by (auto simp: packets_on_snoc)
      ultimately show ?thesis using snoc SentPacket unfolding step by (simp add: window_inv_def rotation_times_snoc)
    qed
  next
    case (Rotate source now)
    show ?thesis using snoc unfolding step
      by (simp add: Rotate rotate_window_push [OF snoc refl] window_inv_def packets_on_snoc rotation_times_snoc mod_Suc_16)
  qed
qed

text \<open>
  C17. Every packet is in exactly one window. Closing a window, after any sequence of sends and
  rotations, never raises; the window holds, for each EV, the packets recorded on it since the
  previous rotation plus the delta of the out-of-process source, cut to the topology; it spans the
  time from the previous rotation to now and carries the number of rotations before it as its id,
  modulo 2^16. A window with no packet at all is the only one that is not kept.
\<close>

theorem sent_window_exact:
  assumes "fresh_sender a0"
  shows "\<exists>a' (w :: sent_window). rotate_window (sender_run a0 es) source now = (a', Inr ())
    \<and> (\<forall>p < sa_planes a0. \<forall>q < sa_spines a0.
         sw_sent w ! p ! q = packets_on p q es + delta_cell (window_delta source) p q)
    \<and> sw_start_ns w = List.last (sa_window_start_ns a0 # rotation_times es) \<and> sw_end_ns w = now
    \<and> sw_window_id w = int (length (rotation_times es)) mod 0x10000
    \<and> sa_ring a' =
        (if \<exists>row \<in> set (sw_sent w). \<exists>n \<in> set row. n \<noteq> 0
         then (sa_ring (sender_run a0 es))\<lparr>sr_ring := dq_append (sr_ring (sa_ring (sender_run a0 es))) w\<rparr>
         else sa_ring (sender_run a0 es))"
proof -
  let ?a = "sender_run a0 es"
  note inv = sender_run_inv [OF assms, of es]
  let ?w = "\<lparr>sw_start_ns = sa_window_start_ns ?a, sw_end_ns = now,
     sw_sent = add_delta (sa_window_sent ?a) (window_delta source), sw_window_id = sa_window_id ?a\<rparr>"
  have "sw_sent ?w ! p ! q = packets_on p q es + delta_cell (window_delta source) p q"
    if "p < sa_planes a0" "q < sa_spines a0" for p q
    using inv that gget_add_delta [of "sa_planes a0" "sa_spines a0" "sa_window_sent ?a" p q]
    by (simp add: window_inv_def gget_def)
  moreover have "sa_ring (fst (rotate_window ?a source now)) =
      (if \<exists>row \<in> set (sw_sent ?w). \<exists>n \<in> set row. n \<noteq> 0
       then (sa_ring ?a)\<lparr>sr_ring := dq_append (sr_ring (sa_ring ?a)) ?w\<rparr> else sa_ring ?a)"
    unfolding rotate_window_push [OF inv refl] by (simp add: list_ex_iff)
  moreover have "rotate_window ?a source now = (fst (rotate_window ?a source now), Inr ())"
    unfolding rotate_window_push [OF inv refl] by simp
  moreover have "sw_start_ns ?w = List.last (sa_window_start_ns a0 # rotation_times es)" "sw_end_ns ?w = now"
    "sw_window_id ?w = int (length (rotation_times es)) mod 0x10000"
    using inv by (simp_all add: window_inv_def)
  ultimately show ?thesis by blast
qed

subsection \<open>Witnesses\<close>

definition two_planes :: topo where
  "two_planes = \<lparr>NUM_PLANES = 2, NUM_SPINES = 1, NUM_LEAVES = 2, CLAB_TOPOLOGY_NAME = ''lab'',
     TENANTS = [''green'']\<rparr>"

definition demo_sender :: sender_agent where
  "demo_sender = (case mk_sender_agent two_planes ''green'' 0 1 demo_table default_agent_config 100 of
     Inr a \<Rightarrow> a | Inl e \<Rightarrow> undefined)"

lemma demo_sender_new: "mk_sender_agent two_planes ''green'' 0 1 demo_table default_agent_config 100 = Inr demo_sender"
proof -
  have "tenants demo_table = [''green'']" "num_planes demo_table = 2" by code_simp+
  moreover have "tenant_id two_planes ''green'' = Inr 1" by code_simp
  ultimately show ?thesis
    by (simp add: demo_sender_def mk_sender_agent_def mk_sent_ring_def two_planes_def)
qed

lemma demo_sender_fields:
  "sa_planes demo_sender = 2" "sa_spines demo_sender = 1" "sa_table demo_sender = demo_table"
  "sa_tenant demo_sender = ''green''" "sa_tenant_id demo_sender = 1" "sa_src_id demo_sender = 0"
  "sa_dst_id demo_sender = 1" "sa_window_start_ns demo_sender = 100"
proof -
  have "tenants demo_table = [''green'']" "num_planes demo_table = 2" by code_simp+
  moreover have "tenant_id two_planes ''green'' = Inr 1" by code_simp
  ultimately show "sa_planes demo_sender = 2" "sa_spines demo_sender = 1" "sa_table demo_sender = demo_table"
    "sa_tenant demo_sender = ''green''" "sa_tenant_id demo_sender = 1" "sa_src_id demo_sender = 0"
    "sa_dst_id demo_sender = 1" "sa_window_start_ns demo_sender = 100"
    by (simp_all add: demo_sender_def mk_sender_agent_def mk_sent_ring_def two_planes_def)
qed

theorem probe_round_accounts_witness:
  "\<exists>a' out. emit_round demo_sender (send_outcome (\<lambda>ev. ev = (1, 0))) (\<lambda>_. 5) = (a', out, Inr ())
    \<and> sent_count a' (1, 0) = sent_count demo_sender (1, 0) + 1
    \<and> sent_count a' (0, 0) = sent_count demo_sender (0, 0) \<and> length out = 1"
proof -
  have "ev_shape demo_table" using ev_reachable_wf [OF demo_table_reachable] by (simp add: ev_wf_def)
  moreover have "tenants demo_table = [''green'']" "num_planes demo_table = 2" "num_paths demo_table = 1"
    by code_simp+
  ultimately have "sender_ok demo_sender" by (simp add: sender_ok_def demo_sender_fields)
  moreover have "probe_ids_ok demo_sender" by (simp add: probe_ids_ok_def demo_sender_fields)
  ultimately obtain a' out where r:
    "emit_round demo_sender (send_outcome (\<lambda>ev. ev = (1, 0))) (\<lambda>_. 5) = (a', out, Inr ())"
    "\<forall>p < 2. \<forall>q < 1. sent_count a' (p, q) = sent_count demo_sender (p, q) + (if (p, q) = (1, 0) then 1 else 0)"
    "list_all2 (\<lambda>ev tx. \<exists>bs. tx = probe_tx demo_sender ev bs \<and> decode_probe bs = Inr (probe_of demo_sender ev))
       (filter (\<lambda>ev. ev = (1, 0)) (cells 2 1)) out"
    using probe_round_accounts [of demo_sender "\<lambda>ev. ev = (1, 0)" "\<lambda>_. 5"] unfolding demo_sender_fields by blast
  have "length (filter (\<lambda>ev. ev = (1, 0)) (cells 2 1)) = 1" by code_simp
  then have "length out = 1" using r(3) list_all2_lengthD by fastforce
  then show ?thesis using r(1,2) by auto
qed

theorem sent_window_exact_witness:
  "\<exists>a' (w :: sent_window). rotate_window (sender_run demo_sender [SentPacket 1 0, SentPacket 1 0]) (Some (Inr (Some [[3]]))) 400
      = (a', Inr ()) \<and> sw_sent w ! 1 ! 0 = 2 \<and> sw_sent w ! 0 ! 0 = 3 \<and> sw_start_ns w = 100
      \<and> sw_end_ns w = 400 \<and> sw_window_id w = 0"
proof -
  let ?es = "[SentPacket 1 0, SentPacket 1 0]"
  have e: "packets_on 1 0 ?es = 2" "packets_on 0 0 ?es = 0" "rotation_times ?es = []"
    by (simp_all add: packets_on_def since_rotation_def)
  have d: "delta_cell (window_delta (Some (Inr (Some [[3]])))) 1 0 = 0"
    "delta_cell (window_delta (Some (Inr (Some [[3]])))) 0 0 = 3"
    by (simp_all add: window_delta_def delta_cell_def gget_def)
  from sent_window_exact [OF mk_sender_agent_fresh [OF demo_sender_new], of ?es "Some (Inr (Some [[3]]))" 400]
  obtain a' and w :: sent_window where r: "rotate_window (sender_run demo_sender ?es) (Some (Inr (Some [[3]]))) 400 = (a', Inr ())"
    "\<forall>p < 2. \<forall>q < 1. sw_sent w ! p ! q = packets_on p q ?es + delta_cell (window_delta (Some (Inr (Some [[3]])))) p q"
    "sw_start_ns w = List.last (100 # rotation_times ?es)" "sw_end_ns w = 400"
    "sw_window_id w = int (length (rotation_times ?es)) mod 0x10000"
    unfolding demo_sender_fields by blast
  have "sw_sent w ! 1 ! 0 = 2" "sw_sent w ! 0 ! 0 = 3"
    using r(2) [rule_format, of 1 0] r(2) [rule_format, of 0 0] unfolding e d by simp_all
  moreover have "sw_start_ns w = 100" "sw_window_id w = 0" using r(3,5) unfolding e by simp_all
  ultimately show ?thesis using r(1,4) by blast
qed

end
