(* ===== verification/AgentReports.thy ===== *)
theory AgentReports
  imports AgentProperties
begin

text \<open>
  The way of a loss report: what the receiver's agent sends in a round, as a function of the
  packets it was given, and what the sender's agent makes of it. \<open>ra_run\<close> is any history of the
  receiver; the loss windows inside it follow the log \<open>ra_log\<close>, so their properties carry over.
\<close>

subsection \<open>Histories of the receiver\<close>

datatype ra_event =
    GotData flow_tuple int int int
  | GotTrimmed flow_tuple int int int "unit result"
  | ReportRound "flow_tuple \<Rightarrow> unit result"

fun ra_do :: "receiver_agent \<Rightarrow> ra_event \<Rightarrow> receiver_agent" where
  "ra_do a (GotData k plane path sq) = (case record_data a k plane path sq of Inr a' \<Rightarrow> a' | Inl e \<Rightarrow> a)"
| "ra_do a (GotTrimmed k plane path sq outcome) = fst (ra_record_trimmed a k plane path sq outcome)"
| "ra_do a (ReportRound outcome) = fst (emit_one_round a outcome)"

definition ra_run :: "receiver_agent \<Rightarrow> ra_event list \<Rightarrow> receiver_agent" where
  "ra_run a es = foldl ra_do a es"

text \<open>The calls an event makes on the loss windows.\<close>

fun lw_calls :: "receiver_agent \<Rightarrow> ra_event \<Rightarrow> flow_tuple lw_event list" where
  "lw_calls a (GotData k plane path sq) = [Arrive k plane path sq]"
| "lw_calls a (GotTrimmed k plane path sq outcome) = [Trim k plane path]"
| "lw_calls a (ReportRound outcome) = map Close (known_flows (ra_loss a))"

fun ra_log :: "receiver_agent \<Rightarrow> ra_event list \<Rightarrow> flow_tuple lw_event list" where
  "ra_log a [] = []"
| "ra_log a (e # es) = lw_calls a e @ ra_log (ra_do a e) es"

text \<open>The transport sends, or raises the one error the agent expects of it.\<close>

fun calm :: "ra_event \<Rightarrow> bool" where
  "calm (ReportRound outcome) \<longleftrightarrow> (\<forall>k. outcome k = Inr () \<or> outcome k = Inl OSError)"
| "calm e \<longleftrightarrow> True"

text \<open>The EV of the last packet the agent accepted from a sender.\<close>

fun heard :: "nat \<Rightarrow> nat \<Rightarrow> int \<times> int \<Rightarrow> ra_event \<Rightarrow> (int \<times> int) option" where
  "heard P Q s (GotData (tid # src # rest) plane path sq) =
     (if (tid, src) = s \<and> 0 \<le> plane \<and> plane < int P \<and> 0 \<le> path \<and> path < int Q \<and> 0 \<le> sq \<and> sq \<le> 0xFFFFFFFF
      then Some (plane, path) else None)"
| "heard P Q s e = None"

definition last_heard :: "nat \<Rightarrow> nat \<Rightarrow> int \<times> int \<Rightarrow> ra_event list \<Rightarrow> (int \<times> int) option" where
  "last_heard P Q s es =
     foldl (\<lambda>acc e. case heard P Q s e of None \<Rightarrow> acc | Some ev \<Rightarrow> Some ev) None es"

lemma ra_run_snoc: "ra_run a (es @ [e]) = ra_do (ra_run a es) e"
  by (simp add: ra_run_def)

lemma ra_log_snoc: "ra_log a (es @ [e]) = ra_log a es @ lw_calls (ra_run a es) e"
  by (induction es arbitrary: a) (simp_all add: ra_run_def)

lemma last_heard_snoc:
  "last_heard P Q s (es @ [e]) = (case heard P Q s e of None \<Rightarrow> last_heard P Q s es | Some ev \<Rightarrow> Some ev)"
  by (simp add: last_heard_def split: option.split)

subsection \<open>The agent's loss windows follow the log\<close>

text \<open>One report: the windows advance by one close, nothing else of the agent changes.\<close>

lemma emit_report_state:
  "fst (emit_report a k outcome) = a\<lparr>ra_loss := lw_do (ra_loss a) (Close k)\<rparr>"
  by (auto simp: emit_report_def Let_def split: prod.splits sum.splits list.splits option.splits)

text \<open>
  What is sent for a flow whose windows have the log \<open>es\<close>; \<open>s\<close> is the cache entry of its sender.
\<close>

definition report_tx ::
  "nat \<Rightarrow> nat \<Rightarrow> flow_tuple lw_event list \<Rightarrow> ((int \<times> int) \<Rightarrow> sender_addr option) \<Rightarrow> (flow_tuple \<Rightarrow> unit result) \<Rightarrow>
   flow_tuple \<Rightarrow> transmission list" where
  "report_tx P Q es senders outcome k =
     (if rp_planes (window_report P Q k es) = [] \<or> outcome k \<noteq> Inr () then []
      else case k of
        tid # src # _ \<Rightarrow>
          (case senders (tid, src) of
             None \<Rightarrow> []
           | Some s \<Rightarrow>
               (case enc_loss_report (window_report P Q k es) of
                  Inl e \<Rightarrow> [] | Inr bs \<Rightarrow> [(ad_last_plane s, ad_last_path s, ad_src_id s, bs)]))
      | _ \<Rightarrow> [])"

lemma window_report_encodes:
  assumes "P \<le> 0x100" "Q \<le> 0x100" "P * Q \<le> 0xFFFF"
  obtains bs where "enc_loss_report (window_report P Q k es) = Inr bs"
    "\<And>tail. decode_loss_report (bs @ tail) = Inr (wire_report (window_report P Q k es))"
proof -
  have "loss_report_ok (window_report P Q k es)" using loss_window_report_ok [OF assms] .
  from encode_loss_report_ok [OF this] show thesis using that by (auto simp: enc_loss_report_def)
qed

lemma emit_report_effect:
  assumes "lw_models P Q es (ra_loss a)" "P \<le> 0x100" "Q \<le> 0x100" "P * Q \<le> 0xFFFF"
    and "outcome k = Inr () \<or> outcome k = Inl OSError"
  shows "emit_report a k (outcome k) =
    (a\<lparr>ra_loss := lw_do (ra_loss a) (Close k)\<rparr>, report_tx P Q es (dict_get (ra_senders a)) outcome k, Inr ())"
proof -
  let ?r = "window_report P Q k es"
  obtain bs where bs: "enc_loss_report ?r = Inr bs" by (rule window_report_encodes [OF assms(2-4)])
  have snap: "snapshot_and_reset (ra_loss a) k = (lw_do (ra_loss a) (Close k), Inr ?r)"
    by (simp add: snapshot_report [OF assms(1-3)])
  have tx: "report_tx P Q es (dict_get (ra_senders a)) outcome k =
      (if rp_planes ?r = [] \<or> outcome k \<noteq> Inr () then [] else case k of
        tid # src # _ \<Rightarrow> (case dict_get (ra_senders a) (tid, src) of
             None \<Rightarrow> [] | Some s \<Rightarrow> [(ad_last_plane s, ad_last_path s, ad_src_id s, bs)])
      | _ \<Rightarrow> [])"
    unfolding report_tx_def bs sum.case by (rule refl)
  have enc: "encode_loss_report (rp_window_id ?r) (rp_planes ?r) = Inr bs" using bs by (simp add: enc_loss_report_def)
  show ?thesis
    unfolding emit_report_def snap tx using assms(5) enc
    by (cases k rule: remdups_adj.cases) (auto simp: Let_def split: option.splits)
qed

lemma report_other_flow:
  assumes "j \<noteq> k"
  shows "window_report P Q j (es @ [Close k]) = window_report P Q j es"
  using assms by (simp add: window_report_def history_snoc)

lemma emit_reports_effect:
  assumes "lw_models P Q es (ra_loss a)" "P \<le> 0x100" "Q \<le> 0x100" "P * Q \<le> 0xFFFF"
    and "\<And>k. outcome k = Inr () \<or> outcome k = Inl OSError" "distinct ks"
  shows "emit_reports ks outcome a out =
    (a\<lparr>ra_loss := foldl lw_do (ra_loss a) (map Close ks)\<rparr>,
     out @ concat (map (report_tx P Q es (dict_get (ra_senders a)) outcome) ks), Inr ())"
  using assms(1,6)
proof (induction ks arbitrary: a es out)
  case (Cons k ks)
  let ?a = "a\<lparr>ra_loss := lw_do (ra_loss a) (Close k)\<rparr>"
  have m: "lw_models P Q (es @ [Close k]) (ra_loss ?a)"
    using lw_models_close [OF Cons.prems(1) assms(2,3), of k] by simp
  have "report_tx P Q (es @ [Close k]) s outcome j = report_tx P Q es s outcome j" if "j \<in> set ks" for j s
  proof -
    have "j \<noteq> k" using Cons.prems(2) that by auto
    then show ?thesis unfolding report_tx_def by (simp only: report_other_flow [OF \<open>j \<noteq> k\<close>])
  qed
  then have "map (report_tx P Q (es @ [Close k]) s outcome) ks = map (report_tx P Q es s outcome) ks" for s
    by simp
  then show ?case
    using emit_report_effect [OF Cons.prems(1) assms(2-4), of outcome k] assms(5)
      Cons.IH [OF m, of "out @ report_tx P Q es (dict_get (ra_senders a)) outcome k"] Cons.prems(2)
    by (simp del: map_eq_conv)
qed simp

text \<open>The receiver after any history, against the log and the packets it accepted.\<close>

definition ra_tracks :: "nat \<Rightarrow> nat \<Rightarrow> receiver_agent \<Rightarrow> ra_event list \<Rightarrow> bool" where
  "ra_tracks P Q a0 es \<longleftrightarrow>
     ra_loss (ra_run a0 es) = lw_run P Q (ra_log a0 es)
     \<and> (\<forall>tid src. dict_get (ra_senders (ra_run a0 es)) (tid, src) =
          map_option (\<lambda>(plane, path). \<lparr>ad_src_id = src, ad_last_plane = plane, ad_last_path = path\<rparr>)
            (last_heard P Q (tid, src) es))"

lemma known_flows_distinct: "lw_models P Q es t \<Longrightarrow> distinct (known_flows t)"
  by (simp add: lw_models_def known_flows_def dict_ok_def)

lemma lw_run_append: "lw_run P Q (es @ fs) = foldl lw_do (lw_run P Q es) fs"
  by (simp add: lw_run_def)

lemma lw_record_Inr_iff:
  "lw_planes t = P \<Longrightarrow> lw_paths t = Q \<Longrightarrow> (\<exists>t'. lw_record t k plane path sq = Inr t') \<longleftrightarrow>
     0 \<le> plane \<and> plane < int P \<and> 0 \<le> path \<and> path < int Q \<and> 0 \<le> sq \<and> sq \<le> 0xFFFFFFFF"
  by (auto simp: lw_record_def lw_check_ev_def raise_if_def)

lemma ra_tracks_data:
  assumes "ra_tracks P Q a0 es" "P \<le> 0x100" "Q \<le> 0x100"
  shows "ra_tracks P Q a0 (es @ [GotData k plane path sq])"
proof -
  let ?a = "ra_run a0 es" and ?e = "GotData k plane path sq"
  have dims: "lw_planes (ra_loss ?a) = P" "lw_paths (ra_loss ?a) = Q"
    using assms(1) lw_run_models [OF assms(2,3), of "ra_log a0 es"] by (simp_all add: ra_tracks_def lw_models_def)
  note acc = lw_record_Inr_iff [OF dims, of k plane path sq]
  show ?thesis
  proof (cases "lw_record (ra_loss ?a) k plane path sq")
    case (Inl e)
    then have "heard P Q s ?e = None" for s using acc by (cases k rule: remdups_adj.cases) auto
    then show ?thesis
      using assms(1) Inl by (simp add: ra_tracks_def ra_run_snoc ra_log_snoc last_heard_snoc lw_run_append record_data_def)
  next
    case (Inr t)
    show ?thesis
    proof (cases k rule: remdups_adj.cases)
      case (3 tid src rest)
      have "heard P Q s ?e = (if (tid, src) = s then Some (plane, path) else None)" for s
        using acc Inr 3 by auto
      then show ?thesis
        using assms(1) Inr 3
        by (auto simp del: heard.simps simp: ra_tracks_def ra_run_snoc ra_log_snoc last_heard_snoc lw_run_append record_data_def Let_def)
    qed (use assms(1) Inr in \<open>auto simp: ra_tracks_def ra_run_snoc ra_log_snoc last_heard_snoc
            lw_run_append record_data_def Let_def\<close>)
  qed
qed

lemma ra_record_trimmed_keeps:
  "ra_loss (fst (ra_record_trimmed a k plane path sq outcome)) = lw_do (ra_loss a) (Trim k plane path)"
  "ra_senders (fst (ra_record_trimmed a k plane path sq outcome)) = ra_senders a"
  by (auto simp: ra_record_trimmed_def Let_def split: sum.splits list.splits option.splits prod.splits)

lemma ra_run_tracks:
  assumes "mk_receiver_agent g me = Inr a0" "P = nat (NUM_PLANES g)" "Q = nat (NUM_SPINES g)"
    and "P \<le> 0x100" "Q \<le> 0x100" "P * Q \<le> 0xFFFF" "\<forall>e \<in> set es. calm e"
  shows "ra_tracks P Q a0 es"
  using assms(7)
proof (induction es rule: rev_induct)
  case Nil
  have "ra_loss a0 = lw_new P Q" "ra_senders a0 = []"
    using assms(1-3) by (auto simp: mk_receiver_agent_def mk_loss_window_table_def lw_new_def raise_if_def split: if_splits)
  then show ?case by (simp add: ra_tracks_def ra_run_def lw_run_def last_heard_def)
next
  case (snoc e es)
  then have IH: "ra_tracks P Q a0 es" by simp
  have m: "lw_models P Q (ra_log a0 es) (ra_loss (ra_run a0 es))"
    using IH lw_run_models [OF assms(4,5), of "ra_log a0 es"] by (simp add: ra_tracks_def)
  show ?case
  proof (cases e)
    case (GotData k plane path sq)
    then show ?thesis using ra_tracks_data [OF IH assms(4,5)] by simp
  next
    case (GotTrimmed k plane path sq outcome)
    then show ?thesis
      using IH by (simp add: ra_tracks_def ra_run_snoc ra_log_snoc last_heard_snoc lw_run_append ra_record_trimmed_keeps)
  next
    case (ReportRound outcome)
    then have "\<And>k. outcome k = Inr () \<or> outcome k = Inl OSError" using snoc.prems by simp
    from emit_reports_effect [OF m assms(4-6) this known_flows_distinct [OF m], where out = "[]"]
    show ?thesis
      using IH ReportRound
      by (simp add: ra_tracks_def ra_run_snoc ra_log_snoc last_heard_snoc lw_run_append emit_one_round_def)
  qed
qed

subsection \<open>What a round sends\<close>

text \<open>
  The report due to a flow's sender: the flow had traffic since its last report, a packet of that
  sender was accepted at some time, and the transport takes the datagram. It is addressed on the EV
  of that sender's last accepted packet.
\<close>

definition due_report ::
  "nat \<Rightarrow> nat \<Rightarrow> receiver_agent \<Rightarrow> ra_event list \<Rightarrow> (flow_tuple \<Rightarrow> unit result) \<Rightarrow> flow_tuple \<Rightarrow>
   (int \<times> int \<times> int \<times> loss_report result) option" where
  "due_report P Q a0 es outcome k =
     (case k of
        tid # src # _ \<Rightarrow>
          if rp_planes (window_report P Q k (ra_log a0 es)) \<noteq> [] \<and> outcome k = Inr ()
          then map_option (\<lambda>(plane, path). (plane, path, src,
                 Inr (wire_report (window_report P Q k (ra_log a0 es))))) (last_heard P Q (tid, src) es)
          else None
      | _ \<Rightarrow> None)"

definition on_the_wire :: "transmission \<Rightarrow> int \<times> int \<times> int \<times> loss_report result" where
  "on_the_wire tx = (case tx of (plane, path, leaf, payload) \<Rightarrow> (plane, path, leaf, decode_loss_report payload))"

lemma report_tx_due:
  assumes "ra_tracks P Q a0 es" "P \<le> 0x100" "Q \<le> 0x100" "P * Q \<le> 0xFFFF"
  shows "map on_the_wire (report_tx P Q (ra_log a0 es) (dict_get (ra_senders (ra_run a0 es))) outcome k) =
    (case due_report P Q a0 es outcome k of None \<Rightarrow> [] | Some d \<Rightarrow> [d])"
proof -
  obtain bs where bs: "enc_loss_report (window_report P Q k (ra_log a0 es)) = Inr bs"
    "\<And>tail. decode_loss_report (bs @ tail) = Inr (wire_report (window_report P Q k (ra_log a0 es)))"
    using window_report_encodes [OF assms(2-4), of k "ra_log a0 es"] by blast
  have "decode_loss_report bs = Inr (wire_report (window_report P Q k (ra_log a0 es)))" using bs(2) [of "[]"] by simp
  then show ?thesis
    using assms(1) bs(1)
    by (cases k rule: remdups_adj.cases)
      (auto simp: report_tx_def due_report_def ra_tracks_def on_the_wire_def split: option.splits)
qed

lemma concat_options: "concat (map (\<lambda>k. case f k of None \<Rightarrow> [] | Some d \<Rightarrow> [d]) ks) = List.map_filter f ks"
  by (induction ks) (auto simp: map_filter_simps split: option.splits)

text \<open>
  C15. What a receiver reports is a function of what it received: after any packets, trims and
  rounds, a round never raises, sends exactly the due reports, one per flow in the order the flows
  were first seen, each decoding to the summary of the flow's arrivals since its previous report,
  and leaves the windows as if each flow had just been closed.
\<close>

theorem report_round_exact:
  assumes "mk_receiver_agent g me = Inr a0" and "P = nat (NUM_PLANES g)" and "Q = nat (NUM_SPINES g)"
    and "P \<le> 0x100" and "Q \<le> 0x100" and "P * Q \<le> 0xFFFF"
    and "\<forall>e \<in> set es. calm e" and "calm (ReportRound outcome)"
  shows "\<exists>a' out. emit_one_round (ra_run a0 es) outcome = (a', out, Inr ())
    \<and> map on_the_wire out = List.map_filter (due_report P Q a0 es outcome) (known_flows (ra_loss (ra_run a0 es)))
    \<and> ra_loss a' = lw_run P Q (ra_log a0 es @ map Close (known_flows (ra_loss (ra_run a0 es))))"
proof -
  note tr = ra_run_tracks [OF assms(1-7)]
  then have m: "lw_models P Q (ra_log a0 es) (ra_loss (ra_run a0 es))"
    using lw_run_models [OF assms(4,5), of "ra_log a0 es"] by (simp add: ra_tracks_def)
  have "\<And>k. outcome k = Inr () \<or> outcome k = Inl OSError" using assms(8) by simp
  from emit_reports_effect [OF m assms(4-6) this known_flows_distinct [OF m], where out = "[]"]
  have "emit_one_round (ra_run a0 es) outcome = ((ra_run a0 es)\<lparr>ra_loss := foldl lw_do (ra_loss (ra_run a0 es))
        (map Close (known_flows (ra_loss (ra_run a0 es))))\<rparr>,
      concat (map (report_tx P Q (ra_log a0 es) (dict_get (ra_senders (ra_run a0 es))) outcome)
        (known_flows (ra_loss (ra_run a0 es)))), Inr ())"
    by (simp add: emit_one_round_def)
  then show ?thesis
    using tr report_tx_due [OF tr assms(4-6)]
    by (simp add: map_concat o_def concat_options lw_run_append ra_tracks_def)
qed

subsection \<open>A concrete receiver\<close>

definition demo_receiver :: receiver_agent where
  "demo_receiver = \<lparr>ra_my_id = 1, ra_loss = lw_new 2 1, ra_senders = [], trimmed_seen = 0, nacks_sent = 0,
     nack_send_errors = 0\<rparr>"

lemma demo_receiver_new: "mk_receiver_agent two_planes 1 = Inr demo_receiver"
  by (simp add: mk_receiver_agent_def mk_loss_window_table_def two_planes_def demo_receiver_def lw_new_def)

text \<open>Eight packets of flow (1, 0, 1) arrive on plane 0, none on plane 1.\<close>

definition demo_arrivals :: "ra_event list" where
  "demo_arrivals = map (\<lambda>i. GotData [1, 0, 1] 0 0 i) [0, 1, 2, 3, 4, 5, 6, 7]"

lemma demo_receiver_log:
  "ra_log demo_receiver demo_arrivals = map (Arrive [1, 0, 1] 0 0) [0, 1, 2, 3, 4, 5, 6, 7]"
  by (simp add: demo_arrivals_def)

lemma demo_receiver_flows: "known_flows (ra_loss (ra_run demo_receiver demo_arrivals)) = [[1, 0, 1]]"
  by code_simp

lemma demo_last_heard: "last_heard 2 1 (1, 0) demo_arrivals = Some (0, 0)"
  by code_simp

definition demo_window_report :: loss_report where
  "demo_window_report = \<lparr>rp_window_id = 0, rp_planes =
     [\<lparr>lr_plane_id = 0, lr_path_id = 0, lr_seen = 8, lr_expected = 8, lr_max_gap = 1, lr_trimmed = 0\<rparr>]\<rparr>"

lemma demo_receiver_report:
  "window_report 2 1 [1, 0, 1] (ra_log demo_receiver demo_arrivals) = demo_window_report"
  by code_simp

theorem report_round_exact_witness:
  "\<exists>a' payload. emit_one_round (ra_run demo_receiver demo_arrivals) (\<lambda>_. Inr ()) = (a', [(0, 0, 0, payload)], Inr ())
     \<and> decode_loss_report payload = Inr (wire_report demo_window_report)"
proof -
  have c: "\<forall>e \<in> set demo_arrivals. calm e" "calm (ReportRound (\<lambda>_. Inr ()))" by (simp_all add: demo_arrivals_def)
  have d: "2 = nat (NUM_PLANES two_planes)" "1 = nat (NUM_SPINES two_planes)" by (simp_all add: two_planes_def)
  have b: "(2 :: nat) \<le> 0x100" "(1 :: nat) \<le> 0x100" "(2 :: nat) * 1 \<le> 0xFFFF" by simp_all
  obtain a' out where r: "emit_one_round (ra_run demo_receiver demo_arrivals) (\<lambda>_. Inr ()) = (a', out, Inr ())"
    "map on_the_wire out = List.map_filter (due_report 2 1 demo_receiver demo_arrivals (\<lambda>_. Inr ())) [[1, 0, 1]]"
    using report_round_exact [OF demo_receiver_new d b c] unfolding demo_receiver_flows by blast
  have "map on_the_wire out = [(0, 0, 0, Inr (wire_report demo_window_report))]"
  proof -
    have "rp_planes demo_window_report \<noteq> []" by (simp add: demo_window_report_def)
    then show ?thesis
      unfolding r(2) List.map_filter_def
      by (simp add: due_report_def demo_receiver_report demo_last_heard del: One_nat_def)
  qed
  then obtain tx where "out = [tx]" "on_the_wire tx = (0, 0, 0, Inr (wire_report demo_window_report))" by auto
  moreover obtain p q leaf payload where "tx = (p, q, leaf, payload)" by (cases tx)
  ultimately show ?thesis using r(1) by (auto simp: on_the_wire_def)
qed

end
