(* ===== verification/LossPath.thy ===== *)
theory LossPath
  imports AgentReports
begin

text \<open>
  The loss path from end to end: a packet the network swallows is missing from the receiver's
  windows, hence from its report, hence charged by the sender's agent to the EV it was sent on.
\<close>

subsection \<open>A report in range is applied completely\<close>

lemma record_loss_window_ok:
  assumes "ev_shape t" "valid_ev t tn p q" "0 \<le> s" "0 \<le> e"
  shows "\<exists>t'. record_loss_window t tn (int p) (int q) s e = Inr t'"
  using assms by (auto simp: record_loss_window_def known_tenant_check valid_ev_check valid_ev_tenant raise_if_def Let_def)

definition feeds :: "ev_table \<Rightarrow> string \<Rightarrow> plane_loss_record \<Rightarrow> bool" where
  "feeds t tn r \<longleftrightarrow> 0 \<le> lr_plane_id r \<and> 0 \<le> lr_path_id r \<and> valid_ev t tn (nat (lr_plane_id r)) (nat (lr_path_id r))
     \<and> 0 \<le> lr_seen r + lr_trimmed r"

lemma sink_valid: "sink_inv t0 t \<Longrightarrow> ev_shape t \<and> valid_ev t = valid_ev t0"
  using ev_reachable_wf same_config_valid by (auto simp: sink_inv_def)

lemma feed_records_complete:
  assumes "sink_inv t0 t" "\<forall>r \<in> set rs. feeds t0 tn r"
  shows "snd (snd (feed_records record_loss_window tn paired rs t st)) = None"
  using assms
proof (induction rs arbitrary: t st)
  case (Cons r rs)
  have "valid_ev t tn (nat (lr_plane_id r)) (nat (lr_path_id r))" "0 \<le> lr_plane_id r" "0 \<le> lr_path_id r"
    "0 \<le> lr_seen r + lr_trimmed r" "ev_shape t"
    using Cons.prems sink_valid [OF Cons.prems(1)] by (auto simp: feeds_def)
  moreover have "0 \<le> sent_denominator paired r"
    by (auto simp: sent_denominator_def Let_def split: option.split)
  ultimately obtain t' where t': "record_loss_window t tn (lr_plane_id r) (lr_path_id r) (lr_seen r + lr_trimmed r)
      (sent_denominator paired r) = Inr t'"
    using record_loss_window_ok [of t tn "nat (lr_plane_id r)" "nat (lr_path_id r)"] by (metis int_nat_eq)
  then have "sink_inv t0 t'" by (rule record_loss_window_sink_inv [OF Cons.prems(1)])
  then show ?case using Cons t' by (simp add: Let_def)
qed simp

lemma feed_absent_complete:
  assumes "sink_inv t0 t" "\<forall>(p, q, s) \<in> set cs. valid_ev t0 tn p q \<and> 0 \<le> s"
  shows "snd (snd (feed_absent record_loss_window ev_state_of tn ms rep cs t st)) = None"
  using assms
proof (induction cs arbitrary: t st)
  case (Cons c cs)
  obtain p q s where c: "c = (p, q, s)" by (cases c)
  have v: "valid_ev t tn p q" "ev_shape t" "0 \<le> s" using Cons.prems c sink_valid [OF Cons.prems(1)] by auto
  obtain t' where t': "record_loss_window t tn (int p) (int q) 0 s = Inr t'"
    using record_loss_window_ok [OF v(2,1) _ v(3), of 0] by auto
  then have "sink_inv t0 t'" by (rule record_loss_window_sink_inv [OF Cons.prems(1)])
  then show ?case using Cons t' c v by (simp add: ev_state_of_valid)
qed simp

definition window_fits :: "ev_table \<Rightarrow> string \<Rightarrow> sent_window \<Rightarrow> bool" where
  "window_fits t tn w \<longleftrightarrow> (\<forall>(p, q, s) \<in> set (sent_cells w). valid_ev t tn p q \<and> 0 \<le> s)"

lemma apply_loss_report_complete:
  assumes "ev_reachable t" "0 \<le> loss_threshold (cfg t)"
    and "\<forall>r \<in> set (rp_planes rep). feeds t tn r"
    and "\<And>w. find_closest ring now sk = Some w \<Longrightarrow> window_fits t tn w"
  shows "\<exists>t' st'. apply_loss_report t tn rep ring now sk st ms = (t', st', None)"
proof -
  have inv: "sink_inv t t" using assms(1,2) by (simp add: sink_inv_def)
  note rec = feed_records_complete [OF inv assms(3)]
  have "snd (snd (feed_absent record_loss_window ev_state_of tn ms x (sent_cells w)
      (fst (feed_records record_loss_window tn p (rp_planes rep) t st1)) st2)) = None"
    if "find_closest ring now sk = Some w" for w x p st1 st2
    using assms(4) [OF that] by (intro feed_absent_complete [OF ev_sink.records_inv [OF inv]]) (simp add: window_fits_def)
  then have "snd (snd (apply_loss_report t tn rep ring now sk st ms)) = None"
    using rec unfolding apply_loss_report_def fuse_report_def Let_def
    by (auto split: prod.splits option.splits) (metis fst_conv snd_conv option.distinct(1))+
  then show ?thesis by (metis prod.collapse)
qed

subsection \<open>The report of a window\<close>

lemma rnd_half_le:
  assumes "n \<le> 2 * m" "\<bar>n\<bar> \<le> 2 ^ 53"
  shows "fmul MIN_COVERAGE_FOR_ABSENT_LOSS (float_of_int n) \<le> of_int m"
proof -
  have "is_double (1 / 2)"
    unfolding is_double_def by (rule exI [of _ 1], rule exI [of _ "-1"]) (simp add: pow2_minus pow2_nat [of 1, simplified])
  then have half: "MIN_COVERAGE_FOR_ABSENT_LOSS = 1 / 2" by (simp add: MIN_COVERAGE_FOR_ABSENT_LOSS_def rnd_double)
  have "float_of_int n = of_int n" using assms(2) by (simp add: float_of_int_def)
  then have f: "fmul MIN_COVERAGE_FOR_ABSENT_LOSS (float_of_int n) = rnd (of_int n / 2)"
    unfolding fmul_def half by simp
  let ?k = "min m (2 ^ 53)"
  have "n \<le> 2 * ?k" using assms unfolding min_def by (simp; linarith)
  then have "(of_int n :: rat) \<le> of_int (2 * ?k)" by (simp only: of_int_le_iff)
  then have "(of_int n :: rat) / 2 \<le> of_int ?k" by simp
  then have "rnd (of_int n / 2) \<le> rnd (of_int ?k)" by (rule rnd_mono)
  also have "rnd (of_int ?k) = of_int ?k"
    using assms by (intro rnd_of_int) (simp add: min_def abs_le_iff)
  also have "(of_int ?k :: rat) \<le> of_int m" by (simp only: of_int_le_iff)
  finally show ?thesis using f by simp
qed

lemma enough_coverage:
  assumes "0 < total_sent w" "total_sent w \<le> 2 * total_seen rep" "total_sent w \<le> 2 ^ 53"
  shows "\<not> low_coverage w rep"
  using assms rnd_half_le [of "total_sent w" "total_seen rep"] by (simp add: low_coverage_def not_less)

lemma wire_report_planes:
  "r \<in> set (rp_planes (wire_report (window_report P Q k es))) \<longleftrightarrow>
     (\<exists>p < P. \<exists>q < Q. (arrivals k p q es \<noteq> [] \<or> trims k p q es \<noteq> 0)
        \<and> r = saturate_trimmed (ev_report (p, q) (arrivals k p q es) (trims k p q es)))"
  by (auto simp: wire_report_def window_report_def image_iff)

lemma window_report_feeds:
  assumes "num_planes t = P" "num_paths t = Q" "tn \<in> set (tenants t)"
    and "r \<in> set (rp_planes (wire_report (window_report P Q k es)))"
  shows "feeds t tn r"
  using assms by (auto simp: wire_report_planes feeds_def saturate_trimmed_def ev_report_def valid_ev_def)

lemma silent_not_reported:
  "arrivals k a b es = [] \<Longrightarrow> trims k a b es = 0 \<Longrightarrow>
   (int a, int b) \<notin> reported_evs (wire_report (window_report P Q k es))"
  by (auto simp: reported_evs_def wire_report_planes saturate_trimmed_def ev_report_def)

lemma reported_flow_known:
  assumes "lw_models P Q es t" "rp_planes (window_report P Q k es) \<noteq> []"
  shows "k \<in> set (known_flows t)"
proof (rule ccontr)
  assume "k \<notin> set (known_flows t)"
  then have "dict_get (lw_flows t) k = None" by (simp add: known_flows_def map_of_eq_None_iff)
  then have "fw_evs (lw_flow t k) = grid_const P Q new_counters"
    using assms(1) by (simp add: lw_flow_def lw_models_def flow_reset_def)
  moreover have "gget (fw_evs (lw_flow t k)) p q = summary (arrivals k p q es) (trims k p q es)"
    if "p < P" "q < Q" for p q using assms(1) that by (simp add: lw_models_def)
  ultimately have "summary (arrivals k p q es) (trims k p q es) = new_counters" if "p < P" "q < Q" for p q
    using that by simp
  then have "arrivals k p q es = [] \<and> trims k p q es = 0" if "p < P" "q < Q" for p q
    using that by (simp add: summary_def new_counters_def)
  then show False using assms(2) by (auto simp: window_report_def filter_empty_conv)
qed

lemma shaped_window_fits:
  assumes "shaped P Q (sw_sent w)" "\<forall>row \<in> set (sw_sent w). \<forall>n \<in> set row. 0 \<le> n"
    and "num_planes t = P" "num_paths t = Q" "tn \<in> set (tenants t)"
  shows "window_fits t tn w"
proof -
  have "0 \<le> sw_sent w ! p ! q" if "p < P" "q < Q" for p q
    using assms(1,2) that by (metis nth_mem shaped_def)
  then show ?thesis
    using assms by (auto simp: window_fits_def sent_cells_sent_on sent_on_def valid_ev_def shaped_def)
qed

lemma total_sent_pos:
  assumes "\<forall>row \<in> set (sw_sent w). \<forall>n \<in> set row. 0 \<le> n" "0 < sent_on w a b"
  shows "0 < total_sent w"
proof -
  have ab: "a < length (sw_sent w)" "b < length (sw_sent w ! a)" "0 < sw_sent w ! a ! b"
    using assms(2) by (auto simp: sent_on_def split: if_splits)
  then have row: "sw_sent w ! a \<in> set (sw_sent w)" "sw_sent w ! a ! b \<in> set (sw_sent w ! a)" by simp_all
  have "sw_sent w ! a ! b \<le> sum_list (sw_sent w ! a)" using row assms(1) by (intro member_le_sum_list) auto
  also have "\<dots> \<le> sum_list (map sum_list (sw_sent w))"
    using row assms(1) by (intro member_le_sum_list) (auto intro!: sum_list_nonneg)
  finally show ?thesis using ab(3) by (simp add: total_sent_def)
qed

subsection \<open>End to end\<close>

text \<open>
  C4. A blackhole is charged from end to end. The sender put at least two packets on an EV in the
  window its agent pairs with the report; none of the flow's packets, not even a trimmed one,
  reached the receiver on that EV since its previous round, while at least half of the window's
  packets did arrive. Then the receiver's next round sends the sender a datagram, on the EV it last
  heard the sender on, and handling that datagram raises nothing and charges the EV one totally
  lost window: while its streak of bad windows stays short of \<open>loss_demote_consecutive\<close> the EV
  keeps its state and the streak grows by one; the window that completes the streak demotes the EV
  to ASSUMED_BAD and clears the streak, unless the report leaves the tenant with exactly
  \<open>min_active\<close> usable EVs, the floor no demotion may cross, this EV being one of them.
\<close>

theorem blackhole_reaches_sender:
  assumes "mk_receiver_agent g me = Inr a0" and "P = nat (NUM_PLANES g)" and "Q = nat (NUM_SPINES g)"
    and "P \<le> 0x100" and "Q \<le> 0x100" and "P * Q \<le> 0xFFFF"
    and "\<forall>e \<in> set es. calm e" and "calm (ReportRound outcome)"
    and "k = tid # src # rest" and "last_heard P Q (tid, src) es = Some (lp, lq)" and "outcome k = Inr ()"
    and "ev_reachable (sa_table s)" and "0 \<le> loss_threshold (cfg (sa_table s))"
    and "loss_threshold (cfg (sa_table s)) < 1" and "num_planes (sa_table s) = P"
    and "num_paths (sa_table s) = Q" and "sa_tenant s \<in> set (tenants (sa_table s))"
    and "find_closest (sa_ring s) now (max_window_skew_ms (sa_config s) * 1000000) = Some w"
    and "shaped P Q (sw_sent w)" and "\<forall>row \<in> set (sw_sent w). \<forall>n \<in> set row. 0 \<le> n"
    and "a < P" and "b < Q" and "ev_state_of (sa_table s) (sa_tenant s) (int a) (int b) \<noteq> Inr ASSUMED_BAD"
    and "2 \<le> sw_sent w ! a ! b"
    and "arrivals k a b (ra_log a0 es) = []" and "trims k a b (ra_log a0 es) = 0"
    and "total_sent w \<le> 2 * total_seen (wire_report (window_report P Q k (ra_log a0 es)))"
    and "total_sent w \<le> 2 ^ 53"
  shows "\<exists>a' out payload s'. emit_one_round (ra_run a0 es) outcome = (a', out, Inr ())
    \<and> (lp, lq, src, payload) \<in> set out \<and> handle_loss_report s payload now = (s', None)
    \<and> lost_window_outcome (sa_table s) (sa_table s') (sa_tenant s) a b"
proof -
  let ?log = "ra_log a0 es"
  let ?rep = "wire_report (window_report P Q k ?log)"
  let ?ap = "apply_loss_report (sa_table s) (sa_tenant s) ?rep (sa_ring s) now
    (max_window_skew_ms (sa_config s) * 1000000) (sa_stats s) MIN_SENT_FOR_ABSENT_LOSS"
  have on: "sent_on w a b = sw_sent w ! a ! b" using assms(19,21,22) by (simp add: sent_on_def shaped_def)
  then have "0 < total_sent w" using total_sent_pos [OF assms(20), of a b] assms(24) by simp
  then have cov: "\<not> low_coverage w ?rep" "rp_planes ?rep \<noteq> []"
    using enough_coverage assms(27,28) by (auto simp: total_seen_def)
  then have planes: "rp_planes (window_report P Q k ?log) \<noteq> []" by (simp add: wire_report_def)
  obtain a' out where r: "emit_one_round (ra_run a0 es) outcome = (a', out, Inr ())"
    "map on_the_wire out = List.map_filter (due_report P Q a0 es outcome) (known_flows (ra_loss (ra_run a0 es)))"
    using report_round_exact [OF assms(1-8)] by blast
  have "due_report P Q a0 es outcome k = Some (lp, lq, src, Inr ?rep)"
    using planes assms(9-11) by (simp add: due_report_def)
  moreover have "k \<in> set (known_flows (ra_loss (ra_run a0 es)))"
    using reported_flow_known [OF lw_run_models [OF assms(4,5)] planes] ra_run_tracks [OF assms(1-7)]
    by (simp add: ra_tracks_def)
  ultimately have "(lp, lq, src, Inr ?rep) \<in> set (map on_the_wire out)"
    unfolding r(2) by (force simp: List.map_filter_def)
  then obtain payload where tx: "(lp, lq, src, payload) \<in> set out" "decode_loss_report payload = Inr ?rep"
    by (auto simp: on_the_wire_def)
  obtain t' st' where ap: "?ap = (t', st', None)"
    using apply_loss_report_complete [OF assms(12,13)] window_report_feeds [OF assms(15-17)]
      shaped_window_fits [OF assms(19,20,15-17)] assms(18) by (metis option.inject)
  have "valid_ev (sa_table s) (sa_tenant s) a b" using assms(15-17,21,22) by (simp add: valid_ev_def)
  from loss_report_blackhole_sink [OF assms(12-14) this assms(23,18) cov _ _ silent_not_reported [OF assms(25,26)] ap]
  have "lost_window_outcome (sa_table s) t' (sa_tenant s) a b"
    using on assms(24) by (simp add: MIN_SENT_FOR_ABSENT_LOSS_def)
  moreover have "handle_loss_report s payload now = (s\<lparr>sa_table := t', sa_stats := st'\<rparr>, None)"
    by (simp add: handle_loss_report_def tx(2) ap)
  ultimately show ?thesis using r(1) tx(1) by force
qed

text \<open>Eight packets on plane 0 and three on plane 1, of which only the eight arrive.\<close>

definition demo_pending :: sender_agent where
  "demo_pending = sender_run demo_sender
     (replicate 8 (SentPacket 0 0) @ replicate 3 (SentPacket 1 0) @ [Rotate None 400])"

definition demo_pending_window :: sent_window where
  "demo_pending_window = \<lparr>sw_start_ns = 100, sw_end_ns = 400, sw_sent = [[8], [3]], sw_window_id = 0\<rparr>"

lemma demo_pending_paired: "find_closest (sa_ring demo_pending) 500 (max_window_skew_ms (sa_config demo_pending) * 1000000)
    = Some demo_pending_window"
  by code_simp

lemma demo_pending_fields: "sa_table demo_pending = demo_table" "sa_tenant demo_pending = ''green''"
proof -
  have "sa_table (sender_run a es) = sa_table a \<and> sa_tenant (sender_run a es) = sa_tenant a" for a es
  proof (induction es rule: rev_induct)
    case (snoc e es)
    then show ?case
      by (cases e) (auto simp: sender_run_def sa_record_sent_def rotate_window_def Let_def split: sum.splits)
  qed (simp add: sender_run_def)
  then show "sa_table demo_pending = demo_table" "sa_tenant demo_pending = ''green''"
    by (simp_all add: demo_pending_def demo_sender_fields)
qed

theorem blackhole_reaches_sender_witness:
  "\<exists>a' out payload s'. emit_one_round (ra_run demo_receiver demo_arrivals) (\<lambda>_. Inr ()) = (a', out, Inr ())
    \<and> (0, 0, 0, payload) \<in> set out \<and> handle_loss_report demo_pending payload 500 = (s', None)
    \<and> lost_window_outcome demo_table (sa_table s') ''green'' 1 0"
proof -
  let ?log = "ra_log demo_receiver demo_arrivals"
  have c: "\<forall>e \<in> set demo_arrivals. calm e" "calm (ReportRound (\<lambda>_. Inr ()))" by (simp_all add: demo_arrivals_def)
  have d: "2 = nat (NUM_PLANES two_planes)" "1 = nat (NUM_SPINES two_planes)" by (simp_all add: two_planes_def)
  have b: "(2 :: nat) \<le> 0x100" "(1 :: nat) \<le> 0x100" "(2 :: nat) * 1 \<le> 0xFFFF" by simp_all
  have t: "loss_threshold (cfg demo_table) < 1" "num_planes demo_table = 2" "num_paths demo_table = 1"
    "''green'' \<in> set (tenants demo_table)"
    "ev_state_of demo_table ''green'' (int 1) (int 0) \<noteq> Inr ASSUMED_BAD" by code_simp+
  have w: "shaped 2 1 (sw_sent demo_pending_window)"
    "\<forall>row \<in> set (sw_sent demo_pending_window). \<forall>n \<in> set row. 0 \<le> n"
    "2 \<le> sw_sent demo_pending_window ! 1 ! 0" "total_sent demo_pending_window \<le> 2 ^ 53"
    by (simp_all add: demo_pending_window_def shaped_def total_sent_def)
  have l: "arrivals [1, 0, 1] 1 0 ?log = []" "trims [1, 0, 1] 1 0 ?log = 0" by code_simp+
  have s: "total_sent demo_pending_window \<le> 2 * total_seen (wire_report (window_report 2 1 [1, 0, 1] ?log))"
    unfolding demo_receiver_report by code_simp
  show ?thesis
    by (rule blackhole_reaches_sender [where s = demo_pending and P = 2 and Q = 1 and es = demo_arrivals
        and k = "[1, 0, 1]" and tid = 1 and src = 0 and rest = "[1]", unfolded demo_pending_fields,
        OF demo_receiver_new d b c refl demo_last_heard refl demo_table_reachable demo_threshold t(1-4)
           demo_pending_paired w(1,2) _ _ t(5) w(3) l s w(4)]) simp_all
qed

end
