(* ===== verification/Encap.thy ===== *)
theory Encap
  imports Wire
begin

text \<open>
  Packet construction, \<^verbatim>\<open>srv6_mrc/encap.py\<close>: the layers handed to scapy, the byte template with its
  offsets, and the UDP checksum written in place. scapy, which turns layers into bytes, is the
  parameter \<open>scapy\<close>. Opening the raw socket is not modelled. The receiver's check of the checksum is
  defined on its own from RFC 8200 and RFC 1071.
\<close>

unbundle bit_operations_syntax

subsection \<open>Layout\<close>

definition OUTER_HEADER_LEN :: nat where "OUTER_HEADER_LEN = 40"
definition INNER_HEADER_LEN :: nat where "INNER_HEADER_LEN = 40"
definition UDP_HEADER_LEN :: nat where "UDP_HEADER_LEN = 8"
definition UDP_CSUM_OFFSET :: nat where "UDP_CSUM_OFFSET = OUTER_HEADER_LEN + INNER_HEADER_LEN + 6"
definition PAYLOAD_OFFSET :: nat where
  "PAYLOAD_OFFSET = OUTER_HEADER_LEN + INNER_HEADER_LEN + UDP_HEADER_LEN"
definition INNER_SRC_OFFSET :: nat where "INNER_SRC_OFFSET = OUTER_HEADER_LEN + 8"
definition INNER_DST_OFFSET :: nat where "INNER_DST_OFFSET = OUTER_HEADER_LEN + 24"

lemmas layout_defs = OUTER_HEADER_LEN_def INNER_HEADER_LEN_def UDP_HEADER_LEN_def UDP_CSUM_OFFSET_def
  PAYLOAD_OFFSET_def INNER_SRC_OFFSET_def INNER_DST_OFFSET_def

subsection \<open>Building\<close>

text \<open>The layers the program stacks: \<open>BTH\<close> (opcode, dqpn, psn) is the one of \<^verbatim>\<open>srv6_mrc/rdma.py\<close>.\<close>

datatype layer =
    IPv6 string string "int option" layer
  | UDP int int layer
  | BTH int int int layer
  | Raw bytes

definition build_outer_packet ::
  "(layer \<Rightarrow> bytes result) \<Rightarrow> string \<Rightarrow> string \<Rightarrow> string \<Rightarrow> string \<Rightarrow> int \<Rightarrow> int \<Rightarrow> bytes \<Rightarrow> bytes result" where
  "build_outer_packet scapy src_underlay dst_outer src_inner dst_inner sport dport payload =
     scapy (IPv6 src_underlay dst_outer (Some 41)
             (IPv6 src_inner dst_inner None (UDP sport dport (Raw payload))))"

text \<open>Slice assignment \<open>buf[i:j] = bs\<close> for \<open>i \<le> j\<close>: it also extends a buffer that is too short.\<close>

definition splice :: "nat \<Rightarrow> nat \<Rightarrow> bytes \<Rightarrow> bytes \<Rightarrow> bytes" where
  "splice i j bs buf = take i buf @ bs @ drop j buf"

definition build_outer_template ::
  "(layer \<Rightarrow> bytes result) \<Rightarrow> string \<Rightarrow> string \<Rightarrow> string \<Rightarrow> string \<Rightarrow> int \<Rightarrow> int \<Rightarrow> int \<Rightarrow> bytes result" where
  "build_outer_template scapy src_underlay dst_outer src_inner dst_inner sport dport payload_len =
     (if payload_len < 0 then Inl ValueError
      else bindE (build_outer_packet scapy src_underlay dst_outer src_inner dst_inner sport dport
                    (replicate (nat payload_len) 0)) (\<lambda>template_bytes.
        if length template_bytes \<noteq> OUTER_HEADER_LEN + INNER_HEADER_LEN + UDP_HEADER_LEN + nat payload_len
        then Inl RuntimeError
        else Inr (splice UDP_CSUM_OFFSET (UDP_CSUM_OFFSET + 2) [0, 0] template_bytes)))"

subsection \<open>The checksum\<close>

definition pseudo_header :: "bytes \<Rightarrow> bytes \<Rightarrow> bytes" where
  "pseudo_header buf len_field =
     take 16 (drop INNER_SRC_OFFSET buf) @ take 16 (drop INNER_DST_OFFSET buf) @ len_field @ [0, 0, 0, 0x11]"

definition udp_region :: "bytes \<Rightarrow> nat \<Rightarrow> bytes" where
  "udp_region buf udp_len = take udp_len (drop (OUTER_HEADER_LEN + INNER_HEADER_LEN) buf)"

definition pad_even :: "bytes \<Rightarrow> bytes" where
  "pad_even blob = (if odd (length blob) then blob @ [0] else blob)"

fun words16 :: "bytes \<Rightarrow> int list" where
  "words16 (a # b # bs) = be_int [a, b] # words16 bs"
| "words16 _ = []"

fun ones_sum :: "int \<Rightarrow> int list \<Rightarrow> int" where
  "ones_sum s [] = s"
| "ones_sum s (w # ws) = (let s1 = s + w in ones_sum ((s1 AND 0xFFFF) + drop_bit 16 s1) ws)"

definition checksum_blob :: "bytes \<Rightarrow> int \<Rightarrow> bytes result" where
  "checksum_blob buf payload_len =
     (let udp_len = int UDP_HEADER_LEN + payload_len in
      bindE (struct_pack [4] [udp_len]) (\<lambda>len_field.
        Inr (pad_even (pseudo_header buf len_field @ udp_region buf (nat udp_len)))))"

definition udp6_checksum_inplace :: "bytes \<Rightarrow> int \<Rightarrow> bytes result" where
  "udp6_checksum_inplace buf payload_len =
     bindE (checksum_blob buf payload_len) (\<lambda>blob.
       let s = ones_sum 0 (words16 blob);
           c0 = NOT s AND 0xFFFF;
           csum = (if c0 = 0 then 0xFFFF else c0)
       in bindE (struct_pack [2] [csum]) (\<lambda>field.
            Inr (splice UDP_CSUM_OFFSET (UDP_CSUM_OFFSET + 2) field buf)))"

subsection \<open>One's-complement arithmetic\<close>

lemma mask16: "x AND 0xFFFF = (x :: int) mod 0x10000" "drop_bit 16 x = x div (0x10000 :: int)"
  using take_bit_eq_mask [of 16 x] by (simp_all add: take_bit_eq_mod mask_eq_exp_minus_1 drop_bit_eq_div)

lemma not_mask16: "0 \<le> s \<Longrightarrow> s \<le> 0xFFFF \<Longrightarrow> NOT s AND 0xFFFF = (0xFFFF - s :: int)"
proof -
  assume s: "0 \<le> s" "s \<le> 0xFFFF"
  have "NOT s AND 0xFFFF = (- s - 1) mod 0x10000" by (simp add: mask16(1) not_eq_complement)
  also have "\<dots> = (0xFFFF - s) mod 0x10000" by (smt (verit) mod_add_self2)
  also have "\<dots> = 0xFFFF - s" using s by simp
  finally show ?thesis .
qed

text \<open>One step of the sum, between 0 and \<open>0xFFFF\<close>: it adds modulo \<open>0xFFFF\<close> and is 0 only for 0.\<close>

lemma ones_step:
  fixes s w :: int
  assumes "0 \<le> s" "s \<le> 0xFFFF" "0 \<le> w" "w \<le> 0xFFFF"
  defines "r \<equiv> ((s + w) AND 0xFFFF) + drop_bit 16 (s + w)"
  shows "0 \<le> r" "r \<le> 0xFFFF" "r mod 0xFFFF = (s + w) mod 0xFFFF" "r = 0 \<longleftrightarrow> s = 0 \<and> w = 0"
proof -
  let ?d = "(s + w) div 0x10000"
  have small: "?d = 0" if "s + w < 0x10000" using that assms(1,3) by simp
  have big: "?d = 1" if "0x10000 \<le> s + w"
    by (rule int_div_pos_eq [of _ _ _ "s + w - 0x10000"]) (use that assms(2,4) in simp_all)
  have d: "?d = 0 \<or> ?d = 1" using small big by linarith
  have r: "r = s + w - ?d * 0xFFFF" unfolding r_def mask16 by (simp add: minus_div_mult_eq_mod [symmetric])
  have lt: "?d = 0 \<Longrightarrow> s + w < 0x10000" "?d = 1 \<Longrightarrow> 0x10000 \<le> s + w" using small big by linarith+
  show "0 \<le> r" "r \<le> 0xFFFF" "r = 0 \<longleftrightarrow> s = 0 \<and> w = 0" using d r lt assms(1-4) by auto
  show "r mod 0xFFFF = (s + w) mod 0xFFFF" unfolding r by (metis mod_diff_right_eq mod_mult_self2_is_0 diff_zero)
qed

definition word16s :: "int list \<Rightarrow> bool" where
  "word16s ws \<longleftrightarrow> (\<forall>w \<in> set ws. 0 \<le> w \<and> w \<le> 0xFFFF)"

lemma ones_sum_spec:
  assumes "0 \<le> s" "s \<le> 0xFFFF" "word16s ws"
  shows "0 \<le> ones_sum s ws \<and> ones_sum s ws \<le> 0xFFFF
    \<and> ones_sum s ws mod 0xFFFF = (s + sum_list ws) mod 0xFFFF
    \<and> (ones_sum s ws = 0 \<longleftrightarrow> s = 0 \<and> (\<forall>w \<in> set ws. w = 0))"
  using assms
proof (induction ws arbitrary: s)
  case (Cons w ws)
  let ?r = "((s + w) AND 0xFFFF) + drop_bit 16 (s + w)"
  have w: "0 \<le> w" "w \<le> 0xFFFF" "word16s ws" using Cons.prems(3) by (auto simp: word16s_def)
  note st = ones_step [OF Cons.prems(1,2) w(1,2)]
  note ih = Cons.IH [OF st(1,2) w(3)]
  have "(?r + sum_list ws) mod 0xFFFF = (s + w + sum_list ws) mod 0xFFFF"
    using st(3) by (metis mod_add_left_eq)
  then show ?case using ih st(4) by (auto simp: Let_def add.assoc)
qed auto

lemma be_int_pair: "0 \<le> be_int [a, b]" "be_int [a, b] \<le> 0xFFFF"
  using be_int_bounds [of "[a, b]"] by simp_all

lemma word16s_words16 [simp]: "word16s (words16 bs)"
  by (induction bs rule: words16.induct) (auto simp: word16s_def be_int_pair)

lemma words16_append: "even (length xs) \<Longrightarrow> words16 (xs @ ys) = words16 xs @ words16 ys"
  by (induction xs rule: words16.induct) auto


subsection \<open>The checksum verifies\<close>

text \<open>
  What a receiver checks, from the bytes of the packet alone and without the writer's helpers:
  RFC 8200, 8.1, the pseudo-header is the two addresses of the inner IPv6 header (its bytes 8 to 39,
  the header starting at byte 40), the length of what follows that header in 32 bits, three zero
  bytes and next header 17; RFC 1071, the 16-bit words of pseudo-header and datagram, a last odd
  byte being the high half of a word, sum to zero in one's complement, which is modulo \<open>0xFFFF\<close>.
\<close>

fun rfc1071_sum :: "bytes \<Rightarrow> int" where
  "rfc1071_sum [] = 0"
| "rfc1071_sum [a] = 256 * uint a"
| "rfc1071_sum (a # b # bs) = 256 * uint a + uint b + rfc1071_sum bs"

definition rfc8200_pseudo_header :: "bytes \<Rightarrow> bytes" where
  "rfc8200_pseudo_header pkt =
     (let ip6 = drop 40 pkt
      in take 32 (drop 8 ip6) @ be_bytes 4 (int (length (drop 40 ip6))) @ [0, 0, 0, 17])"

definition udp6_valid :: "bytes \<Rightarrow> bool" where
  "udp6_valid pkt \<longleftrightarrow>
     88 \<le> length pkt \<and> rfc1071_sum (rfc8200_pseudo_header pkt @ drop 80 pkt) mod 0xFFFF = 0"

definition blob_before :: "bytes \<Rightarrow> nat \<Rightarrow> bytes" where
  "blob_before head n =
     take 16 (drop 48 head) @ take 16 (drop 64 head) @ be_bytes 4 (8 + int n) @ [0, 0, 0, 0x11] @ drop 80 head"

definition blob_after :: "nat \<Rightarrow> bytes \<Rightarrow> bytes" where
  "blob_after n tail = (if odd n then tail @ [0] else tail)"

lemma checksum_blob_split:
  assumes "length head = 86" "length tail = n" "8 + int n < 2 ^ 32"
  shows "checksum_blob (head @ [c, d] @ tail) (int n) = Inr (blob_before head n @ [c, d] @ blob_after n tail)"
proof -
  let ?buf = "head @ [c, d] @ tail"
  have slices: "take 16 (drop 48 ?buf) = take 16 (drop 48 head)" "take 16 (drop 64 ?buf) = take 16 (drop 64 head)"
    using assms(1) by simp_all
  have region: "take (8 + n) (drop 80 ?buf) = drop 80 head @ [c, d] @ tail"
    using assms(1,2) by simp
  have "length (blob_before head n @ [c, d] @ tail) = 48 + n" using assms(1,2) by (simp add: blob_before_def)
  then have par: "odd (length (blob_before head n @ [c, d] @ tail)) \<longleftrightarrow> odd n" by presburger
  have "checksum_blob ?buf (int n) = Inr (pad_even (blob_before head n @ [c, d] @ tail))"
    using assms slices region
    by (simp add: checksum_blob_def pseudo_header_def udp_region_def layout_defs blob_before_def
        nat_add_distrib)
  also have "\<dots> = Inr (blob_before head n @ [c, d] @ blob_after n tail)"
    using par by (simp add: pad_even_def blob_after_def)
  finally show ?thesis .
qed

lemma blob_words:
  assumes "length head = 86"
  shows "words16 (blob_before head n @ [c, d] @ post) =
    words16 (blob_before head n) @ be_int [c, d] # words16 post"
proof -
  have "even (length (blob_before head n))" using assms by (simp add: blob_before_def)
  from words16_append [OF this] show ?thesis by simp
qed

lemma rfc1071_words: "rfc1071_sum bs = sum_list (words16 (pad_even bs))"
  by (induction bs rule: rfc1071_sum.induct) (simp_all add: pad_even_def be_int_def)

text \<open>The receiver's condition as the congruence the writer's field has to solve.\<close>

lemma udp6_valid_iff:
  assumes "length head = 86" "length tail = n"
  shows "udp6_valid (head @ [c, d] @ tail) \<longleftrightarrow>
    (sum_list (words16 (blob_before head n)) + be_int [c, d] + sum_list (words16 (blob_after n tail))) mod 0xFFFF = 0"
proof -
  let ?pkt = "head @ [c, d] @ tail"
  have "take 32 (drop 8 (drop 40 ?pkt)) = take 16 (drop 48 head) @ take 16 (drop 64 head)"
    using assms(1) take_add [of 16 16 "drop 48 head"] by (simp add: add.commute)
  moreover have "int (length (drop 40 (drop 40 ?pkt))) = 8 + int n" using assms by simp
  moreover have dgram: "drop 80 ?pkt = drop 80 head @ [c, d] @ tail" using assms(1) by simp
  ultimately have "rfc8200_pseudo_header ?pkt =
      take 16 (drop 48 head) @ take 16 (drop 64 head) @ be_bytes 4 (8 + int n) @ [0, 0, 0, 17]"
    by (simp only: rfc8200_pseudo_header_def Let_def append_assoc)
  with dgram have blob: "rfc8200_pseudo_header ?pkt @ drop 80 ?pkt = blob_before head n @ [c, d] @ tail"
    by (simp only: blob_before_def append_assoc)
  have "odd (length (blob_before head n @ [c, d] @ tail)) \<longleftrightarrow> odd n"
    using assms by (simp add: blob_before_def)
  then have pad: "pad_even (blob_before head n @ [c, d] @ tail) = blob_before head n @ [c, d] @ blob_after n tail"
    by (simp add: pad_even_def blob_after_def)
  have "88 \<le> length ?pkt" using assms(1) by simp
  then show ?thesis
    unfolding udp6_valid_def blob rfc1071_words pad blob_words [OF assms(1)] by (simp add: add.assoc)
qed

lemma blob_nonzero:
  assumes "length head = 86"
  shows "\<exists>w \<in> set (words16 (blob_before head n)). w \<noteq> 0"
proof -
  let ?a = "take 16 (drop 48 head) @ take 16 (drop 64 head) @ be_bytes 4 (8 + int n) @ [0, 0]"
  have "even (length ?a)" using assms by simp
  from words16_append [OF this, of "[0, 0x11] @ drop 80 head"]
  have "words16 (blob_before head n) = words16 ?a @ be_int [0, 0x11] # words16 (drop 80 head)"
    by (simp add: blob_before_def)
  moreover have "be_int [0, 0x11] \<noteq> 0" by (simp add: be_int_def)
  ultimately show ?thesis by auto
qed

lemma splice_csum:
  assumes "length head = 86"
  shows "splice UDP_CSUM_OFFSET (UDP_CSUM_OFFSET + 2) field (head @ [c, d] @ tail) = head @ field @ tail"
  using assms by (simp add: splice_def layout_defs)

lemma udp6_checksum_writes:
  assumes "length head = 86" and "8 + int (length tail) < 2 ^ 32"
  shows "\<exists>c d. udp6_checksum_inplace (head @ [0, 0] @ tail) (int (length tail)) = Inr (head @ [c, d] @ tail)
    \<and> be_int [c, d] \<noteq> 0 \<and> udp6_valid (head @ [c, d] @ tail)"
proof -
  let ?n = "length tail"
  let ?pre = "words16 (blob_before head ?n)" and ?post = "words16 (blob_after ?n tail)"
  define s where "s = ones_sum 0 (?pre @ 0 # ?post)"
  have w16: "word16s ?pre" "word16s ?post" by simp_all
  then have "word16s (?pre @ 0 # ?post)" by (auto simp: word16s_def)
  from ones_sum_spec [OF _ _ this, of 0]
  have s: "0 \<le> s" "s \<le> 0xFFFF" "s mod 0xFFFF = (sum_list ?pre + sum_list ?post) mod 0xFFFF" "s \<noteq> 0"
    using blob_nonzero [OF assms(1), of ?n] by (auto simp: s_def)
  define csum where "csum = (if NOT s AND 0xFFFF = 0 then 0xFFFF else NOT s AND 0xFFFF)"
  have csum: "0 < csum" "csum \<le> 0xFFFF" "(s + csum) mod 0xFFFF = 0"
    using not_mask16 [OF s(1,2)] s(1,2,4) by (auto simp: csum_def)
  obtain c d where cd: "be_bytes 2 csum = [c, d]"
    using length_be_bytes [of 2 csum] by (metis (no_types) length_0_conv length_Suc_conv numeral_2_eq_2)
  have val: "be_int [c, d] = csum" using be_int_be_bytes [of csum 2] csum(1,2) cd by simp
  have sum: "ones_sum 0 (words16 (blob_before head ?n @ [0, 0] @ blob_after ?n tail)) = s"
    unfolding blob_words [OF assms(1)] s_def by (simp add: be_int_def)
  have pack: "struct_pack [2] [csum] = Inr [c, d]" using csum(1,2) cd by simp
  have "udp6_checksum_inplace (head @ [0, 0] @ tail) (int ?n) = bindE (struct_pack [2] [csum])
      (\<lambda>field. Inr (splice UDP_CSUM_OFFSET (UDP_CSUM_OFFSET + 2) field (head @ [0, 0] @ tail)))"
    unfolding udp6_checksum_inplace_def checksum_blob_split [OF assms(1) refl assms(2)] bindE.simps
      Let_def sum csum_def ..
  then have "udp6_checksum_inplace (head @ [0, 0] @ tail) (int ?n) = Inr (head @ [c, d] @ tail)"
    unfolding pack bindE.simps splice_csum [OF assms(1)] .
  moreover have "udp6_valid (head @ [c, d] @ tail)"
  proof -
    have "(sum_list ?pre + sum_list ?post + csum) mod 0xFFFF = (s + csum) mod 0xFFFF"
      using s(3) by (metis mod_add_left_eq)
    then show ?thesis
      unfolding udp6_valid_iff [OF assms(1) refl] val using csum(3) by (simp add: algebra_simps)
  qed
  ultimately show ?thesis using val csum(1) by auto
qed

text \<open>
  C26. The checksum written in place is the one a receiver accepts: on a packet of 88 header bytes and
  a payload whose checksum field is zero, the function succeeds, changes the two bytes of the field
  and nothing else, never writes zero, and the packet then passes the receiver's check of RFC 8200
  and RFC 1071, which reads the addresses and the length off the packet itself and shares no
  definition with the writer. Odd payloads are included.
\<close>

theorem udp6_checksum_valid:
  assumes "length head = 86" and "8 + int (length tail) < 2 ^ 32"
  shows "\<exists>c d. udp6_checksum_inplace (head @ [0, 0] @ tail) (int (length tail)) = Inr (head @ [c, d] @ tail)
    \<and> be_int [c, d] \<noteq> 0 \<and> udp6_valid (head @ [c, d] @ tail)"
  using assms by (rule udp6_checksum_writes)

definition demo_header :: bytes where
  "demo_header = replicate 48 0x60 @ replicate 32 0xFD @ [0x27, 0x0E, 0x27, 0x0E, 0, 11]"

theorem udp6_checksum_valid_witness:
  "\<exists>c d. udp6_checksum_inplace (demo_header @ [0, 0] @ [1, 2, 3]) (int (length [1, 2, 3 :: byte])) =
     Inr (demo_header @ [c, d] @ [1, 2, 3])
     \<and> be_int [c, d] \<noteq> 0 \<and> udp6_valid (demo_header @ [c, d] @ [1, 2, 3])"
proof -
  have "length demo_header = 86" by (simp add: demo_header_def)
  moreover have "8 + int (length [1, 2, 3 :: byte]) < 2 ^ 32" by simp
  ultimately show ?thesis by (rule udp6_checksum_valid)
qed

end
