(* ===== verification/Framing.thy ===== *)
theory Framing
  imports Encap Topo
begin

text \<open>
  The framing of data packets, \<^verbatim>\<open>srv6_mrc/runner.py\<close> and \<^verbatim>\<open>srv6_mrc/rdma.py\<close>: the accounting
  header, the RoCEv2 wrapping, the packet builder over scapy and the per-EV byte templates that
  replace it on the hot path. scapy stays the parameter of \<open>Encap\<close>; \<open>crc32\<close> is \<open>zlib\<close>'s.
\<close>

unbundle bit_operations_syntax

subsection \<open>The accounting header\<close>

definition PAYLOAD_HDR :: "nat list" where "PAYLOAD_HDR = [8, 1, 1]"
definition PAYLOAD_HDR_LEN :: nat where "PAYLOAD_HDR_LEN = calcsize PAYLOAD_HDR"
definition PAD :: bytes where "PAD = replicate 32 0x58"

definition encode_payload :: "int \<Rightarrow> int \<Rightarrow> int \<Rightarrow> bytes result" where
  "encode_payload sq plane path =
     bindE (struct_pack PAYLOAD_HDR [sq, plane, path]) (\<lambda>hdr. Inr (hdr @ PAD))"

definition parse_payload :: "bytes \<Rightarrow> (int \<times> int \<times> int) option" where
  "parse_payload raw =
     (if length raw < PAYLOAD_HDR_LEN then None
      else case struct_unpack PAYLOAD_HDR (take PAYLOAD_HDR_LEN raw) of
        Inr [sq, plane, path] \<Rightarrow> Some (sq, plane, path)
      | _ \<Rightarrow> None)"

text \<open>The form on the wire: trimmed packets carry the header alone.\<close>

definition mrc_payload :: "bool \<Rightarrow> int \<Rightarrow> int \<Rightarrow> int \<Rightarrow> bytes result" where
  "mrc_payload trimmed sq plane path =
     (if trimmed then struct_pack PAYLOAD_HDR [sq, plane, path] else encode_payload sq plane path)"

lemma payload_len [simp]: "PAYLOAD_HDR_LEN = 10" "length PAD = 32"
  by (simp_all add: PAYLOAD_HDR_LEN_def PAYLOAD_HDR_def calcsize_def PAD_def)

lemma mrc_payload_length: "mrc_payload trimmed sq plane path = Inr bs \<Longrightarrow> length bs = (if trimmed then 10 else 42)"
  using struct_pack_length [of PAYLOAD_HDR]
  by (auto simp: mrc_payload_def encode_payload_def py_simps calcsize_def PAYLOAD_HDR_def split: if_splits)

lemma parse_mrc_payload:
  assumes "mrc_payload trimmed sq plane path = Inr bs"
  shows "parse_payload bs = Some (sq, plane, path)"
proof -
  obtain hdr where hdr: "struct_pack PAYLOAD_HDR [sq, plane, path] = Inr hdr" "take (length hdr) bs = hdr"
    using assms by (auto simp: mrc_payload_def encode_payload_def py_simps split: if_splits)
  have "length hdr = 10" using struct_pack_length [OF hdr(1)] by (simp add: calcsize_def PAYLOAD_HDR_def)
  then show ?thesis
    using hdr mrc_payload_length [OF assms] struct_unpack_pack [OF hdr(1)] by (simp add: parse_payload_def)
qed

lemma mrc_payload_ok:
  assumes "0 \<le> sq" "sq < 2 ^ 64" "0 \<le> plane" "plane \<le> 0xFF" "0 \<le> path" "path \<le> 0xFF"
  obtains bs where "mrc_payload trimmed sq plane path = Inr bs"
proof -
  have "fits PAYLOAD_HDR [sq, plane, path]" using assms by (simp add: fits_def PAYLOAD_HDR_def)
  from struct_pack_ok [OF this] show thesis
    using that by (cases trimmed) (auto simp: mrc_payload_def encode_payload_def)
qed

subsection \<open>RoCEv2\<close>

text \<open>\<open>zlib.crc32(data, start)\<close>: the reflected CRC-32, byte by byte.\<close>

primrec crc_shift :: "nat \<Rightarrow> 32 word \<Rightarrow> 32 word" where
  "crc_shift 0 c = c"
| "crc_shift (Suc n) c = crc_shift n (if bit c 0 then drop_bit 1 c XOR 0xEDB88320 else drop_bit 1 c)"

definition crc_byte :: "32 word \<Rightarrow> byte \<Rightarrow> 32 word" where
  "crc_byte c b = crc_shift 8 (c XOR ucast b)"

definition crc32 :: "bytes \<Rightarrow> 32 word \<Rightarrow> 32 word" where
  "crc32 data start = NOT (foldl crc_byte (NOT start) data)"

lemma crc32_append: "crc32 (a @ b) s = crc32 b (crc32 a s)"
  by (simp add: crc32_def)

definition le_bytes :: "nat \<Rightarrow> int \<Rightarrow> bytes" where
  "le_bytes n v = rev (be_bytes n v)"

lemma length_le_bytes [simp]: "length (le_bytes n v) = n"
  by (simp add: le_bytes_def)

definition RDMA_OPCODE :: int where "RDMA_OPCODE = 0x64"
definition IPV6_UDP_LEN :: nat where "IPV6_UDP_LEN = 40 + 8"

definition wrap_rdma ::
  "(layer \<Rightarrow> bytes result) \<Rightarrow> topo \<Rightarrow> bytes \<Rightarrow> int \<Rightarrow> int \<Rightarrow> int \<Rightarrow> string option \<Rightarrow> string option \<Rightarrow>
   int option \<Rightarrow> int option \<Rightarrow> bytes result" where
  "wrap_rdma scapy g payload plane path sq src dst sport dport =
     bindE (dqpn_for_ev g plane path) (\<lambda>dqpn.
       let bth = BTH RDMA_OPCODE dqpn (sq AND 0xFFFFFF) (Raw payload) in
       case (src, dst, sport, dport) of
         (Some s, Some d, Some sp, Some dp) \<Rightarrow>
           bindE (scapy (IPv6 s d None (UDP sp dp bth))) (\<lambda>framed. Inr (drop IPV6_UDP_LEN framed))
       | _ \<Rightarrow> scapy bth)"

text \<open>
  \<open>unwrap_rdma\<close> over scapy's dissector: an exception, no Raw layer, or the bytes of the Raw layer.
\<close>

definition unwrap_rdma :: "(bytes \<Rightarrow> bytes option result) \<Rightarrow> bytes \<Rightarrow> bytes option" where
  "unwrap_rdma dissect raw = (case dissect raw of Inl e \<Rightarrow> None | Inr r \<Rightarrow> r)"

text \<open>The receiver's own unwrapping, at fixed offsets.\<close>

definition BTH_LEN :: nat where "BTH_LEN = 12"
definition ICRC_LEN :: nat where "ICRC_LEN = 4"

definition unwrap_bth :: "bytes \<Rightarrow> bytes option" where
  "unwrap_bth udp_payload =
     (if length udp_payload \<le> BTH_LEN + ICRC_LEN then None
      else Some (take (length udp_payload - ICRC_LEN - BTH_LEN) (drop BTH_LEN udp_payload)))"

lemma unwrap_bth_frame:
  "length bth = 12 \<Longrightarrow> length icrc = 4 \<Longrightarrow> p \<noteq> [] \<Longrightarrow> unwrap_bth (bth @ p @ icrc) = Some p"
  by (simp add: unwrap_bth_def BTH_LEN_def ICRC_LEN_def)

subsection \<open>Building a packet with scapy\<close>

definition build_packet_bytes ::
  "(layer \<Rightarrow> bytes result) \<Rightarrow> topo \<Rightarrow> string \<Rightarrow> string \<Rightarrow> string \<Rightarrow> string \<Rightarrow> int \<Rightarrow> int \<Rightarrow> int \<Rightarrow> string \<Rightarrow> bool \<Rightarrow>
   bytes result" where
  "build_packet_bytes scapy g src_underlay dst_outer src_inner dst_inner sq plane path transport trimmed =
     bindE (mrc_payload trimmed sq plane path) (\<lambda>mrc.
     bindE (if transport = ''rdma''
            then bindE (wrap_rdma scapy g mrc plane path sq (Some src_inner) (Some dst_inner)
                          (Some SPRAY_PORT) (Some RDMA_PORT)) (\<lambda>p. Inr (p, RDMA_PORT))
            else Inr (mrc, SPRAY_PORT)) (\<lambda>(payload, dport).
       build_outer_packet scapy src_underlay dst_outer src_inner dst_inner SPRAY_PORT dport payload))"

subsection \<open>Byte templates\<close>

text \<open>An entry: the bytes, the UDP payload's length, and the BTH's offset with the prefix CRC.\<close>

type_synonym template_entry = "bytes \<times> nat \<times> (nat \<times> 32 word) option"
type_synonym template_key = "int \<times> int \<times> bool \<times> string"

record packet_templates =
  tp_src_inner :: string
  tp_dst_inner :: string
  tp_transport :: string
  tp_cache :: "(template_key \<times> template_entry) list"

definition mk_packet_templates :: "string \<Rightarrow> string \<Rightarrow> string \<Rightarrow> packet_templates" where
  "mk_packet_templates src_inner dst_inner transport =
     \<lparr>tp_src_inner = src_inner, tp_dst_inner = dst_inner, tp_transport = transport, tp_cache = []\<rparr>"

text \<open>The ICRC's pseudo-header up to the PSN, from the template and the first bytes of the frame.\<close>

definition icrc_prefix :: "bytes \<Rightarrow> bytes \<Rightarrow> bytes" where
  "icrc_prefix tpl frame =
     (let ip6 = take INNER_HEADER_LEN (drop OUTER_HEADER_LEN tpl);
          ip6 = splice 7 8 [0xFF] (splice 0 4 [0x6F, 0xFF, 0xFF, 0xFF] ip6);
          udp = take (PAYLOAD_OFFSET - (OUTER_HEADER_LEN + INNER_HEADER_LEN))
                  (drop (OUTER_HEADER_LEN + INNER_HEADER_LEN) tpl);
          udp = splice 6 8 [0xFF, 0xFF] udp;
          bth = splice 4 5 [0xFF] (take 9 frame)
      in replicate 8 0xFF @ ip6 @ udp @ bth)"

definition tp_make ::
  "(layer \<Rightarrow> bytes result) \<Rightarrow> topo \<Rightarrow> packet_templates \<Rightarrow> int \<Rightarrow> int \<Rightarrow> string \<Rightarrow> string \<Rightarrow> bool \<Rightarrow>
   template_entry result" where
  "tp_make scapy g tp plane path src_underlay dst_outer trimmed =
     bindE (if trimmed then Inr PAYLOAD_HDR_LEN else bindE (encode_payload 0 0 0) (\<lambda>p. Inr (length p))) (\<lambda>mrc_len.
     if tp_transport tp \<noteq> ''rdma''
     then bindE (build_outer_template scapy src_underlay dst_outer (tp_src_inner tp) (tp_dst_inner tp)
                   SPRAY_PORT SPRAY_PORT (int mrc_len)) (\<lambda>tpl. Inr (tpl, mrc_len, None))
     else bindE (wrap_rdma scapy g (replicate mrc_len 0) plane path 0 (Some (tp_src_inner tp))
                   (Some (tp_dst_inner tp)) (Some SPRAY_PORT) (Some RDMA_PORT)) (\<lambda>frame.
       bindE (build_outer_template scapy src_underlay dst_outer (tp_src_inner tp) (tp_dst_inner tp)
                SPRAY_PORT RDMA_PORT (int (length frame))) (\<lambda>tpl0.
         let tpl = splice PAYLOAD_OFFSET (PAYLOAD_OFFSET + 12) (take 12 frame) tpl0
         in Inr (tpl, length frame, Some (0, crc32 (icrc_prefix tpl frame) 0)))))"

definition tp_fill :: "template_entry \<Rightarrow> int \<Rightarrow> bytes \<Rightarrow> bytes result" where
  "tp_fill entry sq mrc =
     (case entry of
        (tpl, plen, None) \<Rightarrow>
          udp6_checksum_inplace (splice PAYLOAD_OFFSET (PAYLOAD_OFFSET + plen) mrc tpl) (int plen)
      | (tpl, plen, Some (bth_at, prefix)) \<Rightarrow>
          let psn = be_bytes 3 (sq AND 0xFFFFFF);
              start = PAYLOAD_OFFSET + bth_at;
              buf = splice (start + 9) (start + 12) psn tpl;
              buf = splice (start + 12) (start + 12 + length mrc) mrc buf;
              icrc = crc32 (psn @ mrc) prefix;
              buf = splice (start + 12 + length mrc) (start + 16 + length mrc) (le_bytes 4 (uint icrc)) buf
          in udp6_checksum_inplace buf (int plen))"

definition tp_build ::
  "(layer \<Rightarrow> bytes result) \<Rightarrow> topo \<Rightarrow> packet_templates \<Rightarrow> int \<Rightarrow> int \<Rightarrow> int \<Rightarrow> string \<Rightarrow> string \<Rightarrow> bool \<Rightarrow>
   packet_templates \<times> bytes result" where
  "tp_build scapy g tp sq plane path src_underlay dst_outer trimmed =
     (let key = (plane, path, trimmed, dst_outer) in
      case (case dict_get (tp_cache tp) key of
              Some entry \<Rightarrow> Inr (tp, entry)
            | None \<Rightarrow> bindE (tp_make scapy g tp plane path src_underlay dst_outer trimmed) (\<lambda>entry.
                Inr (tp\<lparr>tp_cache := dict_put key entry (tp_cache tp)\<rparr>, entry))) of
        Inl e \<Rightarrow> (tp, Inl e)
      | Inr (tp1, entry) \<Rightarrow> (tp1, bindE (mrc_payload trimmed sq plane path) (tp_fill entry sq)))"

end
