(* ===== verification/Trim.thy ===== *)
theory Trim
  imports PyConv ProbeWire "HOL-Library.Multiset" "HOL-Library.Sublist"
begin

text \<open>
  The sender side of packet trimming, \<^verbatim>\<open>srv6_mrc/trim.py\<close>: the specification and its JSON form, the
  oracle that plays the congested switch, the counters, and the listener that turns NACKs into
  bounded retransmit requests. The pseudo-random generator is the sequence of the numbers it
  draws. The receive loop is its body on one datagram; the socket and its thread are not modelled.
\<close>

definition TRIM_MODES :: "string list" where "TRIM_MODES = [''trim'', ''drop'']"
definition DEFAULT_MAX_RETRANSMITS :: int where "DEFAULT_MAX_RETRANSMITS = 3"
definition RECENT_SENDS :: nat where "RECENT_SENDS = 4096"

subsection \<open>The specification\<close>

record trim_spec =
  trim_rate :: pyfloat
  trim_mode :: string
  trim_planes :: "int list"
  trim_evs :: "(int \<times> int) list"
  trim_seed :: int
  trim_max_retransmits :: int

definition trim_post_init :: "trim_spec \<Rightarrow> unit result" where
  "trim_post_init s =
     bindE (raise_if (\<not> (0 \<le> trim_rate s \<and> trim_rate s \<le> 1)) ValueError) (\<lambda>_.
     bindE (raise_if (trim_mode s \<notin> set TRIM_MODES) ValueError) (\<lambda>_.
       raise_if (trim_max_retransmits s < 0) ValueError))"

definition mk_trim_spec ::
  "pyfloat \<Rightarrow> string \<Rightarrow> int list \<Rightarrow> (int \<times> int) list \<Rightarrow> int \<Rightarrow> int \<Rightarrow> trim_spec result" where
  "mk_trim_spec rate mode ps es seed mx =
     (let s = \<lparr>trim_rate = rate, trim_mode = mode, trim_planes = ps, trim_evs = es, trim_seed = seed,
               trim_max_retransmits = mx\<rparr>
      in bindE (trim_post_init s) (\<lambda>_. Inr s))"

definition trim_matches :: "trim_spec \<Rightarrow> int \<Rightarrow> int \<Rightarrow> bool" where
  "trim_matches s plane path =
     (if trim_planes s = [] \<and> trim_evs s = [] then True
      else plane \<in> set (trim_planes s) \<or> (plane, path) \<in> set (trim_evs s))"

text \<open>\<open>to_env_json\<close>, before \<open>json.dumps(..., sort_keys=True)\<close> writes it as text.\<close>

definition trim_json :: "trim_spec \<Rightarrow> json" where
  "trim_json s = JObj
     [(''evs'', JList (map (\<lambda>(p, q). JList [JInt p, JInt q]) (trim_evs s))),
      (''max_retransmits'', JInt (trim_max_retransmits s)), (''mode'', JStr (trim_mode s)),
      (''planes'', JList (map JInt (trim_planes s))), (''rate'', JFloat (trim_rate s)),
      (''seed'', JInt (trim_seed s))]"

definition to_env_json :: "(json \<Rightarrow> string) \<Rightarrow> trim_spec \<Rightarrow> string" where
  "to_env_json dumps s = dumps (trim_json s)"

definition int_pair :: "json \<Rightarrow> (int \<times> int) result" where
  "int_pair v =
     bindE (py_iter v) (\<lambda>xs. case xs of
         [p, q] \<Rightarrow> bindE (py_int p) (\<lambda>a. bindE (py_int q) (\<lambda>b. Inr (a, b)))
       | _ \<Rightarrow> Inl ValueError)"

definition trim_of_json :: "json \<Rightarrow> trim_spec result" where
  "trim_of_json d =
     bindE (bindE (jitem d ''rate'') py_float) (\<lambda>rate.
     bindE (py_get d ''mode'' (JStr ''trim'')) (\<lambda>mode.
     bindE (bindE (bindE (py_get d ''planes'' (JList [])) py_iter) (mapE py_int)) (\<lambda>ps.
     bindE (bindE (bindE (py_get d ''evs'' (JList [])) py_iter) (mapE int_pair)) (\<lambda>es.
     bindE (bindE (py_get d ''seed'' (JInt 0)) py_int) (\<lambda>seed.
     bindE (bindE (py_get d ''max_retransmits'' (JInt DEFAULT_MAX_RETRANSMITS)) py_int) (\<lambda>mx.
       case mode of JStr m \<Rightarrow> mk_trim_spec rate m ps es seed mx | _ \<Rightarrow> Inl ValueError))))))"

text \<open>\<open>from_env\<close>: \<open>env\<close> is the environment variable, \<open>loads\<close> is \<open>json.loads\<close>.\<close>

definition from_env ::
  "(string \<Rightarrow> json result) \<Rightarrow> string option \<Rightarrow> string option \<Rightarrow> trim_spec option result" where
  "from_env loads env value =
     (case (case value of None \<Rightarrow> env | Some v \<Rightarrow> Some v) of
        None \<Rightarrow> Inr None
      | Some v \<Rightarrow>
          if v = [] then Inr None
          else bindE (loads v) (\<lambda>d. bindE (trim_of_json d) (\<lambda>s. Inr (Some s))))"

subsection \<open>The oracle\<close>

record trim_oracle =
  or_spec :: trim_spec
  or_drawn :: nat

definition oracle_hits ::
  "(int \<Rightarrow> nat \<Rightarrow> pyfloat) \<Rightarrow> trim_oracle \<Rightarrow> int \<Rightarrow> int \<Rightarrow> trim_oracle \<times> bool" where
  "oracle_hits rng o1 plane path =
     (if trim_rate (or_spec o1) \<le> 0 \<or> \<not> trim_matches (or_spec o1) plane path then (o1, False)
      else (o1\<lparr>or_drawn := or_drawn o1 + 1\<rparr>,
            rng (trim_seed (or_spec o1)) (or_drawn o1) < trim_rate (or_spec o1)))"

subsection \<open>Counters\<close>

record trim_stats =
  ts_trimmed :: int
  ts_dropped :: int
  nacks_received :: int
  nacks_ignored :: int
  retransmits :: int

definition new_trim_stats :: trim_stats where
  "new_trim_stats = \<lparr>ts_trimmed = 0, ts_dropped = 0, nacks_received = 0, nacks_ignored = 0, retransmits = 0\<rparr>"

definition trim_stats_json :: "trim_stats \<Rightarrow> json" where
  "trim_stats_json s = JObj
     [(''trimmed'', JInt (ts_trimmed s)), (''dropped'', JInt (ts_dropped s)),
      (''nacks_received'', JInt (nacks_received s)), (''nacks_ignored'', JInt (nacks_ignored s)),
      (''retransmits'', JInt (retransmits s))]"

subsection \<open>The NACK listener\<close>

type_synonym retransmit_request = "int \<times> int \<times> int"

record nack_listener =
  nl_max_retransmits :: int
  nl_stats :: trim_stats
  nl_recent :: "(int \<times> int) list"
  nl_queue :: "retransmit_request list"

definition mk_nack_listener :: "int \<Rightarrow> trim_stats \<Rightarrow> nack_listener" where
  "mk_nack_listener mx s =
     \<lparr>nl_max_retransmits = mx, nl_stats = s, nl_recent = [], nl_queue = []\<rparr>"

definition note_sent :: "nack_listener \<Rightarrow> int \<Rightarrow> nack_listener" where
  "note_sent l seq =
     (if dict_get (nl_recent l) seq = None
      then let recent = dict_put seq 0 (nl_recent l)
           in l\<lparr>nl_recent := (if RECENT_SENDS < length recent then tl recent else recent)\<rparr>
      else l)"

definition on_nack :: "nack_listener \<Rightarrow> int \<Rightarrow> int \<Rightarrow> int \<Rightarrow> nack_listener" where
  "on_nack l seq plane path =
     (let s = nl_stats l;
          l1 = l\<lparr>nl_stats := s\<lparr>nacks_received := nacks_received s + 1\<rparr>\<rparr>;
          ignored = l1\<lparr>nl_stats := (nl_stats l1)\<lparr>nacks_ignored := nacks_ignored (nl_stats l1) + 1\<rparr>\<rparr>
      in case dict_get (nl_recent l1) seq of
           None \<Rightarrow> ignored
         | Some n \<Rightarrow>
             if nl_max_retransmits l1 \<le> n then ignored
             else l1\<lparr>nl_recent := dict_put seq (n + 1) (nl_recent l1),
                     nl_queue := nl_queue l1 @ [(seq, plane, path)]\<rparr>)"

definition nl_take :: "nack_listener \<Rightarrow> nack_listener \<times> retransmit_request list" where
  "nl_take l = (l\<lparr>nl_queue := []\<rparr>, nl_queue l)"

definition nl_receive :: "nack_listener \<Rightarrow> bytes \<Rightarrow> nack_listener" where
  "nl_receive l payload =
     (case decode_nack payload of
        Inl e \<Rightarrow> l | Inr n \<Rightarrow> on_nack l (nk_seq n) (nk_plane_id n) (nk_path_id n))"

subsection \<open>The environment round trip\<close>

text \<open>
  A trim specification reaches the senders unchanged: what the orchestrator writes into the
  environment is read back as the same specification, given that the JSON library reads back what
  it wrote.
\<close>

theorem trim_env_roundtrip:
  assumes "trim_post_init s = Inr ()"
    and "loads (dumps (trim_json s)) = Inr (trim_json s)" and "dumps (trim_json s) \<noteq> []"
  shows "from_env loads (Some (to_env_json dumps s)) None = Inr (Some s)"
proof -
  have "mapE py_int (map JInt ps) = Inr ps" for ps by (induction ps) simp_all
  moreover have "mapE int_pair (map (\<lambda>(p, q). JList [JInt p, JInt q]) es) = Inr es" for es
    by (induction es) (auto simp: int_pair_def)
  ultimately have "trim_of_json (trim_json s) = Inr s"
    using assms(1) by (cases s) (simp add: trim_of_json_def trim_json_def mk_trim_spec_def Let_def)
  then show ?thesis using assms(2,3) by (simp add: from_env_def to_env_json_def)
qed

definition demo_trim :: trim_spec where
  "demo_trim = \<lparr>trim_rate = 1 / 2, trim_mode = ''drop'', trim_planes = [1], trim_evs = [(0, 3)],
     trim_seed = 7, trim_max_retransmits = 3\<rparr>"

theorem trim_env_roundtrip_witness:
  "from_env (\<lambda>t. if t = ''spec'' then Inr (trim_json demo_trim) else Inl JSONDecodeError)
     (Some (to_env_json (\<lambda>_. ''spec'') demo_trim)) None = Inr (Some demo_trim)"
  by (rule trim_env_roundtrip) (simp_all add: trim_post_init_def demo_trim_def TRIM_MODES_def raise_if_def)

subsection \<open>Runs of the listener\<close>

datatype listener_event = Sent int | NackIn int int int | Drain

fun nl_step :: "nack_listener \<times> retransmit_request list \<Rightarrow> listener_event \<Rightarrow>
    nack_listener \<times> retransmit_request list" where
  "nl_step (l, taken) (Sent seq) = (note_sent l seq, taken)"
| "nl_step (l, taken) (NackIn seq plane path) = (on_nack l seq plane path, taken)"
| "nl_step (l, taken) Drain = (let (l', out) = nl_take l in (l', taken @ out))"

definition nl_run :: "int \<Rightarrow> listener_event list \<Rightarrow> nack_listener \<times> retransmit_request list" where
  "nl_run mx evl = foldl nl_step (mk_nack_listener mx new_trim_stats, []) evl"

fun nacks_of :: "listener_event list \<Rightarrow> retransmit_request list" where
  "nacks_of [] = []"
| "nacks_of (NackIn seq plane path # evl) = (seq, plane, path) # nacks_of evl"
| "nacks_of (_ # evl) = nacks_of evl"

fun sents_of :: "listener_event list \<Rightarrow> int set" where
  "sents_of [] = {}"
| "sents_of (Sent seq # evl) = insert seq (sents_of evl)"
| "sents_of (_ # evl) = sents_of evl"

lemma nacks_of_append [simp]: "nacks_of (a @ b) = nacks_of a @ nacks_of b"
  by (induction a rule: nacks_of.induct) auto

lemma sents_of_append [simp]: "sents_of (a @ b) = sents_of a \<union> sents_of b"
  by (induction a rule: sents_of.induct) auto

lemma finite_sents [simp]: "finite (sents_of evl)"
  by (induction evl rule: sents_of.induct) auto

lemma nl_run_snoc: "nl_run mx (evl @ [e]) = nl_step (nl_run mx evl) e"
  by (simp add: nl_run_def)

lemma on_nack_cases:
  obtains (ignored) "nl_queue (on_nack l seq plane path) = nl_queue l" "nl_recent (on_nack l seq plane path) = nl_recent l"
      "nl_max_retransmits (on_nack l seq plane path) = nl_max_retransmits l"
      "nacks_ignored (nl_stats (on_nack l seq plane path)) = nacks_ignored (nl_stats l) + 1"
      "nacks_received (nl_stats (on_nack l seq plane path)) = nacks_received (nl_stats l) + 1"
  | (accepted) n where "dict_get (nl_recent l) seq = Some n" "n < nl_max_retransmits l"
      "nl_queue (on_nack l seq plane path) = nl_queue l @ [(seq, plane, path)]"
      "nl_recent (on_nack l seq plane path) = dict_put seq (n + 1) (nl_recent l)"
      "nl_max_retransmits (on_nack l seq plane path) = nl_max_retransmits l"
      "nacks_ignored (nl_stats (on_nack l seq plane path)) = nacks_ignored (nl_stats l)"
      "nacks_received (nl_stats (on_nack l seq plane path)) = nacks_received (nl_stats l) + 1"
proof (cases "\<exists>n. dict_get (nl_recent l) seq = Some n \<and> n < nl_max_retransmits l")
  case True
  then obtain n where "dict_get (nl_recent l) seq = Some n" "n < nl_max_retransmits l" by blast
  then show thesis by (intro accepted [of n]) (simp_all add: on_nack_def Let_def)
next
  case False
  then show thesis by (intro ignored) (auto simp: on_nack_def Let_def split: option.splits)
qed

lemma note_sent_fields [simp]:
  "nl_queue (note_sent l seq) = nl_queue l" "nl_stats (note_sent l seq) = nl_stats l"
  "nl_max_retransmits (note_sent l seq) = nl_max_retransmits l"
  by (simp_all add: note_sent_def Let_def)

text \<open>
  Every NACK is either ignored and counted as such, or handed to the sender exactly once and
  in order: the requests drained so far followed by the queue are a subsequence of the NACKs
  received, and together with the ignored ones they are all of them.
\<close>

theorem nacks_accounted:
  "case nl_run mx evl of (l, taken) \<Rightarrow>
     nacks_received (nl_stats l) = int (length (nacks_of evl))
     \<and> nacks_ignored (nl_stats l) + int (length (taken @ nl_queue l)) = nacks_received (nl_stats l)
     \<and> subseq (taken @ nl_queue l) (nacks_of evl)"
proof (induction evl rule: rev_induct)
  case Nil
  then show ?case by (simp add: nl_run_def mk_nack_listener_def new_trim_stats_def)
next
  case (snoc e evl)
  obtain l taken where r: "nl_run mx evl = (l, taken)" by fastforce
  show ?case
  proof (cases e)
    case (NackIn seq plane path)
    let ?x = "(seq, plane, path)"
    have "subseq (taken @ nl_queue l) (nacks_of evl)" using snoc.IH by (simp add: r)
    then have "subseq ((taken @ nl_queue l) @ [?x]) (nacks_of evl @ [?x])"
      "subseq ((taken @ nl_queue l) @ []) (nacks_of evl @ [?x])"
      by (intro list_emb_append_mono; simp)+
    then show ?thesis
      using snoc.IH
      by (cases rule: on_nack_cases [of l seq plane path]) (simp_all add: nl_run_snoc r NackIn)
  qed (use snoc.IH in \<open>simp_all add: nl_run_snoc r nl_take_def\<close>)
qed

definition asked :: "retransmit_request list \<Rightarrow> int \<Rightarrow> nat" where
  "asked xs seq = length (filter (\<lambda>x. fst x = seq) xs)"

lemma asked_simps [simp]:
  "asked [] seq = 0" "asked (xs @ ys) seq = asked xs seq + asked ys seq"
  "asked (x # xs) seq = (if fst x = seq then 1 else 0) + asked xs seq"
  by (simp_all add: asked_def)

definition bounded_inv :: "int \<Rightarrow> int set \<Rightarrow> nack_listener \<Rightarrow> retransmit_request list \<Rightarrow> bool" where
  "bounded_inv mx S l accepted \<longleftrightarrow> nl_max_retransmits l = mx \<and> dict_ok (nl_recent l) \<and> dom (map_of (nl_recent l)) = S
     \<and> (\<forall>s. dict_get (nl_recent l) s = None \<longrightarrow> asked accepted s = 0)
     \<and> (\<forall>s n. dict_get (nl_recent l) s = Some n \<longrightarrow> int (asked accepted s) = n \<and> n \<le> mx)"

lemma note_sent_bounded:
  assumes "bounded_inv mx S l xs" "0 \<le> mx" "card (insert seq S) \<le> 4096" "finite S"
  shows "bounded_inv mx (insert seq S) (note_sent l seq) xs"
proof (cases "dict_get (nl_recent l) seq")
  case None
  have new: "seq \<notin> S" using assms(1) None by (auto simp: bounded_inv_def)
  have "length (nl_recent l) = card S"
    using assms(1) distinct_card [of "map fst (nl_recent l)"]
    by (simp add: bounded_inv_def dict_ok_def dom_map_of_conv_image_fst)
  then have "\<not> RECENT_SENDS < length (dict_put seq 0 (nl_recent l))"
    using assms(3,4) new dict_keys_put_new [OF None, of 0] by (simp add: RECENT_SENDS_def)
  then have "note_sent l seq = l\<lparr>nl_recent := dict_put seq 0 (nl_recent l)\<rparr>"
    using None by (simp add: note_sent_def Let_def)
  then show ?thesis using assms(1,2) None by (auto simp: bounded_inv_def)
next
  case (Some n)
  then have "seq \<in> S" using assms(1) by (auto simp: bounded_inv_def)
  then show ?thesis using assms(1) Some by (simp add: note_sent_def insert_absorb)
qed

lemma on_nack_bounded:
  assumes "bounded_inv mx S l (xs @ nl_queue l)"
  shows "bounded_inv mx S (on_nack l seq plane path) (xs @ nl_queue (on_nack l seq plane path))"
proof (cases rule: on_nack_cases [of l seq plane path])
  case ignored
  then show ?thesis using assms by (simp add: bounded_inv_def)
next
  case (accepted n)
  then have "seq \<in> S" using assms by (auto simp: bounded_inv_def)
  then show ?thesis using assms accepted by (auto simp: bounded_inv_def split: if_splits)
qed

lemma nl_run_bounded:
  assumes "0 \<le> mx" "card (sents_of evl) \<le> 4096" "nl_run mx evl = (l, taken)"
  shows "bounded_inv mx (sents_of evl) l (taken @ nl_queue l)"
  using assms(2,3)
proof (induction evl arbitrary: l taken rule: rev_induct)
  case Nil
  then show ?case by (auto simp: bounded_inv_def nl_run_def mk_nack_listener_def)
next
  case (snoc e evl)
  obtain l0 t0 where r: "nl_run mx evl = (l0, t0)" by fastforce
  have "card (sents_of evl) \<le> card (sents_of (evl @ [e]))" by (intro card_mono) auto
  then have inv: "bounded_inv mx (sents_of evl) l0 (t0 @ nl_queue l0)"
    using snoc.IH [OF _ r] snoc.prems(1) by simp
  have step: "nl_step (l0, t0) e = (l, taken)" using snoc.prems(2) by (simp add: nl_run_snoc r)
  show ?case
  proof (cases e)
    case (Sent seq)
    then show ?thesis using note_sent_bounded [OF inv assms(1), of seq] step snoc.prems(1) by auto
  next
    case (NackIn seq plane path)
    then show ?thesis using on_nack_bounded [OF inv, of seq plane path] step by auto
  next
    case Drain
    then have "l = l0\<lparr>nl_queue := []\<rparr>" "taken = t0 @ nl_queue l0" using step by (auto simp: nl_take_def)
    then show ?thesis using inv Drain by (simp add: bounded_inv_def)
  qed
qed

text \<open>
  C35. Retransmission is bounded: as long as no more than 4096 different packets have been sent, a
  packet is handed to the sender for retransmission at most max_retransmits times, whatever NACKs
  arrive, and never if it was not sent.
\<close>

theorem retransmits_bounded:
  assumes "0 \<le> mx" and "card (sents_of evl) \<le> 4096" and "nl_run mx evl = (l, taken)"
  shows "int (asked (taken @ nl_queue l) seq) \<le> mx
    \<and> (seq \<notin> sents_of evl \<longrightarrow> asked (taken @ nl_queue l) seq = 0)"
  using nl_run_bounded [OF assms] assms(1)
  by (cases "dict_get (nl_recent l) seq") (auto simp: bounded_inv_def)

theorem retransmits_bounded_witness:
  "int (asked (snd (nl_run 1 [Sent 5, NackIn 5 0 0, NackIn 5 1 0, Drain])
      @ nl_queue (fst (nl_run 1 [Sent 5, NackIn 5 0 0, NackIn 5 1 0, Drain]))) 5) \<le> 1"
proof -
  let ?e = "[Sent 5, NackIn 5 0 0, NackIn 5 1 0, Drain]"
  have h: "(0 :: int) \<le> 1" "card (sents_of ?e) \<le> 4096" "nl_run 1 ?e = (fst (nl_run 1 ?e), snd (nl_run 1 ?e))" by simp_all
  from retransmits_bounded [OF h, of 5] show ?thesis by blast
qed

end
