(* ===== verification/Reorder.thy ===== *)
theory Reorder
  imports Topo "HOL-Library.Multiset"
begin

text \<open>
  The reorder bookkeeping of \<^verbatim>\<open>srv6_mrc/reorder.py\<close>: per flow, the arrivals, duplicates within a
  bounded window of sequence numbers, and the histogram of how far behind the highest sequence
  number each arrival was. Sequence numbers and planes are Python ints.
\<close>

record flow_stats =
  fs_flow :: flow_key
  first_seq :: "int option"
  last_seq_seen :: int
  fs_received :: int
  duplicates :: int
  per_plane :: "(int \<times> int) list"
  reorder_hist :: "(int \<times> int) list"
  seq_window :: "int set"
  window_cap :: nat

definition new_flow_stats :: "flow_key \<Rightarrow> flow_stats" where
  "new_flow_stats f =
     \<lparr>fs_flow = f, first_seq = None, last_seq_seen = -1, fs_received = 0, duplicates = 0,
      per_plane = [], reorder_hist = [], seq_window = {}, window_cap = 4096\<rparr>"

text \<open>\<open>d[k] = d.get(k, 0) + 1\<close>.\<close>

definition dict_inc :: "'k \<Rightarrow> ('k \<times> int) list \<Rightarrow> ('k \<times> int) list" where
  "dict_inc k d = dict_put k ((case dict_get d k of None \<Rightarrow> 0 | Some n \<Rightarrow> n) + 1) d"

definition fs_observe :: "flow_stats \<Rightarrow> int \<Rightarrow> int option \<Rightarrow> flow_stats" where
  "fs_observe st seq plane =
     (let st1 = (case first_seq st of None \<Rightarrow> st\<lparr>first_seq := Some seq\<rparr> | Some _ \<Rightarrow> st) in
      if seq \<in> seq_window st1 then st1\<lparr>duplicates := duplicates st1 + 1\<rparr>
      else
        let w = insert seq (seq_window st1);
            st2 = st1\<lparr>seq_window := (if window_cap st1 < card w then w - {Min w} else w)\<rparr>;
            st3 = st2\<lparr>fs_received := fs_received st2 + 1\<rparr>;
            st4 = (case plane of None \<Rightarrow> st3 | Some p \<Rightarrow> st3\<lparr>per_plane := dict_inc p (per_plane st3)\<rparr>)
        in if last_seq_seen st4 < seq
           then st4\<lparr>last_seq_seen := seq, reorder_hist := dict_inc 0 (reorder_hist st4)\<rparr>
           else st4\<lparr>reorder_hist := dict_inc (last_seq_seen st4 - seq) (reorder_hist st4)\<rparr>)"

subsection \<open>Derived metrics\<close>

definition fs_expected :: "flow_stats \<Rightarrow> int" where
  "fs_expected st = (case first_seq st of None \<Rightarrow> 0 | Some a \<Rightarrow> last_seq_seen st - a + 1)"

definition fs_loss :: "flow_stats \<Rightarrow> int" where
  "fs_loss st = max 0 (fs_expected st - fs_received st)"

definition reorder_max :: "flow_stats \<Rightarrow> int" where
  "reorder_max st = (case map fst (reorder_hist st) of [] \<Rightarrow> 0 | k # ks \<Rightarrow> foldl max k ks)"

definition reorder_mean :: "flow_stats \<Rightarrow> pyfloat" where
  "reorder_mean st =
     (if reorder_hist st = [] then 0
      else let total_n = sum_list (map snd (reorder_hist st));
               weighted_n = sum_list (map (\<lambda>(d, c). d * c) (reorder_hist st))
           in int_truediv weighted_n total_n)"

fun percentile_scan :: "(int \<times> int) list \<Rightarrow> pyfloat \<Rightarrow> int \<Rightarrow> int list \<Rightarrow> int option" where
  "percentile_scan h target cum [] = None"
| "percentile_scan h target cum (d # ds) =
     (let cum' = cum + the (dict_get h d)
      in if target \<le> of_int cum' then Some d else percentile_scan h target cum' ds)"

text \<open>The percentile is a Python int, as in the one call of the program.\<close>

definition reorder_percentile :: "flow_stats \<Rightarrow> int \<Rightarrow> int result" where
  "reorder_percentile st pct =
     (if reorder_hist st = [] then Inr 0
      else bindE (raise_if (\<not> (0 < pct \<and> pct \<le> 100)) ValueError) (\<lambda>_.
        let total_n = sum_list (map snd (reorder_hist st));
            target = fdiv (float_of_int (total_n * pct)) 100
        in Inr (case percentile_scan (reorder_hist st) target 0 (sort (map fst (reorder_hist st))) of
                  Some d \<Rightarrow> d | None \<Rightarrow> reorder_max st)))"

text \<open>\<open>to_dict\<close>, with the integer keys of the two histograms as the text \<open>json\<close> writes for them.\<close>

definition int_hist_json :: "(int \<times> int) list \<Rightarrow> json" where
  "int_hist_json h = JObj (map (\<lambda>(k, n). (int_str k, JInt n)) (sort_key fst h))"

definition flow_stats_json :: "flow_stats \<Rightarrow> json result" where
  "flow_stats_json st =
     bindE (reorder_percentile st 99) (\<lambda>p99.
       Inr (JObj
         [(''src'', JStr (src_addr (fs_flow st))), (''dst'', JStr (dst_addr (fs_flow st))),
          (''sport'', JInt (src_port (fs_flow st))), (''dport'', JInt (dst_port (fs_flow st))),
          (''received'', JInt (fs_received st)), (''duplicates'', JInt (duplicates st)),
          (''first_seq'', jopt_int (first_seq st)),
          (''last_seq'', case first_seq st of None \<Rightarrow> JNull | Some _ \<Rightarrow> JInt (last_seq_seen st)),
          (''expected'', JInt (fs_expected st)), (''loss'', JInt (fs_loss st)),
          (''per_plane_recv'', int_hist_json (per_plane st)),
          (''reorder_hist'', int_hist_json (reorder_hist st)),
          (''reorder_max'', JInt (reorder_max st)),
          (''reorder_mean'', JFloat (py_round (reorder_mean st) 3)),
          (''reorder_p99'', JInt p99)]))"

subsection \<open>The tracker\<close>

type_synonym reorder_tracker = "(flow_key \<times> flow_stats) list"

definition tracker_observe :: "reorder_tracker \<Rightarrow> flow_key \<Rightarrow> int \<Rightarrow> int option \<Rightarrow> reorder_tracker" where
  "tracker_observe tr f seq plane =
     (let st = (case dict_get tr f of None \<Rightarrow> new_flow_stats f | Some st \<Rightarrow> st)
      in dict_put f (fs_observe st seq plane) tr)"

definition tracker_flows :: "reorder_tracker \<Rightarrow> flow_stats list" where
  "tracker_flows tr = map snd tr"

definition tracker_json :: "reorder_tracker \<Rightarrow> json result" where
  "tracker_json tr = bindE (mapE flow_stats_json (map snd tr)) (\<lambda>fs. Inr (JObj [(''flows'', JList fs)]))"

subsection \<open>Histories\<close>

text \<open>
  What the statistics of a flow mean: a function of the arrivals, in order. \<open>firsts\<close> are the
  arrivals of a sequence number not seen before; \<open>lateness\<close> is how far behind the highest earlier
  one each of them was.
\<close>

type_synonym arrival = "int \<times> int option"

definition run_flow :: "flow_key \<Rightarrow> arrival list \<Rightarrow> flow_stats" where
  "run_flow f hist = foldl (\<lambda>st (seq, plane). fs_observe st seq plane) (new_flow_stats f) hist"

fun firsts :: "int set \<Rightarrow> arrival list \<Rightarrow> arrival list" where
  "firsts seen [] = []"
| "firsts seen ((seq, plane) # hist) =
     (if seq \<in> seen then firsts seen hist else (seq, plane) # firsts (insert seq seen) hist)"

fun lateness :: "int \<Rightarrow> int list \<Rightarrow> int list" where
  "lateness top_seq [] = []"
| "lateness top_seq (s # ss) = (if top_seq < s then 0 # lateness s ss else (top_seq - s) # lateness top_seq ss)"

text \<open>Counts kept by repeated increments.\<close>

definition counts_of :: "'k list \<Rightarrow> ('k \<times> int) list" where
  "counts_of ks = foldl (\<lambda>d k. dict_inc k d) [] ks"

lemma dict_inc_get: "dict_get (dict_inc k d) j =
    (if j = k then Some ((case dict_get d k of None \<Rightarrow> 0 | Some n \<Rightarrow> n) + 1) else dict_get d j)"
  by (simp add: dict_inc_def)

lemma dict_inc_ok [simp]: "dict_ok d \<Longrightarrow> dict_ok (dict_inc k d)"
  by (simp add: dict_inc_def)

lemma counts_of_snoc [simp]: "counts_of (ks @ [k]) = dict_inc k (counts_of ks)"
  by (simp add: counts_of_def)

lemma counts_of_Nil [simp]: "counts_of [] = []"
  by (simp add: counts_of_def)

lemma dict_get_counts:
  "dict_get (counts_of ks) k = (if k \<in> set ks then Some (int (count (mset ks) k)) else None)"
proof (induction ks rule: rev_induct)
  case (snoc x ks)
  then show ?case by (auto simp: dict_inc_get not_in_iff)
qed simp

lemma dict_ok_counts [simp]: "dict_ok (counts_of ks)"
  by (induction ks rule: rev_induct) auto

lemma sum_dict_inc: "sum_list (map snd (dict_inc k d)) = sum_list (map snd d) + (1 :: int)"
proof (induction d)
  case (Cons x d)
  then show ?case by (cases x) (auto simp: dict_inc_def)
qed (simp add: dict_inc_def)

lemma sum_counts: "sum_list (map snd (counts_of ks)) = int (length ks)"
  by (induction ks rule: rev_induct) (simp_all add: sum_dict_inc)

lemma firsts_snoc:
  "firsts seen (hist @ [(seq, plane)]) =
     (if seq \<in> seen \<union> fst ` set hist then firsts seen hist else firsts seen hist @ [(seq, plane)])"
  by (induction seen hist rule: firsts.induct) auto

lemma firsts_set: "fst ` set (firsts seen hist) = fst ` set hist - seen"
  by (induction seen hist rule: firsts.induct) auto

lemma firsts_distinct: "distinct (map fst (firsts seen hist))"
proof (induction seen hist rule: firsts.induct)
  case (2 seen seq plane hist)
  have "seq \<notin> set (map fst (firsts (insert seq seen) hist))"
    using firsts_set [of "insert seq seen" hist] by auto
  then show ?case using 2 by auto
qed simp

lemma lateness_snoc:
  "lateness t (ss @ [s]) = lateness t ss @ [let m = foldl max t ss in if m < s then 0 else m - s]"
  by (induction t ss rule: lateness.induct) (auto simp: max_def)

subsection \<open>The statistics are those of the history\<close>

lemma firsts_count: "length (firsts {} hist) = card (fst ` set hist)"
  using distinct_card [OF firsts_distinct [of "{}" hist]] firsts_set [of "{}" hist] by simp

lemma run_flow_tracks:
  assumes "card (fst ` set hist) \<le> 4096"
  shows "run_flow f hist =
    \<lparr>fs_flow = f, first_seq = (case hist of [] \<Rightarrow> None | a # _ \<Rightarrow> Some (fst a)),
     last_seq_seen = foldl max (-1) (map fst (firsts {} hist)),
     fs_received = int (length (firsts {} hist)), duplicates = int (length hist - length (firsts {} hist)),
     per_plane = counts_of (List.map_filter snd (firsts {} hist)),
     reorder_hist = counts_of (lateness (-1) (map fst (firsts {} hist))),
     seq_window = fst ` set hist, window_cap = 4096\<rparr>"
  using assms
proof (induction hist rule: rev_induct)
  case Nil
  then show ?case by (simp add: run_flow_def new_flow_stats_def)
next
  case (snoc a hist)
  obtain seq plane where a: "a = (seq, plane)" by fastforce
  have sub: "card (fst ` set hist) \<le> card (fst ` set (hist @ [a]))" by (intro card_mono) auto
  then have IH: "run_flow f hist =
    \<lparr>fs_flow = f, first_seq = (case hist of [] \<Rightarrow> None | a # _ \<Rightarrow> Some (fst a)),
     last_seq_seen = foldl max (-1) (map fst (firsts {} hist)),
     fs_received = int (length (firsts {} hist)), duplicates = int (length hist - length (firsts {} hist)),
     per_plane = counts_of (List.map_filter snd (firsts {} hist)),
     reorder_hist = counts_of (lateness (-1) (map fst (firsts {} hist))),
     seq_window = fst ` set hist, window_cap = 4096\<rparr>" using snoc by simp
  have step: "run_flow f (hist @ [(seq, plane)]) = fs_observe (run_flow f hist) seq plane"
    by (simp add: run_flow_def)
  have first: "(case hist @ [(seq, plane)] of [] \<Rightarrow> None | a # _ \<Rightarrow> Some (fst a)) =
      (case (case hist of [] \<Rightarrow> None | a # _ \<Rightarrow> Some (fst a)) of None \<Rightarrow> Some seq | Some x \<Rightarrow> Some x)"
    by (cases hist) simp_all
  have len: "length (firsts {} hist) \<le> length hist"
    unfolding firsts_count by (metis card_image_le card_length finite_set le_trans)
  have cap: "\<not> 4096 < card (insert seq (fst ` set hist))" using snoc.prems by (simp add: a)
  show ?case
    unfolding a step first IH using cap len
    by (cases "seq \<in> fst ` set hist"; cases plane)
      (auto simp: fs_observe_def firsts_snoc Let_def lateness_snoc map_filter_simps
        List.map_filter_def insert_absorb Suc_diff_le split: option.splits)
qed

end
