(* ===== verification/SenderLoop.thy ===== *)
theory SenderLoop
  imports Framing Trim Reorder
begin

text \<open>
  The sender of \<^verbatim>\<open>srv6_mrc/runner.py\<close>: the flow end points, the result record and the send loop with
  its per-packet steps (pick, trim oracle, template, socket, counters, fast retransmit, pacing, drain).
  The policy is a parameter with its own state; the clock, the stop event, the datagrams the listener
  thread has handled and the failing \<open>sendto\<close> calls are inputs. A listener thread's datagrams arrive
  between two turns of the loop, as every access to its state is under its lock.
\<close>

subsection \<open>End points and results\<close>

record flow_endpoint =
  fe_tenant :: string
  fe_src_id :: int
  fe_dst_id :: int
  fe_src_port :: int
  fe_dst_port :: int

definition mk_flow_endpoint :: "string \<Rightarrow> int \<Rightarrow> int \<Rightarrow> flow_endpoint" where
  "mk_flow_endpoint tenant src_id dst_id =
     \<lparr>fe_tenant = tenant, fe_src_id = src_id, fe_dst_id = dst_id, fe_src_port = SPRAY_PORT, fe_dst_port = SPRAY_PORT\<rparr>"

definition to_flow_key :: "topo \<Rightarrow> flow_endpoint \<Rightarrow> flow_key result" where
  "to_flow_key g f =
     bindE (inner_addr g (fe_tenant f) (fe_src_id f)) (\<lambda>src.
     bindE (inner_addr g (fe_tenant f) (fe_dst_id f)) (\<lambda>dst.
       Inr \<lparr>src_addr = src, dst_addr = dst, src_port = fe_src_port f, dst_port = fe_dst_port f\<rparr>))"

record sender_result =
  sr_flow :: flow_endpoint
  sr_policy :: string
  sr_rate_pps :: int
  sr_duration_s :: pyfloat
  sr_sent :: int
  sr_elapsed_s :: pyfloat
  sr_per_plane :: "(int \<times> int) list"
  sr_per_ev :: "((int \<times> int) \<times> int) list"
  sr_errors :: int
  sr_spine :: int
  sr_sid_mode :: string
  sr_transport :: string
  sr_trim :: "trim_stats option"

definition host_for :: "string \<Rightarrow> int \<Rightarrow> string" where
  "host_for tenant host_id = tenant @ ''-host'' @ dec_pad2 host_id"

text \<open>The pairs are sorted by plane, then spine: a stable sort by the second, then by the first.\<close>

definition ev_label :: "int \<times> int \<Rightarrow> string" where
  "ev_label e = (case e of (p, s) \<Rightarrow> ''P'' @ int_str p @ '':S'' @ int_str s)"

definition sender_result_json :: "sender_result \<Rightarrow> json" where
  "sender_result_json r = JObj
     ([(''src'', JStr (host_for (fe_tenant (sr_flow r)) (fe_src_id (sr_flow r)))),
       (''dst'', JStr (host_for (fe_tenant (sr_flow r)) (fe_dst_id (sr_flow r)))),
       (''tenant'', JStr (fe_tenant (sr_flow r))), (''policy'', JStr (sr_policy r)),
       (''rate_pps'', JInt (sr_rate_pps r)), (''duration_s'', JFloat (sr_duration_s r)),
       (''spine'', JInt (sr_spine r)), (''sid_mode'', JStr (sr_sid_mode r)),
       (''transport'', JStr (sr_transport r)), (''sent'', JInt (sr_sent r)),
       (''elapsed_s'', JFloat (py_round (sr_elapsed_s r) 3)),
       (''per_plane_sent'', int_hist_json (sr_per_plane r)),
       (''per_ev_sent'', JObj (map (\<lambda>(e, n). (ev_label e, JInt n))
          (sort_key (\<lambda>(e, n). fst e) (sort_key (\<lambda>(e, n). snd e) (sr_per_ev r))))),
       (''errors'', JInt (sr_errors r))]
      @ (case sr_trim r of None \<Rightarrow> [] | Some t \<Rightarrow> [(''trim'', trim_stats_json t)]))"

subsection \<open>The state of a run\<close>

text \<open>A policy that exposes \<open>pick_ev\<close>, or one that only picks planes.\<close>

datatype 'p picker =
    EvPicker "'p \<Rightarrow> int \<Rightarrow> flow_key \<Rightarrow> ('p \<times> int \<times> int) result"
  | PlanePicker "'p \<Rightarrow> int \<Rightarrow> flow_key \<Rightarrow> ('p \<times> int) result"

fun ev_aware :: "'p picker \<Rightarrow> bool" where
  "ev_aware (EvPicker _) = True"
| "ev_aware (PlanePicker _) = False"

text \<open>What \<open>run_sender\<close> fixes before its loop, the external code and the failing sends.\<close>

record 'p sender_env =
  se_topo :: topo
  se_scapy :: "layer \<Rightarrow> bytes result"
  se_rng :: "int \<Rightarrow> nat \<Rightarrow> pyfloat"
  se_fails :: "nat \<Rightarrow> bool"
  se_picker :: "'p picker"
  se_flow :: flow_endpoint
  se_key :: flow_key
  se_spine :: int
  se_sid_mode :: string
  se_underlay :: "string list"
  se_fixed :: "string list"

text \<open>
  \<open>ss_wire\<close> is what the sockets were given: plane, outer destination, bytes. \<open>ss_calls\<close> are the calls of
  the progress callback. The counters of a trimming run are those of its listener (one shared object).
\<close>

record 'p sender_state =
  ss_policy :: 'p
  ss_templates :: packet_templates
  ss_oracle :: "trim_oracle option"
  ss_nack :: nack_listener
  ss_sent :: int
  ss_errors :: int
  ss_per_plane :: "(int \<times> int) list"
  ss_per_ev :: "((int \<times> int) \<times> int) list"
  ss_attempts :: nat
  ss_wire :: "(int \<times> string \<times> bytes) list"
  ss_calls :: "(int \<times> int \<times> int) list"

definition sender_setup ::
  "topo \<Rightarrow> (layer \<Rightarrow> bytes result) \<Rightarrow> (int \<Rightarrow> nat \<Rightarrow> pyfloat) \<Rightarrow> (nat \<Rightarrow> bool) \<Rightarrow> (int \<Rightarrow> bool) \<Rightarrow> 'p picker \<Rightarrow> 'p \<Rightarrow>
   flow_endpoint \<Rightarrow> string \<Rightarrow> string \<Rightarrow> trim_spec option \<Rightarrow> ('p sender_env \<times> 'p sender_state) result" where
  "sender_setup g scapy rng fails can_open picker policy f sid_mode transport trim =
     bindE (raise_if (fe_src_id f = fe_dst_id f) ValueError) (\<lambda>_.
     bindE (spine_for g (fe_src_id f) (fe_dst_id f)) (\<lambda>spine.
     bindE (inner_addr g (fe_tenant f) (fe_src_id f)) (\<lambda>src_inner.
     bindE (inner_addr g (fe_tenant f) (fe_dst_id f)) (\<lambda>dst_inner.
     bindE (to_flow_key g f) (\<lambda>key.
     bindE (mapE (\<lambda>p.
              bindE (raise_if (\<not> can_open p) OSError) (\<lambda>_.
              bindE (host_underlay_addr g (fe_tenant f) p (fe_src_id f)) (\<lambda>src_u.
              bindE (usid_outer_dst g (fe_tenant f) p spine (fe_dst_id f) sid_mode) (\<lambda>outer.
                Inr (src_u, outer))))) [0..NUM_PLANES g - 1]) (\<lambda>meta.
       Inr (\<lparr>se_topo = g, se_scapy = scapy, se_rng = rng, se_fails = fails, se_picker = picker, se_flow = f,
             se_key = key, se_spine = spine, se_sid_mode = sid_mode,
             se_underlay = map fst meta, se_fixed = map snd meta\<rparr>,
            \<lparr>ss_policy = policy, ss_templates = mk_packet_templates src_inner dst_inner transport,
             ss_oracle = map_option (\<lambda>sp. \<lparr>or_spec = sp, or_drawn = 0\<rparr>) trim,
             ss_nack = mk_nack_listener (case trim of None \<Rightarrow> 0 | Some sp \<Rightarrow> trim_max_retransmits sp) new_trim_stats,
             ss_sent = 0, ss_errors = 0, ss_per_plane = [], ss_per_ev = [], ss_attempts = 0, ss_wire = [],
             ss_calls = []\<rparr>)))))))"

subsection \<open>One packet\<close>

text \<open>The counters of a packet that was handed to the network, or dropped by the oracle.\<close>

definition count_sent :: "'p sender_env \<Rightarrow> 'p sender_state \<Rightarrow> int \<Rightarrow> int \<Rightarrow> 'p sender_state" where
  "count_sent E s plane ev_spine =
     s\<lparr>ss_per_plane := dict_inc plane (ss_per_plane s),
       ss_per_ev := (if ev_aware (se_picker E) then dict_inc (plane, ev_spine) (ss_per_ev s) else ss_per_ev s)\<rparr>"

definition count_trim :: "(trim_stats \<Rightarrow> trim_stats) \<Rightarrow> 'p sender_state \<Rightarrow> 'p sender_state" where
  "count_trim f s = s\<lparr>ss_nack := (ss_nack s)\<lparr>nl_stats := f (nl_stats (ss_nack s))\<rparr>\<rparr>"

text \<open>\<open>templates.build\<close>, then \<open>sockets[plane].sendto\<close>; the template cache survives a failing send.\<close>

definition build_step ::
  "'p sender_env \<Rightarrow> 'p sender_state \<Rightarrow> int \<Rightarrow> int \<Rightarrow> int \<Rightarrow> string \<Rightarrow> string \<Rightarrow> bool \<Rightarrow> 'p sender_state \<times> bytes result" where
  "build_step E s sq plane ev_spine src_u outer trimmed =
     (let (tp, r) = tp_build (se_scapy E) (se_topo E) (ss_templates s) sq plane ev_spine src_u outer trimmed
      in (s\<lparr>ss_templates := tp\<rparr>, r))"

definition sendto :: "'p sender_env \<Rightarrow> 'p sender_state \<Rightarrow> int \<Rightarrow> string \<Rightarrow> bytes \<Rightarrow> 'p sender_state \<times> unit result" where
  "sendto E s plane outer pkt =
     (let s1 = s\<lparr>ss_attempts := ss_attempts s + 1\<rparr>
      in if se_fails E (ss_attempts s) then (s1, Inl OSError)
         else (s1\<lparr>ss_wire := ss_wire s1 @ [(plane, outer, pkt)]\<rparr>, Inr ()))"

definition count_error :: "'p sender_state \<Rightarrow> py_error \<Rightarrow> 'p sender_state" where
  "count_error s e = (if e = OSError then s\<lparr>ss_errors := ss_errors s + 1\<rparr> else s)"

text \<open>\<open>emit\<close>: through the oracle, the template and the socket to the counters.\<close>

definition ask_oracle :: "'p sender_env \<Rightarrow> 'p sender_state \<Rightarrow> int \<Rightarrow> int \<Rightarrow> 'p sender_state \<times> bool \<times> bool" where
  "ask_oracle E s plane ev_spine =
     (case ss_oracle s of
        None \<Rightarrow> (s, False, False)
      | Some o1 \<Rightarrow>
          let (o2, hit) = oracle_hits (se_rng E) o1 plane ev_spine; s1 = s\<lparr>ss_oracle := Some o2\<rparr>
          in if \<not> hit then (s1, False, False)
             else if trim_mode (or_spec o2) = ''trim''
             then (count_trim (\<lambda>t. t\<lparr>ts_trimmed := ts_trimmed t + 1\<rparr>) s1, True, False)
             else (count_trim (\<lambda>t. t\<lparr>ts_dropped := ts_dropped t + 1\<rparr>) s1, False, True))"

definition to_network ::
  "'p sender_env \<Rightarrow> 'p sender_state \<Rightarrow> int \<Rightarrow> int \<Rightarrow> int \<Rightarrow> string \<Rightarrow> string \<Rightarrow> bool \<Rightarrow> bool \<Rightarrow> 'p sender_state \<times> unit result" where
  "to_network E s sq plane ev u d trimmed dropped =
     (if dropped then (s, Inr ())
      else case build_step E s sq plane ev u d trimmed of
        (s', Inl e) \<Rightarrow> (s', Inl e) | (s', Inr pkt) \<Rightarrow> sendto E s' plane d pkt)"

definition emit ::
  "'p sender_env \<Rightarrow> 'p sender_state \<Rightarrow> int \<Rightarrow> int \<Rightarrow> int \<Rightarrow> string \<Rightarrow> string \<Rightarrow> 'p sender_state \<times> unit result" where
  "emit E s sq plane ev_spine src_u outer =
     (let (s1, trimmed, dropped) = ask_oracle E s plane ev_spine;
          (s2, r) = to_network E s1 sq plane ev_spine src_u outer trimmed dropped
      in case r of
           Inl e \<Rightarrow> (count_error s2 e, Inl e)
         | Inr u \<Rightarrow>
             let s3 = count_sent E s2 plane ev_spine;
                 s4 = (if ss_oracle s3 \<noteq> None then s3\<lparr>ss_nack := note_sent (ss_nack s3) sq\<rparr> else s3)
             in (s4\<lparr>ss_calls := ss_calls s4 @ [(sq, plane, ev_spine)]\<rparr>, Inr ()))"

subsection \<open>Fast retransmit\<close>

definition list_at :: "'a list \<Rightarrow> int \<Rightarrow> 'a result" where
  "list_at xs i = (if 0 \<le> i \<and> i < int (length xs) then Inr (xs ! nat i) else Inl KeyError)"

definition resolve :: "'p sender_env \<Rightarrow> int \<Rightarrow> int \<Rightarrow> (string \<times> string) result" where
  "resolve E plane ev_spine =
     (if \<not> ev_aware (se_picker E)
      then bindE (list_at (se_underlay E) plane) (\<lambda>u. bindE (list_at (se_fixed E) plane) (\<lambda>d. Inr (u, d)))
      else bindE (usid_outer_dst (se_topo E) (fe_tenant (se_flow E)) plane ev_spine (fe_dst_id (se_flow E)) (se_sid_mode E))
             (\<lambda>outer. bindE (list_at (se_underlay E) plane) (\<lambda>u. Inr (u, outer))))"

definition pick_any :: "'p sender_env \<Rightarrow> 'p \<Rightarrow> int \<Rightarrow> ('p \<times> int \<times> int) result" where
  "pick_any E p sq =
     (case se_picker E of
        EvPicker pick_ev \<Rightarrow> pick_ev p sq (se_key E)
      | PlanePicker pick \<Rightarrow> bindE (pick p sq (se_key E)) (\<lambda>(p', plane). Inr (p', plane, se_spine E)))"

text \<open>Up to eight later picks; the last one is taken when none differs.\<close>

fun pick_other :: "'p sender_env \<Rightarrow> 'p \<Rightarrow> int \<Rightarrow> int \<times> int \<Rightarrow> nat \<Rightarrow> int \<Rightarrow> ('p \<times> int \<times> int) result" where
  "pick_other E p sq avoid 0 k = pick_any E p (sq + k)"
| "pick_other E p sq avoid (Suc n) k =
     bindE (pick_any E p (sq + k)) (\<lambda>(p', ev). if ev \<noteq> avoid then Inr (p', ev) else pick_other E p' sq avoid n (k + 1))"

definition pick_other_ev :: "'p sender_env \<Rightarrow> 'p \<Rightarrow> int \<Rightarrow> int \<times> int \<Rightarrow> ('p \<times> int \<times> int) result" where
  "pick_other_ev E p sq avoid = pick_other E p sq avoid 7 1"

fun retransmit_all :: "'p sender_env \<Rightarrow> 'p sender_state \<Rightarrow> retransmit_request list \<Rightarrow> 'p sender_state \<times> unit result" where
  "retransmit_all E s [] = (s, Inr ())"
| "retransmit_all E s ((rseq, tplane, tpath) # reqs) =
     (case pick_other_ev E (ss_policy s) rseq (tplane, tpath) of
        Inl e \<Rightarrow> (s, Inl e)
      | Inr (p, rplane, rspine) \<Rightarrow>
          let s1 = s\<lparr>ss_policy := p\<rparr> in
          case resolve E rplane rspine of
            Inl e \<Rightarrow> (s1, Inl e)
          | Inr (r_src, r_outer) \<Rightarrow>
              (case emit E s1 rseq rplane rspine r_src r_outer of
                 (s2, Inr _) \<Rightarrow> retransmit_all E (count_trim (\<lambda>t. t\<lparr>retransmits := retransmits t + 1\<rparr>) s2) reqs
               | (s2, Inl e) \<Rightarrow> if e = OSError then retransmit_all E s2 reqs else (s2, Inl e)))"

definition retransmit_nacked :: "'p sender_env \<Rightarrow> 'p sender_state \<Rightarrow> 'p sender_state \<times> unit result" where
  "retransmit_nacked E s = (let (l, reqs) = nl_take (ss_nack s) in retransmit_all E (s\<lparr>ss_nack := l\<rparr>) reqs)"

subsection \<open>The send loop\<close>

text \<open>One new packet with sequence number \<open>sq\<close>.\<close>

definition send_new :: "'p sender_env \<Rightarrow> 'p sender_state \<Rightarrow> int \<Rightarrow> 'p sender_state \<times> unit result" where
  "send_new E s sq =
     (case pick_any E (ss_policy s) sq of
        Inl e \<Rightarrow> (s, Inl e)
      | Inr (p, plane, ev_spine) \<Rightarrow>
          let s1 = s\<lparr>ss_policy := p\<rparr> in
          if \<not> (0 \<le> plane \<and> plane < NUM_PLANES (se_topo E)) then (s1, Inl RuntimeError)
          else case resolve E plane ev_spine of
            Inl e \<Rightarrow> (s1, Inl e)
          | Inr (src_u, outer) \<Rightarrow>
              if ss_oracle s1 \<noteq> None
              then (case emit E s1 sq plane ev_spine src_u outer of
                      (s2, Inr _) \<Rightarrow> (s2\<lparr>ss_sent := ss_sent s2 + 1\<rparr>, Inr ())
                    | (s2, Inl e) \<Rightarrow> if e = OSError then (s2, Inr ()) else (s2, Inl e))
              else (case build_step E s1 sq plane ev_spine src_u outer False of
                      (s2, Inl e) \<Rightarrow> (s2, Inl e)
                    | (s2, Inr pkt) \<Rightarrow>
                        (case sendto E s2 plane outer pkt of
                           (s3, Inr _) \<Rightarrow>
                             let s4 = count_sent E s3 plane ev_spine
                             in (s4\<lparr>ss_sent := ss_sent s4 + 1, ss_calls := ss_calls s4 @ [(sq, plane, ev_spine)]\<rparr>, Inr ())
                         | (s3, Inl e) \<Rightarrow> (count_error s3 e, Inr ()))))"

text \<open>
  A turn's inputs: the clock at the loop's test, the stop event, a keyboard interrupt (delivered
  at the turn's start), the NACK datagrams handled since the last turn, and the clock readings of the pacing.
\<close>

record turn_in =
  ti_now :: pyfloat
  ti_stop :: bool
  ti_interrupt :: bool
  ti_nacks :: "bytes list"
  ti_after :: pyfloat
  ti_late :: pyfloat

datatype run_status = Running | Finished | Raised py_error

definition hear_nacks :: "'p sender_state \<Rightarrow> bytes list \<Rightarrow> 'p sender_state" where
  "hear_nacks s datagrams =
     (if ss_oracle s = None then s else s\<lparr>ss_nack := foldl nl_receive (ss_nack s) datagrams\<rparr>)"

text \<open>The time the next packet is due, and the pause until then; a late sender free-runs.\<close>

definition pace :: "pyfloat \<Rightarrow> pyfloat \<Rightarrow> turn_in \<Rightarrow> pyfloat \<times> pyfloat" where
  "pace interval next_tx i =
     (if 0 < interval
      then let next_tx' = fadd next_tx interval; slack = fsub next_tx' (ti_after i)
           in if 0 < slack then (next_tx', slack) else (ti_late i, 0)
      else (next_tx, 0))"

definition send_interval :: "int \<Rightarrow> pyfloat" where
  "send_interval rate_pps = (if 0 < rate_pps then fdiv 1 (float_of_int rate_pps) else 0)"

definition send_deadline :: "pyfloat \<Rightarrow> pyfloat \<Rightarrow> pyfloat option" where
  "send_deadline t_start duration_s = (if 0 < duration_s then Some (fadd t_start duration_s) else None)"

type_synonym 'p loop_state = "'p sender_state \<times> int \<times> pyfloat"

definition turn ::
  "'p sender_env \<Rightarrow> pyfloat \<Rightarrow> pyfloat option \<Rightarrow> turn_in \<Rightarrow> 'p loop_state \<Rightarrow> 'p loop_state \<times> run_status" where
  "turn E interval deadline i st =
     (case st of (s, sq, next_tx) \<Rightarrow>
       if ti_interrupt i \<or> \<not> (case deadline of None \<Rightarrow> True | Some d \<Rightarrow> ti_now i < d) \<or> ti_stop i
       then ((s, sq, next_tx), Finished)
       else let s1 = hear_nacks s (ti_nacks i) in
         case (if ss_oracle s1 \<noteq> None then retransmit_nacked E s1 else (s1, Inr ())) of
           (s2, Inl e) \<Rightarrow> ((s2, sq, next_tx), Raised e)
         | (s2, Inr _) \<Rightarrow>
             (case send_new E s2 sq of
                (s3, Inl e) \<Rightarrow> ((s3, sq, next_tx), Raised e)
              | (s3, Inr _) \<Rightarrow> ((s3, sq + 1, fst (pace interval next_tx i)), Running)))"

fun send_loop ::
  "'p sender_env \<Rightarrow> pyfloat \<Rightarrow> pyfloat option \<Rightarrow> turn_in list \<Rightarrow> 'p loop_state \<Rightarrow> 'p loop_state \<times> run_status" where
  "send_loop E interval deadline [] st = (st, Running)"
| "send_loop E interval deadline (i # ins) st =
     (case turn E interval deadline i st of
        (st', Running) \<Rightarrow> send_loop E interval deadline ins st' | (st', status) \<Rightarrow> (st', status))"

text \<open>After the last new packet: NACKs are answered until the drain time is over.\<close>

fun drain_loop :: "'p sender_env \<Rightarrow> pyfloat \<Rightarrow> (pyfloat \<times> bytes list) list \<Rightarrow> 'p sender_state \<Rightarrow> 'p sender_state \<times> run_status" where
  "drain_loop E until [] s = (s, Running)"
| "drain_loop E until ((now, datagrams) # ins) s =
     (if now < until
      then (case retransmit_nacked E (hear_nacks s datagrams) of
              (s', Inr _) \<Rightarrow> drain_loop E until ins s' | (s', Inl e) \<Rightarrow> (s', Raised e))
      else (s, Finished))"

definition NACK_DRAIN_S :: pyfloat where "NACK_DRAIN_S = rnd (1 / 2)"

definition sender_outcome ::
  "'p sender_env \<Rightarrow> 'p sender_state \<Rightarrow> string \<Rightarrow> int \<Rightarrow> pyfloat \<Rightarrow> pyfloat \<Rightarrow> string \<Rightarrow> sender_result" where
  "sender_outcome E s policy_name rate_pps duration_s elapsed transport =
     \<lparr>sr_flow = se_flow E, sr_policy = policy_name, sr_rate_pps = rate_pps, sr_duration_s = duration_s,
      sr_sent = ss_sent s, sr_elapsed_s = elapsed, sr_per_plane = ss_per_plane s, sr_per_ev = ss_per_ev s,
      sr_errors = ss_errors s, sr_spine = se_spine E, sr_sid_mode = se_sid_mode E, sr_transport = transport,
      sr_trim = (if ss_oracle s = None then None else Some (nl_stats (ss_nack s)))\<rparr>"

text \<open>
  \<open>run_sender\<close> from the socket set-up to the result. The drain is skipped without trimming and after a stop.
  Running out of inputs is a run that has not ended (\<open>Inr None\<close>).
\<close>

definition run_sender ::
  "'p sender_env \<Rightarrow> 'p sender_state \<Rightarrow> string \<Rightarrow> int \<Rightarrow> pyfloat \<Rightarrow> string \<Rightarrow> pyfloat \<Rightarrow> turn_in list \<Rightarrow> pyfloat \<Rightarrow> bool \<Rightarrow>
   (pyfloat \<times> bytes list) list \<Rightarrow> sender_result option result" where
  "run_sender E s0 policy_name rate_pps duration_s transport t_start ins t_end stopped drains =
     (case send_loop E (send_interval rate_pps) (send_deadline t_start duration_s) ins (s0, 0, t_start) of
        (_, Running) \<Rightarrow> Inr None
      | (_, Raised e) \<Rightarrow> Inl e
      | ((s, _), Finished) \<Rightarrow>
          let res = (\<lambda>s. sender_outcome E s policy_name rate_pps duration_s (fsub t_end t_start) transport) in
          if ss_oracle s \<noteq> None \<and> \<not> stopped
          then (case drain_loop E (fadd t_end NACK_DRAIN_S) drains s of
                  (_, Running) \<Rightarrow> Inr None | (_, Raised e) \<Rightarrow> Inl e
                | (s', Finished) \<Rightarrow> Inr (Some (res s')))
          else Inr (Some (res s)))"

end
