(* ===== verification/FramingProperties.thy ===== *)
theory FramingProperties
  imports Framing TopoProperties
begin

text \<open>
  The byte templates of the hot path against the scapy builder: the same bytes, for both
  transports, trimmed or not. scapy's documented output is the hypothesis: fixed headers that depend
  on addresses, ports and length, the UDP checksum of RFC 2460, the ICRC of the RoCEv2 annex.
\<close>

subsection \<open>The checksum is determined\<close>

lemma csum_unique:
  assumes "length head = 86" "8 + int (length tail) < 2 ^ 32"
    and "udp6_valid (head @ [c, d] @ tail)" "be_int [c, d] \<noteq> 0"
    and "udp6_valid (head @ [c', d'] @ tail)" "be_int [c', d'] \<noteq> 0"
  shows "[c, d] = [c', d']"
proof -
  let ?n = "length tail"
  let ?pre = "words16 (blob_before head ?n)" and ?post = "words16 (blob_after ?n tail)"
  have val: "(sum_list ?pre + be_int [x, y] + sum_list ?post) mod 0xFFFF = 0"
    if "udp6_valid (head @ [x, y] @ tail)" for x y
    using that unfolding udp6_valid_iff [OF assms(1) refl] .
  define A where "A = sum_list ?pre + sum_list ?post"
  have "0xFFFF dvd (A + be_int [c, d]) - (A + be_int [c', d'])"
    using val [OF assms(3)] val [OF assms(5)] unfolding A_def
    by (intro dvd_diff) (simp_all add: mod_eq_0_iff_dvd algebra_simps)
  then have dv: "0xFFFF dvd be_int [c, d] - be_int [c', d']" by simp
  have "\<bar>be_int [c, d] - be_int [c', d']\<bar> < 0xFFFF"
    using be_int_pair [of c d] be_int_pair [of c' d'] assms(4,6) by linarith
  then have "be_int [c, d] = be_int [c', d']" using dvd_imp_le_int [OF _ dv] by fastforce
  then show ?thesis by (metis be_bytes_be_int length_Cons list.size(3))
qed

lemma checksum_determined:
  assumes "length head = 86" "8 + int (length tail) < 2 ^ 32"
    and "udp6_valid (head @ [c, d] @ tail)" "be_int [c, d] \<noteq> 0"
  shows "udp6_checksum_inplace (head @ [0, 0] @ tail) (int (length tail)) = Inr (head @ [c, d] @ tail)"
proof -
  obtain x y where xy: "udp6_checksum_inplace (head @ [0, 0] @ tail) (int (length tail)) = Inr (head @ [x, y] @ tail)"
    "be_int [x, y] \<noteq> 0" "udp6_valid (head @ [x, y] @ tail)"
    using udp6_checksum_writes [OF assms(1,2)] by blast
  have "[x, y] = [c, d]" by (rule csum_unique [OF assms(1,2) xy(3,2) assms(3,4)])
  then show ?thesis using xy(1) by simp
qed

subsection \<open>What scapy writes\<close>

text \<open>
  An IPv6-in-IPv6 UDP packet between fixed addresses: 40 bytes of outer header, 46 bytes of inner
  IPv6 and UDP header up to the checksum, a valid non-zero checksum, the payload.
\<close>

definition scapy_udp ::
  "(layer \<Rightarrow> bytes result) \<Rightarrow> (string \<Rightarrow> string \<Rightarrow> nat \<Rightarrow> bytes) \<Rightarrow> (string \<Rightarrow> string \<Rightarrow> int \<Rightarrow> int \<Rightarrow> nat \<Rightarrow> bytes) \<Rightarrow>
   string \<Rightarrow> string \<Rightarrow> string \<Rightarrow> string \<Rightarrow> bool" where
  "scapy_udp scapy outer inner su du si di \<longleftrightarrow>
     (\<forall>sp dp payload. 0 \<le> sp \<and> sp \<le> 0xFFFF \<and> 0 \<le> dp \<and> dp \<le> 0xFFFF \<and> length payload \<le> 0xFF00 \<longrightarrow>
        length (outer su du (length payload)) = 40 \<and> length (inner si di sp dp (length payload)) = 46
        \<and> (\<exists>c d. scapy (IPv6 su du (Some 41) (IPv6 si di None (UDP sp dp (Raw payload)))) =
               Inr (outer su du (length payload) @ inner si di sp dp (length payload) @ [c, d] @ payload)
             \<and> be_int [c, d] \<noteq> 0
             \<and> udp6_valid (outer su du (length payload) @ inner si di sp dp (length payload) @ [c, d] @ payload)))"

text \<open>
  RoCEv2: the BTH in front of the payload and after it the ICRC, the CRC-32 over eight bytes of ones,
  the IPv6 header with traffic class, flow label and hop limit masked, the UDP header with the
  checksum masked, the BTH with its reserved byte masked, and the payload.
\<close>

definition roce_masked :: "bytes \<Rightarrow> bytes \<Rightarrow> bytes" where
  "roce_masked hdr bth9 =
     replicate 8 0xFF @ [0x6F, 0xFF, 0xFF, 0xFF] @ take 3 (drop 4 hdr) @ [0xFF] @ take 32 (drop 8 hdr)
       @ take 6 (drop 40 hdr) @ [0xFF, 0xFF] @ take 4 bth9 @ [0xFF] @ drop 5 bth9"

definition scapy_roce ::
  "(layer \<Rightarrow> bytes result) \<Rightarrow> (string \<Rightarrow> string \<Rightarrow> int \<Rightarrow> int \<Rightarrow> nat \<Rightarrow> bytes) \<Rightarrow> (int \<Rightarrow> int \<Rightarrow> bytes) \<Rightarrow>
   string \<Rightarrow> string \<Rightarrow> bool" where
  "scapy_roce scapy inner bth si di \<longleftrightarrow>
     (\<forall>sp dp opcode dqpn psn p. 0 \<le> sp \<and> sp \<le> 0xFFFF \<and> 0 \<le> dp \<and> dp \<le> 0xFFFF \<and> 0 \<le> psn \<and> psn < 2 ^ 24
         \<and> length p \<le> 0xFE00 \<longrightarrow>
        length (bth opcode dqpn) = 9
        \<and> (\<exists>h. length h = 48 \<and> scapy (IPv6 si di None (UDP sp dp (BTH opcode dqpn psn (Raw p)))) =
             Inr (h @ bth opcode dqpn @ be_bytes 3 psn @ p
               @ le_bytes 4 (uint (crc32 (roce_masked (inner si di sp dp (length p + 16)) (bth opcode dqpn)
                   @ be_bytes 3 psn @ p) 0)))))"

definition ports_ok :: "int \<Rightarrow> int \<Rightarrow> bool" where
  "ports_ok sp dp \<longleftrightarrow> 0 \<le> sp \<and> sp \<le> 0xFFFF \<and> 0 \<le> dp \<and> dp \<le> 0xFFFF"

lemma spray_ports: "ports_ok SPRAY_PORT SPRAY_PORT" "ports_ok SPRAY_PORT RDMA_PORT"
  by (simp_all add: ports_ok_def SPRAY_PORT_def RDMA_PORT_def)

lemma scapy_udpE:
  assumes "scapy_udp scapy outer inner su du si di" "ports_ok sp dp" "length payload = n" "n \<le> 0xFF00"
  obtains c d where "length (outer su du n) = 40" "length (inner si di sp dp n) = 46"
    "scapy (IPv6 su du (Some 41) (IPv6 si di None (UDP sp dp (Raw payload)))) =
       Inr (outer su du n @ inner si di sp dp n @ [c, d] @ payload)"
    "be_int [c, d] \<noteq> 0" "udp6_valid (outer su du n @ inner si di sp dp n @ [c, d] @ payload)"
  using assms unfolding scapy_udp_def ports_ok_def by blast

lemma scapy_roceD:
  assumes "scapy_roce scapy inner bth si di" "ports_ok sp dp" "0 \<le> psn" "psn < 2 ^ 24" "length p + 16 = m" "m \<le> 0xFE00"
  shows "length (bth opcode dqpn) = 9
    \<and> (\<exists>h. length h = 48 \<and> scapy (IPv6 si di None (UDP sp dp (BTH opcode dqpn psn (Raw p)))) =
       Inr (h @ bth opcode dqpn @ be_bytes 3 psn @ p
         @ le_bytes 4 (uint (crc32 (roce_masked (inner si di sp dp m) (bth opcode dqpn) @ be_bytes 3 psn @ p) 0))))"
proof -
  have "length p \<le> 0xFE00" using assms(5,6) by linarith
  then show ?thesis using assms(1-4) unfolding scapy_roce_def ports_ok_def assms(5) [symmetric] by blast
qed

subsection \<open>Filling a template\<close>

lemma splice_app: "length a = i \<Longrightarrow> length x = j - i \<Longrightarrow> i \<le> j \<Longrightarrow> splice i j y (a @ x @ b) = a @ y @ b"
  by (simp add: splice_def)

lemma build_outer_template_ok:
  assumes "scapy_udp scapy outer inner su du si di" "ports_ok sp dp" "n \<le> 0xFF00"
  shows "build_outer_template scapy su du si di sp dp (int n) =
    Inr (outer su du n @ inner si di sp dp n @ [0, 0] @ replicate n 0)"
proof -
  obtain c d where o: "length (outer su du n) = 40" "length (inner si di sp dp n) = 46"
    "scapy (IPv6 su du (Some 41) (IPv6 si di None (UDP sp dp (Raw (replicate n 0))))) =
       Inr (outer su du n @ inner si di sp dp n @ [c, d] @ replicate n 0)"
    by (rule scapy_udpE [OF assms(1,2) length_replicate assms(3)])
  have "splice 86 88 [0, 0] ((outer su du n @ inner si di sp dp n) @ [c, d] @ replicate n 0) =
      (outer su du n @ inner si di sp dp n) @ [0, 0] @ replicate n 0"
    using o(1,2) by (intro splice_app) simp_all
  then show ?thesis
    using o by (simp add: build_outer_template_def build_outer_packet_def layout_defs)
qed

lemma fill_plain:
  assumes "length h = 86" "length mrc = n" "8 + int n < 2 ^ 32"
    and "udp6_valid (h @ [c, d] @ mrc)" "be_int [c, d] \<noteq> 0"
  shows "tp_fill (h @ [0, 0] @ replicate n 0, n, None) sq mrc = Inr (h @ [c, d] @ mrc)"
proof -
  have "splice 88 (88 + n) mrc ((h @ [0, 0]) @ replicate n 0 @ []) = (h @ [0, 0]) @ mrc @ []"
    using assms(1) by (intro splice_app) simp_all
  then have "tp_fill (h @ [0, 0] @ replicate n 0, n, None) sq mrc =
      udp6_checksum_inplace (h @ [0, 0] @ mrc) (int (length mrc))"
    using assms(2) by (simp add: tp_fill_def layout_defs)
  then show ?thesis using checksum_determined [OF assms(1), of mrc c d] assms by simp
qed

lemma fill_rdma:
  assumes "length h = 86" "length mrc = n" "8 + int (n + 16) < 2 ^ 32" "length b9 = 9"
    and psn: "psn = be_bytes 3 (sq AND 0xFFFFFF)"
    and frame: "frame = b9 @ psn @ mrc @ le_bytes 4 (uint (crc32 (prefix @ psn @ mrc) 0))"
    and "udp6_valid (h @ [c, d] @ frame)" "be_int [c, d] \<noteq> 0"
  shows "tp_fill (h @ [0, 0] @ b9 @ replicate 3 0 @ replicate (n + 4) 0, n + 16, Some (0, crc32 prefix 0)) sq mrc
    = Inr (h @ [c, d] @ frame)"
proof -
  let ?icrc = "le_bytes 4 (uint (crc32 (psn @ mrc) (crc32 prefix 0)))"
  let ?h = "h @ [0, 0] @ b9"
  have l: "length ?h = 97" "length psn = 3" using assms(1,4) psn by simp_all
  have 1: "splice 97 100 psn (?h @ replicate 3 0 @ replicate (n + 4) 0) = ?h @ psn @ replicate (n + 4) 0"
    using l by (intro splice_app) simp_all
  have "splice 100 (100 + n) mrc ((?h @ psn) @ replicate n 0 @ replicate 4 0) = (?h @ psn) @ mrc @ replicate 4 0"
    using l assms(2) by (intro splice_app) simp_all
  then have 2: "splice 100 (100 + n) mrc (?h @ psn @ replicate (n + 4) 0) = ?h @ psn @ mrc @ replicate 4 0"
    by (simp add: replicate_add)
  have "splice (100 + n) (104 + n) ?icrc ((?h @ psn @ mrc) @ replicate 4 0 @ []) = (?h @ psn @ mrc) @ ?icrc @ []"
    using l assms(2) by (intro splice_app) simp_all
  then have 3: "splice (100 + n) (104 + n) ?icrc (?h @ psn @ mrc @ replicate 4 0) = ?h @ psn @ mrc @ ?icrc" by simp
  have fr: "frame = b9 @ psn @ mrc @ ?icrc" by (simp add: frame crc32_append)
  have len: "length frame = n + 16" using assms(2,4) by (simp add: frame psn)
  have "tp_fill (h @ [0, 0] @ b9 @ replicate 3 0 @ replicate (n + 4) 0, n + 16, Some (0, crc32 prefix 0)) sq mrc
      = udp6_checksum_inplace (splice (100 + n) (104 + n) ?icrc
          (splice 100 (100 + n) mrc (splice 97 100 psn (?h @ replicate 3 0 @ replicate (n + 4) 0)))) (int (n + 16))"
    using assms(2) by (simp add: tp_fill_def layout_defs psn Let_def)
  also have "\<dots> = udp6_checksum_inplace (h @ [0, 0] @ frame) (int (n + 16))"
    unfolding 1 2 3 fr by simp
  also have "\<dots> = Inr (h @ [c, d] @ frame)"
    by (rule checksum_determined [OF assms(1), of frame c d, unfolded len, OF assms(3,7,8)])
  finally show ?thesis .
qed

subsection \<open>The ICRC prefix\<close>

lemma icrc_prefix_masked:
  assumes "length o40 = 40" "length i46 = 46" "length b9 = 9"
  shows "icrc_prefix (o40 @ i46 @ [0, 0] @ b9 @ rest) (b9 @ rest') = roce_masked i46 b9"
proof -
  have len: "INNER_HEADER_LEN = 40" "OUTER_HEADER_LEN = 40" "PAYLOAD_OFFSET - 80 = 8" "(40 :: nat) + 40 = 80"
    by (simp_all add: layout_defs)
  have ip: "take 40 (drop 40 (o40 @ i46 @ [0, 0] @ b9 @ rest)) = take 40 i46" using assms by simp
  have udp: "take 8 (drop 80 (o40 @ i46 @ [0, 0] @ b9 @ rest)) = drop 40 i46 @ [0, 0]" using assms by simp
  have b: "take 9 (b9 @ rest') = b9" using assms by simp
  have "take 40 i46 = take 4 i46 @ take 3 (drop 4 i46) @ take 1 (drop 7 i46) @ take 32 (drop 8 i46)"
    using take_add [of 4 36 i46] take_add [of 3 33 "drop 4 i46"] take_add [of 1 32 "drop 7 i46"] by simp
  then have "splice 0 4 [0x6F, 0xFF, 0xFF, 0xFF] (take 40 i46) =
      [0x6F, 0xFF, 0xFF, 0xFF] @ take 3 (drop 4 i46) @ take 1 (drop 7 i46) @ take 32 (drop 8 i46)"
    using splice_app [of "[]" 0 "take 4 i46" 4] assms(2) by simp
  moreover have "splice 7 8 [0xFF] (([0x6F, 0xFF, 0xFF, 0xFF] @ take 3 (drop 4 i46)) @ take 1 (drop 7 i46) @ take 32 (drop 8 i46))
      = ([0x6F, 0xFF, 0xFF, 0xFF] @ take 3 (drop 4 i46)) @ [0xFF] @ take 32 (drop 8 i46)"
    using assms(2) by (intro splice_app) simp_all
  ultimately have "splice 7 8 [0xFF] (splice 0 4 [0x6F, 0xFF, 0xFF, 0xFF] (take 40 i46)) =
      [0x6F, 0xFF, 0xFF, 0xFF] @ take 3 (drop 4 i46) @ [0xFF] @ take 32 (drop 8 i46)"
    by (simp only: append_assoc)
  moreover have "splice 6 8 [0xFF, 0xFF] (drop 40 i46 @ [0, 0]) = take 6 (drop 40 i46) @ [0xFF, 0xFF]"
    using assms(2) by (simp add: splice_def)
  moreover have "splice 4 5 [0xFF] b9 = take 4 b9 @ [0xFF] @ drop 5 b9" by (simp add: splice_def)
  ultimately show ?thesis
    unfolding icrc_prefix_def len Let_def ip udp b roce_masked_def by (simp only: append_assoc)
qed

subsection \<open>Templates are exact\<close>

lemma sq_low: "0 \<le> (sq AND 0xFFFFFF :: int)" "(sq AND 0xFFFFFF :: int) < 2 ^ 24"
proof -
  have "sq AND 0xFFFFFF = sq mod 2 ^ 24"
    using take_bit_eq_mask [of 24 sq] by (simp add: take_bit_eq_mod mask_eq_exp_minus_1)
  then show "0 \<le> (sq AND 0xFFFFFF :: int)" "(sq AND 0xFFFFFF :: int) < 2 ^ 24" by simp_all
qed

lemma template_length:
  "(if trimmed then Inr PAYLOAD_HDR_LEN else bindE (encode_payload 0 0 0) (\<lambda>p. Inr (length p))) =
     (Inr (if trimmed then 10 else 42) :: nat result)"
proof -
  obtain z where "encode_payload 0 0 0 = Inr z" "length z = 42"
    using mrc_payload_ok [of 0 0 0 False] mrc_payload_length [of False 0 0 0] by (auto simp: mrc_payload_def)
  then show ?thesis by simp
qed

lemma make_and_fill_udp:
  assumes udp: "scapy_udp scapy outer inner su du (tp_src_inner tp) (tp_dst_inner tp)"
    and mrc: "mrc_payload trimmed sq plane path = Inr mrc" and tr: "tp_transport tp \<noteq> ''rdma''"
  shows "\<exists>entry pkt. tp_make scapy g tp plane path su du trimmed = Inr entry \<and> tp_fill entry sq mrc = Inr pkt
    \<and> build_packet_bytes scapy g su du (tp_src_inner tp) (tp_dst_inner tp) sq plane path (tp_transport tp) trimmed = Inr pkt"
proof -
  let ?si = "tp_src_inner tp" and ?di = "tp_dst_inner tp"
  define n where "n = (if trimmed then 10 else 42 :: nat)"
  have len: "length mrc = n" using mrc_payload_length [OF mrc] by (simp add: n_def)
  have n: "n \<le> 0xFF00" by (simp add: n_def)
  obtain c d where o: "length (outer su du n) = 40" "length (inner ?si ?di SPRAY_PORT SPRAY_PORT n) = 46"
    "scapy (IPv6 su du (Some 41) (IPv6 ?si ?di None (UDP SPRAY_PORT SPRAY_PORT (Raw mrc)))) =
       Inr (outer su du n @ inner ?si ?di SPRAY_PORT SPRAY_PORT n @ [c, d] @ mrc)"
    "be_int [c, d] \<noteq> 0" "udp6_valid (outer su du n @ inner ?si ?di SPRAY_PORT SPRAY_PORT n @ [c, d] @ mrc)"
    by (rule scapy_udpE [OF udp spray_ports(1) len n])
  let ?h = "outer su du n @ inner ?si ?di SPRAY_PORT SPRAY_PORT n"
  have mk: "tp_make scapy g tp plane path su du trimmed = Inr (?h @ [0, 0] @ replicate n 0, n, None)"
    unfolding tp_make_def template_length n_def [symmetric]
    using tr build_outer_template_ok [OF udp spray_ports(1) n] by simp
  have "length ?h = 86" "8 + int n < 2 ^ 32" using o(1,2) by (simp_all add: n_def)
  from fill_plain [OF this(1) len this(2)] o(4,5)
  have "tp_fill (?h @ [0, 0] @ replicate n 0, n, None) sq mrc = Inr (?h @ [c, d] @ mrc)" by simp
  moreover have "build_packet_bytes scapy g su du ?si ?di sq plane path (tp_transport tp) trimmed = Inr (?h @ [c, d] @ mrc)"
    using tr o(3) mrc by (simp add: build_packet_bytes_def build_outer_packet_def)
  ultimately show ?thesis using mk by blast
qed

text \<open>A RoCEv2 frame, and what \<open>wrap_rdma\<close> returns of it.\<close>

definition roce_frame :: "bytes \<Rightarrow> bytes \<Rightarrow> bytes \<Rightarrow> int \<Rightarrow> bytes" where
  "roce_frame hdr bth9 p psn = bth9 @ be_bytes 3 psn @ p @
     le_bytes 4 (uint (crc32 (roce_masked hdr bth9 @ be_bytes 3 psn @ p) 0))"

lemma wrap_rdma_frame:
  assumes "scapy_roce scapy inner bth si di" "dqpn_for_ev g plane path = Inr dqpn" "length p = n" "n \<le> 42"
  shows "wrap_rdma scapy g p plane path sq (Some si) (Some di) (Some SPRAY_PORT) (Some RDMA_PORT) =
      Inr (roce_frame (inner si di SPRAY_PORT RDMA_PORT (n + 16)) (bth RDMA_OPCODE dqpn) p (sq AND 0xFFFFFF))"
    and "length (bth RDMA_OPCODE dqpn) = 9"
    and "length (roce_frame (inner si di SPRAY_PORT RDMA_PORT (n + 16)) (bth RDMA_OPCODE dqpn) p (sq AND 0xFFFFFF)) = n + 16"
proof -
  have p: "length p + 16 = n + 16" "n + 16 \<le> 0xFE00" using assms(3,4) by simp_all
  from scapy_roceD [OF assms(1) spray_ports(2) sq_low p, of RDMA_OPCODE dqpn sq]
  obtain h where h: "length (bth RDMA_OPCODE dqpn) = 9" "length h = 48"
    "scapy (IPv6 si di None (UDP SPRAY_PORT RDMA_PORT (BTH RDMA_OPCODE dqpn (sq AND 0xFFFFFF) (Raw p)))) =
       Inr (h @ roce_frame (inner si di SPRAY_PORT RDMA_PORT (n + 16)) (bth RDMA_OPCODE dqpn) p (sq AND 0xFFFFFF))"
    unfolding roce_frame_def by blast
  then show "wrap_rdma scapy g p plane path sq (Some si) (Some di) (Some SPRAY_PORT) (Some RDMA_PORT) =
      Inr (roce_frame (inner si di SPRAY_PORT RDMA_PORT (n + 16)) (bth RDMA_OPCODE dqpn) p (sq AND 0xFFFFFF))"
    by (simp add: wrap_rdma_def assms(2) IPV6_UDP_LEN_def)
  show "length (bth RDMA_OPCODE dqpn) = 9" by (rule h(1))
  then show "length (roce_frame (inner si di SPRAY_PORT RDMA_PORT (n + 16)) (bth RDMA_OPCODE dqpn) p (sq AND 0xFFFFFF)) = n + 16"
    using assms(3) by (simp add: roce_frame_def)
qed

text \<open>The template of a RoCEv2 packet: zeros from the PSN on, and the CRC of what is before it.\<close>

lemma tp_make_rdma:
  assumes udp: "scapy_udp scapy outer inner su du (tp_src_inner tp) (tp_dst_inner tp)"
    and roce: "scapy_roce scapy inner bth (tp_src_inner tp) (tp_dst_inner tp)"
    and ev: "dqpn_for_ev g plane path = Inr dqpn" and tr: "tp_transport tp = ''rdma''"
    and n: "n = (if trimmed then 10 else 42)"
    and hdr: "h = outer su du (n + 16) @ inner (tp_src_inner tp) (tp_dst_inner tp) SPRAY_PORT RDMA_PORT (n + 16)"
      "length (outer su du (n + 16)) = 40"
      "length (inner (tp_src_inner tp) (tp_dst_inner tp) SPRAY_PORT RDMA_PORT (n + 16)) = 46"
  shows "tp_make scapy g tp plane path su du trimmed =
    Inr (h @ [0, 0] @ bth RDMA_OPCODE dqpn @ replicate 3 0 @ replicate (n + 4) 0, n + 16,
      Some (0, crc32 (roce_masked (inner (tp_src_inner tp) (tp_dst_inner tp) SPRAY_PORT RDMA_PORT (n + 16))
        (bth RDMA_OPCODE dqpn)) 0))"
proof -
  let ?si = "tp_src_inner tp" and ?di = "tp_dst_inner tp" and ?b = "bth RDMA_OPCODE dqpn"
  let ?I = "inner ?si ?di SPRAY_PORT RDMA_PORT (n + 16)"
  let ?zero = "roce_frame ?I ?b (replicate n 0) (0 AND 0xFFFFFF)"
  have n42: "n \<le> 42" "n + 16 \<le> 0xFF00" using n by simp_all
  have w: "wrap_rdma scapy g (replicate n 0) plane path 0 (Some ?si) (Some ?di) (Some SPRAY_PORT) (Some RDMA_PORT) = Inr ?zero"
    "length ?b = 9" "length ?zero = n + 16"
    by (rule wrap_rdma_frame [OF roce ev length_replicate n42(1)])+
  have z12: "take 12 ?zero = ?b @ replicate 3 0" using w(2) by (simp add: roce_frame_def numeral_3_eq_3)
  have rep: "replicate (n + 16) (0 :: byte) = replicate 12 0 @ replicate (n + 4) 0"
    by (simp add: replicate_add [symmetric] add.commute)
  have "splice 88 100 (take 12 ?zero) ((h @ [0, 0]) @ replicate 12 0 @ replicate (n + 4) 0) =
      (h @ [0, 0]) @ take 12 ?zero @ replicate (n + 4) 0"
    using hdr by (intro splice_app) simp_all
  then have sp: "splice 88 100 (take 12 ?zero) (h @ [0, 0] @ replicate (n + 16) 0) =
      h @ [0, 0] @ ?b @ replicate 3 0 @ replicate (n + 4) 0"
    unfolding rep z12 by simp
  have pre: "icrc_prefix (h @ [0, 0] @ ?b @ replicate 3 0 @ replicate (n + 4) 0) ?zero = roce_masked ?I ?b"
    using icrc_prefix_masked [OF hdr(2,3) w(2)] unfolding roce_frame_def hdr(1) by simp
  have bt: "build_outer_template scapy su du ?si ?di SPRAY_PORT RDMA_PORT (int (n + 16)) = Inr (h @ [0, 0] @ replicate (n + 16) 0)"
    using build_outer_template_ok [OF udp spray_ports(2) n42(2)] by (simp add: hdr(1))
  have off: "PAYLOAD_OFFSET = 88" "(88 :: nat) + 12 = 100" by (simp_all add: layout_defs)
  show ?thesis
    unfolding tp_make_def template_length n [symmetric]
    by (simp only: bindE.simps tr simp_thms if_False w(1,3) bt off Let_def sp pre)
qed

lemma make_and_fill_rdma:
  assumes udp: "scapy_udp scapy outer inner su du (tp_src_inner tp) (tp_dst_inner tp)"
    and roce: "scapy_roce scapy inner bth (tp_src_inner tp) (tp_dst_inner tp)"
    and mrc: "mrc_payload trimmed sq plane path = Inr mrc" and ev: "dqpn_for_ev g plane path = Inr dqpn"
    and tr: "tp_transport tp = ''rdma''"
  shows "\<exists>entry pkt. tp_make scapy g tp plane path su du trimmed = Inr entry \<and> tp_fill entry sq mrc = Inr pkt
    \<and> build_packet_bytes scapy g su du (tp_src_inner tp) (tp_dst_inner tp) sq plane path (tp_transport tp) trimmed = Inr pkt"
proof -
  let ?si = "tp_src_inner tp" and ?di = "tp_dst_inner tp" and ?b = "bth RDMA_OPCODE dqpn"
  define n where "n = (if trimmed then 10 else 42 :: nat)"
  let ?I = "inner ?si ?di SPRAY_PORT RDMA_PORT (n + 16)"
  have len: "length mrc = n" using mrc_payload_length [OF mrc] by (simp add: n_def)
  have n42: "n \<le> 42" "n + 16 \<le> 0xFF00" by (simp_all add: n_def)
  let ?fr = "roce_frame ?I ?b mrc (sq AND 0xFFFFFF)"
  have w: "wrap_rdma scapy g mrc plane path sq (Some ?si) (Some ?di) (Some SPRAY_PORT) (Some RDMA_PORT) = Inr ?fr"
    "length ?b = 9" "length ?fr = n + 16"
    by (rule wrap_rdma_frame [OF roce ev len n42(1)])+
  obtain c d where o: "length (outer su du (n + 16)) = 40" "length ?I = 46"
    "scapy (IPv6 su du (Some 41) (IPv6 ?si ?di None (UDP SPRAY_PORT RDMA_PORT (Raw ?fr)))) =
       Inr (outer su du (n + 16) @ ?I @ [c, d] @ ?fr)"
    "be_int [c, d] \<noteq> 0" "udp6_valid (outer su du (n + 16) @ ?I @ [c, d] @ ?fr)"
    by (rule scapy_udpE [OF udp spray_ports(2) w(3) n42(2)])
  let ?h = "outer su du (n + 16) @ ?I"
  note mk = tp_make_rdma [OF udp roce ev tr n_def refl o(1,2)]
  have "length ?h = 86" "8 + int (n + 16) < 2 ^ 32" using o(1,2) by (simp_all add: n_def)
  from fill_rdma [OF this(1) len this(2) w(2) refl roce_frame_def] o(4,5)
  have "tp_fill (?h @ [0, 0] @ ?b @ replicate 3 0 @ replicate (n + 4) 0, n + 16, Some (0, crc32 (roce_masked ?I ?b) 0)) sq mrc
      = Inr (?h @ [c, d] @ ?fr)" by simp
  moreover have "build_packet_bytes scapy g su du ?si ?di sq plane path (tp_transport tp) trimmed = Inr (?h @ [c, d] @ ?fr)"
    using tr o(3) mrc w(1) by (simp add: build_packet_bytes_def build_outer_packet_def)
  ultimately show ?thesis using mk by blast
qed

text \<open>Everything a builder was asked before, for any EV, in any order; \<open>su\<close> is the underlay of a plane.\<close>

type_synonym build_call = "int \<times> int \<times> int \<times> string \<times> bool"

definition tp_run ::
  "(layer \<Rightarrow> bytes result) \<Rightarrow> topo \<Rightarrow> (int \<Rightarrow> string) \<Rightarrow> packet_templates \<Rightarrow> build_call list \<Rightarrow> packet_templates" where
  "tp_run scapy g su tp calls =
     foldl (\<lambda>tp (sq, plane, path, du, trimmed). fst (tp_build scapy g tp sq plane path (su plane) du trimmed)) tp calls"

definition cache_exact :: "(layer \<Rightarrow> bytes result) \<Rightarrow> topo \<Rightarrow> (int \<Rightarrow> string) \<Rightarrow> packet_templates \<Rightarrow> bool" where
  "cache_exact scapy g su tp \<longleftrightarrow>
     (\<forall>plane path trimmed du entry. dict_get (tp_cache tp) (plane, path, trimmed, du) = Some entry \<longrightarrow>
        tp_make scapy g tp plane path (su plane) du trimmed = Inr entry)"

lemma tp_make_cache [simp]:
  "tp_make scapy g (tp\<lparr>tp_cache := c\<rparr>) plane path u du trimmed = tp_make scapy g tp plane path u du trimmed"
  by (simp add: tp_make_def)

definition same_flow :: "packet_templates \<Rightarrow> packet_templates \<Rightarrow> bool" where
  "same_flow tp tp' \<longleftrightarrow> tp_src_inner tp' = tp_src_inner tp \<and> tp_dst_inner tp' = tp_dst_inner tp
     \<and> tp_transport tp' = tp_transport tp"

lemma tp_build_keeps:
  assumes "cache_exact scapy g su tp"
  shows "cache_exact scapy g su (fst (tp_build scapy g tp sq plane path (su plane) du trimmed))
    \<and> same_flow tp (fst (tp_build scapy g tp sq plane path (su plane) du trimmed))"
proof (cases "dict_get (tp_cache tp) (plane, path, trimmed, du)")
  case None
  then show ?thesis
    using assms
    by (cases "tp_make scapy g tp plane path (su plane) du trimmed")
      (auto simp: tp_build_def cache_exact_def same_flow_def Let_def)
qed (use assms in \<open>simp add: tp_build_def same_flow_def\<close>)

lemma tp_run_keeps:
  assumes "cache_exact scapy g su tp"
  shows "cache_exact scapy g su (tp_run scapy g su tp calls) \<and> same_flow tp (tp_run scapy g su tp calls)"
proof (induction calls rule: rev_induct)
  case (snoc c calls)
  obtain sq plane path du trimmed where "c = (sq, plane, path, du, trimmed)" by (cases c)
  then show ?case
    using snoc tp_build_keeps [of scapy g su "tp_run scapy g su tp calls" sq plane path du trimmed]
    by (simp add: tp_run_def same_flow_def)
qed (use assms in \<open>simp add: tp_run_def same_flow_def\<close>)

text \<open>Whatever the templates return is scapy's packet; an error of theirs is the only other outcome.\<close>

lemma tp_build_cached:
  assumes udp: "scapy_udp scapy outer inner (su plane) du (tp_src_inner tp) (tp_dst_inner tp)"
    and roce: "tp_transport tp = ''rdma'' \<Longrightarrow> scapy_roce scapy inner bth (tp_src_inner tp) (tp_dst_inner tp)"
    and cache: "cache_exact scapy g su tp"
    and built: "snd (tp_build scapy g tp sq plane path (su plane) du trimmed) = Inr pkt"
  obtains mrc where "mrc_payload trimmed sq plane path = Inr mrc"
    "build_packet_bytes scapy g (su plane) du (tp_src_inner tp) (tp_dst_inner tp) sq plane path (tp_transport tp) trimmed = Inr pkt"
    "tp_transport tp = ''rdma'' \<Longrightarrow> \<exists>dqpn. dqpn_for_ev g plane path = Inr dqpn"
proof -
  obtain entry mrc where e: "tp_make scapy g tp plane path (su plane) du trimmed = Inr entry"
    "mrc_payload trimmed sq plane path = Inr mrc" "tp_fill entry sq mrc = Inr pkt"
    using built cache by (auto simp: tp_build_def cache_exact_def Let_def py_simps split: option.splits sum.splits)
  show thesis
  proof (cases "tp_transport tp = ''rdma''")
    case True
    then obtain dqpn where ev: "dqpn_for_ev g plane path = Inr dqpn"
      using e(1) by (auto simp: tp_make_def wrap_rdma_def py_simps)
    from make_and_fill_rdma [OF udp roce [OF True] e(2) ev True] e
    have "build_packet_bytes scapy g (su plane) du (tp_src_inner tp) (tp_dst_inner tp) sq plane path (tp_transport tp) trimmed = Inr pkt"
      by fastforce
    then show thesis using that e(2) ev by blast
  next
    case False
    from make_and_fill_udp [OF udp e(2) False, of g] e
    have "build_packet_bytes scapy g (su plane) du (tp_src_inner tp) (tp_dst_inner tp) sq plane path (tp_transport tp) trimmed = Inr pkt"
      by fastforce
    then show thesis using that e(2) False by blast
  qed
qed

lemma tp_build_exact:
  assumes "scapy_udp scapy outer inner (su plane) du si di"
    and "transport = ''rdma'' \<Longrightarrow> scapy_roce scapy inner bth si di"
    and "0 \<le> sq" and "sq < 2 ^ 64" and "0 \<le> plane" and "plane \<le> 0xFF" and "0 \<le> path" and "path \<le> 0xFF"
    and "plane < NUM_PLANES g" and "path < NUM_SPINES g"
  shows "\<exists>pkt. snd (tp_build scapy g (tp_run scapy g su (mk_packet_templates si di transport) calls)
        sq plane path (su plane) du trimmed) = Inr pkt
    \<and> build_packet_bytes scapy g (su plane) du si di sq plane path transport trimmed = Inr pkt"
proof -
  let ?init = "mk_packet_templates si di transport"
  let ?tp = "tp_run scapy g su ?init calls"
  have "cache_exact scapy g su ?init" by (simp add: cache_exact_def mk_packet_templates_def)
  then have k: "cache_exact scapy g su ?tp \<and> same_flow ?init ?tp" by (rule tp_run_keeps)
  then have ex: "cache_exact scapy g su ?tp" by (rule conjunct1)
  from k have sf: "tp_src_inner ?tp = si" "tp_dst_inner ?tp = di" "tp_transport ?tp = transport"
    by (auto simp: same_flow_def mk_packet_templates_def)
  obtain mrc where mrc: "mrc_payload trimmed sq plane path = Inr mrc" using mrc_payload_ok [OF assms(3-8)] .
  obtain dqpn where "dqpn_for_ev g plane path = Inr dqpn"
    using assms(5,7,9,10) by (simp add: dqpn_for_ev_def check_plane_def check_spine_def raise_if_def)
  then obtain entry pkt where e: "tp_make scapy g ?tp plane path (su plane) du trimmed = Inr entry"
    "tp_fill entry sq mrc = Inr pkt" "build_packet_bytes scapy g (su plane) du si di sq plane path transport trimmed = Inr pkt"
    using make_and_fill_udp [of scapy outer inner "su plane" du ?tp, unfolded sf, OF assms(1) mrc]
      make_and_fill_rdma [of scapy outer inner "su plane" du ?tp, unfolded sf, OF assms(1) assms(2) mrc] by metis
  have "snd (tp_build scapy g ?tp sq plane path (su plane) du trimmed) = Inr pkt"
    using ex e(1,2) mrc by (auto simp: tp_build_def cache_exact_def Let_def split: option.split)
  then show ?thesis using e(3) by blast
qed

text \<open>
  C5. The hot path sends what scapy would have sent. Whatever packets a sender has built before,
  for a packet of an EV of the topology with fields in range the patched template is byte for byte
  the packet the scapy builder returns, with either transport, trimmed or full size: header,
  padding, UDP checksum, and in RoCEv2 mode the PSN and the ICRC.
\<close>

theorem packet_templates_exact:
  assumes "scapy_udp scapy outer inner (su plane) du si di"
    and "transport = ''rdma'' \<Longrightarrow> scapy_roce scapy inner bth si di"
    and "0 \<le> sq" and "sq < 2 ^ 64" and "0 \<le> plane" and "plane \<le> 0xFF" and "0 \<le> path" and "path \<le> 0xFF"
    and "plane < NUM_PLANES g" and "path < NUM_SPINES g"
  shows "\<exists>pkt. snd (tp_build scapy g (tp_run scapy g su (mk_packet_templates si di transport) calls)
        sq plane path (su plane) du trimmed) = Inr pkt
    \<and> build_packet_bytes scapy g (su plane) du si di sq plane path transport trimmed = Inr pkt"
  using assms by (rule tp_build_exact [where su = su and plane = plane])

subsection \<open>A concrete scapy\<close>

text \<open>
  The packets of RFC 8200 and RFC 768 with scapy's defaults (traffic class and flow label 0, hop limit
  64), and its BTH, for the layer stacks the program builds; other stacks are errors here.
\<close>

definition addr_bytes :: "string \<Rightarrow> bytes" where
  "addr_bytes s = (case ipv6_hextets s of
     Some hs \<Rightarrow> if length hs = 8 then concat (map (\<lambda>h. be_bytes 2 (int h)) hs) else replicate 16 0
   | None \<Rightarrow> replicate 16 0)"

definition ipv6_header :: "int \<Rightarrow> byte \<Rightarrow> string \<Rightarrow> string \<Rightarrow> bytes" where
  "ipv6_header len nh src dst = [0x60, 0, 0, 0] @ be_bytes 2 len @ [nh, 64] @ addr_bytes src @ addr_bytes dst"

definition rfc_outer :: "string \<Rightarrow> string \<Rightarrow> nat \<Rightarrow> bytes" where
  "rfc_outer src dst n = ipv6_header (int n + 48) 41 src dst"

definition rfc_inner :: "string \<Rightarrow> string \<Rightarrow> int \<Rightarrow> int \<Rightarrow> nat \<Rightarrow> bytes" where
  "rfc_inner src dst sport dport n =
     ipv6_header (int n + 8) 17 src dst @ be_bytes 2 sport @ be_bytes 2 dport @ be_bytes 2 (int n + 8)"

definition bth_head :: "int \<Rightarrow> int \<Rightarrow> bytes" where
  "bth_head opcode dqpn = be_bytes 1 opcode @ [0, 0xFF, 0xFF, 0] @ be_bytes 3 dqpn @ [0]"

fun demo_scapy :: "layer \<Rightarrow> bytes result" where
  "demo_scapy (IPv6 su du (Some nh) (IPv6 si di None (UDP sp dp (Raw p)))) =
     udp6_checksum_inplace (rfc_outer su du (length p) @ rfc_inner si di sp dp (length p) @ [0, 0] @ p) (int (length p))"
| "demo_scapy (IPv6 si di None (UDP sp dp (BTH opcode dqpn psn (Raw p)))) =
     Inr (replicate 48 0 @ roce_frame (rfc_inner si di sp dp (length p + 16)) (bth_head opcode dqpn) p psn)"
| "demo_scapy l = Inl ValueError"

lemma length_addr_bytes [simp]: "length (addr_bytes s) = 16"
proof -
  have "length (concat (map (\<lambda>h. be_bytes 2 (int h)) hs)) = 2 * length hs" for hs by (induction hs) auto
  then show ?thesis by (simp add: addr_bytes_def split: option.split)
qed

lemma header_lengths [simp]:
  "length (ipv6_header len nh src dst) = 40" "length (rfc_outer src dst n) = 40"
  "length (rfc_inner src dst sport dport n) = 46" "length (bth_head opcode dqpn) = 9"
  by (simp_all add: ipv6_header_def rfc_outer_def rfc_inner_def bth_head_def)

lemma demo_scapy_udp: "scapy_udp demo_scapy rfc_outer rfc_inner su du si di"
  unfolding scapy_udp_def
proof (intro allI impI conjI)
  fix sp dp :: int and p :: bytes
  assume "0 \<le> sp \<and> sp \<le> 0xFFFF \<and> 0 \<le> dp \<and> dp \<le> 0xFFFF \<and> length p \<le> 0xFF00"
  then have len: "length (rfc_outer su du (length p) @ rfc_inner si di sp dp (length p)) = 86"
    "8 + int (length p) < 2 ^ 32" by simp_all
  show "\<exists>c d. demo_scapy (IPv6 su du (Some 41) (IPv6 si di None (UDP sp dp (Raw p)))) =
         Inr (rfc_outer su du (length p) @ rfc_inner si di sp dp (length p) @ [c, d] @ p)
      \<and> be_int [c, d] \<noteq> 0
      \<and> udp6_valid (rfc_outer su du (length p) @ rfc_inner si di sp dp (length p) @ [c, d] @ p)"
    using udp6_checksum_writes [OF len] by simp
qed simp_all

lemma demo_scapy_roce: "scapy_roce demo_scapy rfc_inner bth_head si di"
  unfolding scapy_roce_def
proof (intro allI impI conjI)
  fix sp dp opcode dqpn psn and p :: bytes
  show "\<exists>h. length h = 48 \<and> demo_scapy (IPv6 si di None (UDP sp dp (BTH opcode dqpn psn (Raw p)))) =
      Inr (h @ bth_head opcode dqpn @ be_bytes 3 psn @ p @ le_bytes 4 (uint (crc32
        (roce_masked (rfc_inner si di sp dp (length p + 16)) (bth_head opcode dqpn) @ be_bytes 3 psn @ p) 0)))"
    by (rule exI [of _ "replicate 48 0"]) (simp add: roce_frame_def)
qed simp

theorem packet_templates_exact_witness:
  "\<exists>pkt. snd (tp_build demo_scapy demo_topo (tp_run demo_scapy demo_topo (\<lambda>_. ''2001:db8:bbbb:02::2'')
         (mk_packet_templates ''2001:db8:bbbb:02::2'' ''2001:db8:bbbb:05::2'' ''rdma'')
         [(0, 1, 2, ''fc00:0:f002:e005:d000::'', False)])
       (2 ^ 24 + 5) 1 2 ''2001:db8:bbbb:02::2'' ''fc00:0:f002:e005:d000::'' False) = Inr pkt
   \<and> build_packet_bytes demo_scapy demo_topo ''2001:db8:bbbb:02::2'' ''fc00:0:f002:e005:d000::''
       ''2001:db8:bbbb:02::2'' ''2001:db8:bbbb:05::2'' (2 ^ 24 + 5) 1 2 ''rdma'' False = Inr pkt"
proof -
  have "(1 :: int) < NUM_PLANES demo_topo" "(2 :: int) < NUM_SPINES demo_topo"
    by (simp_all add: demo_topo_def)
  from packet_templates_exact [OF demo_scapy_udp demo_scapy_roce _ _ _ _ _ _ this, where sq = "2 ^ 24 + 5"
      and su = "\<lambda>_. ''2001:db8:bbbb:02::2''"]
  show ?thesis by simp
qed

end
