(* ===== verification/Topology.thy ===== *)
theory Topology
  imports Topo PyConv
begin

text \<open>
  The topology value class of \<^verbatim>\<open>srv6_mrc/topology.py\<close>: the record, its construction from a
  decoded file with Python's conversions and their errors, and every method. Its methods mirror
  functions of \<^verbatim>\<open>topo.py\<close>; TopologyProperties proves which of them agree.
\<close>

subsection \<open>The record and its construction\<close>

type_synonym ref_item = "(int \<times> int) \<times> int"

text \<open>
  \<open>_reference_pairs_items\<close> is a frozenset that the methods only iterate over, so it is the list
  of its elements in iteration order. That order is the set's hash order, which the program does
  not choose: \<open>from_dict\<close> takes it as the parameter \<open>set_order\<close>.
\<close>

record topology =
  topology_name :: string
  planes :: int
  spines_per_plane :: int
  leaves_per_plane :: int
  topology_tenants :: "string list"
  clab_topology_name :: string
  reference_pairs_items :: "ref_item list"

definition REFERENCE_PAIRS_4P_8X16 :: "ref_item list" where
  "REFERENCE_PAIRS_4P_8X16 =
     [((0, 15), 0), ((1, 14), 2), ((2, 13), 4), ((3, 12), 6),
      ((4, 11), 1), ((5, 10), 3), ((6, 9), 5), ((7, 8), 7)]"

definition ref_triple :: "json \<Rightarrow> ref_item result" where
  "ref_triple v =
     bindE (py_iter v) (\<lambda>xs.
       case xs of
         [lo, hi, sp] \<Rightarrow>
           bindE (py_int lo) (\<lambda>l. bindE (py_int hi) (\<lambda>h. bindE (py_int sp) (\<lambda>s. Inr ((l, h), s))))
       | _ \<Rightarrow> Inl ValueError)"

definition norm_pair :: "ref_item \<Rightarrow> ref_item" where
  "norm_pair x = (case x of ((a, b), s) \<Rightarrow> ((min a b, max a b), s))"

definition clab_name_of :: "(json \<Rightarrow> string) \<Rightarrow> json \<Rightarrow> string \<Rightarrow> string result" where
  "clab_name_of repr d nm =
     (let block = (case jget d ''clab'' of Some b \<Rightarrow> if py_truth b then b else JObj [] | None \<Rightarrow> JObj [])
      in case block of
           JObj kv \<Rightarrow> Inr (case dict_get kv ''topology_name'' of
                             None \<Rightarrow> ''sonic-docker-'' @ nm | Some v \<Rightarrow> py_str repr v)
         | _ \<Rightarrow> Inl AttributeError)"

definition ref_items_of :: "json \<Rightarrow> string \<Rightarrow> ref_item list result" where
  "ref_items_of d nm =
     (case jget d ''reference_pairs_spines'' of
        Some v \<Rightarrow>
          if v = JNull then Inr (if nm = ''4p-8x16'' then REFERENCE_PAIRS_4P_8X16 else [])
          else bindE (py_iter v) (mapE ref_triple)
      | None \<Rightarrow> Inr (if nm = ''4p-8x16'' then REFERENCE_PAIRS_4P_8X16 else []))"

definition from_dict ::
  "(json \<Rightarrow> string) \<Rightarrow> (ref_item list \<Rightarrow> ref_item list) \<Rightarrow> json \<Rightarrow> topology result" where
  "from_dict repr set_order d =
     bindE (jitem d ''name'') (\<lambda>n. let nm = py_str repr n in
     bindE (bindE (jitem d ''planes'') py_int) (\<lambda>pl.
     bindE (bindE (jitem d ''spines_per_plane'') py_int) (\<lambda>sp.
     bindE (bindE (jitem d ''leaves_per_plane'') py_int) (\<lambda>lv.
     bindE (bindE (jitem d ''tenants'') py_iter) (\<lambda>ts. let tns = map (py_str repr) ts in
     bindE (clab_name_of repr d nm) (\<lambda>clab.
     bindE (ref_items_of d nm) (\<lambda>items.
       Inr \<lparr>topology_name = nm, planes = pl, spines_per_plane = sp, leaves_per_plane = lv,
            topology_tenants = tns, clab_topology_name = clab,
            reference_pairs_items = set_order (remdups (map norm_pair items))\<rparr>)))))))"

subsection \<open>Derived properties and identity\<close>

definition num_evs_per_flow :: "topology \<Rightarrow> int" where
  "num_evs_per_flow T = planes T * spines_per_plane T"

definition total_evs :: "topology \<Rightarrow> int" where
  "total_evs T = num_evs_per_flow T"

definition tenant_id_map :: "topology \<Rightarrow> (string \<times> int) list" where
  "tenant_id_map T = foldl (\<lambda>d (i, nm). dict_put nm (int i + 1) d) [] (enumerate 0 (topology_tenants T))"

definition tenant_by_id :: "topology \<Rightarrow> (int \<times> string) list" where
  "tenant_by_id T = foldl (\<lambda>d (k, v). dict_put v k d) [] (tenant_id_map T)"

definition topology_tenant_id :: "topology \<Rightarrow> string \<Rightarrow> int result" where
  "topology_tenant_id T tenant =
     (case dict_get (tenant_id_map T) tenant of None \<Rightarrow> Inl ValueError | Some i \<Rightarrow> Inr i)"

definition topology_tenant_name :: "topology \<Rightarrow> int \<Rightarrow> string result" where
  "topology_tenant_name T tid =
     (case dict_get (tenant_by_id T) tid of None \<Rightarrow> Inl ValueError | Some n \<Rightarrow> Inr n)"

subsection \<open>Validation\<close>

definition topology_check_tenant :: "topology \<Rightarrow> string \<Rightarrow> unit result" where
  "topology_check_tenant T v = raise_if (v \<notin> set (topology_tenants T)) ValueError"

definition topology_check_plane :: "topology \<Rightarrow> int \<Rightarrow> unit result" where
  "topology_check_plane T v = raise_if (\<not> (0 \<le> v \<and> v < planes T)) ValueError"

definition topology_check_spine :: "topology \<Rightarrow> int \<Rightarrow> unit result" where
  "topology_check_spine T v = raise_if (\<not> (0 \<le> v \<and> v < spines_per_plane T)) ValueError"

definition topology_check_host :: "topology \<Rightarrow> int \<Rightarrow> unit result" where
  "topology_check_host T v = raise_if (\<not> (0 \<le> v \<and> v < leaves_per_plane T)) ValueError"

definition topology_check_sid_mode :: "string \<Rightarrow> unit result" where
  "topology_check_sid_mode v = raise_if (v \<noteq> ''uA'' \<and> v \<noteq> ''uN'') ValueError"

definition plane_nic :: "topology \<Rightarrow> int \<Rightarrow> string result" where
  "plane_nic T plane = bindE (topology_check_plane T plane) (\<lambda>_. Inr (''eth'' @ int_str (plane + 1)))"

definition plane_nics :: "topology \<Rightarrow> string list" where
  "plane_nics T = map (\<lambda>p. ''eth'' @ int_str (int p + 1)) [0..<nat (planes T)]"

subsection \<open>Addressing\<close>

definition topology_inner_addr :: "topology \<Rightarrow> string \<Rightarrow> int \<Rightarrow> string result" where
  "topology_inner_addr T tenant host_id =
     bindE (topology_check_tenant T tenant) (\<lambda>_. bindE (topology_check_host T host_id) (\<lambda>_.
       Inr (if tenant = ''green'' then ''2001:db8:bbbb:'' @ hex2 host_id @ ''::2''
            else ''2001:db8:cccc:'' @ hex2 host_id @ ''::2'')))"

definition topology_usid_outer_dst ::
  "topology \<Rightarrow> string \<Rightarrow> int \<Rightarrow> int \<Rightarrow> int \<Rightarrow> string \<Rightarrow> string result" where
  "topology_usid_outer_dst T tenant plane spine dst_leaf sid_mode =
     bindE (topology_check_tenant T tenant) (\<lambda>_. bindE (topology_check_plane T plane) (\<lambda>_.
     bindE (topology_check_spine T spine) (\<lambda>_. bindE (topology_check_host T dst_leaf) (\<lambda>_.
     bindE (topology_check_sid_mode sid_mode) (\<lambda>_.
       let (head, yellow_tail) =
         (if sid_mode = ''uA''
          then (''fc00:000'' @ hex plane @ '':f00'' @ hex spine @ '':e00'' @ hex dst_leaf, ''e009:d001::'')
          else (''fc00:000'' @ hex plane @ '':1'' @ hex spine @ '':2'' @ hex dst_leaf, ''d001::''))
       in Inr (if tenant = ''green'' then head @ '':d000::'' else head @ '':'' @ yellow_tail))))))"

definition topology_leaf_gateway_addr :: "topology \<Rightarrow> string \<Rightarrow> int \<Rightarrow> int \<Rightarrow> string result" where
  "topology_leaf_gateway_addr T tenant plane host_id =
     bindE (topology_check_tenant T tenant) (\<lambda>_. bindE (topology_check_plane T plane) (\<lambda>_.
     bindE (topology_check_host T host_id) (\<lambda>_.
       Inr (if tenant = ''green'' then ''2001:db8:bbbb:'' @ hex2 host_id @ ''::1''
            else ''2001:db8:cccc:'' @ hex plane @ hex2 host_id @ ''::1''))))"

definition topology_host_name :: "topology \<Rightarrow> string \<Rightarrow> int \<Rightarrow> string result" where
  "topology_host_name T tenant host_id =
     bindE (topology_check_tenant T tenant) (\<lambda>_. bindE (topology_check_host T host_id) (\<lambda>_.
       Inr (tenant @ ''-host'' @ dec_pad2 host_id)))"

subsection \<open>Spine selection\<close>

definition pair_spine :: "topology \<Rightarrow> int \<Rightarrow> int \<Rightarrow> int option" where
  "pair_spine T src_id dst_id =
     (let (a, b) = (if src_id < dst_id then (src_id, dst_id) else (dst_id, src_id))
      in map_option snd (find (\<lambda>(pair, sp). pair = (a, b)) (reference_pairs_items T)))"

definition topology_spine_for :: "topology \<Rightarrow> int \<Rightarrow> int \<Rightarrow> int result" where
  "topology_spine_for T src_id dst_id =
     (let (a, b) = (if src_id < dst_id then (src_id, dst_id) else (dst_id, src_id))
      in case find (\<lambda>(pair, sp). pair = (a, b)) (reference_pairs_items T) of
           Some (pair, sp) \<Rightarrow> Inr sp
         | None \<Rightarrow> py_mod (a * leaves_per_plane T + b) (spines_per_plane T))"

text \<open>
  The class has its own copy of the hash and of the generator. They are written here as the file
  writes them, with unbounded integers and an explicit mask, where \<^verbatim>\<open>topo.py\<close>'s are the 64-bit
  words of Topo; that the two copies compute the same is a lemma of TopologyProperties.
\<close>

definition CLASS_FNV_OFFSET :: int where "CLASS_FNV_OFFSET = 0xcbf29ce484222325"
definition CLASS_FNV_PRIME :: int where "CLASS_FNV_PRIME = 0x100000001b3"
definition CLASS_FNV_MASK :: int where "CLASS_FNV_MASK = 0xFFFFFFFFFFFFFFFF"
definition CLASS_SPLITMIX_GAMMA :: int where "CLASS_SPLITMIX_GAMMA = 0x9E3779B97F4A7C15"

definition topology_fnv1a :: "8 word list \<Rightarrow> int" where
  "topology_fnv1a seed =
     foldl (\<lambda>h b. let h = h XOR uint b in (h * CLASS_FNV_PRIME) AND CLASS_FNV_MASK) CLASS_FNV_OFFSET seed"

text \<open>One turn of the loop: \<open>pool\<close> and \<open>picks\<close> are the two lists it updates.\<close>

definition pick_step :: "int \<Rightarrow> int \<Rightarrow> int list \<times> int list \<Rightarrow> nat \<Rightarrow> int list \<times> int list" where
  "pick_step nsp base = (\<lambda>(pool, picks) step.
     let x = (base + int step * CLASS_SPLITMIX_GAMMA) AND CLASS_FNV_MASK;
         x = ((x XOR drop_bit 30 x) * 0xbf58476d1ce4e5b9) AND CLASS_FNV_MASK;
         x = ((x XOR drop_bit 27 x) * 0x94d049bb133111eb) AND CLASS_FNV_MASK;
         x = (x XOR drop_bit 31 x) AND CLASS_FNV_MASK;
         j = nat (x mod (nsp - int step))
     in (take j pool @ drop (Suc j) pool, picks @ [pool ! j]))"

definition topology_select_spines_from_seed :: "topology \<Rightarrow> string \<Rightarrow> int \<Rightarrow> int list" where
  "topology_select_spines_from_seed T seed_str n =
     (let base = topology_fnv1a (utf8 seed_str);
          pool = map int [0..<nat (spines_per_plane T)]
      in snd (foldl (pick_step (spines_per_plane T) base) (pool, []) [0..<nat n]))"

definition topology_select_spines :: "topology \<Rightarrow> int \<Rightarrow> int \<Rightarrow> int \<Rightarrow> int list result" where
  "topology_select_spines T src_id dst_id n =
     bindE (raise_if (\<not> (1 \<le> n \<and> n \<le> spines_per_plane T)) ValueError) (\<lambda>_.
       Inr (topology_select_spines_from_seed T
              (int_str (min src_id dst_id) @ ''|'' @ int_str (max src_id dst_id)) n))"

definition topology_select_spines_for_addrs ::
  "topology \<Rightarrow> string \<Rightarrow> string \<Rightarrow> int \<Rightarrow> int list result" where
  "topology_select_spines_for_addrs T addr1 addr2 n =
     bindE (raise_if (\<not> (1 \<le> n \<and> n \<le> spines_per_plane T)) ValueError) (\<lambda>_.
       let (lo, hi) = (if str_le addr1 addr2 then (addr1, addr2) else (addr2, addr1))
       in Inr (topology_select_spines_from_seed T (lo @ ''|'' @ hi) n))"

end
