(* ===== verification/EvReport.thy ===== *)
theory EvReport
  imports EvProperties Json
begin

text \<open>
  The read side of the EV table that leaves the process: \<open>inspect\<close> (one EV) and \<open>snapshot\<close> (the
  JSON document other processes poll).
\<close>

definition inspect_ev :: "ev_table \<Rightarrow> string \<Rightarrow> int \<Rightarrow> int \<Rightarrow> json result" where
  "inspect_ev t tn plane path =
     bindE (check_tenant t tn) (\<lambda>_.
     bindE (check_ev t plane path) (\<lambda>_.
       let r = rec_at t tn (nat plane) (nat path) in
       Inr (JObj
         [(''state'', JStr (ev_state_value (rstate r))),
          (''current_sent'', JInt (current_sent r)),
          (''current_recv'', JInt (current_recv r)),
          (''window_sent'', JInt (window_sent r)),
          (''window_recv'', JInt (window_recv r)),
          (''total_sent'', JInt (total_sent r)),
          (''total_recv'', JInt (total_recv r)),
          (''last_probe_ratio'', JFloat (last_probe_ratio r)),
          (''consecutive_healthy_windows'', JInt (consecutive_healthy_windows r)),
          (''consecutive_loss_demote_windows'', JInt (consecutive_loss_demote_windows r)),
          (''last_loss_ratio'', JFloat (last_loss_ratio r)),
          (''transitions'', JInt (transitions r)),
          (''demotes_suppressed_by_floor'', JInt (demotes_suppressed_by_floor r)),
          (''loss_backoff_level'', JInt (loss_backoff_level r))])))"

definition ev_config_json :: "ev_state_config \<Rightarrow> int \<Rightarrow> json" where
  "ev_config_json c floor_evs = JObj
     [(''probe_window_ticks'', JInt (probe_window_ticks c)),
      (''probe_min_samples'', JInt (probe_min_samples c)),
      (''probe_fail_ratio'', JFloat (probe_fail_ratio c)),
      (''probe_recover_ratio'', JFloat (probe_recover_ratio c)),
      (''probe_recover_ticks'', JInt (probe_recover_ticks c)),
      (''loss_threshold'', JFloat (loss_threshold c)),
      (''loss_demote_consecutive'', JInt (loss_demote_consecutive c)),
      (''min_active_evs'', JInt floor_evs),
      (''loss_backoff_max_level'', JInt (loss_backoff_max_level c)),
      (''loss_backoff_reset_ticks'', JInt (loss_backoff_reset_ticks c))]"

definition ev_entry_json :: "ev_record \<Rightarrow> nat \<Rightarrow> nat \<Rightarrow> pyfloat \<Rightarrow> json" where
  "ev_entry_json r plane path weight = JObj
     [(''plane'', JInt (int plane)),
      (''path'', JInt (int path)),
      (''state'', JStr (ev_state_value (rstate r))),
      (''window_sent'', JInt (window_sent r)),
      (''window_recv'', JInt (window_recv r)),
      (''total_sent'', JInt (total_sent r)),
      (''total_recv'', JInt (total_recv r)),
      (''last_probe_ratio'', JFloat (py_round (last_probe_ratio r) 6)),
      (''consecutive_healthy_windows'', JInt (consecutive_healthy_windows r)),
      (''consecutive_loss_demote_windows'', JInt (consecutive_loss_demote_windows r)),
      (''last_loss_ratio'', JFloat (py_round (last_loss_ratio r) 6)),
      (''transitions'', JInt (transitions r)),
      (''demotes_suppressed_by_floor'', JInt (demotes_suppressed_by_floor r)),
      (''loss_backoff_level'', JInt (loss_backoff_level r)),
      (''weight'', JFloat weight)]"

definition tenant_evs_json :: "ev_table \<Rightarrow> string \<Rightarrow> json" where
  "tenant_evs_json t tn =
     (let wcache = the (weights_cache t tn) in
      JList (map (\<lambda>(plane, path).
               ev_entry_json (rec_at t tn plane path) plane path (gget wcache plane path))
             (cells (num_planes t) (num_paths t))))"

definition ev_snapshot :: "ev_table \<Rightarrow> json" where
  "ev_snapshot t = JObj
     [(''config'', ev_config_json (cfg t) (min_active t)),
      (''num_planes'', JInt (int (num_planes t))),
      (''num_paths'', JInt (int (num_paths t))),
      (''tenants'', JObj (foldl (\<lambda>d tn. dict_put tn (tenant_evs_json t tn) d) [] (tenants t)))]"

lemma foldl_dict_put_get:
  "dict_get (foldl (\<lambda>d k. dict_put k (f k) d) d ks) j =
     (if j \<in> set ks then Some (f j) else dict_get d j)"
  by (induction ks arbitrary: d) auto

lemma ev_snapshot_tenant:
  assumes "tn \<in> set (tenants t)"
  shows "\<exists>ts. jget (ev_snapshot t) ''tenants'' = Some ts \<and> jget ts tn = Some (tenant_evs_json t tn)"
  using assms by (simp add: ev_snapshot_def foldl_dict_put_get)

end
