(* ===== verification/Policy.thy ===== *)
theory Policy
  imports Topology EvReport
begin

text \<open>
  The spray policies of \<^verbatim>\<open>srv6_mrc/policy.py\<close>: given a packet's sequence number and flow, the
  plane, or the (plane, spine) EV, it is sent on. A policy reads the fabric's dimensions from its
  topology value when it has one and from the module's globals (\<open>g\<close>) otherwise. Caches are part of
  the policy's record, so a pick returns the policy it leaves behind.
\<close>

subsection \<open>Dual-mode dimensions\<close>

definition DEFAULT_PATHS :: int where "DEFAULT_PATHS = -1"

definition pol_planes :: "topo \<Rightarrow> topology option \<Rightarrow> int" where
  "pol_planes g tp = (case tp of None \<Rightarrow> NUM_PLANES g | Some T \<Rightarrow> planes T)"

definition pol_spines :: "topo \<Rightarrow> topology option \<Rightarrow> int" where
  "pol_spines g tp = (case tp of None \<Rightarrow> NUM_SPINES g | Some T \<Rightarrow> spines_per_plane T)"

definition pol_select :: "topo \<Rightarrow> topology option \<Rightarrow> string \<Rightarrow> string \<Rightarrow> int \<Rightarrow> int list result" where
  "pol_select g tp a b n =
     (case tp of None \<Rightarrow> select_spines_for_addrs g a b n
                | Some T \<Rightarrow> topology_select_spines_for_addrs T a b n)"

text \<open>The resolved \<open>paths_per_plane\<close>, or the ValueError of an invalid one.\<close>

definition resolve_paths :: "int \<Rightarrow> int \<Rightarrow> int result" where
  "resolve_paths nsp paths =
     (let n = (if paths = DEFAULT_PATHS then nsp else paths)
      in bindE (raise_if (\<not> (1 \<le> n \<and> n \<le> nsp)) ValueError) (\<lambda>_. Inr n))"

subsection \<open>The per-flow spine subset and its cache\<close>

type_synonym subset_cache = "(flow_key \<times> int list) list"

definition spines_for_flow ::
  "(string \<Rightarrow> string \<Rightarrow> int \<Rightarrow> int list result) \<Rightarrow> int \<Rightarrow> subset_cache \<Rightarrow> flow_key \<Rightarrow>
   (subset_cache \<times> int list) result" where
  "spines_for_flow sel paths cache f =
     (case dict_get cache f of
        Some s \<Rightarrow> Inr (cache, s)
      | None \<Rightarrow> bindE (sel (src_addr f) (dst_addr f) paths) (\<lambda>s. Inr (dict_put f s cache, s)))"

subsection \<open>Stateless policies\<close>

record round_robin =
  rr_topology :: "topology option"

definition rr_pick :: "topo \<Rightarrow> round_robin \<Rightarrow> int \<Rightarrow> flow_key \<Rightarrow> int result" where
  "rr_pick g p seq f = py_mod seq (pol_planes g (rr_topology p))"

record hash5tuple =
  h5_topology :: "topology option"

definition hash5_pick :: "topo \<Rightarrow> hash5tuple \<Rightarrow> int \<Rightarrow> flow_key \<Rightarrow> int result" where
  "hash5_pick g p seq f = py_mod (uint (hash5 f)) (pol_planes g (h5_topology p))"

subsection \<open>EV spray\<close>

record ev_spray =
  es_paths_per_plane :: int
  es_topology :: "topology option"
  es_spine_subsets :: subset_cache

definition mk_ev_spray :: "topo \<Rightarrow> int \<Rightarrow> topology option \<Rightarrow> ev_spray result" where
  "mk_ev_spray g paths tp =
     bindE (resolve_paths (pol_spines g tp) paths) (\<lambda>n.
       Inr \<lparr>es_paths_per_plane = n, es_topology = tp, es_spine_subsets = []\<rparr>)"

definition es_pick_ev :: "topo \<Rightarrow> ev_spray \<Rightarrow> int \<Rightarrow> flow_key \<Rightarrow> (ev_spray \<times> int \<times> int) result" where
  "es_pick_ev g p seq f =
     bindE (spines_for_flow (pol_select g (es_topology p)) (es_paths_per_plane p) (es_spine_subsets p) f)
       (\<lambda>(cache, spines).
         let np = pol_planes g (es_topology p); ev_count = np * int (length spines) in
         bindE (py_mod seq ev_count) (\<lambda>ev_idx.
           let plane = ev_idx mod np; spine_idx = (ev_idx div np) mod int (length spines)
           in Inr (p\<lparr>es_spine_subsets := cache\<rparr>, plane, spines ! nat spine_idx)))"

definition es_pick :: "topo \<Rightarrow> ev_spray \<Rightarrow> int \<Rightarrow> flow_key \<Rightarrow> (ev_spray \<times> int) result" where
  "es_pick g p seq f = bindE (es_pick_ev g p seq f) (\<lambda>(p', plane, _). Inr (p', plane))"

subsection \<open>Weighted picking\<close>

definition GOLDEN_RATIO_64 :: "64 word" where "GOLDEN_RATIO_64 = 0x9E3779B97F4A7C15"

text \<open>
  The running sums of \<open>w / total\<close>; the caller guarantees a positive total, so the list that gets
  its last entry replaced is not empty.
\<close>

fun cdf_scan :: "pyfloat \<Rightarrow> pyfloat \<Rightarrow> pyfloat list \<Rightarrow> pyfloat list" where
  "cdf_scan tot cum [] = []"
| "cdf_scan tot cum (w # ws) =
     (let cum' = fadd cum (fdiv w tot) in cum' # cdf_scan tot cum' ws)"

definition build_cdf :: "pyfloat list \<Rightarrow> pyfloat list" where
  "build_cdf ws = (let cdf = cdf_scan (fsum ws) 0 ws in cdf[length cdf - 1 := 1])"

definition weighted_u :: "int \<Rightarrow> flow_key \<Rightarrow> pyfloat" where
  "weighted_u seq f =
     (let x = hash5 f + of_int seq * GOLDEN_RATIO_64
      in fdiv (float_of_int (uint x)) (2 ^ 64))"

fun first_above :: "pyfloat \<Rightarrow> pyfloat list \<Rightarrow> nat option" where
  "first_above u [] = None"
| "first_above u (t # ts) = (if u < t then Some 0 else map_option Suc (first_above u ts))"

definition weighted_pick :: "int \<Rightarrow> flow_key \<Rightarrow> pyfloat list \<Rightarrow> int" where
  "weighted_pick seq f cdf =
     (case first_above (weighted_u seq f) cdf of
        Some p \<Rightarrow> int p | None \<Rightarrow> int (length cdf) - 1)"

record weighted =
  w_weights :: "pyfloat list"
  w_topology :: "topology option"
  w_cdf :: "pyfloat list"

definition mk_weighted :: "topo \<Rightarrow> pyfloat list \<Rightarrow> topology option \<Rightarrow> weighted result" where
  "mk_weighted g ws tp =
     bindE (raise_if (int (length ws) \<noteq> pol_planes g tp) ValueError) (\<lambda>_.
     bindE (raise_if (list_ex (\<lambda>w. w < 0) ws) ValueError) (\<lambda>_.
     bindE (raise_if (fsum ws \<le> 0) ValueError) (\<lambda>_.
       Inr \<lparr>w_weights = ws, w_topology = tp, w_cdf = build_cdf ws\<rparr>)))"

definition w_pick :: "weighted \<Rightarrow> int \<Rightarrow> flow_key \<Rightarrow> int" where
  "w_pick p seq f = weighted_pick seq f (w_cdf p)"

subsection \<open>Health-aware spray over the live table\<close>

record health_aware_mrc =
  h_tenant :: string
  h_paths_per_plane :: int
  h_topology :: "topology option"
  h_name :: string
  h_spine_subsets :: subset_cache

text \<open>The table is shared with the probe and report threads, so every pick takes its current state.\<close>

definition mk_health_aware_mrc ::
  "topo \<Rightarrow> ev_table \<Rightarrow> string \<Rightarrow> int \<Rightarrow> topology option \<Rightarrow> health_aware_mrc result" where
  "mk_health_aware_mrc g table tenant paths tp =
     bindE (raise_if (tenant \<notin> set (tenants table)) ValueError) (\<lambda>_.
     bindE (raise_if (int (num_planes table) \<noteq> pol_planes g tp) ValueError) (\<lambda>_.
     bindE (raise_if (int (num_paths table) \<noteq> pol_spines g tp) ValueError) (\<lambda>_.
     bindE (resolve_paths (pol_spines g tp) paths) (\<lambda>n.
       Inr \<lparr>h_tenant = tenant, h_paths_per_plane = n, h_topology = tp,
            h_name = ''health_aware_mrc('' @ tenant @ '')'', h_spine_subsets = []\<rparr>))))"

definition flat_weights :: "int \<Rightarrow> pyfloat list list \<Rightarrow> int list \<Rightarrow> pyfloat list" where
  "flat_weights np wgrid spines =
     concat (map (\<lambda>plane. map (\<lambda>sp. wgrid ! plane ! nat sp) spines) [0..<nat np])"

definition h_pick_ev ::
  "topo \<Rightarrow> ev_table \<Rightarrow> health_aware_mrc \<Rightarrow> int \<Rightarrow> flow_key \<Rightarrow> (health_aware_mrc \<times> int \<times> int) result" where
  "h_pick_ev g table p seq f =
     bindE (spines_for_flow (pol_select g (h_topology p)) (h_paths_per_plane p) (h_spine_subsets p) f)
       (\<lambda>(cache, spines).
         let np = pol_planes g (h_topology p); k = int (length spines) in
         bindE (weights_ev table (h_tenant p)) (\<lambda>wgrid.
           let flat = flat_weights np wgrid spines in
           bindE (if fsum flat \<le> 0 then py_mod seq (np * k)
                  else Inr (weighted_pick seq f (build_cdf flat))) (\<lambda>ev_idx.
             Inr (p\<lparr>h_spine_subsets := cache\<rparr>, ev_idx div k, spines ! nat (ev_idx mod k)))))"

definition h_pick ::
  "topo \<Rightarrow> ev_table \<Rightarrow> health_aware_mrc \<Rightarrow> int \<Rightarrow> flow_key \<Rightarrow> (health_aware_mrc \<times> int) result" where
  "h_pick g table p seq f = bindE (h_pick_ev g table p seq f) (\<lambda>(p', plane, _). Inr (p', plane))"

subsection \<open>Deferred construction\<close>

record health_aware_mrc_factory =
  hf_paths_per_plane :: int
  hf_topology :: "topology option"

definition mk_health_aware_mrc_factory ::
  "topo \<Rightarrow> int \<Rightarrow> topology option \<Rightarrow> health_aware_mrc_factory" where
  "mk_health_aware_mrc_factory g paths tp =
     \<lparr>hf_paths_per_plane = (if paths = DEFAULT_PATHS then pol_spines g tp else paths),
      hf_topology = tp\<rparr>"

definition hf_bind ::
  "topo \<Rightarrow> health_aware_mrc_factory \<Rightarrow> ev_table \<Rightarrow> string \<Rightarrow> health_aware_mrc result" where
  "hf_bind g fac table tenant =
     mk_health_aware_mrc g table tenant (hf_paths_per_plane fac) (hf_topology fac)"

definition hf_pick :: "health_aware_mrc_factory \<Rightarrow> int \<Rightarrow> flow_key \<Rightarrow> int result" where
  "hf_pick fac seq f = Inl RuntimeError"

datatype spray_policy =
    PRoundRobin round_robin
  | PHash5Tuple hash5tuple
  | PEvSpray ev_spray
  | PWeighted weighted
  | PFactory health_aware_mrc_factory

definition policy_from_spec :: "topo \<Rightarrow> json \<Rightarrow> topology option \<Rightarrow> spray_policy result" where
  "policy_from_spec g spec tp =
     (case spec of
        JStr s \<Rightarrow>
          if s = ''round_robin'' then Inr (PRoundRobin \<lparr>rr_topology = tp\<rparr>)
          else if s = ''hash5tuple'' then Inr (PHash5Tuple \<lparr>h5_topology = tp\<rparr>)
          else if s = ''ev_spray''
          then bindE (mk_ev_spray g DEFAULT_PATHS tp) (\<lambda>p. Inr (PEvSpray p))
          else if s = ''health_aware_mrc''
          then Inr (PFactory (mk_health_aware_mrc_factory g DEFAULT_PATHS tp))
          else Inl ValueError
      | JObj [(kind, v)] \<Rightarrow>
          if kind = ''weighted''
          then bindE (bindE (py_iter v) (mapE py_float)) (\<lambda>ws.
               bindE (mk_weighted g ws tp) (\<lambda>p. Inr (PWeighted p)))
          else if kind = ''ev_spray''
          then bindE (py_int v) (\<lambda>n. bindE (mk_ev_spray g n tp) (\<lambda>p. Inr (PEvSpray p)))
          else if kind = ''health_aware_mrc''
          then bindE (py_int v) (\<lambda>n. Inr (PFactory (mk_health_aware_mrc_factory g n tp)))
          else Inl ValueError
      | _ \<Rightarrow> Inl ValueError)"

end
