(* ===== verification/SenderProperties.thy ===== *)
theory SenderProperties
  imports SenderLoop FramingProperties Policy
begin

text \<open>
  The books of the sender: what its counters say of the packets, with and without trimming, for
  every policy, every pattern of failing sends and every sequence of NACKs.
\<close>

subsection \<open>The books\<close>

definition planes_total :: "'p sender_state \<Rightarrow> int" where
  "planes_total s = sum_list (map snd (ss_per_plane s))"

definition dropped_of :: "'p sender_state \<Rightarrow> int" where
  "dropped_of s = ts_dropped (nl_stats (ss_nack s))"

definition resent_of :: "'p sender_state \<Rightarrow> int" where
  "resent_of s = retransmits (nl_stats (ss_nack s))"

text \<open>Every counted packet is in the plane count, the EV count and the callbacks, and on the wire unless dropped.\<close>

definition books :: "'p sender_env \<Rightarrow> 'p sender_state \<Rightarrow> bool" where
  "books E s \<longleftrightarrow>
     sum_list (map snd (ss_per_ev s)) = (if ev_aware (se_picker E) then planes_total s else 0)
     \<and> int (length (ss_wire s)) + dropped_of s = planes_total s
     \<and> int (length (ss_calls s)) = planes_total s"

text \<open>Steps that touch none of it.\<close>

definition quiet :: "'p sender_state \<Rightarrow> 'p sender_state \<Rightarrow> bool" where
  "quiet s s' \<longleftrightarrow> ss_per_plane s' = ss_per_plane s \<and> ss_per_ev s' = ss_per_ev s \<and> ss_wire s' = ss_wire s
     \<and> ss_calls s' = ss_calls s \<and> dropped_of s' = dropped_of s \<and> resent_of s' = resent_of s
     \<and> ss_sent s' = ss_sent s \<and> ss_errors s' = ss_errors s \<and> (ss_oracle s' = None \<longleftrightarrow> ss_oracle s = None)"

lemma quietD:
  assumes "quiet s s'"
  shows "books E s' \<longleftrightarrow> books E s" "planes_total s' = planes_total s" "resent_of s' = resent_of s"
    "ss_sent s' = ss_sent s" "ss_errors s' = ss_errors s" "ss_oracle s' = None \<longleftrightarrow> ss_oracle s = None"
  using assms by (simp_all add: quiet_def books_def planes_total_def)

lemma quiet_refl [simp]: "quiet s s"
  by (simp add: quiet_def)

lemma quiet_policy [simp]: "quiet s (s\<lparr>ss_policy := p\<rparr>)"
  by (simp add: quiet_def dropped_of_def resent_of_def)

lemma quiet_build: "build_step E s sq plane ev u d trimmed = (s', r) \<Longrightarrow> quiet s s'"
  by (auto simp: build_step_def quiet_def dropped_of_def resent_of_def split: prod.splits)

lemma nl_receive_stats:
  "ts_dropped (nl_stats (nl_receive l d)) = ts_dropped (nl_stats l)
   \<and> retransmits (nl_stats (nl_receive l d)) = retransmits (nl_stats l)"
  by (auto simp: nl_receive_def on_nack_def Let_def split: sum.split option.split)

lemma quiet_hear [simp]: "quiet s (hear_nacks s ds)"
proof -
  have "ts_dropped (nl_stats (foldl nl_receive l ds)) = ts_dropped (nl_stats l)
      \<and> retransmits (nl_stats (foldl nl_receive l ds)) = retransmits (nl_stats l)" for l
    by (induction ds arbitrary: l) (simp_all add: nl_receive_stats)
  then show ?thesis by (simp add: hear_nacks_def quiet_def dropped_of_def resent_of_def)
qed

lemma quiet_take: "nl_take (ss_nack s) = (l, reqs) \<Longrightarrow> quiet s (s\<lparr>ss_nack := l\<rparr>)"
  by (auto simp: nl_take_def quiet_def dropped_of_def resent_of_def)

lemma ask_oracle_books:
  assumes "ask_oracle E s plane ev = (s', trimmed, dropped)"
  shows "ss_per_plane s' = ss_per_plane s" "ss_per_ev s' = ss_per_ev s" "ss_wire s' = ss_wire s"
    "ss_calls s' = ss_calls s" "ss_sent s' = ss_sent s" "ss_errors s' = ss_errors s" "resent_of s' = resent_of s"
    "dropped_of s' = dropped_of s + (if dropped then 1 else 0)" "ss_oracle s' = None \<longleftrightarrow> ss_oracle s = None"
  using assms by (auto simp: ask_oracle_def Let_def count_trim_def dropped_of_def resent_of_def
      split: option.splits prod.splits if_splits)

lemma sendto_books:
  assumes "sendto E s plane d pkt = (s', r)"
  shows "ss_per_plane s' = ss_per_plane s" "ss_per_ev s' = ss_per_ev s" "ss_calls s' = ss_calls s"
    "ss_sent s' = ss_sent s" "ss_errors s' = ss_errors s" "resent_of s' = resent_of s"
    "dropped_of s' = dropped_of s" "ss_oracle s' = ss_oracle s"
    "r = Inr () \<Longrightarrow> length (ss_wire s') = length (ss_wire s) + 1"
    "r \<noteq> Inr () \<Longrightarrow> ss_wire s' = ss_wire s \<and> r = Inl OSError"
  using assms by (auto simp: sendto_def Let_def dropped_of_def resent_of_def split: if_splits)

text \<open>The network side of a packet: on the wire or dropped when it succeeds, otherwise nothing.\<close>

definition moved :: "int \<Rightarrow> 'p sender_state \<Rightarrow> 'p sender_state \<Rightarrow> bool" where
  "moved k s s' \<longleftrightarrow> ss_per_plane s' = ss_per_plane s \<and> ss_per_ev s' = ss_per_ev s \<and> ss_calls s' = ss_calls s
     \<and> ss_sent s' = ss_sent s \<and> ss_errors s' = ss_errors s \<and> resent_of s' = resent_of s
     \<and> (ss_oracle s' = None \<longleftrightarrow> ss_oracle s = None)
     \<and> int (length (ss_wire s')) + dropped_of s' = int (length (ss_wire s)) + dropped_of s + k"

lemma to_network_moved:
  assumes "to_network E s sq plane ev u d trimmed False = (s', r)"
  shows "moved (if r = Inr () then 1 else 0) s s'"
proof -
  obtain sb rb where b: "build_step E s sq plane ev u d trimmed = (sb, rb)"
    by (cases "build_step E s sq plane ev u d trimmed")
  note q = quiet_build [OF b, unfolded quiet_def]
  show ?thesis
  proof (cases rb)
    case (Inl e)
    then have "s' = sb" "r = Inl e" using assms b by (simp_all add: to_network_def)
    then show ?thesis using q by (simp add: moved_def)
  next
    case (Inr pkt)
    then have t: "sendto E sb plane d pkt = (s', r)" using assms b by (simp add: to_network_def)
    show ?thesis
      using q sendto_books [OF t] by (cases "r = Inr ()") (simp_all add: moved_def)
  qed
qed

lemma asked_to_network:
  assumes "ask_oracle E s plane ev = (s1, trimmed, dropped)"
    and "to_network E s1 sq plane ev u d trimmed dropped = (s', r)"
  shows "moved (if r = Inr () then 1 else 0) s s'"
proof (cases dropped)
  case True
  then show ?thesis using assms(2) ask_oracle_books [OF assms(1)] by (auto simp: to_network_def moved_def)
next
  case False
  have "moved (if r = Inr () then 1 else 0) s1 s'" using assms(2) False by (intro to_network_moved) simp
  then show ?thesis using ask_oracle_books [OF assms(1)] False by (simp add: moved_def)
qed

text \<open>One emitted packet: counted once, or an error that left the books as they were.\<close>

lemma emit_books:
  assumes "emit E s sq plane ev u d = (s', r)" "books E s"
  shows "books E s' \<and> planes_total s' = planes_total s + (if r = Inr () then 1 else 0)
    \<and> ss_sent s' = ss_sent s \<and> resent_of s' = resent_of s \<and> (ss_oracle s' = None \<longleftrightarrow> ss_oracle s = None)
    \<and> ss_errors s' = ss_errors s + (if r = Inl OSError then 1 else 0)"
proof -
  obtain s1 trimmed dropped where a: "ask_oracle E s plane ev = (s1, trimmed, dropped)" by (cases "ask_oracle E s plane ev")
  obtain s2 r2 where n: "to_network E s1 sq plane ev u d trimmed dropped = (s2, r2)"
    by (cases "to_network E s1 sq plane ev u d trimmed dropped")
  have step: "moved (if r2 = Inr () then 1 else 0) s s2" by (rule asked_to_network [OF a n])
  have e: "emit E s sq plane ev u d = (case r2 of Inl e \<Rightarrow> (count_error s2 e, Inl e)
      | Inr w \<Rightarrow> let s3 = count_sent E s2 plane ev;
             s4 = (if ss_oracle s3 \<noteq> None then s3\<lparr>ss_nack := note_sent (ss_nack s3) sq\<rparr> else s3)
           in (s4\<lparr>ss_calls := ss_calls s4 @ [(sq, plane, ev)]\<rparr>, Inr ()))"
    unfolding emit_def a Let_def prod.case n ..
  show ?thesis
  proof (cases r2)
    case (Inl er)
    then show ?thesis
      using assms step unfolding e
      by (auto simp: count_error_def books_def planes_total_def dropped_of_def resent_of_def moved_def)
  next
    case (Inr w)
    then show ?thesis
      using assms step unfolding e
      by (auto simp: count_sent_def books_def planes_total_def dropped_of_def resent_of_def sum_dict_inc Let_def moved_def)
  qed
qed

lemma count_resent [simp]:
  "books E (count_trim (\<lambda>t. t\<lparr>retransmits := retransmits t + 1\<rparr>) s) \<longleftrightarrow> books E s"
  "planes_total (count_trim f s) = planes_total s" "ss_sent (count_trim f s) = ss_sent s"
  "ss_errors (count_trim f s) = ss_errors s" "ss_oracle (count_trim f s) = ss_oracle s"
  "resent_of (count_trim (\<lambda>t. t\<lparr>retransmits := retransmits t + 1\<rparr>) s) = resent_of s + 1"
  by (simp_all add: count_trim_def books_def planes_total_def dropped_of_def resent_of_def)

lemma retransmit_all_books:
  assumes "retransmit_all E s reqs = (s', r)" "books E s"
  shows "books E s' \<and> planes_total s' - resent_of s' = planes_total s - resent_of s \<and> ss_sent s' = ss_sent s
    \<and> ss_errors s \<le> ss_errors s' \<and> (ss_oracle s' = None \<longleftrightarrow> ss_oracle s = None)"
  using assms
proof (induction reqs arbitrary: s)
  case (Cons req reqs)
  obtain rseq tplane tpath where req: "req = (rseq, tplane, tpath)" by (cases req)
  show ?case
  proof (cases "pick_other_ev E (ss_policy s) rseq (tplane, tpath)")
    case (Inl e)
    then show ?thesis using Cons.prems by (simp add: req)
  next
    case (Inr x)
    obtain p rplane rspine where x: "x = (p, rplane, rspine)" by (cases x)
    let ?s1 = "s\<lparr>ss_policy := p\<rparr>"
    note q1 = quietD [OF quiet_policy [of s p]]
    show ?thesis
    proof (cases "resolve E rplane rspine")
      case (Inl e)
      then have "s' = ?s1" using Cons.prems(1) Inr by (simp add: req x)
      then show ?thesis using q1 Cons.prems(2) by simp
    next
      case res: (Inr ud)
      obtain u d where ud: "ud = (u, d)" by (cases ud)
      obtain s2 r2 where em: "emit E ?s1 rseq rplane rspine u d = (s2, r2)" by (cases "emit E ?s1 rseq rplane rspine u d")
      note b = emit_books [OF em] q1 Cons.prems(2)
      show ?thesis
      proof (cases r2)
        case r2: (Inr w)
        have "retransmit_all E (count_trim (\<lambda>t. t\<lparr>retransmits := retransmits t + 1\<rparr>) s2) reqs = (s', r)"
          using Cons.prems(1) Inr res em r2 by (simp add: req x ud)
        from Cons.IH [OF this] show ?thesis using b r2 by simp
      next
        case r2: (Inl e)
        show ?thesis
        proof (cases "e = OSError")
          case True
          then have "retransmit_all E s2 reqs = (s', r)" using Cons.prems(1) Inr res em r2 by (simp add: req x ud)
          from Cons.IH [OF this] show ?thesis using b r2 True by simp
        next
          case False
          then have "s' = s2" using Cons.prems(1) Inr res em r2 by (simp add: req x ud)
          then show ?thesis using b r2 False by simp
        qed
      qed
    qed
  qed
qed simp

text \<open>A new packet: sent or counted as an error, never both; without trimming exactly one of them.\<close>

lemma send_new_books:
  assumes "send_new E s sq = (s', r)" "books E s"
  shows "books E s' \<and> resent_of s' = resent_of s \<and> planes_total s' - ss_sent s' = planes_total s - ss_sent s
    \<and> (ss_oracle s' = None \<longleftrightarrow> ss_oracle s = None)
    \<and> ss_sent s \<le> ss_sent s' \<and> ss_sent s' \<le> ss_sent s + (if r = Inr () then 1 else 0)
    \<and> ss_sent s + ss_errors s + (if r = Inr () then 1 else 0) \<le> ss_sent s' + ss_errors s'
    \<and> (ss_oracle s = None \<longrightarrow> ss_sent s' + ss_errors s' = ss_sent s + ss_errors s + (if r = Inr () then 1 else 0)
        \<and> dropped_of s' = dropped_of s)"
proof (cases "pick_any E (ss_policy s) sq")
  case (Inl e)
  then show ?thesis using assms by (auto simp: send_new_def)
next
  case (Inr x)
  obtain p plane ev where x: "x = (p, plane, ev)" by (cases x)
  let ?s1 = "s\<lparr>ss_policy := p\<rparr>"
  have q1: "quiet s ?s1" by simp
  note d1 = quietD [OF q1]
  have stop: ?thesis if "quiet s s'" "r \<noteq> Inr ()"
    using that assms(2) quietD [OF that(1)] by (simp add: quiet_def)
  show ?thesis
  proof (cases "0 \<le> plane \<and> plane < NUM_PLANES (se_topo E)")
    case False
    then show ?thesis using assms(1) Inr q1 by (intro stop) (auto simp: send_new_def x Let_def)
  next
    case range: True
    show ?thesis
    proof (cases "resolve E plane ev")
      case (Inl e)
      then show ?thesis using assms(1) Inr range q1 by (intro stop) (auto simp: send_new_def x Let_def)
    next
      case res: (Inr ud)
      obtain u d where ud: "ud = (u, d)" by (cases ud)
      note start = Inr range res
      show ?thesis
      proof (cases "ss_oracle s = None")
        case False
        obtain s2 r2 where em: "emit E ?s1 sq plane ev u d = (s2, r2)" by (cases "emit E ?s1 sq plane ev u d")
        note b = emit_books [OF em] d1 assms(2)
        show ?thesis
        proof (cases r2)
          case r2: (Inr w)
          then have "s' = s2\<lparr>ss_sent := ss_sent s2 + 1\<rparr>" "r = Inr ()"
            using assms(1) start em False by (auto simp: send_new_def x ud Let_def)
          then show ?thesis using b r2 False by (auto simp: books_def planes_total_def dropped_of_def resent_of_def)
        next
          case r2: (Inl e)
          then have "s' = s2" "r = (if e = OSError then Inr () else Inl e)"
            using assms(1) start em False by (auto simp: send_new_def x ud Let_def split: if_splits)
          then show ?thesis using b r2 False by auto
        qed
      next
        case none: True
        obtain sb rb where bs: "build_step E ?s1 sq plane ev u d False = (sb, rb)"
          by (cases "build_step E ?s1 sq plane ev u d False")
        have qb: "quiet s sb" using quiet_build [OF bs] q1 by (simp add: quiet_def)
        show ?thesis
        proof (cases rb)
          case (Inl e)
          then show ?thesis using assms(1) start bs none qb by (intro stop) (auto simp: send_new_def x ud Let_def)
        next
          case pkt: (Inr pkt)
          obtain sc rc where t: "sendto E sb plane d pkt = (sc, rc)" by (cases "sendto E sb plane d pkt")
          note t1 = sendto_books [OF t]
          show ?thesis
          proof (cases "rc = Inr ()")
            case True
            then have "s' = (let s4 = count_sent E sc plane ev in s4\<lparr>ss_sent := ss_sent s4 + 1,
                ss_calls := ss_calls s4 @ [(sq, plane, ev)]\<rparr>)" "r = Inr ()"
              using assms(1) start bs pkt t none by (auto simp: send_new_def x ud Let_def)
            then show ?thesis
              using assms(2) qb t1(1-8) t1(9) [OF True] unfolding quiet_def
              by (auto simp: books_def planes_total_def dropped_of_def resent_of_def count_sent_def Let_def sum_dict_inc)
          next
            case False
            then have "s' = count_error sc OSError" "r = Inr ()"
              using t1(10) assms(1) start bs pkt t none by (auto simp: send_new_def x ud Let_def)
            then show ?thesis
              using assms(2) qb t1(1-8) t1(10) [OF False] unfolding quiet_def
              by (auto simp: books_def planes_total_def dropped_of_def resent_of_def count_error_def)
          qed
        qed
      qed
    qed
  qed
qed

subsection \<open>Runs\<close>

definition run_books :: "bool \<Rightarrow> 'p sender_env \<Rightarrow> 'p sender_state \<Rightarrow> int \<Rightarrow> bool" where
  "run_books untrimmed E s sq \<longleftrightarrow> books E s \<and> planes_total s = ss_sent s + resent_of s \<and> ss_sent s \<le> sq
     \<and> sq \<le> ss_sent s + ss_errors s
     \<and> (untrimmed \<longleftrightarrow> ss_oracle s = None)
     \<and> (untrimmed \<longrightarrow> ss_sent s + ss_errors s = sq \<and> resent_of s = 0 \<and> dropped_of s = 0)"

lemma retransmit_nacked_books:
  assumes "retransmit_nacked E s = (s', r)" "run_books untrimmed E s sq" "ss_oracle s \<noteq> None"
  shows "run_books untrimmed E s' sq \<and> ss_oracle s' \<noteq> None"
proof -
  obtain l reqs where l: "nl_take (ss_nack s) = (l, reqs)" by (cases "nl_take (ss_nack s)")
  note q = quietD [OF quiet_take [OF l]]
  have "retransmit_all E (s\<lparr>ss_nack := l\<rparr>) reqs = (s', r)" using assms(1) l by (simp add: retransmit_nacked_def)
  from retransmit_all_books [OF this] show ?thesis using assms(2,3) q by (auto simp: run_books_def)
qed

lemma quiet_run_books: "quiet s s' \<Longrightarrow> run_books untrimmed E s' sq \<longleftrightarrow> run_books untrimmed E s sq"
proof -
  assume q: "quiet s s'"
  then have "dropped_of s' = dropped_of s" by (simp add: quiet_def)
  then show ?thesis by (simp add: run_books_def quietD [OF q])
qed

lemma turn_books:
  assumes "turn E interval deadline i (s, sq, t) = ((s', sq', t'), status)" "run_books untrimmed E s sq"
  shows "run_books untrimmed E s' sq'"
proof (cases "ti_interrupt i \<or> \<not> (case deadline of None \<Rightarrow> True | Some d \<Rightarrow> ti_now i < d) \<or> ti_stop i")
  case True
  then show ?thesis using assms by (simp add: turn_def)
next
  case go: False
  let ?s1 = "hear_nacks s (ti_nacks i)"
  have b1: "run_books untrimmed E ?s1 sq" using assms(2) quiet_run_books [OF quiet_hear] by blast
  define x where "x = (if ss_oracle ?s1 \<noteq> None then retransmit_nacked E ?s1 else (?s1, Inr ()))"
  obtain s2 r2 where x2: "x = (s2, r2)" by (cases x)
  have b2: "run_books untrimmed E s2 sq"
    using x2 b1 retransmit_nacked_books [of E ?s1 s2 r2] by (auto simp: x_def split: if_splits)
  have t: "turn E interval deadline i (s, sq, t) = (case x of (s2, Inl e) \<Rightarrow> ((s2, sq, t), Raised e)
      | (s2, Inr _) \<Rightarrow> (case send_new E s2 sq of (s3, Inl e) \<Rightarrow> ((s3, sq, t), Raised e)
          | (s3, Inr _) \<Rightarrow> ((s3, sq + 1, fst (pace interval t i)), Running)))"
    unfolding turn_def prod.case if_not_P [OF go] Let_def x_def ..
  show ?thesis
  proof (cases r2)
    case (Inl e)
    then show ?thesis using assms(1) b2 unfolding t x2 by simp
  next
    case (Inr w)
    obtain s3 r3 where s3: "send_new E s2 sq = (s3, r3)" by (cases "send_new E s2 sq")
    have "run_books untrimmed E s3 (if r3 = Inr () then sq + 1 else sq)"
      using send_new_books [OF s3] b2 unfolding run_books_def by auto
    then show ?thesis using assms(1) Inr unfolding t x2 by (cases r3) (auto simp: s3)
  qed
qed

lemma send_loop_books:
  "send_loop E interval deadline ins (s, sq, t) = ((s', sq', t'), status) \<Longrightarrow> run_books untrimmed E s sq \<Longrightarrow> run_books untrimmed E s' sq'"
proof (induction ins arbitrary: s sq t)
  case (Cons i ins)
  obtain s1 sq1 t1 st1 where t1: "turn E interval deadline i (s, sq, t) = ((s1, sq1, t1), st1)"
    by (metis prod.collapse)
  note b = turn_books [OF t1 Cons.prems(2)]
  show ?case using Cons.IH [OF _ b] Cons.prems(1) b by (cases st1) (auto simp: t1)
qed simp

lemma drain_loop_books:
  "drain_loop E until ins s = (s', status) \<Longrightarrow> run_books untrimmed E s sq \<Longrightarrow> ss_oracle s \<noteq> None \<Longrightarrow> run_books untrimmed E s' sq"
proof (induction ins arbitrary: s)
  case (Cons i ins)
  obtain now ds where i: "i = (now, ds)" by (cases i)
  obtain s1 r1 where s1: "retransmit_nacked E (hear_nacks s ds) = (s1, r1)" by fastforce
  have "ss_oracle (hear_nacks s ds) \<noteq> None" using Cons.prems(3) quietD(6) [OF quiet_hear, of s ds] by simp
  then have "run_books untrimmed E s1 sq \<and> ss_oracle s1 \<noteq> None"
    using retransmit_nacked_books [OF s1] Cons.prems(2) quiet_run_books [OF quiet_hear] by blast
  then show ?case using Cons.IH [of s1] Cons.prems s1 by (cases r1) (auto simp: i split: if_splits)
qed simp

lemma sender_setupE:
  assumes "sender_setup g scapy rng fails can_open picker policy f sid_mode transport trim = Inr (E, s0)"
  obtains spine src_inner dst_inner key meta where
    "spine_for g (fe_src_id f) (fe_dst_id f) = Inr spine"
    "inner_addr g (fe_tenant f) (fe_src_id f) = Inr src_inner" "inner_addr g (fe_tenant f) (fe_dst_id f) = Inr dst_inner"
    "to_flow_key g f = Inr key"
    "mapE (\<lambda>p. bindE (raise_if (\<not> can_open p) OSError) (\<lambda>_. bindE (host_underlay_addr g (fe_tenant f) p (fe_src_id f)) (\<lambda>src_u.
        bindE (usid_outer_dst g (fe_tenant f) p spine (fe_dst_id f) sid_mode) (\<lambda>outer. Inr (src_u, outer))))) [0..NUM_PLANES g - 1]
      = Inr meta"
    "E = \<lparr>se_topo = g, se_scapy = scapy, se_rng = rng, se_fails = fails, se_picker = picker, se_flow = f, se_key = key,
       se_spine = spine, se_sid_mode = sid_mode, se_underlay = map fst meta, se_fixed = map snd meta\<rparr>"
    "s0 = \<lparr>ss_policy = policy, ss_templates = mk_packet_templates src_inner dst_inner transport,
       ss_oracle = map_option (\<lambda>sp. \<lparr>or_spec = sp, or_drawn = 0\<rparr>) trim,
       ss_nack = mk_nack_listener (case trim of None \<Rightarrow> 0 | Some sp \<Rightarrow> trim_max_retransmits sp) new_trim_stats,
       ss_sent = 0, ss_errors = 0, ss_per_plane = [], ss_per_ev = [], ss_attempts = 0, ss_wire = [], ss_calls = []\<rparr>"
  using assms unfolding sender_setup_def bindE_Inr_iff by blast

lemma sender_setup_books:
  "sender_setup g scapy rng fails can_open picker policy f sid_mode transport trim = Inr (E, s0) \<Longrightarrow> run_books (trim = None) E s0 0"
  by (elim sender_setupE)
    (simp add: run_books_def books_def planes_total_def dropped_of_def resent_of_def mk_nack_listener_def new_trim_stats_def)

text \<open>
  C13. The sender's report adds up, whatever the policy picks, whichever sends fail and whenever NACKs
  arrive: for a run of \<open>n\<close> new packets, followed or not by the drain, the plane counts and (for an
  EV-aware policy) the EV counts sum to the packets sent plus the retransmits, which is what went on
  the wire plus what the oracle dropped; every new packet was sent or is an error, and without trimming
  exactly one of the two, with nothing retransmitted or dropped.
\<close>

theorem sender_report_adds_up:
  assumes "sender_setup g scapy rng fails can_open picker policy f sid_mode transport trim = Inr (E, s0)"
    and "send_loop E interval deadline ins (s0, 0, t) = ((s1, n, t1), status)"
    and "s = s1 \<or> (trim \<noteq> None \<and> drain_loop E until drains s1 = (s, status'))"
  shows "sum_list (map snd (ss_per_plane s)) = ss_sent s + retransmits (nl_stats (ss_nack s))
    \<and> sum_list (map snd (ss_per_ev s)) = (if ev_aware picker then sum_list (map snd (ss_per_plane s)) else 0)
    \<and> int (length (ss_wire s)) + ts_dropped (nl_stats (ss_nack s)) = sum_list (map snd (ss_per_plane s))
    \<and> ss_sent s \<le> n \<and> n \<le> ss_sent s + ss_errors s
    \<and> (trim = None \<longrightarrow> ss_sent s + ss_errors s = n \<and> int (length (ss_wire s)) = ss_sent s)"
proof -
  have E: "se_picker E = picker" by (rule sender_setupE [OF assms(1)]) simp
  have b1: "run_books (trim = None) E s1 n" by (rule send_loop_books [OF assms(2) sender_setup_books [OF assms(1)]])
  then have "ss_oracle s1 = None \<longleftrightarrow> trim = None" by (simp add: run_books_def)
  then have "run_books (trim = None) E s n" using assms(3) b1 drain_loop_books [of E until drains s1 s] by auto
  then show ?thesis by (auto simp: run_books_def books_def planes_total_def dropped_of_def resent_of_def E)
qed

text \<open>A run of the round-robin policy on the small fabric, without and with trimming.\<close>

definition rr_picker :: "unit picker" where
  "rr_picker = PlanePicker (\<lambda>u sq k. bindE (rr_pick demo_topo \<lparr>rr_topology = None\<rparr> sq k) (\<lambda>p. Inr (u, p)))"

definition demo_turn :: turn_in where
  "demo_turn = \<lparr>ti_now = 0, ti_stop = False, ti_interrupt = False, ti_nacks = [], ti_after = 0, ti_late = 0\<rparr>"

definition demo_setup :: "string \<Rightarrow> trim_spec option \<Rightarrow> (unit sender_env \<times> unit sender_state) result" where
  "demo_setup transport trim = sender_setup demo_topo demo_scapy (\<lambda>_ _. 0) (\<lambda>_. False) (\<lambda>_. True) rr_picker ()
     (mk_flow_endpoint ''green'' 2 5) ''uA'' transport trim"

lemma demo_setup_ok:
  obtains E s0 where "demo_setup transport trim = Inr (E, s0)"
proof -
  let ?f = "mk_flow_endpoint ''green'' 2 5"
  have ids: "fe_src_id ?f = 2" "fe_dst_id ?f = 5" "fe_tenant ?f = ''green''" by (simp_all add: mk_flow_endpoint_def)
  have "spine_for demo_topo 2 5 = Inr 1" "inner_addr demo_topo ''green'' 2 = Inr ''2001:db8:bbbb:02::2''"
    "inner_addr demo_topo ''green'' 5 = Inr ''2001:db8:bbbb:05::2''" by code_simp+
  moreover have "mapE (\<lambda>p. bindE (host_underlay_addr demo_topo ''green'' p 2) (\<lambda>src_u.
        bindE (usid_outer_dst demo_topo ''green'' p 1 5 ''uA'') (\<lambda>outer. Inr (src_u, outer)))) [0..NUM_PLANES demo_topo - 1]
      = Inr [(''2001:db8:bbbb:02::2'', ''fc00:0000:f001:e005:d000::''), (''2001:db8:bbbb:02::2'', ''fc00:0001:f001:e005:d000::''),
        (''2001:db8:bbbb:02::2'', ''fc00:0002:f001:e005:d000::''), (''2001:db8:bbbb:02::2'', ''fc00:0003:f001:e005:d000::'')]"
    by code_simp
  ultimately show thesis
    using that by (simp add: demo_setup_def sender_setup_def ids to_flow_key_def)
qed

theorem sender_report_adds_up_witness:
  "\<exists>E s0. demo_setup ''rdma'' (Some demo_trim) = Inr (E, s0)
     \<and> (case send_loop E 0 None [demo_turn, demo_turn] (s0, 0, 0) of ((s1, n, t1), status) \<Rightarrow>
         case drain_loop E 1 [(0, []), (2, [])] s1 of (s, status') \<Rightarrow>
          sum_list (map snd (ss_per_plane s)) = ss_sent s + retransmits (nl_stats (ss_nack s))
          \<and> ss_sent s \<le> n \<and> n \<le> ss_sent s + ss_errors s)"
proof -
  obtain E s0 where E: "demo_setup ''rdma'' (Some demo_trim) = Inr (E, s0)" by (rule demo_setup_ok)
  obtain s1 n t1 status where l: "send_loop E 0 None [demo_turn, demo_turn] (s0, 0, 0) = ((s1, n, t1), status)"
    by (metis prod.collapse)
  obtain s status' where d: "drain_loop E 1 [(0, []), (2, [])] s1 = (s, status')" by fastforce
  show ?thesis
    using sender_report_adds_up [OF E [unfolded demo_setup_def] l, of s 1 "[(0, []), (2, [])]" status'] E l d by simp
qed

end
