(* ===== verification/PyText.thy ===== *)
theory PyText
  imports PyConv
begin

text \<open>
  Text handling shared by the command modules: \<open>str.split()\<close>, \<open>str.startswith\<close>, \<open>str.isdigit\<close>,
  \<open>str.lower\<close> and the fact that \<open>int\<close> reads back every number that formatting wrote, padded or not.
\<close>

subsection \<open>Operations\<close>

definition starts_with :: "string \<Rightarrow> string \<Rightarrow> bool" where
  "starts_with p s \<longleftrightarrow> take (length p) s = p"

text \<open>\<open>s.split()\<close>: the maximal runs of characters that are not blank.\<close>

fun py_words :: "string \<Rightarrow> string list" where
  "py_words [] = []"
| "py_words (c # cs) =
     (if py_space c then py_words cs
      else if cs = [] \<or> py_space (hd cs) then [c] # py_words cs
      else case py_words cs of [] \<Rightarrow> [[c]] | w # ws \<Rightarrow> (c # w) # ws)"

text \<open>
  \<open>s.isdigit()\<close>: below code point 256 the decimal digits and the superscripts one, two and three,
  which \<open>int\<close> then rejects.
\<close>

definition py_isdigit :: "string \<Rightarrow> bool" where
  "py_isdigit s \<longleftrightarrow> s \<noteq> [] \<and> list_all (\<lambda>c. py_digit c \<or> (of_char c :: nat) \<in> {178, 179, 185}) s"

definition lower_char :: "char \<Rightarrow> char" where
  "lower_char c =
     (let n = (of_char c :: nat) in
      if 65 \<le> n \<and> n \<le> 90 \<or> 192 \<le> n \<and> n \<le> 222 \<and> n \<noteq> 215 then char_of (n + 32) else c)"

definition py_lower :: "string \<Rightarrow> string" where
  "py_lower s = map lower_char s"

text \<open>\<open>sorted\<close> on strings, and the sorted elements of a set given as a list.\<close>

fun str_insert :: "string \<Rightarrow> string list \<Rightarrow> string list" where
  "str_insert x [] = [x]"
| "str_insert x (y # ys) = (if str_le x y then x # y # ys else y # str_insert x ys)"

definition sorted_strs :: "string list \<Rightarrow> string list" where
  "sorted_strs xs = foldr str_insert xs []"

definition sorted_str_set :: "string list \<Rightarrow> string list" where
  "sorted_str_set xs = sorted_strs (remdups xs)"

subsection \<open>Laws\<close>

lemma starts_with_append [simp]: "starts_with p (p @ s)"
  by (simp add: starts_with_def)

lemma starts_with_split: "starts_with p s \<longleftrightarrow> (\<exists>t. s = p @ t)"
  unfolding starts_with_def by (metis append_eq_conv_conj append_take_drop_id)

lemma set_str_insert [simp]: "set (str_insert x ys) = insert x (set ys)"
  by (induction ys) auto

lemma set_sorted_strs [simp]: "set (sorted_strs xs) = set xs"
  unfolding sorted_strs_def by (induction xs) auto

lemma set_sorted_str_set [simp]: "set (sorted_str_set xs) = set xs"
  by (simp add: sorted_str_set_def)

text \<open>Reading back a decimal number.\<close>

lemma digit_char_dec:
  assumes "d < 10"
  shows "(of_char (digit_chars ! d) :: nat) = 48 + d" "\<not> py_space (digit_chars ! d)"
    "py_digit (digit_chars ! d)" "digit_chars ! d \<notin> set ''-+_ ''"
proof -
  have "\<forall>d \<in> set [0..<10]. (of_char (digit_chars ! d) :: nat) = 48 + d \<and> \<not> py_space (digit_chars ! d)
      \<and> py_digit (digit_chars ! d) \<and> digit_chars ! d \<notin> set ''-+_ ''" by code_simp
  then show "(of_char (digit_chars ! d) :: nat) = 48 + d" "\<not> py_space (digit_chars ! d)"
    "py_digit (digit_chars ! d)" "digit_chars ! d \<notin> set ''-+_ ''"
    using assms by auto
qed

definition decimal :: "string \<Rightarrow> bool" where
  "decimal s \<longleftrightarrow> s \<noteq> [] \<and> (\<exists>ds. s = map ((!) digit_chars) ds \<and> (\<forall>d \<in> set ds. d < 10))"

lemma decimal_chars:
  assumes "decimal s" "c \<in> set s"
  shows "\<not> py_space c" "py_digit c" "c \<noteq> CHR ''-''" "c \<noteq> CHR ''+''" "c \<noteq> CHR ''_''"
proof -
  obtain ds where ds: "s = map ((!) digit_chars) ds" "\<forall>d \<in> set ds. d < 10"
    using assms(1) by (auto simp: decimal_def)
  then obtain d where d: "c = digit_chars ! d" "d < 10" using assms(2) by auto
  show "\<not> py_space c" "py_digit c" "c \<noteq> CHR ''-''" "c \<noteq> CHR ''+''" "c \<noteq> CHR ''_''"
    using digit_char_dec [OF d(2)] d(1) by auto
qed

lemma decimal_dec_str [simp]: "decimal (dec_str n)"
  using digits_less [of 10 _ n] by (auto simp: decimal_def dec_str_def)

lemma decimal_zpad [simp]: "decimal s \<Longrightarrow> decimal (zpad k s)"
proof -
  assume "decimal s"
  then obtain ds where ds: "s = map ((!) digit_chars) ds" "\<forall>d \<in> set ds. d < 10" "s \<noteq> []"
    by (auto simp: decimal_def)
  have "zpad k s = map ((!) digit_chars) (replicate (k - length s) 0 @ ds)"
    using ds(1) by (simp add: zpad_def digit_chars_def)
  then show "decimal (zpad k s)" using ds(2,3) unfolding decimal_def
    by (intro conjI exI [of _ "replicate (k - length s) 0 @ ds"]) (auto simp: zpad_def)
qed

lemma dec_digits_map:
  "\<forall>d \<in> set ds. d < 10 \<Longrightarrow>
   dec_digits a (map ((!) digit_chars) ds) = Some (foldl (\<lambda>a d. a * 10 + int d) a ds)"
  by (induction ds arbitrary: a) (auto simp: digit_char_dec)

lemma int_foldl_digits: "foldl (\<lambda>a d. a * 10 + int d) (int a) ds = int (foldl (\<lambda>a d. a * 10 + d) a ds)"
proof (induction ds arbitrary: a)
  case (Cons d ds)
  have "int a * 10 + int d = int (a * 10 + d)" by simp
  then show ?case using Cons.IH [of "a * 10 + d"] by (simp only: foldl_Cons)
qed simp

lemma dec_digits_dec_str [simp]: "dec_digits 0 (dec_str n) = Some (int n)"
proof -
  have "dec_digits 0 (dec_str n) = Some (foldl (\<lambda>a d. a * 10 + int d) (int 0) (digits 10 n))"
    using dec_digits_map [of "digits 10 n" 0] digits_less [of 10 _ n] by (simp add: dec_str_def)
  then show ?thesis using digits_value [of 10 n] by (simp only: int_foldl_digits)
qed

lemma dec_digits_zpad [simp]: "dec_digits 0 (zpad k (dec_str n)) = Some (int n)"
proof -
  have "dec_digits 0 (replicate j (CHR ''0'') @ s) = dec_digits 0 s" for j s by (induction j) simp_all
  then show ?thesis by (simp add: zpad_def)
qed

lemma py_strip_id:
  assumes "\<forall>c \<in> set s. \<not> py_space c"
  shows "py_strip s = s"
proof -
  have dw: "dropWhile py_space t = t" if "\<forall>c \<in> set t. \<not> py_space c" for t
    using that by (cases t) auto
  have "dropWhile py_space s = s" "dropWhile py_space (rev s) = rev s"
    using dw [of s] dw [of "rev s"] assms by simp_all
  then show ?thesis by (simp add: py_strip_def)
qed

lemma decimal_ends:
  assumes "decimal s"
  shows "s \<noteq> []" "hd s \<noteq> CHR ''-''" "hd s \<noteq> CHR ''+''" "hd s \<noteq> CHR ''_''" "py_strip s = s"
proof -
  show ne: "s \<noteq> []" using assms by (simp add: decimal_def)
  then show "hd s \<noteq> CHR ''-''" "hd s \<noteq> CHR ''+''" "hd s \<noteq> CHR ''_''"
    using decimal_chars [OF assms] hd_in_set by metis+
  show "py_strip s = s" using decimal_chars(1) [OF assms] by (intro py_strip_id) auto
qed

lemma int_of_decimal:
  assumes "decimal s" "dec_digits 0 s = Some k"
  shows "int_of_string s = Some k"
  using decimal_ends [OF assms(1)] assms(2) by (simp add: int_of_string_def)

lemma int_of_zpad [simp]: "int_of_string (zpad k (dec_str n)) = Some (int n)"
  by (rule int_of_decimal) simp_all

lemma int_of_int_str [simp]: "int_of_string (int_str k) = Some k"
proof (cases "k < 0")
  case False
  then show ?thesis using int_of_decimal [of "dec_str (nat k)"] by (simp add: int_str_def)
next
  case True
  have "\<not> py_space (CHR ''-'')" by code_simp
  then have "py_strip (CHR ''-'' # dec_str (nat (- k))) = CHR ''-'' # dec_str (nat (- k))"
    using decimal_chars(1) [OF decimal_dec_str] by (intro py_strip_id) auto
  then show ?thesis
    using True decimal_ends [OF decimal_dec_str, of "nat (- k)"]
    by (simp add: int_str_def int_of_string_def)
qed

lemma int_str_inj [simp]: "int_str j = int_str k \<longleftrightarrow> j = k"
  by (metis int_of_int_str option.inject)

end
