(* ===== verification/Receiver.thy ===== *)
theory Receiver
  imports Framing Reorder PyText
begin

text \<open>
  The multi-flow receiver of \<^verbatim>\<open>srv6_mrc/runner.py\<close>: the fixed-offset parse of a captured frame,
  the filter on the inner destination, the accounting of one packet and the final report. The
  platform's \<open>inet_ntop\<close> is the parameter \<open>ntop\<close>; the capture threads are a sequence of frames.
\<close>

subsection \<open>Printing IPv6 addresses\<close>

text \<open>
  \<open>str(ipaddress.IPv6Address(...))\<close>: the first longest run of at least two zero groups becomes
  \<open>::\<close>. \<open>zero_run\<close> is that loop's best start and length. IPv4-mapped addresses are printed in
  hexadecimal, as up to CPython 3.12.
\<close>

fun zero_run :: "nat \<Rightarrow> nat list \<Rightarrow> nat option \<Rightarrow> nat \<Rightarrow> nat \<Rightarrow> nat \<Rightarrow> nat \<times> nat" where
  "zero_run i [] start len best best_len = (best, best_len)"
| "zero_run i (h # hs) start len best best_len =
     (if h = 0
      then let s = (case start of None \<Rightarrow> i | Some s \<Rightarrow> s)
           in if best_len < len + 1 then zero_run (i + 1) hs (Some s) (len + 1) s (len + 1)
              else zero_run (i + 1) hs (Some s) (len + 1) best best_len
      else zero_run (i + 1) hs None 0 best best_len)"

definition compress_hextets :: "nat list \<Rightarrow> string list" where
  "compress_hextets hs =
     (let ss = map hex_str hs;
          (start, len) = zero_run 0 hs None 0 0 0
      in if 1 < len
         then let e = start + len;
                  ss1 = (if e = length ss then ss @ [[]] else ss);
                  ss2 = take start ss1 @ [[]] @ drop e ss1
              in if start = 0 then [] # ss2 else ss2
         else ss)"

definition ipv6_str :: "nat list \<Rightarrow> string" where
  "ipv6_str hs = join_with (CHR '':'') (compress_hextets hs)"

text \<open>
  \<open>_canon_inner\<close>: \<open>ip_address\<close> tries IPv4 first, whose text form is unique; an IPv6 scope suffix is
  kept; what does not parse is returned as it is.
\<close>

definition canon_inner :: "string \<Rightarrow> string" where
  "canon_inner addr =
     (if parse_ipv4 addr \<noteq> None then addr
      else case split_on (CHR ''%'') addr of
        [a] \<Rightarrow> (case ipv6_hextets a of Some hs \<Rightarrow> ipv6_str hs | None \<Rightarrow> addr)
      | [a, scope] \<Rightarrow>
          if scope = [] \<or> CHR ''/'' \<in> set scope then addr
          else (case ipv6_hextets a of Some hs \<Rightarrow> ipv6_str hs @ CHR ''%'' # scope | None \<Rightarrow> addr)
      | _ \<Rightarrow> addr)"

definition should_count_inner :: "string \<Rightarrow> string \<Rightarrow> bool" where
  "should_count_inner inner_dst self_inner_canon \<longleftrightarrow> canon_inner inner_dst = self_inner_canon"

subsection \<open>Parsing a frame\<close>

definition ETH_VLAN_TAGS :: "int list" where "ETH_VLAN_TAGS = [0x8100, 0x88A8]"
definition ETH_IPV6 :: int where "ETH_IPV6 = 0x86DD"

text \<open>Big-endian fields at an offset; a slice beyond the end is short, as in the source.\<close>

definition field_at :: "bytes \<Rightarrow> nat \<Rightarrow> nat \<Rightarrow> int" where
  "field_at frame off n = be_int (take n (drop off frame))"

function vlan_skip :: "bytes \<Rightarrow> nat \<Rightarrow> nat" where
  "vlan_skip frame off =
     (if field_at frame off 2 \<in> set ETH_VLAN_TAGS \<and> off + 6 \<le> length frame
      then vlan_skip frame (off + 4) else off)"
  by auto
termination by (relation "measure (\<lambda>(frame, off). length frame - off)") auto

declare vlan_skip.simps [simp del]

definition version_at :: "bytes \<Rightarrow> nat \<Rightarrow> int" where
  "version_at frame ip = uint (frame ! ip) div 16"

definition end_of :: "bytes \<Rightarrow> nat \<Rightarrow> nat" where
  "end_of frame ip = ip + 40 + nat (field_at frame (ip + 4) 2)"

definition parse_udp :: "(bytes \<Rightarrow> string) \<Rightarrow> bytes \<Rightarrow> nat \<Rightarrow> nat \<Rightarrow> (string \<times> string \<times> int \<times> int \<times> bytes) option" where
  "parse_udp ntop frame ip e =
     (if uint (frame ! (ip + 6)) \<noteq> 17 then None
      else let udp = ip + 40 in
        if e < udp + 8 then None
        else Some (ntop (take 16 (drop (ip + 8) frame)), ntop (take 16 (drop (ip + 24) frame)),
                   field_at frame udp 2, field_at frame (udp + 2) 2,
                   take (e - (udp + 8)) (drop (udp + 8) frame)))"

definition parse_frame :: "(bytes \<Rightarrow> string) \<Rightarrow> bytes \<Rightarrow> (string \<times> string \<times> int \<times> int \<times> bytes) option" where
  "parse_frame ntop frame =
     (if length frame < 14 then None
      else let off = vlan_skip frame 12;
               ip = off + 2
      in if field_at frame off 2 \<noteq> ETH_IPV6 \<or> length frame < ip + 40 \<or> version_at frame ip \<noteq> 6 then None
         else let e = min (length frame) (end_of frame ip) in
           if uint (frame ! (ip + 6)) = 41
           then let ip2 = ip + 40 in
             if e < ip2 + 40 \<or> version_at frame ip2 \<noteq> 6 then None
             else parse_udp ntop frame ip2 (min e (end_of frame ip2))
           else parse_udp ntop frame ip e)"

subsection \<open>One packet\<close>

datatype rx_call = OnPacket flow_key int int int | OnTrimmed flow_key int int int

record rx_state =
  rx_tracker :: reorder_tracker
  rx_per_nic :: "(string \<times> int) list"
  rx_per_plane :: "(int \<times> int) list"
  rx_last :: pyfloat
  rx_trimmed :: "(flow_key \<times> int) list"
  rx_recovered :: "(flow_key \<times> int) list"
  rx_pending :: "(flow_key \<times> int set) list"

definition rx_init :: rx_state where
  "rx_init = \<lparr>rx_tracker = [], rx_per_nic = [], rx_per_plane = [], rx_last = 0, rx_trimmed = [],
     rx_recovered = [], rx_pending = []\<rparr>"

text \<open>
  The part of \<open>handle\<close> that decides whether a frame is a data packet for this host, and of which
  flow. The two dictionaries of trimmed and recovered counts of a flow have the same keys.
\<close>

definition rx_decode ::
  "(bytes \<Rightarrow> string) \<Rightarrow> string \<Rightarrow> bytes \<Rightarrow> (flow_key \<times> int \<times> int \<times> int \<times> bool) option" where
  "rx_decode ntop self_inner_canon frame =
     (case parse_frame ntop frame of
        None \<Rightarrow> None
      | Some (inner_src, inner_dst, sport, dport, udp_payload) \<Rightarrow>
          (case (if dport = SPRAY_PORT then Some udp_payload
                 else if dport = RDMA_PORT then unwrap_bth udp_payload else None) of
             None \<Rightarrow> None
           | Some raw \<Rightarrow>
               if \<not> should_count_inner inner_dst self_inner_canon then None
               else (case parse_payload raw of
                       None \<Rightarrow> None
                     | Some (sq, plane, path) \<Rightarrow>
                         Some (\<lparr>src_addr = inner_src, dst_addr = inner_dst, src_port = sport, dst_port = dport\<rparr>,
                               sq, plane, path, length raw = PAYLOAD_HDR_LEN))))"

definition dict_get_set :: "('k \<times> int set) list \<Rightarrow> 'k \<Rightarrow> int set" where
  "dict_get_set d k = (case dict_get d k of None \<Rightarrow> {} | Some s \<Rightarrow> s)"

definition rx_trim :: "rx_state \<Rightarrow> pyfloat \<Rightarrow> flow_key \<Rightarrow> int \<Rightarrow> rx_state" where
  "rx_trim s now flow sq =
     s\<lparr>rx_trimmed := dict_inc flow (rx_trimmed s),
       rx_recovered := (case dict_get (rx_recovered s) flow of
                          None \<Rightarrow> dict_put flow 0 (rx_recovered s) | Some _ \<Rightarrow> rx_recovered s),
       rx_pending := dict_put flow (insert sq (dict_get_set (rx_pending s) flow)) (rx_pending s),
       rx_last := now\<rparr>"

definition rx_data :: "rx_state \<Rightarrow> pyfloat \<Rightarrow> string \<Rightarrow> flow_key \<Rightarrow> int \<Rightarrow> int \<Rightarrow> rx_state" where
  "rx_data s now nic flow sq plane =
     (let s1 = (case dict_get (rx_pending s) flow of
                  None \<Rightarrow> s
                | Some pending \<Rightarrow>
                    if sq \<in> pending
                    then s\<lparr>rx_pending := dict_put flow (pending - {sq}) (rx_pending s),
                           rx_recovered := dict_inc flow (rx_recovered s)\<rparr>
                    else s)
      in s1\<lparr>rx_tracker := tracker_observe (rx_tracker s1) flow sq (Some plane),
            rx_per_nic := dict_inc nic (rx_per_nic s1), rx_per_plane := dict_inc plane (rx_per_plane s1),
            rx_last := now\<rparr>)"

definition rx_handle ::
  "(bytes \<Rightarrow> string) \<Rightarrow> string \<Rightarrow> rx_state \<Rightarrow> pyfloat \<Rightarrow> string \<Rightarrow> bytes \<Rightarrow> rx_state \<times> rx_call list" where
  "rx_handle ntop self_inner_canon s now nic frame =
     (case rx_decode ntop self_inner_canon frame of
        None \<Rightarrow> (s, [])
      | Some (flow, sq, plane, path, trimmed) \<Rightarrow>
          if trimmed then (rx_trim s now flow sq, [OnTrimmed flow plane path sq])
          else (rx_data s now nic flow sq plane, [OnPacket flow plane path sq]))"

subsection \<open>The report\<close>

definition count_of :: "('k \<times> int) list \<Rightarrow> 'k \<Rightarrow> int" where
  "count_of d k = (case dict_get d k of None \<Rightarrow> 0 | Some n \<Rightarrow> n)"

definition flow_dict :: "rx_state \<Rightarrow> flow_stats \<Rightarrow> json result" where
  "flow_dict s f =
     bindE (flow_stats_json f) (\<lambda>d.
       Inr (case dict_get (rx_trimmed s) (fs_flow f) of
              None \<Rightarrow> d
            | Some n \<Rightarrow>
                (case d of JObj kv \<Rightarrow> JObj (dict_put ''trim'' (JObj [(''trimmed'', JInt n),
                     (''recovered'', JInt (count_of (rx_recovered s) (fs_flow f))),
                     (''unrecovered'', JInt (int (card (dict_get_set (rx_pending s) (fs_flow f)))))]) kv)
                 | _ \<Rightarrow> d)))"

definition rx_report ::
  "topo \<Rightarrow> string \<Rightarrow> int \<Rightarrow> string \<Rightarrow> string list \<Rightarrow> rx_state \<Rightarrow> json result" where
  "rx_report g self_host self_id tenant nics s =
     bindE (mapE (flow_dict s) (tracker_flows (rx_tracker s))) (\<lambda>flows.
       Inr (JObj [(''host'', JStr self_host), (''self_id'', JInt self_id), (''tenant'', JStr tenant),
         (''per_nic'', JObj (foldl (\<lambda>d n. dict_put n (JInt (count_of (rx_per_nic s) n)) d) [] nics)),
         (''per_plane'', JObj (map (\<lambda>p. (int_str p, JInt (count_of (rx_per_plane s) p))) [0..NUM_PLANES g - 1])),
         (''flows'', JList flows)]))"

text \<open>The wait loop of \<open>run_receiver\<close> ends when nothing arrived for \<open>idle_timeout_s\<close>.\<close>

definition rx_idle_over :: "pyfloat \<Rightarrow> pyfloat \<Rightarrow> rx_state \<Rightarrow> bool" where
  "rx_idle_over idle_timeout_s now s \<longleftrightarrow>
     0 < idle_timeout_s \<and> 0 < rx_last s \<and> idle_timeout_s \<le> fsub now (rx_last s)"

subsection \<open>Host identity\<close>

text \<open>\<open>re.match\<close> of \<open>(green|yellow)-host(\d{2})$\<close>: the dollar also matches before a final newline.\<close>

definition detect_self_id :: "string \<Rightarrow> (string \<times> int) result" where
  "detect_self_id h =
     (case (if starts_with ''green-host'' h then Some (''green'', drop 10 h)
            else if starts_with ''yellow-host'' h then Some (''yellow'', drop 11 h) else None) of
        None \<Rightarrow> Inl ValueError
      | Some (tenant, rest) \<Rightarrow>
          if length (take 2 rest) = 2 \<and> (\<forall>c \<in> set (take 2 rest). c \<in> set ''0123456789'')
             \<and> (drop 2 rest = [] \<or> drop 2 rest = [CHR 0x0A])
          then Inr (tenant, int (foldl (\<lambda>a c. a * 10 + the (hex_value c)) 0 (take 2 rest)))
          else Inl ValueError)"

end
