(* ===== verification/ReceiverProperties.thy ===== *)
theory ReceiverProperties
  imports Receiver FramingProperties
begin

text \<open>
  The receiver reads what the sender wrote: addresses print and parse back, a captured frame of a
  built packet decodes to its accounting header, and the counters account for every frame.
\<close>

subsection \<open>Addresses\<close>

lemma zero_run_spec:
  assumes "zero_run i hs start len best best_len = (b, l)"
    and "case start of None \<Rightarrow> len = 0 | Some s \<Rightarrow> s + len = i \<and> (\<forall>j. s \<le> j \<and> j < i \<longrightarrow> all ! j = 0)"
    and "best + best_len \<le> i" "\<forall>j. best \<le> j \<and> j < best + best_len \<longrightarrow> all ! j = 0"
    and "all = pre @ hs" "length pre = i"
  shows "b + l \<le> length all \<and> (\<forall>j. b \<le> j \<and> j < b + l \<longrightarrow> all ! j = 0)"
  using assms
proof (induction i hs start len best best_len arbitrary: pre rule: zero_run.induct)
  case (2 i h hs start len best best_len)
  have here: "all ! i = h" using "2.prems"(5,6) by (simp add: nth_append)
  have all: "all = (pre @ [h]) @ hs" "length (pre @ [h]) = i + 1" using "2.prems"(5,6) by simp_all
  show ?case
  proof (cases "h = 0")
    case False
    then show ?thesis
      using "2.IH"(3) [OF False _ _ _ _ all] "2.prems"(1,3,4) by simp
  next
    case True
    let ?s = "case start of None \<Rightarrow> i | Some s \<Rightarrow> s"
    have run: "?s + (len + 1) = i + 1" "\<forall>j. ?s \<le> j \<and> j < i + 1 \<longrightarrow> all ! j = 0"
      using "2.prems"(2) here True by (auto split: option.splits simp: less_Suc_eq)
    show ?thesis
    proof (cases "best_len < len + 1")
      case new: True
      then show ?thesis
        using "2.IH"(1) [OF True refl new _ _ _ _ all] "2.prems"(1) True run by (simp add: Let_def)
    next
      case old: False
      then show ?thesis
        using "2.IH"(2) [OF True refl old _ _ _ _ all] "2.prems"(1,3,4) True run by (simp add: Let_def)
    qed
  qed
qed auto

lemma expand_full:
  "length ss = 8 \<Longrightarrow> \<forall>s \<in> set ss. s \<noteq> [] \<Longrightarrow> ipv6_expand ss = all_hextets ss"
proof -
  assume a: "length ss = 8" "\<forall>s \<in> set ss. s \<noteq> []"
  have "filter (\<lambda>i. ss ! i = []) [1..<length ss - 1] = []"
    unfolding filter_empty_conv using a by (auto simp: in_set_conv_nth)
  moreover have "hd ss \<noteq> []" "last ss \<noteq> []" using a by (cases ss; auto)+
  ultimately show ?thesis using a(1) by (simp add: ipv6_expand_def)
qed

lemma expand_run:
  assumes "length ss = 8" "\<forall>s \<in> set ss. s \<noteq> []" "b + l \<le> 8" "2 \<le> l"
    and "all_hextets (take b ss) = Some x" "all_hextets (drop (b + l) ss) = Some y"
  shows "ipv6_expand ((if b = 0 then [[]] else []) @ take b ss @ [[]] @ drop (b + l) ss @ (if b + l = 8 then [[]] else []))
    = Some (x @ replicate l 0 @ y)"
proof -
  define h where "h = (if b = 0 then [[]] else [] :: string list)"
  define t where "t = (if b + l = 8 then [[]] else [] :: string list)"
  define parts where "parts = h @ take b ss @ [[]] @ drop (b + l) ss @ t"
  let ?i = "length h + b"
  have lp: "length parts = ?i + 1 + (8 - (b + l)) + length t" using assms(1,3) by (simp add: parts_def)
  have ne: "ss ! j \<noteq> []" if "j < 8" for j using assms(1,2) that by simp
  have at: "parts ! j = (if j < length h then [] else if j < ?i then ss ! (j - length h)
      else if j = ?i then [] else if j < ?i + 1 + (8 - (b + l)) then ss ! (b + l + (j - ?i - 1)) else [])"
    if "j < length parts" for j
    using that assms(1,3) unfolding lp
    by (auto simp: parts_def nth_append h_def t_def nth_Cons split: if_splits nat.splits)
      (rule arg_cong [where f = "(!) ss"], arith)+
  have fl: "filter (\<lambda>i. parts ! i = []) [1..<length parts - 1] = [?i]"
  proof -
    have "filter (\<lambda>i. parts ! i = []) [1..<length parts - 1] = filter ((=) ?i) [1..<length parts - 1]"
    proof (rule filter_cong [OF refl])
      fix j assume "j \<in> set [1..<length parts - 1]"
      then show "(parts ! j = []) = (?i = j)"
        using ne assms(3) at [of j] unfolding lp by (auto simp: h_def t_def split: if_splits)
    qed
    also have "\<dots> = [?i]"
      using assms(3) unfolding lp by (intro filter_eq_single) (auto simp: h_def t_def)
    finally show ?thesis .
  qed
  have hd: "hd parts = [] \<longleftrightarrow> b = 0"
    using assms(1) ne [of 0] at [of 0] lp by (auto simp: hd_conv_nth h_def parts_def split: if_splits)
  have tl: "last parts = [] \<longleftrightarrow> b + l = 8"
    using assms(1,3) ne [of 7] at [of "length parts - 1"] lp
    by (auto simp: last_conv_nth parts_def t_def split: if_splits)
  have hi: "(if hd parts = [] then ?i - 1 else ?i) = b" by (simp add: hd h_def)
  have lo: "(if last parts = [] then length parts - ?i - 2 else length parts - ?i - 1) = 8 - (b + l)"
    using assms(3) by (simp add: tl lp t_def add.commute)
  have tk: "take b parts = take b ss" using assms(1,3) by (simp add: parts_def h_def)
  have "drop (?i + 1) parts = drop (b + l) ss @ t" using assms(1,3) by (simp add: parts_def)
  then have dr: "drop (length parts - (8 - (b + l))) parts = drop (b + l) ss"
    using assms(1,3) lp by (cases "b + l = 8") (simp_all add: t_def)
  have "\<not> 9 < length parts" "\<not> 8 < b + (8 - (b + l)) + 1" "8 - (b + (8 - (b + l))) = l"
    using assms(3,4) by (auto simp: lp h_def t_def)
  moreover have "\<not> (hd parts = [] \<and> b \<noteq> 0)" "\<not> (last parts = [] \<and> 8 - (b + l) \<noteq> 0)"
    using assms(3) by (auto simp: hd tl)
  ultimately have "ipv6_expand parts = Some (x @ replicate l 0 @ y)"
    unfolding ipv6_expand_def fl Let_def list.case hi lo tk dr assms(5,6) by (simp only: simp_thms if_False option.case prod.case)
  then show ?thesis by (simp add: parts_def h_def t_def)
qed

lemma all_hextets_hex: "\<forall>h \<in> set hs. h < 65536 \<Longrightarrow> all_hextets (map hex_str hs) = Some hs"
  using parse_hextet_hex [of _ 0]
  by (intro all_hextets_known) (simp add: list_all2_conv_all_nth zpad_def)

lemma all_hextets_slice:
  "\<forall>h \<in> set hs. h < 65536 \<Longrightarrow> all_hextets (take n (map hex_str hs)) = Some (take n hs)"
  "\<forall>h \<in> set hs. h < 65536 \<Longrightarrow> all_hextets (drop n (map hex_str hs)) = Some (drop n hs)"
  using all_hextets_hex [of "take n hs"] all_hextets_hex [of "drop n hs"]
  by (auto simp: take_map drop_map dest: in_set_takeD in_set_dropD)

lemma compress_run:
  assumes "zero_run 0 hs None 0 0 0 = (b, l)" "1 < l" "length hs = 8" "b + l \<le> 8"
  shows "compress_hextets hs = (if b = 0 then [[]] else []) @ take b (map hex_str hs) @ [[]]
    @ drop (b + l) (map hex_str hs) @ (if b + l = 8 then [[]] else [])"
  using assms by (simp add: compress_hextets_def Let_def)

text \<open>An address prints to a text that parses back to it.\<close>

lemma ipv6_hextets_str:
  assumes "length hs = 8" "\<forall>h \<in> set hs. h < 65536"
  shows "ipv6_hextets (ipv6_str hs) = Some hs"
proof -
  obtain b l where z: "zero_run 0 hs None 0 0 0 = (b, l)" by (cases "zero_run 0 hs None 0 0 0")
  have run: "b + l \<le> 8" "\<And>j. b \<le> j \<Longrightarrow> j < b + l \<Longrightarrow> hs ! j = 0"
    using zero_run_spec [OF z, where all = hs and pre = "[]"] assms(1) by auto
  have plain: "\<forall>s \<in> set (map hex_str hs). s \<noteq> [] \<and> plain s" by simp
  show ?thesis
  proof (cases "1 < l")
    case False
    then have c: "compress_hextets hs = map hex_str hs" by (simp add: compress_hextets_def z)
    have "ipv6_expand (map hex_str hs) = Some hs"
      using expand_full [of "map hex_str hs"] assms plain by (simp add: all_hextets_hex)
    then show ?thesis
      unfolding ipv6_str_def c using ipv6_of_parts [of "map hex_str hs"] assms(1) plain by (cases hs) simp_all
  next
    case True
    note c = compress_run [OF z True assms(1) run(1)]
    have zeros: "take l (drop b hs) = replicate l 0"
      using run assms(1) by (intro nth_equalityI) simp_all
    have "take b hs @ replicate l 0 @ drop (b + l) hs = hs"
      unfolding zeros [symmetric] by (metis add.commute append_take_drop_id drop_drop)
    then have ex: "ipv6_expand (compress_hextets hs) = Some hs"
      unfolding c using True plain run(1) assms
      by (subst expand_run [OF _ _ _ _ all_hextets_slice]) simp_all
    have "length (compress_hextets hs) \<ge> 3"
    proof -
      have "length (compress_hextets hs) = (if b = 0 then 1 else 0) + b + 1 + (8 - (b + l)) + (if b + l = 8 then 1 else 0)"
        unfolding c using assms(1) run(1) by simp
      then show ?thesis using run(1) by (auto split: if_splits)
    qed
    moreover have "\<forall>s \<in> set (compress_hextets hs). plain s"
      unfolding c by (auto simp: plain_constants take_map drop_map)
    ultimately show ?thesis
      unfolding ipv6_str_def using ipv6_of_parts [of "compress_hextets hs"] ex by fastforce
  qed
qed

lemma ipv6_not_ipv4: "ipv6_hextets s = Some hs \<Longrightarrow> parse_ipv4 s = None"
proof (rule ccontr)
  assume v6: "ipv6_hextets s = Some hs" and "parse_ipv4 s \<noteq> None"
  then have oct: "None \<notin> set (map parse_octet (split_on (CHR ''.'') s))"
    by (auto simp: parse_ipv4_def split: list.splits option.splits)
  have mem: "c = CHR ''.'' \<or> (\<exists>p \<in> set (split_on (CHR ''.'') s). c \<in> set p)" if "c \<in> set s" for c
    using that by (induction s) (auto split: list.splits)
  have "CHR '':'' \<notin> set p" if "p \<in> set (split_on (CHR ''.'') s)" for p
    using oct that by (force simp: parse_octet_def split: if_splits)
  then have "CHR '':'' \<notin> set s" using mem by fastforce
  then have "split_on (CHR '':'') s = [s]" by (rule split_on_none)
  then show False using v6 by (auto simp: ipv6_hextets_def ipv6_parts_def split: if_splits)
qed

lemma canon_inner_ipv6: "ipv6_hextets s = Some hs \<Longrightarrow> canon_inner s = ipv6_str hs"
proof -
  assume h: "ipv6_hextets s = Some hs"
  then have "CHR ''%'' \<notin> set s" by (auto simp: ipv6_hextets_def split: if_splits)
  from split_on_none [OF this] show ?thesis using h ipv6_not_ipv4 [OF h] by (simp add: canon_inner_def)
qed

subsection \<open>Captured frames\<close>

text \<open>An Ethernet header in front of IPv6: two addresses, any VLAN tags, the type.\<close>

definition vlan_tag :: "bytes \<Rightarrow> bool" where
  "vlan_tag t \<longleftrightarrow> (\<exists>x y. t = [0x81, 0x00, x, y] \<or> t = [0x88, 0xA8, x, y])"

definition ether :: "bytes \<Rightarrow> bytes list \<Rightarrow> bytes" where
  "ether macs tags = macs @ concat tags @ [0x86, 0xDD]"

lemma vlan_skip_tags:
  assumes "\<forall>t \<in> set tags. vlan_tag t"
  shows "vlan_skip (pre @ concat tags @ [0x86, 0xDD] @ rest) (length pre) = length pre + 4 * length tags"
  using assms
proof (induction tags arbitrary: pre)
  case Nil
  then show ?case by (subst vlan_skip.simps) (simp add: field_at_def be_int_def ETH_VLAN_TAGS_def)
next
  case (Cons t tags)
  let ?f = "pre @ concat (t # tags) @ [0x86, 0xDD] @ rest"
  obtain x y where t: "t = [0x81, 0x00, x, y] \<or> t = [0x88, 0xA8, x, y]" using Cons.prems by (auto simp: vlan_tag_def)
  then have "field_at ?f (length pre) 2 \<in> set ETH_VLAN_TAGS" "length pre + 6 \<le> length ?f" "length t = 4"
    by (auto simp: field_at_def be_int_def ETH_VLAN_TAGS_def)
  moreover have "vlan_skip ((pre @ t) @ concat tags @ [0x86, 0xDD] @ rest) (length (pre @ t)) = length (pre @ t) + 4 * length tags"
    using Cons by (intro Cons.IH) simp
  ultimately show ?case by (subst vlan_skip.simps) (simp add: add.assoc)
qed

lemma be_int_2 [simp]: "0 \<le> v \<Longrightarrow> v < 65536 \<Longrightarrow> be_int (be_bytes 2 v) = v"
  using be_int_be_bytes [of v 2] by simp

lemma at_prefix:
  assumes "length pre = ip"
  shows "take n (drop (ip + k) (pre @ xs)) = take n (drop k xs)" "k < length xs \<Longrightarrow> (pre @ xs) ! (ip + k) = xs ! k"
  using assms by (simp_all add: nth_append)

lemma header_at:
  assumes "length pre = ip" "0 \<le> len" "len < 65536" and f_def: "f = pre @ ipv6_header len nh src dst @ rest"
  shows "version_at f ip = 6" "field_at f (ip + 4) 2 = len" "f ! (ip + 6) = nh"
    "take 16 (drop (ip + 8) f) = addr_bytes src" "take 16 (drop (ip + 24) f) = addr_bytes dst"
proof -
  let ?h = "ipv6_header len nh src dst @ rest"
  have b: "length (be_bytes 2 len) = 2" by simp
  then obtain x y where xy: "be_bytes 2 len = [x, y]"
    by (metis (no_types) length_0_conv length_Suc_conv numeral_2_eq_2)
  have h: "?h = [0x60, 0, 0, 0, x, y, nh, 64] @ addr_bytes src @ addr_bytes dst @ rest"
    by (simp add: ipv6_header_def xy)
  have "f ! (ip + 0) = 0x60" unfolding f_def h at_prefix(2) [OF assms(1)] by (subst at_prefix(2) [OF assms(1)]) simp_all
  then show "version_at f ip = 6" by (simp add: version_at_def)
  show "field_at f (ip + 4) 2 = len"
    using xy assms(2,3) be_int_2 [of len] unfolding field_at_def f_def h at_prefix(1) [OF assms(1)] by simp
  show "f ! (ip + 6) = nh" unfolding f_def h by (subst at_prefix(2) [OF assms(1)]) simp_all
  show "take 16 (drop (ip + 8) f) = addr_bytes src" "take 16 (drop (ip + 24) f) = addr_bytes dst"
    unfolding f_def h at_prefix(1) [OF assms(1)] by simp_all
qed

lemma parse_udp_inner:
  assumes "length pre = ip" "length pl = n" "n < 65000" "ports_ok sp dp"
  shows "parse_udp ntop (pre @ rfc_inner si di sp dp n @ [c, d] @ pl @ pad) ip (ip + 48 + n) =
    Some (ntop (addr_bytes si), ntop (addr_bytes di), sp, dp, pl)"
proof -
  let ?u = "be_bytes 2 sp @ be_bytes 2 dp @ be_bytes 2 (int n + 8) @ [c, d] @ pl @ pad"
  let ?f = "pre @ ipv6_header (int n + 8) 17 si di @ ?u"
  have f: "pre @ rfc_inner si di sp dp n @ [c, d] @ pl @ pad = ?f" by (simp add: rfc_inner_def)
  have "0 \<le> int n + 8" "int n + 8 < 65536" using assms(3) by simp_all
  note hd = header_at [OF assms(1) this refl, of 17 si di ?u]
  have pre: "length (pre @ ipv6_header (int n + 8) 17 si di) = ip + 40" using assms(1) by simp
  have u: "?f = (pre @ ipv6_header (int n + 8) 17 si di) @ ?u" by simp
  have fields: "field_at ?f (ip + 40) 2 = sp" "field_at ?f (ip + 40 + 2) 2 = dp"
    using assms(4) at_prefix(1) [OF pre, of 2 0 ?u] at_prefix(1) [OF pre, of 2 2 ?u]
    unfolding field_at_def u by (simp_all add: ports_ok_def)
  have "take n (drop (ip + 40 + 8) ?f) = pl"
    using at_prefix(1) [OF pre, of n 8 ?u] assms(2) unfolding u by simp
  then show ?thesis
    unfolding f parse_udp_def Let_def using hd fields by simp
qed

text \<open>The frame of a packet as the plane's leaf delivers it: still encapsulated, or already not.\<close>

definition inner_packet :: "string \<Rightarrow> string \<Rightarrow> int \<Rightarrow> int \<Rightarrow> bytes \<Rightarrow> bytes \<Rightarrow> bytes" where
  "inner_packet si di sp dp csum pl = rfc_inner si di sp dp (length pl) @ csum @ pl"

lemma parse_frame_packet:
  assumes "length macs = 12" "\<forall>t \<in> set tags. vlan_tag t" "length pl < 65000" "ports_ok sp dp" "length csum = 2"
    and "outer = [] \<or> outer = rfc_outer su du (length pl)"
  shows "parse_frame ntop (ether macs tags @ outer @ inner_packet si di sp dp csum pl @ pad) =
    Some (ntop (addr_bytes si), ntop (addr_bytes di), sp, dp, pl)"
proof -
  let ?n = "length pl" and ?e = "ether macs tags"
  let ?f = "?e @ outer @ inner_packet si di sp dp csum pl @ pad"
  obtain c d where cd: "csum = [c, d]" using assms(5) by (metis (no_types) length_0_conv length_Suc_conv numeral_2_eq_2)
  define off where "off = 12 + 4 * length tags"
  have "\<forall>t \<in> set tags. length t = 4" using assms(2) by (auto simp: vlan_tag_def)
  then have "length (concat tags) = 4 * length tags" by (induction tags) auto
  then have le: "length ?e = off + 2" using assms(1) by (simp add: ether_def off_def)
  have skip: "vlan_skip ?f 12 = off"
    using vlan_skip_tags [OF assms(2), of macs "outer @ inner_packet si di sp dp csum pl @ pad"] assms(1)
    by (simp add: ether_def off_def)
  have "?e = (macs @ concat tags) @ [0x86, 0xDD]" "length (macs @ concat tags) = off"
    using le by (simp_all add: ether_def)
  then have ty: "field_at ?f off 2 = ETH_IPV6"
    using at_prefix(1) [of "macs @ concat tags" off 2 0] by (simp add: field_at_def be_int_def ETH_IPV6_def)
  let ?ip = "off + 2"
  have len: "length ?f = ?ip + length outer + 48 + ?n + length pad"
    using le assms(5) by (simp add: inner_packet_def)
  have ih: "0 \<le> int ?n + 8" "int ?n + 8 < 65536" "0 \<le> int ?n + 48" "int ?n + 48 < 65536" using assms(3) by simp_all
  define rest where "rest = be_bytes 2 sp @ be_bytes 2 dp @ be_bytes 2 (int ?n + 8) @ csum @ pl @ pad"
  have body: "inner_packet si di sp dp csum pl @ pad = ipv6_header (int ?n + 8) 17 si di @ rest"
    by (simp add: inner_packet_def rfc_inner_def rest_def)
  show ?thesis
  proof (cases "outer = []")
    case True
    note hd = header_at [OF le ih(1,2) refl, of 17 si di rest, folded body]
    have "end_of ?f ?ip = ?ip + 48 + ?n" using hd(2) True by (simp add: end_of_def)
    moreover have "parse_udp ntop ?f ?ip (?ip + 48 + ?n) = Some (ntop (addr_bytes si), ntop (addr_bytes di), sp, dp, pl)"
      using parse_udp_inner [OF le refl assms(3,4), of ntop si di c d pad] True cd by (simp add: inner_packet_def)
    moreover have "min (length ?f) (?ip + 48 + ?n) = ?ip + 48 + ?n" "14 \<le> length ?f" "?ip + 40 \<le> length ?f"
      unfolding len by (simp_all add: off_def True)
    ultimately show ?thesis
      unfolding parse_frame_def skip Let_def ty using hd(1,3) True by (simp add: not_less)
  next
    case False
    then have o: "outer = ipv6_header (int ?n + 48) 41 su du" using assms(6) by (simp add: rfc_outer_def)
    note hd = header_at [OF le ih(3,4) refl, of 41 su du "inner_packet si di sp dp csum pl @ pad", folded o]
    have le2: "length (?e @ outer) = ?ip + 40" using le o by simp
    note hd2 = header_at [OF le2 ih(1,2) refl, of 17 si di rest, folded body, unfolded append_assoc]
    have ends: "end_of ?f ?ip = ?ip + 88 + ?n" "end_of ?f (?ip + 40) = ?ip + 88 + ?n"
      using hd(2) hd2(2) by (simp_all add: end_of_def)
    have "min (length ?f) (?ip + 88 + ?n) = ?ip + 88 + ?n" "14 \<le> length ?f" "?ip + 40 \<le> length ?f"
      unfolding len using o by (simp_all add: off_def)
    moreover have "parse_udp ntop ?f (?ip + 40) (?ip + 88 + ?n) = Some (ntop (addr_bytes si), ntop (addr_bytes di), sp, dp, pl)"
      using parse_udp_inner [OF le2 refl assms(3,4), of ntop si di c d pad] cd by (simp add: inner_packet_def)
    ultimately show ?thesis
      unfolding parse_frame_def skip Let_def ty ends using hd(1,3) hd2(1,3) by (simp add: not_less)
  qed
qed

end
