(* ===== verification/Delivery.thy ===== *)
theory Delivery
  imports ReceiverProperties
begin

text \<open>
  From the sender's packet builder to the receiver's books: a data packet of either transport, full
  size or trimmed, is counted by the host it is addressed to and by no other.
\<close>

subsection \<open>Parsed addresses\<close>

lemma parse_hextet_bound: "parse_hextet s = Some h \<Longrightarrow> h < 65536"
proof -
  have val: "the (hex_value c) < 16" if "hex_value c \<noteq> None" for c
    using that by (auto simp: hex_value_def Let_def split: if_splits)
  have "\<forall>c \<in> set s. hex_value c \<noteq> None \<Longrightarrow> foldl (\<lambda>a c. a * 16 + the (hex_value c)) 0 s < 16 ^ length s" for s
  proof (induction s rule: rev_induct)
    case (snoc c s)
    then show ?case using val [of c] by (simp add: algebra_simps)
  qed simp
  moreover assume "parse_hextet s = Some h"
  then have "\<forall>c \<in> set s. hex_value c \<noteq> None" "length s \<le> 4" "h = foldl (\<lambda>a c. a * 16 + the (hex_value c)) 0 s"
    by (auto simp: parse_hextet_def hex_int_def split: if_splits)
  moreover have "(16 :: nat) ^ length s \<le> 16 ^ 4" using calculation(3) by (intro power_increasing) simp_all
  ultimately show ?thesis by fastforce
qed

lemma all_hextets_bound:
  "all_hextets ss = Some hs \<Longrightarrow> length hs = length ss \<and> (\<forall>h \<in> set hs. h < 65536)"
proof -
  assume "all_hextets ss = Some hs"
  then have "None \<notin> set (map parse_hextet ss)" "hs = map (the \<circ> parse_hextet) ss"
    by (auto simp: all_hextets_def split: if_splits)
  then show ?thesis using parse_hextet_bound by (auto simp: image_iff)
qed

lemma ipv6_hextets_bound:
  assumes "ipv6_hextets s = Some hs"
  shows "length hs = 8" "\<forall>h \<in> set hs. h < 65536"
proof -
  obtain parts where p: "ipv6_expand parts = Some hs"
    using assms by (auto simp: ipv6_hextets_def bind_eq_Some_conv split: if_splits)
  have "length hs = 8 \<and> (\<forall>h \<in> set hs. h < 65536)"
  proof (cases "filter (\<lambda>i. parts ! i = []) [1..<length parts - 1]" rule: remdups_adj.cases)
    case 1
    then show ?thesis using p all_hextets_bound by (auto simp: ipv6_expand_def split: if_splits)
  next
    case (2 i)
    then have i: "1 \<le> i" "i < length parts - 1" by (auto simp: filter_eq_Cons_iff upt_eq_Cons_conv dest!: arg_cong [where f = set])
    define hi where "hi = (if hd parts = [] then i - 1 else i)"
    define lo where "lo = (if last parts = [] then length parts - i - 2 else length parts - i - 1)"
    obtain a b where "all_hextets (take hi parts) = Some a" "all_hextets (drop (length parts - lo) parts) = Some b"
      "hs = a @ replicate (8 - (hi + lo)) 0 @ b" "hi + lo + 1 \<le> 8"
      using p unfolding ipv6_expand_def 2 list.case Let_def hi_def [symmetric] lo_def [symmetric]
      by (auto split: if_splits option.splits)
    moreover have "hi \<le> length parts" "lo \<le> length parts" using i by (auto simp: hi_def lo_def)
    ultimately show ?thesis using all_hextets_bound [of "take hi parts" a] all_hextets_bound [of "drop (length parts - lo) parts" b]
      by auto
  next
    case (3 i j js)
    then show ?thesis using p by (auto simp: ipv6_expand_def split: if_splits)
  qed
  then show "length hs = 8" "\<forall>h \<in> set hs. h < 65536" by blast+
qed

text \<open>
  \<open>inet_ntop\<close> prints the sixteen bytes of an address as a text that parses to it. \<open>ipaddress\<close> itself is one.
\<close>

definition hextet_bytes :: "nat list \<Rightarrow> bytes" where
  "hextet_bytes hs = concat (map (\<lambda>h. be_bytes 2 (int h)) hs)"

definition ntop_ok :: "(bytes \<Rightarrow> string) \<Rightarrow> bool" where
  "ntop_ok ntop \<longleftrightarrow> (\<forall>hs. length hs = 8 \<and> (\<forall>h \<in> set hs. h < 65536) \<longrightarrow> ipv6_hextets (ntop (hextet_bytes hs)) = Some hs)"

fun bytes_hextets :: "bytes \<Rightarrow> nat list" where
  "bytes_hextets (a # b # bs) = nat (be_int [a, b]) # bytes_hextets bs"
| "bytes_hextets _ = []"

definition demo_ntop :: "bytes \<Rightarrow> string" where
  "demo_ntop bs = ipv6_str (bytes_hextets bs)"

lemma bytes_hextets_bytes: "\<forall>h \<in> set hs. h < 65536 \<Longrightarrow> bytes_hextets (hextet_bytes hs) = hs"
proof (induction hs)
  case (Cons h hs)
  obtain x y where "be_bytes 2 (int h) = [x, y]"
    by (metis (no_types) length_0_conv length_Suc_conv length_be_bytes numeral_2_eq_2)
  then show ?case using Cons be_int_2 [of "int h"] by (simp add: hextet_bytes_def)
qed (simp add: hextet_bytes_def)

lemma demo_ntop_ok: "ntop_ok demo_ntop"
  by (simp add: ntop_ok_def demo_ntop_def bytes_hextets_bytes ipv6_hextets_str)

lemma addr_bytes_hextets: "ipv6_hextets s = Some hs \<Longrightarrow> addr_bytes s = hextet_bytes hs"
  using ipv6_hextets_bound [of s hs] by (simp add: addr_bytes_def hextet_bytes_def)

lemma ntop_addr: "ntop_ok ntop \<Longrightarrow> ipv6_hextets s = Some hs \<Longrightarrow> ipv6_hextets (ntop (addr_bytes s)) = Some hs"
  using ipv6_hextets_bound [of s hs] by (simp add: addr_bytes_hextets ntop_ok_def)

lemma should_count_iff:
  assumes "ntop_ok ntop" "ipv6_hextets d = Some dh" "ipv6_hextets self = Some hs"
  shows "should_count_inner (ntop (addr_bytes d)) (canon_inner self) \<longleftrightarrow> dh = hs"
proof -
  have "canon_inner (ntop (addr_bytes d)) = ipv6_str dh" "canon_inner self = ipv6_str hs"
    by (rule canon_inner_ipv6 [OF ntop_addr [OF assms(1,2)]], rule canon_inner_ipv6 [OF assms(3)])
  moreover have "ipv6_hextets (ipv6_str dh) = Some dh" "ipv6_hextets (ipv6_str hs) = Some hs"
    using ipv6_hextets_str ipv6_hextets_bound [OF assms(2)] ipv6_hextets_bound [OF assms(3)] by blast+
  ultimately show ?thesis unfolding should_count_inner_def by (metis option.inject)
qed

subsection \<open>Delivery\<close>

text \<open>A data packet as built: the headers, then the accounting payload, bare or in a RoCEv2 frame.\<close>

definition data_port :: "string \<Rightarrow> int" where
  "data_port transport = (if transport = ''rdma'' then RDMA_PORT else SPRAY_PORT)"

lemma built_packet:
  assumes udp: "scapy_udp scapy rfc_outer rfc_inner su du si di"
    and roce: "transport = ''rdma'' \<Longrightarrow> scapy_roce scapy rfc_inner bth si di"
    and ev: "transport = ''rdma'' \<Longrightarrow> \<exists>dqpn. dqpn_for_ev g plane path = Inr dqpn"
    and mrc: "mrc_payload trimmed sq plane path = Inr mrc"
  obtains pkt c d pl where
    "build_packet_bytes scapy g su du si di sq plane path transport trimmed = Inr pkt"
    "pkt = rfc_outer su du (length pl) @ inner_packet si di SPRAY_PORT (data_port transport) [c, d] pl"
    "length pl < 65000" "(if data_port transport = SPRAY_PORT then Some pl else unwrap_bth pl) = Some mrc"
proof -
  have len: "length mrc = (if trimmed then 10 else 42)" by (rule mrc_payload_length [OF mrc])
  define n where "n = length mrc"
  have n: "0 < n" "n \<le> 42" using len by (auto simp: n_def split: if_splits)
  show thesis
  proof (cases "transport = ''rdma''")
    case False
    have "n \<le> 0xFF00" using n by simp
    from scapy_udpE [OF udp spray_ports(1) n_def [symmetric] this] obtain c d where
      "scapy (IPv6 su du (Some 41) (IPv6 si di None (UDP SPRAY_PORT SPRAY_PORT (Raw mrc)))) =
        Inr (rfc_outer su du n @ rfc_inner si di SPRAY_PORT SPRAY_PORT n @ [c, d] @ mrc)" by blast
    then have "build_packet_bytes scapy g su du si di sq plane path transport trimmed =
        Inr (rfc_outer su du (length mrc) @ inner_packet si di SPRAY_PORT (data_port transport) [c, d] mrc)"
      using False mrc by (simp add: build_packet_bytes_def build_outer_packet_def inner_packet_def data_port_def n_def)
    then show thesis using that n False by (simp add: data_port_def n_def)
  next
    case True
    then obtain dqpn where ev: "dqpn_for_ev g plane path = Inr dqpn" using ev by blast
    let ?I = "rfc_inner si di SPRAY_PORT RDMA_PORT (n + 16)" and ?b = "bth RDMA_OPCODE dqpn"
    define fr where "fr = roce_frame ?I ?b mrc (sq AND 0xFFFFFF)"
    have w: "wrap_rdma scapy g mrc plane path sq (Some si) (Some di) (Some SPRAY_PORT) (Some RDMA_PORT) = Inr fr"
      "length ?b = 9" "length fr = n + 16"
      unfolding fr_def by (rule wrap_rdma_frame [OF roce [OF True] ev n_def [symmetric] n(2)])+
    have "n + 16 \<le> 0xFF00" using n by simp
    from scapy_udpE [OF udp spray_ports(2) w(3) this] obtain c d where
      "scapy (IPv6 su du (Some 41) (IPv6 si di None (UDP SPRAY_PORT RDMA_PORT (Raw fr)))) =
        Inr (rfc_outer su du (n + 16) @ rfc_inner si di SPRAY_PORT RDMA_PORT (n + 16) @ [c, d] @ fr)" by blast
    then have built: "build_packet_bytes scapy g su du si di sq plane path transport trimmed =
        Inr (rfc_outer su du (length fr) @ inner_packet si di SPRAY_PORT (data_port transport) [c, d] fr)"
      using True mrc w(1,3) by (simp add: build_packet_bytes_def build_outer_packet_def inner_packet_def data_port_def)
    have "unwrap_bth fr = Some mrc"
      using unwrap_bth_frame [of "?b @ be_bytes 3 (sq AND 0xFFFFFF)" _ mrc] w(2) n(1)
      unfolding fr_def roce_frame_def n_def by simp
    then show thesis
      using n True w(3) by (intro that [OF built refl]) (simp_all add: data_port_def SPRAY_PORT_def RDMA_PORT_def)
  qed
qed

text \<open>What the receiver of a packet does with it: the flow is named by the addresses it reads.\<close>

definition rx_flow :: "(bytes \<Rightarrow> string) \<Rightarrow> string \<Rightarrow> string \<Rightarrow> string \<Rightarrow> flow_key" where
  "rx_flow ntop si di transport =
     \<lparr>src_addr = ntop (addr_bytes si), dst_addr = ntop (addr_bytes di), src_port = SPRAY_PORT,
      dst_port = data_port transport\<rparr>"

definition rx_counted ::
  "rx_state \<Rightarrow> pyfloat \<Rightarrow> string \<Rightarrow> flow_key \<Rightarrow> int \<Rightarrow> int \<Rightarrow> int \<Rightarrow> bool \<Rightarrow> rx_state \<times> rx_call list" where
  "rx_counted s now nic flow sq plane path trimmed =
     (if trimmed then (rx_trim s now flow sq, [OnTrimmed flow plane path sq])
      else (rx_data s now nic flow sq plane, [OnPacket flow plane path sq]))"

text \<open>The Ethernet frame a capture returns, before or after the leaf removed the outer header.\<close>

definition captured :: "bytes \<Rightarrow> bytes list \<Rightarrow> bool \<Rightarrow> bytes \<Rightarrow> bytes \<Rightarrow> bytes" where
  "captured macs tags decapped pkt pad = ether macs tags @ (if decapped then drop 40 pkt else pkt) @ pad"

lemma built_packet_decoded:
  assumes "pkt = rfc_outer su du (length pl) @ inner_packet si di SPRAY_PORT (data_port transport) [c, d] pl"
    and "length pl < 65000" "(if data_port transport = SPRAY_PORT then Some pl else unwrap_bth pl) = Some mrc"
    and "mrc_payload trimmed sq plane path = Inr mrc"
    and "ntop_ok ntop" "ipv6_hextets di = Some d_hs" "ipv6_hextets self = Some self_hs"
    and "length macs = 12" "\<forall>t \<in> set tags. vlan_tag t"
  shows "rx_decode ntop (canon_inner self) (captured macs tags decapped pkt pad) =
    (if d_hs = self_hs then Some (rx_flow ntop si di transport, sq, plane, path, trimmed) else None)"
proof -
  have ports: "ports_ok SPRAY_PORT (data_port transport)" using spray_ports by (simp add: data_port_def)
  have "\<exists>outer. captured macs tags decapped pkt pad =
      ether macs tags @ outer @ inner_packet si di SPRAY_PORT (data_port transport) [c, d] pl @ pad
      \<and> (outer = [] \<or> outer = rfc_outer su du (length pl))"
    by (cases decapped) (auto simp: captured_def assms(1))
  then have parse: "parse_frame ntop (captured macs tags decapped pkt pad) =
      Some (ntop (addr_bytes si), ntop (addr_bytes di), SPRAY_PORT, data_port transport, pl)"
    using parse_frame_packet [OF assms(8,9,2) ports, of "[c, d]"] by fastforce
  have raw: "(if data_port transport = SPRAY_PORT then Some pl
      else if data_port transport = RDMA_PORT then unwrap_bth pl else None) = Some mrc"
    using assms(3) by (auto simp: data_port_def split: if_splits)
  have len: "length mrc = PAYLOAD_HDR_LEN \<longleftrightarrow> trimmed" using mrc_payload_length [OF assms(4)] by simp
  show ?thesis
    unfolding rx_decode_def parse option.case prod.case raw should_count_iff [OF assms(5-7)]
      parse_mrc_payload [OF assms(4)] len by (simp add: rx_flow_def)
qed

lemma built_packet_handled:
  assumes "pkt = rfc_outer su du (length pl) @ inner_packet si di SPRAY_PORT (data_port transport) [c, d] pl"
    and "length pl < 65000" "(if data_port transport = SPRAY_PORT then Some pl else unwrap_bth pl) = Some mrc"
    and "mrc_payload trimmed sq plane path = Inr mrc"
    and "ntop_ok ntop" "ipv6_hextets di = Some d_hs" "ipv6_hextets self = Some self_hs"
    and "length macs = 12" "\<forall>t \<in> set tags. vlan_tag t"
  shows "rx_handle ntop (canon_inner self) s now nic (captured macs tags decapped pkt pad) =
    (if d_hs = self_hs then rx_counted s now nic (rx_flow ntop si di transport) sq plane path trimmed else (s, []))"
  using built_packet_decoded [OF assms, of decapped pad] by (simp add: rx_handle_def rx_counted_def)

text \<open>
  C12. A data packet reaches the books of the host it is addressed to, and only those. Whatever the
  sender built before, its byte template for a packet of an EV, of either transport, full size or
  trimmed, captured with any VLAN tags and Ethernet padding, before or after the leaf removed the
  outer header, is decoded by the receiver to exactly the sequence number, plane, path and trimmed
  flag it was built with, on the flow of its inner addresses; a host with another inner address
  leaves its state as it is and calls nothing.
\<close>

theorem data_packet_delivered:
  assumes "scapy_udp scapy rfc_outer rfc_inner (su plane) du si di"
    and "transport = ''rdma'' \<Longrightarrow> scapy_roce scapy rfc_inner bth si di" and "ntop_ok ntop"
    and "0 \<le> sq" and "sq < 2 ^ 64" and "0 \<le> plane" and "plane \<le> 0xFF" and "0 \<le> path" and "path \<le> 0xFF"
    and "plane < NUM_PLANES g" and "path < NUM_SPINES g"
    and "ipv6_hextets di = Some d_hs" and "ipv6_hextets self = Some self_hs"
    and "length macs = 12" and "\<forall>t \<in> set tags. vlan_tag t"
  shows "\<exists>pkt. snd (tp_build scapy g (tp_run scapy g su (mk_packet_templates si di transport) calls)
        sq plane path (su plane) du trimmed) = Inr pkt
    \<and> rx_handle ntop (canon_inner self) s now nic (captured macs tags decapped pkt pad) =
        (if d_hs = self_hs then rx_counted s now nic (rx_flow ntop si di transport) sq plane path trimmed
         else (s, []))"
proof -
  obtain mrc where mrc: "mrc_payload trimmed sq plane path = Inr mrc" using mrc_payload_ok [OF assms(4-9)] .
  have ev: "\<exists>dqpn. dqpn_for_ev g plane path = Inr dqpn"
    using assms(6,8,10,11) by (simp add: dqpn_for_ev_def check_plane_def check_spine_def raise_if_def)
  obtain pkt c d pl where p:
    "build_packet_bytes scapy g (su plane) du si di sq plane path transport trimmed = Inr pkt"
    "pkt = rfc_outer (su plane) du (length pl) @ inner_packet si di SPRAY_PORT (data_port transport) [c, d] pl"
    "length pl < 65000" "(if data_port transport = SPRAY_PORT then Some pl else unwrap_bth pl) = Some mrc"
    by (rule built_packet [OF assms(1,2) ev mrc])
  obtain pkt' where t: "snd (tp_build scapy g (tp_run scapy g su (mk_packet_templates si di transport) calls)
      sq plane path (su plane) du trimmed) = Inr pkt'"
    "build_packet_bytes scapy g (su plane) du si di sq plane path transport trimmed = Inr pkt'"
    using tp_build_exact [where su = su and plane = plane, OF assms(1,2,4-11)] by blast
  have "pkt' = pkt" using t(2) p(1) by (rule Inr_inject [OF trans [OF sym]])
  note built_packet_handled [OF p(2-4) mrc assms(3,12-15), of s now nic decapped pad, folded this]
  with t(1) show ?thesis by blast
qed

theorem data_packet_delivered_witness:
  "\<exists>pkt. snd (tp_build demo_scapy demo_topo (tp_run demo_scapy demo_topo (\<lambda>_. ''2001:db8:bbbb:02::2'')
         (mk_packet_templates ''2001:db8:bbbb:02::2'' ''2001:db8:bbbb:05::2'' ''rdma'') [])
       7 1 2 ''2001:db8:bbbb:02::2'' ''fc00:0:f002:e005:d000::'' True) = Inr pkt
   \<and> rx_handle demo_ntop (canon_inner ''2001:db8:bbbb:5::2'') rx_init 3 ''eth2''
       (captured (replicate 12 0) [[0x81, 0, 0, 5]] True pkt [0, 0, 0]) =
       rx_counted rx_init 3 ''eth2'' (rx_flow demo_ntop ''2001:db8:bbbb:02::2'' ''2001:db8:bbbb:05::2'' ''rdma'')
         7 1 2 True"
proof -
  have ev: "(1 :: int) < NUM_PLANES demo_topo" "(2 :: int) < NUM_SPINES demo_topo"
    by (simp_all add: demo_topo_def)
  have p5: "parse_hextet ''05'' = Some 5" "parse_hextet ''5'' = Some 5" "plain ''05''" "plain ''5''"
    by (simp_all add: parse_hextet_def hex_int_def hex_value_def plain_def)
  have hs: "ipv6_hextets ''2001:db8:bbbb:05::2'' = Some [0x2001, 0xdb8, 0xbbbb, 5, 0, 0, 0, 2]"
    "ipv6_hextets ''2001:db8:bbbb:5::2'' = Some [0x2001, 0xdb8, 0xbbbb, 5, 0, 0, 0, 2]"
    using tenant_address_hextets [where h = "''05''" and x = 5 and l = "''2''" and y = 2 and t = "''bbbb''" and v = "0xbbbb"]
      tenant_address_hextets [where h = "''5''" and x = 5 and l = "''2''" and y = 2 and t = "''bbbb''" and v = "0xbbbb"]
      p5 plain_constants parse_constants by simp_all
  have "\<forall>t \<in> set [[0x81, 0, 0, 5 :: byte]]. vlan_tag t" by (simp add: vlan_tag_def)
  from data_packet_delivered [OF demo_scapy_udp demo_scapy_roce demo_ntop_ok _ _ _ _ _ _ ev hs _ this,
      where sq = 7 and su = "\<lambda>_. ''2001:db8:bbbb:02::2''" and macs = "replicate 12 0"]
  show ?thesis by simp
qed

end
