(* ===== verification/ReorderProperties.thy ===== *)
theory ReorderProperties
  imports Reorder
begin

text \<open>
  What the reorder statistics report: every arrival is accounted for, the histogram is the lateness
  of the first arrivals, loss is the gaps of the range when nothing precedes the first arrival,
  and a percentile is the least distance covering that share of the packets.
\<close>

subsection \<open>Accounting\<close>

lemma run_flow_snoc: "run_flow f (hist @ [(seq, plane)]) = fs_observe (run_flow f hist) seq plane"
  by (simp add: run_flow_def)

lemma dict_inc_keys: "fst ` set (dict_inc k d) = insert k (fst ` set d)"
  by (simp add: dict_inc_def dom_update)

lemma dict_inc_nonneg:
  "(\<forall>x \<in> set (dict_inc k d). 0 \<le> fst x) \<longleftrightarrow> (0 :: int) \<le> k \<and> (\<forall>x \<in> set d. 0 \<le> fst x)"
  using dict_inc_keys [of k d] by (metis (no_types, lifting) image_iff insert_iff)

text \<open>
  Nothing that arrives goes unaccounted: after any history, of any length and with any
  repetition, the received and the duplicates add up to the arrivals, the histogram has one entry
  per received packet, none of them negative, and the planes never count more than was received.
\<close>

theorem reorder_accounting:
  "fs_received (run_flow f hist) + duplicates (run_flow f hist) = int (length hist)
   \<and> sum_list (map snd (reorder_hist (run_flow f hist))) = fs_received (run_flow f hist)
   \<and> (\<forall>d \<in> fst ` set (reorder_hist (run_flow f hist)). 0 \<le> d)
   \<and> sum_list (map snd (per_plane (run_flow f hist))) \<le> fs_received (run_flow f hist)
   \<and> card (seq_window (run_flow f hist)) \<le> 4096"
proof (induction hist rule: rev_induct)
  case Nil
  then show ?case by (simp add: run_flow_def new_flow_stats_def)
next
  case (snoc a hist)
  obtain seq plane where a: "a = (seq, plane)" by fastforce
  have fin: "finite (seq_window (run_flow f hist)) \<and> window_cap (run_flow f hist) = 4096"
  proof (induction hist rule: rev_induct)
    case (snoc b hist)
    then show ?case
      by (cases b) (auto simp: run_flow_snoc fs_observe_def Let_def split: option.splits)
  qed (simp add: run_flow_def new_flow_stats_def)
  let ?w = "insert seq (seq_window (run_flow f hist))"
  have cap: "card (?w - {Min ?w}) \<le> 4096" if "seq \<notin> seq_window (run_flow f hist)"
  proof -
    have "Min ?w \<in> ?w" using fin by (intro Min_in) auto
    then have "card (?w - {Min ?w}) = card ?w - 1" by (rule card_Diff_singleton)
    then show ?thesis using that fin snoc.IH by simp
  qed
  show ?case
    unfolding a run_flow_snoc using snoc.IH fin cap
    by (cases "seq \<in> seq_window (run_flow f hist)"; cases plane)
      (simp_all add: fs_observe_def Let_def sum_dict_inc dict_inc_nonneg split: option.splits)
qed

text \<open>
  C33. Refinement: as long as a flow has shown at most 4096 different sequence numbers, its
  statistics are a function of the history alone: received counts the different sequence numbers,
  duplicates the repetitions, the histogram counts, for each first arrival, how far it was behind
  the highest earlier one, and the planes count the first arrivals that named one.
\<close>

theorem reorder_refines_history:
  assumes "card (fst ` set hist) \<le> 4096"
  shows "fs_received (run_flow f hist) = int (card (fst ` set hist))
    \<and> duplicates (run_flow f hist) = int (length hist) - int (card (fst ` set hist))
    \<and> (\<forall>d. dict_get (reorder_hist (run_flow f hist)) d =
         (let ls = lateness (-1) (map fst (firsts {} hist))
          in if d \<in> set ls then Some (int (count (mset ls) d)) else None))
    \<and> (\<forall>p. dict_get (per_plane (run_flow f hist)) p =
         (let ps = List.map_filter snd (firsts {} hist)
          in if p \<in> set ps then Some (int (count (mset ps) p)) else None))"
proof -
  have "card (fst ` set hist) \<le> length hist"
    by (metis card_image_le card_length finite_set le_trans)
  then show ?thesis
    using run_flow_tracks [OF assms, of f] by (simp add: dict_get_counts firsts_count Let_def)
qed

definition tracked_flow :: flow_key where
  "tracked_flow = \<lparr>src_addr = ''2001:db8:bbbb:00::2'', dst_addr = ''2001:db8:bbbb:0f::2'', src_port = 40000,
     dst_port = 9999\<rparr>"

theorem reorder_refines_history_witness:
  "fs_received (run_flow tracked_flow [(0, Some 0), (2, Some 1), (1, Some 2), (2, Some 1)]) = 3"
proof -
  have h: "card (fst ` set [(0 :: int, Some (0 :: int)), (2, Some 1), (1, Some 2), (2, Some 1)]) \<le> 4096"
    by (simp add: card_insert_if)
  from reorder_refines_history [OF h, of tracked_flow] show ?thesis by (simp add: card_insert_if)
qed

subsection \<open>Loss\<close>

lemma foldl_max: "foldl max t ss = Max (insert t (set ss))" for t :: int
proof (induction ss arbitrary: t)
  case (Cons a ss)
  then show ?case by (cases "ss = []") (auto simp: max.assoc max.commute max.left_commute)
qed simp

text \<open>
  The loss of a flow is exactly the number of sequence numbers missing from its range,
  provided the first packet to arrive has the lowest sequence number and the window has not
  overflowed. If an earlier packet arrives later the range is too short and the loss comes out
  too small.
\<close>

theorem reorder_loss_exact:
  assumes "card (fst ` set hist) \<le> 4096" and "hist = (s0, p0) # rest"
    and "\<forall>x \<in> fst ` set hist. s0 \<le> x" and "0 \<le> s0"
  shows "fs_loss (run_flow f hist) = int (card ({s0..Max (fst ` set hist)} - fst ` set hist))"
proof -
  let ?S = "fst ` set hist"
  have S: "finite ?S" "s0 \<in> ?S" using assms(2) by auto
  have top: "last_seq_seen (run_flow f hist) = Max ?S"
  proof -
    have "set (map fst (firsts {} hist)) = ?S" using firsts_set [of "{}" hist] by simp
    moreover have "Max (insert (-1) ?S) = Max ?S"
    proof -
      have "-1 \<le> Max ?S" using Max_ge [OF S] assms(4) by simp
      moreover have "Max (insert (-1) ?S) = max (-1) (Max ?S)" using S by (intro Max_insert) auto
      ultimately show ?thesis by simp
    qed
    ultimately show ?thesis using run_flow_tracks [OF assms(1), of f] by (simp add: foldl_max)
  qed
  have sub: "?S \<subseteq> {s0..Max ?S}"
    unfolding subset_iff atLeastAtMost_iff using assms(3) Max_ge [OF S(1)] by blast
  have "s0 \<le> Max ?S" using S by simp
  then have "int (card {s0..Max ?S}) = Max ?S - s0 + 1" by simp
  moreover have "int (card ({s0..Max ?S} - ?S)) = int (card {s0..Max ?S}) - int (card ?S)"
    using sub S card_mono [OF _ sub] by (simp add: card_Diff_subset of_nat_diff)
  moreover have "fs_received (run_flow f hist) = int (card ?S)"
    using run_flow_tracks [OF assms(1), of f] by (simp add: firsts_count)
  moreover have "first_seq (run_flow f hist) = Some s0"
    using run_flow_tracks [OF assms(1), of f] assms(2) by simp
  ultimately show ?thesis using top by (simp add: fs_loss_def fs_expected_def)
qed

theorem reorder_loss_exact_witness:
  "fs_loss (run_flow tracked_flow [(4, None), (7, None), (5, None)]) = 1"
proof -
  let ?h = "[(4, None), (7, None), (5, None)] :: arrival list"
  have h: "card (fst ` set ?h) \<le> 4096" "?h = (4, None) # [(7, None), (5, None)]"
    "\<forall>x \<in> fst ` set ?h. 4 \<le> x" "(0 :: int) \<le> 4" by (simp_all add: card_insert_if)
  have "{4..7 :: int} - {4, 7, 5} = {6}" by auto
  with reorder_loss_exact [OF h, of tracked_flow] show ?thesis by (simp add: insert_commute)
qed

text \<open>Arrivals 1, 0, 3: packet 2 is missing, and the reported loss is 0.\<close>

lemma reorder_loss_undercounts:
  "fs_loss (run_flow f [(1, None), (0, None), (3, None)]) = 0
   \<and> 2 \<in> {0..Max {1, 0, 3}} - {1, 0, 3 :: int}"
  by (simp add: run_flow_def fs_observe_def new_flow_stats_def fs_loss_def fs_expected_def Let_def dict_inc_def)

subsection \<open>Percentiles\<close>

lemma sum_counts_over:
  "distinct ds \<Longrightarrow> (\<Sum>d\<leftarrow>ds. int (count (mset ks) d)) = int (length (filter (\<lambda>k. k \<in> set ds) ks))"
proof (induction ks)
  case (Cons k ks)
  have one: "distinct ds \<Longrightarrow> (\<Sum>d\<leftarrow>ds. if d = k then 1 else (0 :: int)) = (if k \<in> set ds then 1 else 0)"
    by (induction ds) auto
  have "(\<Sum>d\<leftarrow>ds. int (count (mset (k # ks)) d)) = (\<Sum>d\<leftarrow>ds. int (count (mset ks) d) + (if d = k then 1 else 0))"
    by (intro arg_cong [where f = sum_list] map_cong) auto
  also have "\<dots> = (\<Sum>d\<leftarrow>ds. int (count (mset ks) d)) + (\<Sum>d\<leftarrow>ds. if d = k then 1 else 0)"
    by (rule sum_list_addf)
  finally show ?case using Cons one by simp
qed simp

lemma percentile_scan_cases:
  assumes "set ds \<subseteq> dom (map_of h)"
  shows "(percentile_scan h t c ds = None \<and> (\<forall>n \<le> length ds. 0 < n \<longrightarrow> of_int (c + (\<Sum>d\<leftarrow>take n ds. the (map_of h d))) < t))
    \<or> (\<exists>i < length ds. percentile_scan h t c ds = Some (ds ! i)
        \<and> t \<le> of_int (c + (\<Sum>d\<leftarrow>take (Suc i) ds. the (map_of h d)))
        \<and> (\<forall>n \<le> i. 0 < n \<longrightarrow> of_int (c + (\<Sum>d\<leftarrow>take n ds. the (map_of h d))) < t))"
  using assms
proof (induction ds arbitrary: c)
  case (Cons d ds)
  let ?c = "c + the (map_of h d)"
  show ?case
  proof (cases "t \<le> of_int ?c")
    case True
    then show ?thesis by (intro disjI2 exI [of _ 0]) (simp add: Let_def)
  next
    case False
    have step: "(\<Sum>d\<leftarrow>take n (d # ds). the (map_of h d)) = the (map_of h d) + (\<Sum>d\<leftarrow>take (n - 1) ds. the (map_of h d))"
      if "0 < n" for n using that by (cases n) auto
    have lift: "of_int (c + (\<Sum>d\<leftarrow>take n (d # ds). the (map_of h d))) < t"
      if "0 < n" "\<forall>m \<le> k. 0 < m \<longrightarrow> of_int (?c + (\<Sum>d\<leftarrow>take m ds. the (map_of h d))) < t" "n \<le> Suc k" for n k
      using that(2) [rule_format, of "n - 1"] that False step [OF that(1)]
      by (cases "n = 1") (auto simp: algebra_simps)
    from Cons.IH [of ?c] Cons.prems
    consider (none) "percentile_scan h t ?c ds = None"
        "\<forall>n \<le> length ds. 0 < n \<longrightarrow> of_int (?c + (\<Sum>d\<leftarrow>take n ds. the (map_of h d))) < t"
      | (some) i where "i < length ds" "percentile_scan h t ?c ds = Some (ds ! i)"
        "t \<le> of_int (?c + (\<Sum>d\<leftarrow>take (Suc i) ds. the (map_of h d)))"
        "\<forall>n \<le> i. 0 < n \<longrightarrow> of_int (?c + (\<Sum>d\<leftarrow>take n ds. the (map_of h d))) < t" by auto
    then show ?thesis
    proof cases
      case none
      then show ?thesis using False lift [OF _ none(2)] by (intro disjI1) (auto simp: Let_def)
    next
      case some
      then show ?thesis using False lift [OF _ some(4)]
        by (intro disjI2 exI [of _ "Suc i"]) (auto simp: Let_def algebra_simps)
    qed
  qed
qed simp

lemma rnd_percent:
  fixes n c :: int
  assumes "0 \<le> n" "n \<le> 2 ^ 46" "0 \<le> c" "c \<le> 2 ^ 46"
  shows "fdiv (float_of_int n) 100 \<le> of_int c \<longleftrightarrow> n \<le> 100 * c"
proof -
  have f: "float_of_int n = of_int n" using assms unfolding float_of_int_def by (intro rnd_of_int) auto
  let ?x = "rat_of_int n / 100"
  have x: "0 \<le> ?x" "?x \<le> 2 ^ 46 / 100"
  proof -
    have "rat_of_int n \<le> rat_of_int (2 ^ 46)" using assms(2) by (simp only: of_int_le_iff)
    then show "?x \<le> 2 ^ 46 / 100" by simp
  qed (use assms(1) in simp)
  show ?thesis
  proof (cases "n \<le> 100 * c")
    case True
    then have "rat_of_int n \<le> rat_of_int (100 * c)" by (simp only: of_int_le_iff)
    then have "?x \<le> rat_of_int c" by simp
    then have "rnd ?x \<le> rnd (rat_of_int c)" by (rule rnd_mono)
    moreover have "rnd (rat_of_int c) = rat_of_int c" using assms by (intro rnd_of_int) auto
    ultimately show ?thesis using True by (simp add: fdiv_def f)
  next
    case False
    then have "rat_of_int (100 * c + 1) \<le> rat_of_int n" by (simp only: of_int_le_iff)
    then have "rat_of_int c + 1 / 100 \<le> ?x" by simp
    moreover have "?x * (1 - ulp) \<le> rnd ?x" using x(1) by (rule rnd_relative)
    ultimately have "rat_of_int c < rnd ?x" using x(2) by simp
    then show ?thesis using False by (simp add: fdiv_def f)
  qed
qed

text \<open>The keys in ascending order, against the list they are the keys of.\<close>

lemma sorted_prefix_filter:
  fixes ds :: "int list"
  assumes "distinct ds" "sorted ds" "set ds = set ls" "j < length ds"
  shows "filter (\<lambda>k. k \<in> set (take (Suc j) ds)) ls = filter (\<lambda>d. d \<le> ds ! j) ls"
proof (rule filter_cong [OF refl])
  fix k assume "k \<in> set ls"
  then obtain m where m: "m < length ds" "ds ! m = k"
    unfolding assms(3) [symmetric] in_set_conv_nth by blast
  have "k \<in> set (take (Suc j) ds) \<longleftrightarrow> m < Suc j"
    using m assms(1,4) by (auto simp: in_set_conv_nth nth_eq_iff_index_eq)
  also have "\<dots> \<longleftrightarrow> k \<le> ds ! j"
  proof
    assume "m < Suc j"
    then show "k \<le> ds ! j" using sorted_nth_mono [OF assms(2), of m j] m assms(4) by simp
  next
    assume le: "k \<le> ds ! j"
    show "m < Suc j"
    proof (rule ccontr)
      assume "\<not> m < Suc j"
      then have "ds ! j \<le> k" "m \<noteq> j" using sorted_nth_mono [OF assms(2), of j m] m by auto
      then show False using le m assms(1,4) by (metis nth_eq_iff_index_eq order.antisym)
    qed
  qed
  finally show "k \<in> set (take (Suc j) ds) \<longleftrightarrow> k \<le> ds ! j" .
qed

lemma sorted_below:
  fixes ds :: "int list"
  assumes "sorted ds" "set ds = set ls" "d \<in> set ls" "d < ds ! i" "i < length ds"
  shows "0 < i \<and> d \<le> ds ! (i - 1)"
proof -
  obtain m where m: "m < length ds" "ds ! m = d"
    using assms(3) unfolding assms(2) [symmetric] in_set_conv_nth by blast
  have "m < i"
  proof (rule ccontr)
    assume "\<not> m < i"
    then show False using sorted_nth_mono [OF assms(1), of i m] m assms(4) by simp
  qed
  then show ?thesis using sorted_nth_mono [OF assms(1), of m "i - 1"] m assms(5) by auto
qed

lemma sorted_below_first:
  fixes ds :: "int list"
  assumes "sorted ds" "set ds = set ls" "0 < length ds" "q < ds ! 0"
  shows "filter (\<lambda>d. d \<le> q) ls = []"
  using sorted_below [OF assms(1,2), of _ 0] assms(3,4) by (force simp: filter_empty_conv)

lemma sorted_below_next:
  fixes ds :: "int list"
  assumes "sorted ds" "set ds = set ls" "Suc j < length ds" "q < ds ! Suc j"
  shows "length (filter (\<lambda>d. d \<le> q) ls) \<le> length (filter (\<lambda>d. d \<le> ds ! j) ls)"
proof -
  have "d \<le> ds ! j" if "d \<in> set ls" "d \<le> q" for d
    using sorted_below [OF assms(1,2) that(1), of "Suc j"] that assms(3,4) by simp
  then show ?thesis by (induction ls) auto
qed

text \<open>
  The reported percentile is the least reorder distance that covers that share of the received
  packets: at least pct percent are at most that far behind, and fewer at every smaller distance,
  with the rounding of the float comparison accounted for up to 2^46 packet-percents.
\<close>

theorem reorder_percentile_least:
  assumes "reorder_hist st = counts_of ls" and "ls \<noteq> []" and "0 < pct" and "pct \<le> 100"
    and "int (length ls) * pct \<le> 2 ^ 46"
  shows "\<exists>r \<in> set ls. reorder_percentile st pct = Inr r
    \<and> int (length ls) * pct \<le> 100 * int (length (filter (\<lambda>d. d \<le> r) ls))
    \<and> (\<forall>q < r. 100 * int (length (filter (\<lambda>d. d \<le> q) ls)) < int (length ls) * pct)"
proof -
  let ?h = "counts_of ls" and ?n = "int (length ls)"
  define ds where "ds = sort (map fst ?h)"
  define t where "t = fdiv (float_of_int (?n * pct)) 100"
  have keys: "fst ` set ?h = set ls"
    using dict_get_counts [of ls] by (auto simp: dom_map_of_conv_image_fst [symmetric] split: if_splits)
  have "distinct ds \<and> sorted ds \<and> set ds = set ls"
    using dict_ok_counts [of ls] keys by (auto simp: ds_def dict_ok_def)
  moreover from this have "ds \<noteq> []" using assms(2) by auto
  ultimately have ds: "distinct ds" "sorted ds" "set ds = set ls" "ds \<noteq> []" by blast+
  have h_ne: "?h \<noteq> []" using keys assms(2) by auto
  have sums: "(\<Sum>d\<leftarrow>take n ds. the (map_of ?h d)) = int (length (filter (\<lambda>k. k \<in> set (take n ds)) ls))" for n
  proof -
    have "(\<Sum>d\<leftarrow>take n ds. the (map_of ?h d)) = (\<Sum>d\<leftarrow>take n ds. int (count (mset ls) d))"
      using ds(3) by (intro arg_cong [where f = sum_list] map_cong) (auto simp: dict_get_counts dest: in_set_takeD)
    then show ?thesis using sum_counts_over [of "take n ds" ls] ds(1) by simp
  qed
  have below: "t \<le> of_int (int (length (filter P ls))) \<longleftrightarrow> ?n * pct \<le> 100 * int (length (filter P ls))" for P
  proof -
    have "length (filter P ls) \<le> length ls" by simp
    moreover have "?n \<le> ?n * pct" using assms(3) by (simp add: mult_le_cancel_left1)
    ultimately have "int (length (filter P ls)) \<le> 2 ^ 46" using assms(5) by linarith
    then show ?thesis unfolding t_def using assms by (intro rnd_percent) auto
  qed
  have all: "take (length ds) ds = ds" "filter (\<lambda>k. k \<in> set ds) ls = ls" using ds(3) by simp_all
  have dom: "set ds \<subseteq> dom (map_of ?h)" using ds(3) dict_get_counts [of ls] by auto
  obtain i where i: "i < length ds" "percentile_scan ?h t 0 ds = Some (ds ! i)"
    "t \<le> of_int (int (length (filter (\<lambda>k. k \<in> set (take (Suc i) ds)) ls)))"
    "\<forall>n \<le> i. 0 < n \<longrightarrow> of_int (int (length (filter (\<lambda>k. k \<in> set (take n ds)) ls))) < t"
    using percentile_scan_cases [OF dom, of t 0]
  proof (elim disjE)
    assume "percentile_scan ?h t 0 ds = None
      \<and> (\<forall>n \<le> length ds. 0 < n \<longrightarrow> of_int (0 + (\<Sum>d\<leftarrow>take n ds. the (map_of ?h d))) < t)"
    then have "\<not> t \<le> of_int (int (length (filter (\<lambda>k. k \<in> set ds) ls)))"
      using ds(4) sums [of "length ds"] all(1) by (metis length_greater_0_conv not_less order_refl add_0)
    then have "\<not> ?n * pct \<le> 100 * ?n" using below all(2) by metis
    moreover have "?n * pct \<le> ?n * 100" using assms(4) by (intro mult_left_mono) auto
    ultimately have False by linarith
    then show thesis ..
  qed (use that in \<open>auto simp: sums\<close>)
  note prefix = sorted_prefix_filter [OF ds(1-3)]
  have least: "100 * int (length (filter (\<lambda>d. d \<le> q) ls)) < ?n * pct" if "q < ds ! i" for q
  proof (cases i)
    case 0
    then have "filter (\<lambda>d. d \<le> q) ls = []" using sorted_below_first [OF ds(2,3)] i(1) that by simp
    then show ?thesis using assms(2,3) by simp
  next
    case (Suc j)
    have "\<not> t \<le> of_int (int (length (filter (\<lambda>d. d \<le> ds ! j) ls)))"
      using i(1,4) Suc prefix [of j] by (auto simp: not_le)
    then have "100 * int (length (filter (\<lambda>d. d \<le> ds ! j) ls)) < ?n * pct"
      using below [of "\<lambda>d. d \<le> ds ! j"] by linarith
    moreover have "length (filter (\<lambda>d. d \<le> q) ls) \<le> length (filter (\<lambda>d. d \<le> ds ! j) ls)"
      using sorted_below_next [OF ds(2,3)] i(1) Suc that by simp
    ultimately show ?thesis by linarith
  qed
  have "reorder_percentile st pct = Inr (ds ! i)"
    using assms(1,3,4) h_ne i(2) by (simp add: reorder_percentile_def sum_counts Let_def flip: ds_def t_def)
  moreover have "?n * pct \<le> 100 * int (length (filter (\<lambda>d. d \<le> ds ! i) ls))"
    using i(3) below prefix [OF i(1)] by auto
  moreover have "ds ! i \<in> set ls" using i(1) ds(3) nth_mem by metis
  ultimately show ?thesis using least by blast
qed

theorem reorder_percentile_least_witness:
  "reorder_percentile (run_flow tracked_flow [(0, None), (3, None), (1, None), (2, None)]) 75 = Inr 1"
proof -
  let ?st = "run_flow tracked_flow [(0, None), (3, None), (1, None), (2, None)]" and ?ls = "[0, 0, 2, 1] :: int list"
  have h: "reorder_hist ?st = counts_of ?ls" "?ls \<noteq> []" "(0 :: int) < 75" "(75 :: int) \<le> 100"
    "int (length ?ls) * 75 \<le> 2 ^ 46"
    by (simp_all add: run_flow_def fs_observe_def new_flow_stats_def counts_of_def Let_def)
  from reorder_percentile_least [OF h] obtain r where r: "r \<in> set ?ls" "reorder_percentile ?st 75 = Inr r"
    "int (length ?ls) * 75 \<le> 100 * int (length (filter (\<lambda>d. d \<le> r) ?ls))"
    "\<forall>q < r. 100 * int (length (filter (\<lambda>d. d \<le> q) ?ls)) < int (length ?ls) * 75" by blast
  have "r \<noteq> 0" using r(3) by auto
  moreover have "r \<noteq> 2" using r(4) [rule_format, of 1] by auto
  ultimately show ?thesis using r(1,2) by simp
qed

end
