(* ===== verification/ReceiverRuns.thy ===== *)
theory ReceiverRuns
  imports Receiver ReorderProperties
begin

text \<open>
  The receiver over a whole capture: its state as a function of the frames decoded so far, in
  order, whatever the frames are.
\<close>

type_synonym rx_event = "string \<times> flow_key \<times> int \<times> int \<times> bool"

definition rx_run ::
  "(bytes \<Rightarrow> string) \<Rightarrow> string \<Rightarrow> (pyfloat \<times> string \<times> bytes) list \<Rightarrow> rx_state" where
  "rx_run ntop self_inner_canon capture =
     foldl (\<lambda>s (now, nic, frame). fst (rx_handle ntop self_inner_canon s now nic frame)) rx_init capture"

text \<open>The packets for this host: NIC, flow, sequence number, plane, trimmed.\<close>

definition rx_packets ::
  "(bytes \<Rightarrow> string) \<Rightarrow> string \<Rightarrow> (pyfloat \<times> string \<times> bytes) list \<Rightarrow> rx_event list" where
  "rx_packets ntop self_inner_canon capture =
     concat (map (\<lambda>(now, nic, frame).
       case rx_decode ntop self_inner_canon frame of None \<Rightarrow> []
       | Some (flow, sq, plane, path, trimmed) \<Rightarrow> [(nic, flow, sq, plane, trimmed)]) capture)"

definition full_copies :: "rx_event list \<Rightarrow> rx_event list" where
  "full_copies h = filter (\<lambda>(nic, flow, sq, plane, trimmed). \<not> trimmed) h"

definition arrivals_of :: "flow_key \<Rightarrow> rx_event list \<Rightarrow> arrival list" where
  "arrivals_of f h = map (\<lambda>(nic, flow, sq, plane, trimmed). (sq, Some plane))
     (filter (\<lambda>(nic, flow, sq, plane, trimmed). flow = f) (full_copies h))"

definition trims_of :: "flow_key \<Rightarrow> rx_event list \<Rightarrow> int list" where
  "trims_of f h = map (\<lambda>(nic, flow, sq, plane, trimmed). sq)
     (filter (\<lambda>(nic, flow, sq, plane, trimmed). flow = f \<and> trimmed) h)"

text \<open>A sequence number whose last packet was a trimmed one.\<close>

definition unrecovered :: "flow_key \<Rightarrow> rx_event list \<Rightarrow> int \<Rightarrow> bool" where
  "unrecovered f h q \<longleftrightarrow>
     (case rev (filter (\<lambda>(nic, flow, sq, plane, trimmed). flow = f \<and> sq = q) h) of
        [] \<Rightarrow> False | (nic, flow, sq, plane, trimmed) # _ \<Rightarrow> trimmed)"

text \<open>
  The recoveries of a flow, read off the packets alone: the full-size packets of a sequence number
  that was unrecovered before them.
\<close>

definition recovers_trim :: "flow_key \<Rightarrow> rx_event list \<Rightarrow> nat \<Rightarrow> bool" where
  "recovers_trim f h i \<longleftrightarrow>
     (case h ! i of (nic, flow, sq, plane, trimmed) \<Rightarrow> flow = f \<and> \<not> trimmed \<and> unrecovered f (take i h) sq)"

definition recoveries :: "flow_key \<Rightarrow> rx_event list \<Rightarrow> nat" where
  "recoveries f h = length (filter (recovers_trim f h) [0..<length h])"

fun rx_apply :: "rx_state \<Rightarrow> pyfloat \<Rightarrow> rx_event \<Rightarrow> rx_state" where
  "rx_apply s now (nic, flow, sq, plane, trimmed) =
     (if trimmed then rx_trim s now flow sq else rx_data s now nic flow sq plane)"

lemma rx_run_snoc:
  "rx_run ntop me (capture @ [(now, nic, frame)]) =
    (case rx_decode ntop me frame of None \<Rightarrow> rx_run ntop me capture
     | Some (flow, sq, plane, path, trimmed) \<Rightarrow> rx_apply (rx_run ntop me capture) now (nic, flow, sq, plane, trimmed))"
  by (simp add: rx_run_def rx_handle_def split: option.split)

lemma rx_packets_snoc:
  "rx_packets ntop me (capture @ [(now, nic, frame)]) = rx_packets ntop me capture @
    (case rx_decode ntop me frame of None \<Rightarrow> []
     | Some (flow, sq, plane, path, trimmed) \<Rightarrow> [(nic, flow, sq, plane, trimmed)])"
  by (simp add: rx_packets_def)

text \<open>An invariant of the state and the packets holds after every capture when one packet keeps it.\<close>

lemma rx_run_induct:
  assumes "P rx_init []"
    and "\<And>s h now e. P s h \<Longrightarrow> P (rx_apply s now e) (h @ [e])"
  shows "P (rx_run ntop me capture) (rx_packets ntop me capture)"
proof (induction capture rule: rev_induct)
  case (snoc x capture)
  obtain now nic frame where "x = (now, nic, frame)" by (cases x)
  then show ?case
    using snoc assms(2) by (auto simp: rx_run_snoc rx_packets_snoc simp del: rx_apply.simps split: option.split)
qed (simp add: rx_run_def rx_packets_def assms(1))

subsection \<open>One packet, field by field\<close>

lemma rx_data_fields [simp]:
  "rx_tracker (rx_data s now nic flow sq plane) = tracker_observe (rx_tracker s) flow sq (Some plane)"
  "rx_per_nic (rx_data s now nic flow sq plane) = dict_inc nic (rx_per_nic s)"
  "rx_per_plane (rx_data s now nic flow sq plane) = dict_inc plane (rx_per_plane s)"
  "rx_trimmed (rx_data s now nic flow sq plane) = rx_trimmed s"
  "dict_get_set (rx_pending (rx_data s now nic flow sq plane)) f =
     (if f = flow then dict_get_set (rx_pending s) f - {sq} else dict_get_set (rx_pending s) f)"
  "count_of (rx_recovered (rx_data s now nic flow sq plane)) f = count_of (rx_recovered s) f
     + (if f = flow \<and> sq \<in> dict_get_set (rx_pending s) f then 1 else 0)"
  by (auto simp: rx_data_def Let_def dict_get_set_def count_of_def dict_inc_get split: option.split)

lemma rx_trim_fields [simp]:
  "rx_tracker (rx_trim s now flow sq) = rx_tracker s" "rx_per_nic (rx_trim s now flow sq) = rx_per_nic s"
  "rx_per_plane (rx_trim s now flow sq) = rx_per_plane s"
  "count_of (rx_trimmed (rx_trim s now flow sq)) f = count_of (rx_trimmed s) f + (if f = flow then 1 else 0)"
  "dict_get_set (rx_pending (rx_trim s now flow sq)) f =
     (if f = flow then insert sq (dict_get_set (rx_pending s) f) else dict_get_set (rx_pending s) f)"
  "count_of (rx_recovered (rx_trim s now flow sq)) f = count_of (rx_recovered s) f"
  by (auto simp: rx_trim_def dict_get_set_def count_of_def dict_inc_get split: option.split)

lemma rx_init_fields [simp]:
  "rx_tracker rx_init = []" "rx_per_nic rx_init = []" "rx_per_plane rx_init = []"
  "count_of (rx_trimmed rx_init) f = 0" "dict_get_set (rx_pending rx_init) f = {}"
  "count_of (rx_recovered rx_init) f = 0"
  by (simp_all add: rx_init_def count_of_def dict_get_set_def)

subsection \<open>The histories\<close>

lemma tracker_get:
  "dict_get (tracker_observe tr flow sq plane) f =
    (if f = flow then Some (fs_observe (case dict_get tr flow of None \<Rightarrow> new_flow_stats flow | Some st \<Rightarrow> st) sq plane)
     else dict_get tr f)"
  by (simp add: tracker_observe_def Let_def)

lemma capture_snoc:
  "full_copies (h @ [(nic, flow, sq, plane, trimmed)]) =
     full_copies h @ (if trimmed then [] else [(nic, flow, sq, plane, False)])"
  "arrivals_of f (h @ [(nic, flow, sq, plane, trimmed)]) =
     arrivals_of f h @ (if flow = f \<and> \<not> trimmed then [(sq, Some plane)] else [])"
  "trims_of f (h @ [(nic, flow, sq, plane, trimmed)]) = trims_of f h @ (if flow = f \<and> trimmed then [sq] else [])"
  "unrecovered f (h @ [(nic, flow, sq, plane, trimmed)]) q =
     (if flow = f \<and> sq = q then trimmed else unrecovered f h q)"
  by (simp_all add: full_copies_def arrivals_of_def trims_of_def unrecovered_def)

lemma recoveries_snoc:
  "recoveries f (h @ [(nic, flow, sq, plane, trimmed)]) =
     recoveries f h + (if flow = f \<and> \<not> trimmed \<and> unrecovered f h sq then 1 else 0)"
proof -
  have "filter (recovers_trim f (h @ [x])) [0..<length h] = filter (recovers_trim f h) [0..<length h]" for x
    by (rule filter_cong) (auto simp: recovers_trim_def nth_append)
  then show ?thesis by (simp add: recoveries_def) (simp add: recovers_trim_def)
qed

lemma rx_flows:
  "dict_get (rx_tracker (rx_run ntop me capture)) f =
    (let hist = arrivals_of f (rx_packets ntop me capture) in if hist = [] then None else Some (run_flow f hist))"
proof (induction rule: rx_run_induct [where P = "\<lambda>s h. dict_get (rx_tracker s) f =
    (let hist = arrivals_of f h in if hist = [] then None else Some (run_flow f hist))"])
  case (2 s h now e)
  obtain nic flow sq plane trimmed where "e = (nic, flow, sq, plane, trimmed)" by (cases e)
  then show ?case
    using 2 run_flow_snoc [of f "[]"]
    by (auto simp: capture_snoc tracker_get run_flow_snoc Let_def run_flow_def)
qed (simp add: arrivals_of_def full_copies_def)

lemma rx_totals:
  "rx_per_nic (rx_run ntop me capture) = counts_of (map fst (full_copies (rx_packets ntop me capture)))
   \<and> rx_per_plane (rx_run ntop me capture) =
      counts_of (map (\<lambda>(nic, flow, sq, plane, trimmed). plane) (full_copies (rx_packets ntop me capture)))"
proof (induction rule: rx_run_induct [where P = "\<lambda>s h. rx_per_nic s = counts_of (map fst (full_copies h))
    \<and> rx_per_plane s = counts_of (map (\<lambda>(nic, flow, sq, plane, trimmed). plane) (full_copies h))"])
  case (2 s h now e)
  obtain nic flow sq plane trimmed where "e = (nic, flow, sq, plane, trimmed)" by (cases e)
  then show ?case using 2 by (simp add: capture_snoc)
qed (simp add: full_copies_def counts_of_def)

lemma rx_trims:
  "count_of (rx_trimmed (rx_run ntop me capture)) f = int (length (trims_of f (rx_packets ntop me capture)))
   \<and> dict_get_set (rx_pending (rx_run ntop me capture)) f = {q. unrecovered f (rx_packets ntop me capture) q}
   \<and> finite (dict_get_set (rx_pending (rx_run ntop me capture)) f)
   \<and> 0 \<le> count_of (rx_recovered (rx_run ntop me capture)) f
   \<and> count_of (rx_recovered (rx_run ntop me capture)) f + int (card (dict_get_set (rx_pending (rx_run ntop me capture)) f))
       \<le> count_of (rx_trimmed (rx_run ntop me capture)) f"
proof (induction rule: rx_run_induct [where P = "\<lambda>s h. count_of (rx_trimmed s) f = int (length (trims_of f h))
    \<and> dict_get_set (rx_pending s) f = {q. unrecovered f h q} \<and> finite (dict_get_set (rx_pending s) f)
    \<and> 0 \<le> count_of (rx_recovered s) f
    \<and> count_of (rx_recovered s) f + int (card (dict_get_set (rx_pending s) f)) \<le> count_of (rx_trimmed s) f"])
  case (2 s h now e)
  obtain nic flow sq plane trimmed where e: "e = (nic, flow, sq, plane, trimmed)" by (cases e)
  define P where "P = dict_get_set (rx_pending s) f"
  have P: "finite P" "P = {q. unrecovered f h q}" using 2 unfolding P_def by blast+
  have card: "card (insert sq P) \<le> card P + 1" using P(1) by (simp add: card_insert_if)
  have rest: "count_of (rx_trimmed s) f = int (length (trims_of f h))" "0 \<le> count_of (rx_recovered s) f"
    "count_of (rx_recovered s) f + int (card P) \<le> count_of (rx_trimmed s) f"
    using 2 unfolding P_def by blast+
  show ?case
  proof (cases "f = flow")
    case False
    then show ?thesis
      using rest P(1) by (cases trimmed) (simp_all add: e capture_snoc P_def [symmetric] P(2) [symmetric])
  next
    case here: True
    show ?thesis
    proof (cases trimmed)
      case True
      have new: "{q. if sq = q then True else unrecovered f h q} = insert sq P" using P(2) by auto
      then show ?thesis using rest card P(1) True
        by (simp only: e capture_snoc rx_apply.simps rx_trim_fields P_def [symmetric] here [symmetric] new if_True
            simp_thms finite_insert) simp
    next
      case False
      have new: "{q. if sq = q then False else unrecovered f h q} = P - {sq}" using P(2) by auto
      have "int (card (P - {sq})) + (if sq \<in> P then 1 else 0) = int (card P)"
      proof (cases "sq \<in> P")
        case True
        then show ?thesis using card.remove [OF P(1) True] by simp
      qed simp
      then show ?thesis using rest P(1) False
        by (simp only: e capture_snoc rx_apply.simps rx_data_fields P_def [symmetric] here [symmetric] new if_False
            simp_thms finite_Diff) simp
    qed
  qed
qed (auto simp: trims_of_def unrecovered_def)

lemma rx_recoveries:
  "dict_get_set (rx_pending (rx_run ntop me capture)) f = {q. unrecovered f (rx_packets ntop me capture) q}
   \<and> count_of (rx_recovered (rx_run ntop me capture)) f = int (recoveries f (rx_packets ntop me capture))"
proof (induction rule: rx_run_induct [where P = "\<lambda>s h. dict_get_set (rx_pending s) f = {q. unrecovered f h q}
    \<and> count_of (rx_recovered s) f = int (recoveries f h)"])
  case (2 s h now e)
  obtain nic flow sq plane trimmed where "e = (nic, flow, sq, plane, trimmed)" by (cases e)
  then show ?case using 2 by (auto simp: capture_snoc recoveries_snoc)
qed (auto simp: unrecovered_def recoveries_def)

text \<open>
  C14. What the receiver reports is the history of the capture, whatever was captured: the per-NIC and
  per-plane counters count the full-size packets for this host, each flow's statistics are those of
  its full-size arrivals in order, its trimmed counter counts its trimmed packets, its recovered
  counter counts exactly the full-size packets of a sequence number whose last packet before them was
  trimmed, the unrecovered set is the sequence numbers whose last packet was trimmed, and recovered
  and unrecovered together never exceed trimmed.
\<close>

theorem receiver_accounts_capture:
  "rx_per_nic (rx_run ntop me capture) = counts_of (map fst (full_copies (rx_packets ntop me capture)))
   \<and> rx_per_plane (rx_run ntop me capture) =
      counts_of (map (\<lambda>(nic, flow, sq, plane, trimmed). plane) (full_copies (rx_packets ntop me capture)))
   \<and> dict_get (rx_tracker (rx_run ntop me capture)) f =
      (let hist = arrivals_of f (rx_packets ntop me capture) in if hist = [] then None else Some (run_flow f hist))
   \<and> count_of (rx_trimmed (rx_run ntop me capture)) f = int (length (trims_of f (rx_packets ntop me capture)))
   \<and> count_of (rx_recovered (rx_run ntop me capture)) f = int (recoveries f (rx_packets ntop me capture))
   \<and> dict_get_set (rx_pending (rx_run ntop me capture)) f = {q. unrecovered f (rx_packets ntop me capture) q}
   \<and> count_of (rx_recovered (rx_run ntop me capture)) f + int (card (dict_get_set (rx_pending (rx_run ntop me capture)) f))
       \<le> count_of (rx_trimmed (rx_run ntop me capture)) f"
  using rx_recoveries [of ntop me capture f] rx_flows [of ntop me capture f] rx_totals [of ntop me capture] rx_trims [of ntop me capture f] by blast

subsection \<open>Host identity\<close>

text \<open>The name a host of either tenant is given leads back to its tenant and number.\<close>

lemma dec_pad2_digits:
  assumes "0 \<le> n" "n < 100"
  shows "length (dec_pad2 n) = 2 \<and> (\<forall>c \<in> set (dec_pad2 n). c \<in> set ''0123456789'')
    \<and> int (foldl (\<lambda>a c. a * 10 + the (hex_value c)) 0 (dec_pad2 n)) = n"
proof -
  have "list_all (\<lambda>n. length (dec_pad2 n) = 2 \<and> (\<forall>c \<in> set (dec_pad2 n). c \<in> set ''0123456789'')
    \<and> int (foldl (\<lambda>a c. a * 10 + the (hex_value c)) 0 (dec_pad2 n)) = n) [0..99]"
    by code_simp
  then have "\<forall>n \<in> set [0..99]. length (dec_pad2 n) = 2 \<and> (\<forall>c \<in> set (dec_pad2 n). c \<in> set ''0123456789'')
    \<and> int (foldl (\<lambda>a c. a * 10 + the (hex_value c)) 0 (dec_pad2 n)) = n" unfolding list_all_iff .
  moreover have "n \<in> set [0..99]" using assms by simp
  ultimately show ?thesis by (rule bspec)
qed

lemma detect_self_id_host_name:
  assumes "0 \<le> n" "n < 100" "t \<in> {''green'', ''yellow''}"
  shows "detect_self_id (host_name t n) = Inr (t, n)"
proof -
  define d where "d = dec_pad2 n"
  have d: "length d = 2" "\<forall>c \<in> set d. c \<in> set ''0123456789''" "int (foldl (\<lambda>a c. a * 10 + the (hex_value c)) 0 d) = n"
    using dec_pad2_digits [OF assms(1,2)] unfolding d_def by blast+
  have t: "take 2 d = d" "drop 2 d = []" using d(1) by simp_all
  have "(if starts_with ''green-host'' (host_name t n) then Some (''green'', drop 10 (host_name t n))
      else if starts_with ''yellow-host'' (host_name t n) then Some (''yellow'', drop 11 (host_name t n)) else None) = Some (t, d)"
    using assms(3) by (auto simp: host_name_def d_def [symmetric] starts_with_def)
  then show ?thesis unfolding detect_self_id_def
    by (simp only: option.case prod.case t simp_thms if_True d if_P [OF d(2)])
qed

end
