(* ===== verification/Reconcile.thy ===== *)
theory Reconcile
  imports SenderProperties Delivery ReceiverRuns
begin

text \<open>
  Sender and receiver together: when the fabric delivers every packet of a run once, in any order, the
  receiver's report agrees with the sender's.
\<close>

subsection \<open>What the sender put on the wire\<close>

text \<open>A wire packet that carries a full-size packet of a callback's sequence number and EV.\<close>

fun carries :: "string \<Rightarrow> string \<Rightarrow> string \<Rightarrow> int \<times> int \<times> int \<Rightarrow> int \<times> string \<times> bytes \<Rightarrow> bool" where
  "carries si di transport (sq, plane, path) (nic_plane, outer, pkt) \<longleftrightarrow> nic_plane = plane
     \<and> (\<exists>su c d pl mrc. pkt = rfc_outer su outer (length pl) @ inner_packet si di SPRAY_PORT (data_port transport) [c, d] pl
          \<and> length pl < 65000 \<and> (if data_port transport = SPRAY_PORT then Some pl else unwrap_bth pl) = Some mrc
          \<and> mrc_payload False sq plane path = Inr mrc)"

definition wire_inv :: "'p sender_env \<Rightarrow> string \<Rightarrow> string \<Rightarrow> string \<Rightarrow> 'p sender_state \<Rightarrow> int \<Rightarrow> bool" where
  "wire_inv E si di transport s sq \<longleftrightarrow> ss_oracle s = None
     \<and> cache_exact (se_scapy E) (se_topo E) (\<lambda>p. se_underlay E ! nat p) (ss_templates s)
     \<and> same_flow (mk_packet_templates si di transport) (ss_templates s)
     \<and> list_all2 (carries si di transport) (ss_calls s) (ss_wire s)
     \<and> distinct (map fst (ss_calls s)) \<and> (\<forall>x \<in> set (ss_calls s). fst x < sq)
     \<and> ss_per_plane s = counts_of (map (\<lambda>(sq, plane, path). plane) (ss_calls s))
     \<and> ss_sent s = int (length (ss_calls s))"

definition scapy_data :: "(layer \<Rightarrow> bytes result) \<Rightarrow> (int \<Rightarrow> int \<Rightarrow> bytes) \<Rightarrow> bool" where
  "scapy_data scapy bth \<longleftrightarrow> (\<forall>su du si di. scapy_udp scapy rfc_outer rfc_inner su du si di)
     \<and> (\<forall>si di. scapy_roce scapy rfc_inner bth si di)"

lemma build_step_carries:
  assumes "build_step E s sq plane path (se_underlay E ! nat plane) outer False = (s', Inr pkt)"
    and "wire_inv E si di transport s sq" "scapy_data (se_scapy E) bth"
  shows "carries si di transport (sq, plane, path) (plane, outer, pkt)"
proof -
  let ?su = "\<lambda>p. se_underlay E ! nat p" and ?tp = "ss_templates s"
  have built: "snd (tp_build (se_scapy E) (se_topo E) ?tp sq plane path (?su plane) outer False) = Inr pkt"
    using assms(1) by (auto simp: build_step_def split: prod.splits)
  have sf: "tp_src_inner ?tp = si" "tp_dst_inner ?tp = di" "tp_transport ?tp = transport"
    using assms(2) by (auto simp: wire_inv_def same_flow_def mk_packet_templates_def)
  have cache: "cache_exact (se_scapy E) (se_topo E) ?su ?tp" using assms(2) by (simp add: wire_inv_def)
  have udp: "scapy_udp (se_scapy E) rfc_outer rfc_inner (?su plane) outer si di"
    and roce: "scapy_roce (se_scapy E) rfc_inner bth si di"
    using assms(3) by (simp_all add: scapy_data_def)
  obtain mrc where m: "mrc_payload False sq plane path = Inr mrc"
    "build_packet_bytes (se_scapy E) (se_topo E) (?su plane) outer si di sq plane path transport False = Inr pkt"
    "transport = ''rdma'' \<Longrightarrow> \<exists>dqpn. dqpn_for_ev (se_topo E) plane path = Inr dqpn"
    by (rule tp_build_cached [where su = ?su and tp = ?tp, unfolded sf, OF udp roce cache built]) (rule that; blast)
  obtain pkt' c d pl where p: "build_packet_bytes (se_scapy E) (se_topo E) (?su plane) outer si di sq plane path transport False = Inr pkt'"
    "pkt' = rfc_outer (?su plane) outer (length pl) @ inner_packet si di SPRAY_PORT (data_port transport) [c, d] pl"
    "length pl < 65000" "(if data_port transport = SPRAY_PORT then Some pl else unwrap_bth pl) = Some mrc"
    by (rule built_packet [OF udp roce m(3,1)])
  have "pkt' = pkt" using m(2) p(1) by (metis sum.inject(2))
  then show ?thesis using p(2-4) m(1) unfolding carries.simps by blast
qed

lemma build_step_templates:
  assumes "build_step E s sq plane path (se_underlay E ! nat plane) outer False = (s', r)" "wire_inv E si di transport s sq"
  shows "wire_inv E si di transport s' sq"
proof -
  let ?tp = "fst (tp_build (se_scapy E) (se_topo E) (ss_templates s) sq plane path (se_underlay E ! nat plane) outer False)"
  have "s' = s\<lparr>ss_templates := ?tp\<rparr>" using assms(1) by (auto simp: build_step_def split: prod.splits)
  moreover have "cache_exact (se_scapy E) (se_topo E) (\<lambda>p. se_underlay E ! nat p) ?tp \<and> same_flow (ss_templates s) ?tp"
    using tp_build_keeps [of "se_scapy E" "se_topo E" "\<lambda>p. se_underlay E ! nat p" "ss_templates s" sq plane path outer False]
      assms(2) by (simp add: wire_inv_def)
  ultimately show ?thesis using assms(2) by (auto simp: wire_inv_def same_flow_def)
qed

lemma wire_inv_mono: "wire_inv E si di transport s sq \<Longrightarrow> sq \<le> sq' \<Longrightarrow> wire_inv E si di transport s sq'"
  by (fastforce simp: wire_inv_def)

lemma wire_inv_policy [simp]: "wire_inv E si di transport (s\<lparr>ss_policy := p\<rparr>) sq \<longleftrightarrow> wire_inv E si di transport s sq"
  by (simp add: wire_inv_def)

lemma resolve_underlay: "resolve E plane ev = Inr (u, d) \<Longrightarrow> u = se_underlay E ! nat plane"
  by (auto simp: resolve_def list_at_def py_simps split: if_splits)

lemma send_new_wire:
  assumes "send_new E s sq = (s', r)" "wire_inv E si di transport s sq" "scapy_data (se_scapy E) bth"
  shows "wire_inv E si di transport s' (sq + 1)"
proof -
  have none: "ss_oracle s = None" using assms(2) by (simp add: wire_inv_def)
  have same: ?thesis if "s' = s\<lparr>ss_policy := p\<rparr> \<or> s' = s" for p
    using that wire_inv_mono [OF assms(2), of "sq + 1"] by auto
  show ?thesis
  proof (cases "pick_any E (ss_policy s) sq")
    case (Inl e)
    then show ?thesis using assms(1) by (intro same) (simp add: send_new_def)
  next
    case (Inr x)
    obtain p plane ev where x: "x = (p, plane, ev)" by (cases x)
    let ?s1 = "s\<lparr>ss_policy := p\<rparr>"
    show ?thesis
    proof (cases "0 \<le> plane \<and> plane < NUM_PLANES (se_topo E)")
      case False
      then show ?thesis using assms(1) Inr by (intro same [of p]) (auto simp: send_new_def x Let_def)
    next
      case range: True
      show ?thesis
      proof (cases "resolve E plane ev")
        case (Inl e)
        then show ?thesis using assms(1) Inr range by (intro same [of p]) (auto simp: send_new_def x Let_def)
      next
        case res: (Inr ud)
        obtain u d where ud: "ud = (u, d)" by (cases ud)
        have u: "u = se_underlay E ! nat plane" using resolve_underlay [of E plane ev u d] res ud by simp
        obtain sb rb where b: "build_step E ?s1 sq plane ev u d False = (sb, rb)"
          by (cases "build_step E ?s1 sq plane ev u d False")
        have inv: "wire_inv E si di transport sb sq"
          using build_step_templates [OF b [unfolded u], of si di transport] assms(2) by simp
        show ?thesis
        proof (cases rb)
          case e: (Inl e)
          then have "s' = sb" using assms(1) Inr range res b none by (auto simp: send_new_def x ud Let_def)
          then show ?thesis using wire_inv_mono [OF inv, of "sq + 1"] by simp
        next
          case pkt: (Inr pkt)
          have car: "carries si di transport (sq, plane, ev) (plane, d, pkt)"
            using build_step_carries [OF b [unfolded u pkt] _ assms(3)] assms(2) by simp
          show ?thesis
          proof (cases "se_fails E (ss_attempts sb)")
            case True
            then have "s' = count_error (sb\<lparr>ss_attempts := ss_attempts sb + 1\<rparr>) OSError"
              using assms(1) Inr range res b none pkt by (auto simp: send_new_def x ud Let_def sendto_def)
            then show ?thesis using wire_inv_mono [OF inv, of "sq + 1"] by (simp add: wire_inv_def count_error_def)
          next
            case False
            let ?s2 = "sb\<lparr>ss_attempts := ss_attempts sb + 1, ss_wire := ss_wire sb @ [(plane, d, pkt)]\<rparr>"
            have "s' = (let s4 = count_sent E ?s2 plane ev in s4\<lparr>ss_sent := ss_sent s4 + 1,
                ss_calls := ss_calls s4 @ [(sq, plane, ev)]\<rparr>)"
              using False assms(1) Inr range res b none pkt by (auto simp: send_new_def x ud Let_def sendto_def)
            then show ?thesis
              using inv car wire_inv_mono [OF inv, of "sq + 1"]
              by (fastforce simp: wire_inv_def count_sent_def Let_def list_all2_appendI)
          qed
        qed
      qed
    qed
  qed
qed

lemma turn_wire:
  assumes "turn E interval deadline i (s, sq, t) = ((s', sq', t'), status)"
    and "wire_inv E si di transport s sq" "scapy_data (se_scapy E) bth"
  shows "\<exists>m. wire_inv E si di transport s' m \<and> (status = Running \<longrightarrow> m = sq')"
proof -
  have none: "ss_oracle s = None" using assms(2) by (simp add: wire_inv_def)
  obtain s3 r3 where n: "send_new E s sq = (s3, r3)" by (cases "send_new E s sq")
  have "s' = s \<and> status \<noteq> Running \<or> s' = s3 \<and> (status = Running \<longrightarrow> sq' = sq + 1)"
    using assms(1) none n by (auto simp: turn_def hear_nacks_def Let_def split: if_splits sum.splits)
  then show ?thesis using send_new_wire [OF n assms(2,3)] assms(2) by blast
qed

lemma send_loop_wire:
  "send_loop E interval deadline ins (s, sq, t) = ((s', sq', t'), status) \<Longrightarrow> wire_inv E si di transport s sq
   \<Longrightarrow> scapy_data (se_scapy E) bth \<Longrightarrow> \<exists>m. wire_inv E si di transport s' m"
proof (induction ins arbitrary: s sq t)
  case (Cons i ins)
  obtain s1 sq1 t1 st1 where t1: "turn E interval deadline i (s, sq, t) = ((s1, sq1, t1), st1)"
    by (metis prod.collapse)
  obtain m where "wire_inv E si di transport s1 m" "st1 = Running \<longrightarrow> m = sq1"
    using turn_wire [OF t1 Cons.prems(2,3)] by blast
  then show ?case using Cons.IH [of s1 sq1 t1] Cons.prems(1,3) by (cases st1) (auto simp: t1)
qed auto

lemma sender_setup_wire:
  assumes "sender_setup g scapy rng fails can_open picker policy f sid_mode transport None = Inr (E, s0)"
    and "inner_addr g (fe_tenant f) (fe_src_id f) = Inr si" "inner_addr g (fe_tenant f) (fe_dst_id f) = Inr di"
  shows "wire_inv E si di transport s0 0 \<and> se_scapy E = scapy"
  by (rule sender_setupE [OF assms(1)])
    (use assms(2,3) in \<open>simp add: wire_inv_def cache_exact_def mk_packet_templates_def same_flow_def counts_of_def\<close>)

subsection \<open>What the receiver hears\<close>

text \<open>
  An item of a capture: which wire packet, when, on which NIC, and the frame around it.
\<close>

type_synonym heard_frame = "nat \<times> pyfloat \<times> string \<times> bytes \<times> bytes list \<times> bool \<times> bytes"

definition frame_of :: "(int \<times> string \<times> bytes) list \<Rightarrow> heard_frame \<Rightarrow> pyfloat \<times> string \<times> bytes" where
  "frame_of wire x = (case x of (i, now, nic, macs, tags, decapped, pad) \<Rightarrow>
     (now, nic, captured macs tags decapped (snd (snd (wire ! i))) pad))"

definition frame_ok :: "heard_frame \<Rightarrow> bool" where
  "frame_ok x \<longleftrightarrow> (case x of (i, now, nic, macs, tags, decapped, pad) \<Rightarrow>
     length macs = 12 \<and> list_all vlan_tag tags)"

definition event_of :: "flow_key \<Rightarrow> (int \<times> int \<times> int) list \<Rightarrow> heard_frame \<Rightarrow> rx_event" where
  "event_of f calls x = (case x of (i, now, nic, macs, tags, decapped, pad) \<Rightarrow>
     (nic, f, fst (calls ! i), fst (snd (calls ! i)), False))"

lemma rx_packets_of_frames:
  assumes "list_all2 (carries si di transport) calls wire"
    and "ntop_ok ntop" "ipv6_hextets di = Some hs"
    and "\<forall>x \<in> set frames. frame_ok x \<and> fst x < length wire"
  shows "rx_packets ntop (canon_inner di) (map (frame_of wire) frames) =
    map (event_of (rx_flow ntop si di transport) calls) frames"
  using assms(4)
proof (induction frames)
  case (Cons x frames)
  obtain i now nic macs tags decapped pad where x: "x = (i, now, nic, macs, tags, decapped, pad)" by (cases x) auto
  obtain sq plane path where c: "calls ! i = (sq, plane, path)" by (cases "calls ! i")
  obtain pl' outer pkt where w: "wire ! i = (pl', outer, pkt)" by (cases "wire ! i")
  have "carries si di transport (calls ! i) (wire ! i)"
    using assms(1) Cons.prems list_all2_nthD2 [OF assms(1)] by (simp add: x)
  then obtain su c' d' pl mrc where p:
    "pkt = rfc_outer su outer (length pl) @ inner_packet si di SPRAY_PORT (data_port transport) [c', d'] pl"
    "length pl < 65000" "(if data_port transport = SPRAY_PORT then Some pl else unwrap_bth pl) = Some mrc"
    "mrc_payload False sq plane path = Inr mrc"
    unfolding c w carries.simps by blast
  have "length macs = 12" "\<forall>t \<in> set tags. vlan_tag t" using Cons.prems by (simp_all add: x frame_ok_def list_all_iff)
  from built_packet_decoded [OF p assms(2,3,3) this, of decapped pad]
  have "rx_decode ntop (canon_inner di) (captured macs tags decapped pkt pad) =
      Some (rx_flow ntop si di transport, sq, plane, path, False)" by simp
  then have "rx_packets ntop (canon_inner di) (map (frame_of wire) (x # frames)) =
      (nic, rx_flow ntop si di transport, sq, plane, False) # rx_packets ntop (canon_inner di) (map (frame_of wire) frames)"
    by (simp add: rx_packets_def frame_of_def x w)
  then show ?case using Cons by (simp add: event_of_def x c)
qed (simp add: rx_packets_def)

lemma run_flow_distinct:
  assumes "distinct (map fst hist)"
  shows "fs_received (run_flow f hist) = int (length hist) \<and> duplicates (run_flow f hist) = 0
    \<and> seq_window (run_flow f hist) \<subseteq> fst ` set hist"
  using assms
proof (induction hist rule: rev_induct)
  case (snoc x hist)
  obtain sq plane where x: "x = (sq, plane)" by (cases x)
  have "sq \<notin> seq_window (run_flow f hist)" using snoc by (auto simp: x)
  then show ?case
    using snoc by (auto simp: x run_flow_snoc fs_observe_def Let_def split: option.split)
qed (simp add: run_flow_def new_flow_stats_def)

lemma mset_map_nth: "mset (map fst frames) = mset [0..<length xs] \<Longrightarrow>
   mset (map (\<lambda>x. h (xs ! fst x)) frames) = mset (map h xs)" for frames :: "(nat \<times> 'a) list"
proof -
  assume a: "mset (map fst frames) = mset [0..<length xs]"
  have "mset (map (\<lambda>x. h (xs ! fst x)) frames) = mset (map (\<lambda>i. h (xs ! i)) (map fst frames))" by (simp add: comp_def)
  also have "\<dots> = image_mset (\<lambda>i. h (xs ! i)) (mset [0..<length xs])" unfolding mset_map a [symmetric] ..
  also have "\<dots> = mset (map h (map ((!) xs) [0..<length xs]))" by (simp only: map_map mset_map comp_def)
  finally show ?thesis by (simp add: map_nth)
qed

lemma counts_of_mset: "mset a = mset b \<Longrightarrow> dict_get (counts_of a) p = dict_get (counts_of b) p"
  using mset_eq_setD [of a b] by (simp add: dict_get_counts)

text \<open>
  C3. On a fabric that delivers, the two reports reconcile. For a run without trimming, of any policy,
  transport and SID mode, with any failing sends: when the destination host captures every packet the
  sockets took exactly once, in any order, on any NIC, encapsulated or not, then its plane counts are
  the sender's, it knows the one flow of the run and no other, and that flow has received exactly
  \<open>sent\<close> packets and no duplicate.
\<close>

theorem lossless_run_reconciles:
  assumes "sender_setup g scapy rng fails can_open picker policy f sid_mode transport None = Inr (E, s0)"
    and "send_loop E interval deadline ins (s0, 0, t) = ((s, n, t'), status)"
    and "inner_addr g (fe_tenant f) (fe_src_id f) = Inr si" and "inner_addr g (fe_tenant f) (fe_dst_id f) = Inr di"
    and "ipv6_hextets di = Some hs" and "scapy_data scapy bth" and "ntop_ok ntop"
    and "mset (map fst frames) = mset [0..<length (ss_wire s)]" and "list_all frame_ok frames"
  shows "count_of (rx_per_plane (rx_run ntop (canon_inner di) (map (frame_of (ss_wire s)) frames))) p =
      count_of (ss_per_plane s) p
    \<and> (case dict_get (rx_tracker (rx_run ntop (canon_inner di) (map (frame_of (ss_wire s)) frames))) k of
         None \<Rightarrow> k = rx_flow ntop si di transport \<longrightarrow> ss_sent s = 0
       | Some st \<Rightarrow> k = rx_flow ntop si di transport \<and> fs_received st = ss_sent s \<and> duplicates st = 0)"
proof -
  obtain m where m: "wire_inv E si di transport s m"
    using send_loop_wire [OF assms(2)] sender_setup_wire [OF assms(1,3,4)] assms(6) by blast
  then have car: "list_all2 (carries si di transport) (ss_calls s) (ss_wire s)" "distinct (map fst (ss_calls s))"
    and per: "ss_per_plane s = counts_of (map (\<lambda>(sq, plane, path). plane) (ss_calls s))"
      "ss_sent s = int (length (ss_calls s))"
    by (simp_all add: wire_inv_def)
  let ?calls = "ss_calls s" and ?f = "rx_flow ntop si di transport"
  let ?cap = "map (frame_of (ss_wire s)) frames"
  have len: "length ?calls = length (ss_wire s)" using car(1) by (rule list_all2_lengthD)
  have ms: "mset (map fst frames) = mset [0..<length ?calls]" using assms(8) len by simp
  have "set (map fst frames) = {0..<length (ss_wire s)}" using mset_eq_setD [OF assms(8)] by simp
  then have "\<forall>x \<in> set frames. frame_ok x \<and> fst x < length (ss_wire s)"
    using assms(9) by (auto simp: list_all_iff set_eq_iff)
  from rx_packets_of_frames [OF car(1) assms(7,5) this]
  have pk: "rx_packets ntop (canon_inner di) ?cap = map (event_of ?f ?calls) frames" .
  have full: "full_copies (map (event_of ?f ?calls) frames) = map (event_of ?f ?calls) frames"
    by (simp add: full_copies_def filter_map comp_def event_of_def split_def)
  have planes: "map (\<lambda>(nic, flow, sq, plane, trimmed). plane) (map (event_of ?f ?calls) frames) =
      map (\<lambda>x. (\<lambda>c. fst (snd c)) (?calls ! fst x)) frames"
    by (simp add: event_of_def split_def)
  have "mset (map (\<lambda>x. (\<lambda>c. fst (snd c)) (?calls ! fst x)) frames) = mset (map (\<lambda>c. fst (snd c)) ?calls)"
    by (rule mset_map_nth [OF ms])
  then have "dict_get (counts_of (map (\<lambda>x. (\<lambda>c. fst (snd c)) (?calls ! fst x)) frames)) p = dict_get (ss_per_plane s) p"
    unfolding per(1) split_def by (rule counts_of_mset)
  then have "dict_get (rx_per_plane (rx_run ntop (canon_inner di) ?cap)) p = dict_get (ss_per_plane s) p"
    using rx_totals [of ntop "canon_inner di" ?cap] unfolding pk full planes by (simp only:)
  moreover have arr: "arrivals_of k (map (event_of ?f ?calls) frames) =
      (if k = ?f then map (\<lambda>x. (\<lambda>c. (fst c, Some (fst (snd c)))) (?calls ! fst x)) frames else [])"
    unfolding arrivals_of_def full by (auto simp: filter_map comp_def event_of_def split_def)
  let ?hist = "map (\<lambda>x. (\<lambda>c. (fst c, Some (fst (snd c)))) (?calls ! fst x)) frames"
  have mh: "mset (map fst ?hist) = mset (map fst ?calls)"
    using mset_map_nth [OF ms, where h = fst] by (simp add: comp_def)
  have "distinct (map fst ?hist)" using car(2) mset_eq_imp_distinct_iff [OF mh] by (rule iffD2 [rotated])
  note rd = run_flow_distinct [OF this, of ?f]
  have lh: "int (length ?hist) = ss_sent s" using mset_eq_length [OF ms] per(2) by simp
  then have "?hist = [] \<longleftrightarrow> ss_sent s = 0" by auto
  ultimately show ?thesis
    using rx_flows [of ntop "canon_inner di" ?cap k] rd lh unfolding pk arr
    by (simp add: count_of_def Let_def)
qed

theorem lossless_run_reconciles_witness:
  "\<exists>E s0. demo_setup ''rdma'' None = Inr (E, s0)
     \<and> (case send_loop E 0 None [demo_turn, demo_turn] (s0, 0, 0) of ((s, n, t), status) \<Rightarrow>
         count_of (rx_per_plane (rx_run demo_ntop (canon_inner ''2001:db8:bbbb:05::2'')
           (map (\<lambda>i. frame_of (ss_wire s) (i, 3, ''eth1'', replicate 12 0, [], True, [])) (rev [0..<length (ss_wire s)])))) 1 =
         count_of (ss_per_plane s) 1)"
proof -
  obtain E s0 where E: "demo_setup ''rdma'' None = Inr (E, s0)" by (rule demo_setup_ok)
  obtain s n t status where l: "send_loop E 0 None [demo_turn, demo_turn] (s0, 0, 0) = ((s, n, t), status)"
    by (metis prod.collapse)
  have addr: "inner_addr demo_topo (fe_tenant (mk_flow_endpoint ''green'' 2 5)) (fe_src_id (mk_flow_endpoint ''green'' 2 5))
      = Inr ''2001:db8:bbbb:02::2''"
    "inner_addr demo_topo (fe_tenant (mk_flow_endpoint ''green'' 2 5)) (fe_dst_id (mk_flow_endpoint ''green'' 2 5))
      = Inr ''2001:db8:bbbb:05::2''" by code_simp+
  have "parse_hextet ''05'' = Some 5" "plain ''05''"
    by (simp_all add: parse_hextet_def hex_int_def hex_value_def plain_def)
  then have hs: "ipv6_hextets ''2001:db8:bbbb:05::2'' = Some [0x2001, 0xdb8, 0xbbbb, 5, 0, 0, 0, 2]"
    using tenant_address_hextets [where h = "''05''" and x = 5 and l = "''2''" and y = 2 and t = "''bbbb''" and v = "0xbbbb"]
      plain_constants parse_constants by simp
  have data: "scapy_data demo_scapy bth_head" by (simp add: scapy_data_def demo_scapy_udp demo_scapy_roce)
  let ?frames = "map (\<lambda>i. (i, 3, ''eth1'', replicate 12 0, [], True, [])) (rev [0..<length (ss_wire s)])"
  have "mset (map fst ?frames) = mset [0..<length (ss_wire s)]" by (simp add: comp_def)
  moreover have "list_all frame_ok ?frames" by (simp add: list_all_iff frame_ok_def)
  ultimately show ?thesis
    using lossless_run_reconciles [OF E [unfolded demo_setup_def] l addr hs data demo_ntop_ok, of ?frames 1] E l
    by (simp add: comp_def)
qed

end
