(* ===== verification/TopologyProperties.thy ===== *)
theory TopologyProperties
  imports Topology TopoProperties
begin

text \<open>
  The topology class against the module functions: the methods that agree, the transit spine that
  agrees for the reference design only, and the interface the spray policies use, stated as the
  locale of spine selectors and interpreted on both.
\<close>

subsection \<open>The class against the module\<close>

text \<open>What it means for the value and the module's globals to describe one fabric.\<close>

definition same_fabric :: "topology \<Rightarrow> topo \<Rightarrow> bool" where
  "same_fabric T g \<longleftrightarrow> planes T = NUM_PLANES g \<and> spines_per_plane T = NUM_SPINES g
     \<and> leaves_per_plane T = NUM_LEAVES g \<and> topology_tenants T = TENANTS g"

lemma mapE_as_str: "mapE as_str vs = Inr ss \<Longrightarrow> map (py_str repr) vs = ss"
proof (induction vs arbitrary: ss)
  case (Cons v vs)
  then show ?case by (cases v) (auto simp: py_simps)
qed simp

lemma as_int_py_int: "as_int v = Inr k \<Longrightarrow> py_int v = Inr k"
  by (cases v) auto

lemma as_list_py_iter: "as_list v = Inr xs \<Longrightarrow> py_iter v = Inr xs"
  by (cases v) auto

lemma from_dict_same_fabric:
  assumes "from_dict repr ord d = Inr T" "topo_of d = Inr g"
  shows "same_fabric T g"
  using assms unfolding from_dict_def topo_of_def Let_def same_fabric_def
  by (auto simp: py_simps dest!: as_int_py_int as_list_py_iter dest: mapE_as_str)

lemma check_sid_mode_eq: "topology_check_sid_mode v = check_sid_mode v"
  by (simp add: topology_check_sid_mode_def check_sid_mode_def SID_MODES_def)

lemma topology_checks:
  assumes "same_fabric T g"
  shows "topology_check_tenant T = topo_check_tenant g" "topology_check_plane T = check_plane g"
    "topology_check_spine T = check_spine g" "topology_check_host T = check_host g"
  using assms
  by (auto simp: same_fabric_def topology_check_tenant_def topo_check_tenant_def topology_check_plane_def
      check_plane_def topology_check_spine_def check_spine_def topology_check_host_def check_host_def)

text \<open>
  The two copies of the hash and of the generator agree: masking the unbounded integers is the
  wrap-around of the words.
\<close>

lemma mask_word: "x AND CLASS_FNV_MASK = uint (word_of_int x :: 64 word)" for x :: int
proof -
  have "CLASS_FNV_MASK = mask 64" by (simp add: CLASS_FNV_MASK_def mask_eq_exp_minus_1)
  then show ?thesis by (simp add: uint_word_of_int_eq take_bit_eq_mask)
qed

lemma fnv1a_step_agrees:
  "((uint h XOR uint b) * CLASS_FNV_PRIME) AND CLASS_FNV_MASK = uint ((h XOR ucast b) * FNV_PRIME)"
  for h :: "64 word" and b :: "8 word"
proof -
  have "uint b < 2 ^ 8" using uint_lt2p [of b] by simp
  then have "uint h XOR uint b = uint (h XOR ucast b)"
    by (simp add: unsigned_xor_eq unsigned_ucast_eq take_bit_int_eq_self)
  moreover have "word_of_int CLASS_FNV_PRIME = FNV_PRIME" by (simp add: FNV_PRIME_def CLASS_FNV_PRIME_def)
  ultimately show ?thesis by (simp add: mask_word flip: wi_hom_mult)
qed

lemma topology_fnv1a_agrees: "topology_fnv1a seed = uint (fnv1a seed)"
proof (induction seed rule: rev_induct)
  case Nil
  show ?case by (simp add: topology_fnv1a_def fnv1a_def CLASS_FNV_OFFSET_def FNV_OFFSET_def)
next
  case (snoc b seed)
  then show ?case
    unfolding topology_fnv1a_def fnv1a_def by (simp add: Let_def fnv1a_step_agrees)
qed

lemma uint_xor_shift: "uint x XOR drop_bit k (uint x) = uint (x XOR drop_bit k x)" for x :: "64 word"
  using uint_lt2p [of x] by (simp add: unsigned_xor_eq unsigned_drop_bit_eq take_bit_int_eq_self)

lemma uint_times_mask: "(uint x * c) AND CLASS_FNV_MASK = uint (x * word_of_int c)" for x :: "64 word"
  by (simp add: mask_word flip: wi_hom_mult)

lemma pick_step_agrees:
  "pick_step nsp (uint b) (pool, picks) step =
     (let j = nat (uint (splitmix (b + of_nat step * SPLITMIX_GAMMA)) mod (nsp - int step))
      in (take j pool @ drop (Suc j) pool, picks @ [pool ! j]))"
proof -
  have "word_of_int CLASS_SPLITMIX_GAMMA = SPLITMIX_GAMMA" by (simp add: CLASS_SPLITMIX_GAMMA_def SPLITMIX_GAMMA_def)
  then have start: "(uint b + int step * CLASS_SPLITMIX_GAMMA) AND CLASS_FNV_MASK = uint (b + of_nat step * SPLITMIX_GAMMA)"
    by (simp add: mask_word flip: wi_hom_mult wi_hom_add)
  have final: "uint x AND CLASS_FNV_MASK = uint x" for x :: "64 word" by (simp add: mask_word)
  show ?thesis
    unfolding pick_step_def splitmix_def Let_def prod.case start uint_xor_shift uint_times_mask final
    by simp
qed

lemma pick_loop_agrees:
  "snd (foldl (pick_step nsp (uint b)) (pool, picks) [k..<k + n]) = picks @ draw_spines b nsp k n pool"
proof (induction n arbitrary: k pool picks)
  case (Suc n)
  have "[k..<k + Suc n] = k # [Suc k..<Suc k + n]" by (simp add: upt_rec)
  then show ?case unfolding draw_spines.simps Let_def by (simp only: foldl_Cons pick_step_agrees Let_def Suc.IH) simp
qed simp

lemma topology_seeded_draw:
  "topology_select_spines_from_seed T sd n =
     draw_spines (fnv1a (utf8 sd)) (spines_per_plane T) 0 (nat n) (map int [0..<nat (spines_per_plane T)])"
  using pick_loop_agrees [where k = 0]
  by (simp add: topology_select_spines_from_seed_def Let_def topology_fnv1a_agrees)

text \<open>
  C32. A topology value built from the same dictionary as the module globals answers like the
  module in each of these methods, with the same value and the same exception, for all arguments
  whatever: the tenant ids and names, the five argument checks, the inner address, the outer
  destination, the leaf gateway, the list of the planes' interfaces, and the two spine subsets,
  whose hash and generator the class computes with its own copy of the code. Two methods only
  mirror a function that checks nothing: where the class's own check passes, \<open>plane_nic\<close> and
  \<open>host_name\<close> give the module's text, and they raise ValueError elsewhere. \<open>spine_for\<close> is
  not among them: only the reference design selects the module's transit spine.
\<close>

theorem topology_agrees_with_module:
  assumes "from_dict repr ord d = Inr T" and "topo_of d = Inr g"
  shows "topology_tenant_id T tenant = tenant_id g tenant
    \<and> topology_tenant_name T i = tenant_name g i
    \<and> topology_check_tenant T tenant = topo_check_tenant g tenant \<and> topology_check_plane T plane = check_plane g plane
    \<and> topology_check_spine T spine = check_spine g spine \<and> topology_check_host T host = check_host g host
    \<and> topology_check_sid_mode mode = check_sid_mode mode
    \<and> topology_inner_addr T tenant host = inner_addr g tenant host
    \<and> topology_usid_outer_dst T tenant plane spine leaf mode = usid_outer_dst g tenant plane spine leaf mode
    \<and> topology_leaf_gateway_addr T tenant plane host = leaf_gateway_addr g tenant plane host
    \<and> topology_select_spines T a b n = select_spines g a b n
    \<and> topology_select_spines_for_addrs T x y n = select_spines_for_addrs g x y n
    \<and> plane_nics T = PLANE_NICS g
    \<and> plane_nic T plane = (if 0 \<le> plane \<and> plane < NUM_PLANES g then Inr (PLANE_NIC plane) else Inl ValueError)
    \<and> topology_host_name T tenant host =
        (if tenant \<in> set (TENANTS g) \<and> 0 \<le> host \<and> host < NUM_LEAVES g then Inr (host_name tenant host) else Inl ValueError)"
proof -
  note same = from_dict_same_fabric [OF assms]
  note checks = topology_checks [OF same] check_sid_mode_eq
  have "tenant_id_map T = TENANT_ID g" "tenant_by_id T = TENANT_BY_ID g"
    using same by (simp_all add: same_fabric_def tenant_id_map_def TENANT_ID_def tenant_by_id_def TENANT_BY_ID_def)
  then have ids: "topology_tenant_id T tenant = tenant_id g tenant" "topology_tenant_name T i = tenant_name g i"
    by (simp_all add: topology_tenant_id_def tenant_id_def topology_tenant_name_def tenant_name_def)
  have inner: "topology_inner_addr T tenant host = inner_addr g tenant host"
    by (simp add: topology_inner_addr_def inner_addr_def checks green_anycast_addr_def yellow_anycast_addr_def)
  have outer: "topology_usid_outer_dst T tenant plane spine leaf mode = usid_outer_dst g tenant plane spine leaf mode"
    unfolding topology_usid_outer_dst_def usid_outer_dst_def checks ..
  have gw: "topology_leaf_gateway_addr T tenant plane host = leaf_gateway_addr g tenant plane host"
    unfolding topology_leaf_gateway_addr_def leaf_gateway_addr_def checks ..
  have subset: "topology_select_spines T a b n = select_spines g a b n"
    "topology_select_spines_for_addrs T x y n = select_spines_for_addrs g x y n"
    using same unfolding same_fabric_def topology_select_spines_def select_spines_def
      topology_select_spines_for_addrs_def select_spines_for_addrs_def
      topology_seeded_draw select_spines_from_seed_def by simp_all
  have nics: "plane_nics T = PLANE_NICS g"
    using same by (simp add: same_fabric_def plane_nics_def PLANE_NICS_def PLANE_NIC_def)
  have nic: "plane_nic T plane = (if 0 \<le> plane \<and> plane < NUM_PLANES g then Inr (PLANE_NIC plane) else Inl ValueError)"
    by (simp add: plane_nic_def checks check_plane_def PLANE_NIC_def)
  have "topology_host_name T tenant host =
      (if tenant \<in> set (TENANTS g) \<and> 0 \<le> host \<and> host < NUM_LEAVES g then Inr (host_name tenant host) else Inl ValueError)"
    by (simp add: topology_host_name_def checks topo_check_tenant_def check_host_def host_name_def)
  with ids checks inner outer gw subset nics nic show ?thesis by simp
qed

definition demo_topology :: topology where
  "demo_topology = \<lparr>topology_name = ''4p-4x8'', planes = 4, spines_per_plane = 4, leaves_per_plane = 8,
     topology_tenants = [''green'', ''yellow''], clab_topology_name = ''sonic-docker-4p-4x8'',
     reference_pairs_items = []\<rparr>"

lemma demo_topology_fallback: "from_dict repr (\<lambda>xs. xs) fallback_topo = Inr demo_topology"
  by (simp add: from_dict_def fallback_topo_def clab_name_of_def ref_items_of_def demo_topology_def Let_def)

theorem topology_agrees_with_module_witness:
  "topology_select_spines_for_addrs demo_topology ''2001:db8:bbbb:00::2'' ''2001:db8:bbbb:05::2'' 3
     = select_spines_for_addrs demo_topo ''2001:db8:bbbb:00::2'' ''2001:db8:bbbb:05::2'' 3
   \<and> topology_usid_outer_dst demo_topology ''green'' 1 2 5 ''loose'' = usid_outer_dst demo_topo ''green'' 1 2 5 ''loose''"
  using topology_agrees_with_module [OF demo_topology_fallback [of "\<lambda>_. []"] demo_topo_fallback]
  by blast

subsection \<open>Transit spines\<close>

lemma find_map_of: "find (\<lambda>(k, v). k = x) xs = map_option (Pair x) (map_of xs x)"
  by (induction xs) auto

lemma reference_tables: "REFERENCE_PAIRS_4P_8X16 = REFERENCE_PAIRS_SPINES"
  by (simp add: REFERENCE_PAIRS_4P_8X16_def REFERENCE_PAIRS_SPINES_def)

text \<open>The table's iteration order does not matter when no pair occurs with two spines.\<close>

lemma find_order_free:
  assumes "distinct (map fst xs)" "distinct (map fst ys)" "set ys = set xs"
  shows "find (\<lambda>(k, v). k = x) ys = find (\<lambda>(k, v). k = x) xs"
proof -
  have "map_of ys = map_of xs" using assms by (metis map_of_inject_set)
  then show ?thesis by (simp add: find_map_of)
qed

text \<open>
  For the reference design the class selects the module's transit spine, in whatever order
  its set is iterated; for every other shape without a table of its own it uses the hash, which is
  a spine of that fabric, where the module still consults the reference table.
\<close>

theorem topology_spine_for_cases:
  assumes "from_dict repr ord d = Inr T" and "topo_of d = Inr g"
    and "jget d ''reference_pairs_spines'' = None" and "\<And>xs. set (ord xs) = set xs \<and> distinct (ord xs)"
    and "0 < NUM_SPINES g"
  shows "if topology_name T = ''4p-8x16'' then topology_spine_for T a b = spine_for g a b
    else \<exists>s. topology_spine_for T a b = Inr s \<and> 0 \<le> s \<and> s < NUM_SPINES g"
proof (cases "topology_name T = ''4p-8x16''")
  case True
  let ?tab = "remdups (map norm_pair REFERENCE_PAIRS_4P_8X16)"
  have items: "reference_pairs_items T = ord ?tab"
    using assms(1,3) True by (auto simp: from_dict_def Let_def ref_items_of_def py_simps)
  have tab: "?tab = REFERENCE_PAIRS_SPINES" by code_simp
  have "distinct (map fst REFERENCE_PAIRS_SPINES)" by code_simp
  moreover have "distinct (map fst (ord ?tab))"
    using assms(4) [of ?tab] calculation unfolding tab
    by (metis distinct_map eq_key_imp_eq_value inj_onI prod.collapse)
  ultimately have f: "find (\<lambda>(k, v). k = x) (ord ?tab) = map_option (Pair x) (dict_get REFERENCE_PAIRS_SPINES x)" for x
    using find_order_free [of REFERENCE_PAIRS_SPINES "ord ?tab"] assms(4) [of ?tab] tab
    by (simp add: find_map_of)
  show ?thesis
    using True from_dict_same_fabric [OF assms(1,2)]
    by (auto simp: topology_spine_for_def spine_for_def items f Let_def same_fabric_def
        split: option.splits prod.splits)
next
  case False
  have "reference_pairs_items T = []"
    using assms(1,3) assms(4) [of "[]"] False by (auto simp: from_dict_def Let_def ref_items_of_def py_simps)
  then show ?thesis
    using False from_dict_same_fabric [OF assms(1,2)] assms(5)
    by (simp add: topology_spine_for_def same_fabric_def split_def Let_def)
qed

theorem topology_spine_for_cases_witness:
  "\<exists>s. topology_spine_for demo_topology 7 0 = Inr s \<and> 0 \<le> s \<and> s < 4"
proof -
  have h: "from_dict (\<lambda>_. []) remdups fallback_topo = Inr demo_topology"
    by (simp add: from_dict_def fallback_topo_def clab_name_of_def ref_items_of_def demo_topology_def Let_def)
  have n: "jget fallback_topo ''reference_pairs_spines'' = None" by (simp add: fallback_topo_def)
  have s: "0 < NUM_SPINES demo_topo" by (simp add: demo_topo_def)
  show ?thesis
    using topology_spine_for_cases [OF h demo_topo_fallback n _ s, of 7 0]
    by (simp add: demo_topology_def demo_topo_def)
qed

subsection \<open>Spine selectors\<close>

text \<open>
  What a spray policy relies on: a request in range gives a sample without replacement, the same
  for both directions of a flow; a request out of range raises ValueError.
\<close>

locale spine_selector =
  fixes sel :: "string \<Rightarrow> string \<Rightarrow> int \<Rightarrow> int list result" and nsp :: int
  assumes sample: "1 \<le> n \<Longrightarrow> n \<le> nsp \<Longrightarrow>
      \<exists>s. sel a b n = Inr s \<and> length s = nat n \<and> distinct s \<and> set s \<subseteq> {0..<nsp}"
    and symmetric: "sel a b n = sel b a n"
    and out_of_range: "\<not> (1 \<le> n \<and> n \<le> nsp) \<Longrightarrow> sel a b n = Inl ValueError"
begin

lemma in_range: "sel a b n = Inr s \<Longrightarrow> 1 \<le> n \<and> n \<le> nsp"
  using out_of_range [of n a b] by auto

lemma subset_facts:
  assumes "sel a b n = Inr s"
  shows "length s = nat n" "s \<noteq> []" "distinct s" "set s \<subseteq> {0..<nsp}"
  using sample [of n a b] in_range [OF assms] assms by auto

lemma full_request: "sel a b nsp = Inr s \<Longrightarrow> set s = {0..<nsp}"
  using subset_facts [of a b nsp s] by (intro card_subset_eq) (auto simp: distinct_card)

end

lemma select_symmetric: "select_spines_for_addrs g a b n = select_spines_for_addrs g b a n"
  using str_le_antisym [of a b] str_le_total [of a b]
  by (cases "str_le a b"; cases "str_le b a") (auto simp: select_spines_for_addrs_def Let_def)

interpretation module_selector: spine_selector "select_spines_for_addrs g" "NUM_SPINES g" for g
proof unfold_locales
  fix n a b
  show "\<exists>s. select_spines_for_addrs g a b n = Inr s \<and> length s = nat n \<and> distinct s
      \<and> set s \<subseteq> {0..<NUM_SPINES g}" if "1 \<le> n" "n \<le> NUM_SPINES g"
    using seeded_spines_sample [OF that] that
    by (auto simp: select_spines_for_addrs_def Let_def split: prod.splits)
  show "select_spines_for_addrs g a b n = Inl ValueError" if "\<not> (1 \<le> n \<and> n \<le> NUM_SPINES g)"
    using that by (auto simp: select_spines_for_addrs_def)
qed (rule select_symmetric)

text \<open>The class computes with its own dimensions what the module computes with its globals.\<close>

definition globals_of :: "topology \<Rightarrow> topo" where
  "globals_of T = \<lparr>NUM_PLANES = planes T, NUM_SPINES = spines_per_plane T, NUM_LEAVES = leaves_per_plane T,
     CLAB_TOPOLOGY_NAME = clab_topology_name T, TENANTS = topology_tenants T\<rparr>"

lemma topology_select_globals:
  "topology_select_spines_for_addrs T = select_spines_for_addrs (globals_of T)"
  by (intro ext) (simp add: topology_select_spines_for_addrs_def select_spines_for_addrs_def
      topology_seeded_draw select_spines_from_seed_def globals_of_def)

interpretation class_selector: spine_selector "topology_select_spines_for_addrs T" "spines_per_plane T" for T
  using module_selector.spine_selector_axioms [of "globals_of T"]
  by (simp add: topology_select_globals) (simp add: globals_of_def)

end
