(* ===== verification/Draw.thy ===== *)
theory Draw
  imports Policy
begin

text \<open>
  The deterministic draw shared by the weighted policies: the cumulative distribution, what its
  floating-point sums can lose, and which index a draw can return.
\<close>

subsection \<open>Accumulated rounding error\<close>

lemma fadd_relative:
  assumes "0 \<le> a" "0 \<le> b"
  shows "(a + b) * (1 - ulp) \<le> fadd a b" and "fadd a b \<le> (a + b) * (1 + ulp)"
  using assms rnd_relative [of "a + b"] by (simp_all add: fadd_def)

lemma fsum_upper:
  assumes "0 \<le> s" "\<forall>x \<in> set xs. 0 \<le> x"
  shows "foldl fadd s xs \<le> (s + sum_list xs) * (1 + ulp) ^ length xs"
  using assms
proof (induction xs arbitrary: s)
  case (Cons x xs)
  let ?p = "(1 + ulp) ^ length xs"
  have p: "0 \<le> ?p" "0 \<le> sum_list xs" using Cons.prems by (simp_all add: sum_list_nonneg)
  have "foldl fadd (fadd s x) xs \<le> (fadd s x + sum_list xs) * ?p"
    using Cons.prems by (intro Cons.IH) (auto simp: fadd_def)
  also have "\<dots> \<le> ((s + x) * (1 + ulp) + sum_list xs) * ?p"
    using fadd_relative(2) [of s x] Cons.prems p by (intro mult_right_mono) auto
  also have "\<dots> \<le> ((s + x + sum_list xs) * (1 + ulp)) * ?p"
    using p by (intro mult_right_mono) (auto simp: algebra_simps)
  finally show ?case by (simp add: algebra_simps)
qed simp

subsection \<open>Running sums\<close>

definition scan_end :: "pyfloat \<Rightarrow> pyfloat \<Rightarrow> pyfloat list \<Rightarrow> pyfloat" where
  "scan_end tot c ws = foldl (\<lambda>a w. fadd a (fdiv w tot)) c ws"

lemma cdf_scan_length [simp]: "length (cdf_scan tot c ws) = length ws"
  by (induction ws arbitrary: c) (auto simp: Let_def)

lemma cdf_scan_nth:
  "i < length ws \<Longrightarrow> cdf_scan tot c ws ! i = scan_end tot c (take (Suc i) ws)"
proof (induction ws arbitrary: c i)
  case (Cons w ws)
  then show ?case by (cases i) (auto simp: Let_def scan_end_def)
qed simp

lemma scan_end_nonneg: "0 \<le> c \<Longrightarrow> 0 < tot \<Longrightarrow> \<forall>w \<in> set ws. 0 \<le> w \<Longrightarrow> 0 \<le> scan_end tot c ws"
  unfolding scan_end_def
proof (induction ws arbitrary: c)
  case (Cons w ws)
  have "0 \<le> fadd c (fdiv w tot)" using Cons.prems by (simp add: fadd_def)
  then show ?case using Cons by simp
qed simp

lemma rnd_scan_end: "ws \<noteq> [] \<Longrightarrow> rnd (scan_end tot c ws) = scan_end tot c ws"
  by (cases ws rule: rev_cases) (simp_all add: scan_end_def)

text \<open>A zero weight leaves the running sum where it was.\<close>

lemma scan_end_zero: "scan_end tot 0 (ws @ [0]) = scan_end tot 0 ws"
proof (cases "ws = []")
  case False
  then show ?thesis using rnd_scan_end [of ws tot 0] by (simp add: scan_end_def fadd_def)
qed (simp add: scan_end_def fadd_def)

lemma scan_end_lower:
  assumes "0 \<le> c" "0 < tot" "\<forall>w \<in> set ws. 0 \<le> w"
  shows "(c + sum_list ws / tot * (1 - ulp)) * (1 - ulp) ^ length ws \<le> scan_end tot c ws"
  using assms
proof (induction ws arbitrary: c)
  case (Cons w ws)
  let ?p = "(1 - ulp) ^ length ws" and ?S = "sum_list ws / tot * (1 - ulp)" and ?x = "w / tot * (1 - ulp)"
  have p: "0 \<le> ?p" "0 \<le> ?S" using Cons.prems by (simp_all add: sum_list_nonneg)
  have x: "?x \<le> fdiv w tot" "0 \<le> fdiv w tot"
    using rnd_relative(1) [of "w / tot"] Cons.prems by (simp_all add: fdiv_def)
  have "(c + ?x + ?S) * (1 - ulp) \<le> (c + ?x) * (1 - ulp) + ?S"
    using p(2) by (simp add: algebra_simps)
  also have "(c + ?x) * (1 - ulp) \<le> (c + fdiv w tot) * (1 - ulp)"
    using x by (intro mult_right_mono) auto
  also have "\<dots> \<le> fadd c (fdiv w tot)" using x(2) Cons.prems by (intro fadd_relative(1)) auto
  finally have "(c + ?x + ?S) * (1 - ulp) * ?p \<le> (fadd c (fdiv w tot) + ?S) * ?p"
    using p(1) by (intro mult_right_mono) auto
  also have "\<dots> \<le> scan_end tot (fadd c (fdiv w tot)) ws"
    using Cons.prems x(2) by (intro Cons.IH) (auto simp: fadd_def)
  finally show ?case by (simp add: scan_end_def algebra_simps add_divide_distrib)
qed (simp add: scan_end_def)

lemma power_bernoulli: "1 - rat_of_nat n * ulp \<le> (1 - ulp) ^ n"
proof (induction n)
  case (Suc n)
  have "1 - rat_of_nat (Suc n) * ulp \<le> (1 - rat_of_nat n * ulp) * (1 - ulp)"
    by (simp add: algebra_simps)
  also have "\<dots> \<le> (1 - ulp) ^ n * (1 - ulp)" using Suc.IH by (intro mult_right_mono) auto
  finally show ?case by (simp add: mult.commute)
qed simp

lemma scan_end_drift:
  assumes "\<forall>w \<in> set ws. 0 \<le> w" "0 < fsum ws"
  shows "1 - rat_of_nat (2 * length ws + 1) * ulp \<le> scan_end (fsum ws) 0 ws"
proof -
  let ?n = "length ws" and ?S = "sum_list ws"
  have up: "fsum ws \<le> ?S * (1 + ulp) ^ ?n"
    using fsum_upper [of 0 ws] assms by (simp add: fsum_def)
  have S: "0 \<le> ?S" using assms by (intro sum_list_nonneg) auto
  have "(1 - ulp) ^ ?n * fsum ws \<le> (1 - ulp) ^ ?n * (?S * (1 + ulp) ^ ?n)"
    using up by (intro mult_left_mono) auto
  also have "\<dots> = ?S * ((1 - ulp) * (1 + ulp)) ^ ?n" by (simp only: power_mult_distrib ac_simps)
  also have "\<dots> \<le> ?S * 1" using S by (intro mult_left_mono power_le_one) auto
  finally have "(1 - ulp) ^ ?n \<le> ?S / fsum ws" using assms(2) by (simp add: pos_le_divide_eq)
  then have "(1 - ulp) ^ ?n * (1 - ulp) * (1 - ulp) ^ ?n \<le> ?S / fsum ws * (1 - ulp) * (1 - ulp) ^ ?n"
    by (intro mult_right_mono) auto
  also have "\<dots> \<le> scan_end (fsum ws) 0 ws"
    using scan_end_lower [of 0 "fsum ws" ws] assms by simp
  finally have "(1 - ulp) ^ (?n + ?n + 1) \<le> scan_end (fsum ws) 0 ws"
    by (simp only: power_add power_one_right ac_simps)
  then show ?thesis using power_bernoulli [of "?n + ?n + 1"] unfolding mult_2 by linarith
qed

subsection \<open>The draw\<close>

lemma weighted_u_nonneg [simp]: "0 \<le> weighted_u seq f"
proof -
  have "0 \<le> rat_of_int (uint x)" for x :: "64 word" by (simp only: of_int_0_le_iff uint_nonnegative)
  then have "0 \<le> rnd (rat_of_int (uint x)) / 2 ^ 64" for x :: "64 word" by (simp only: zero_le_divide_iff rnd_nonneg_iff) simp
  then show ?thesis by (simp only: weighted_u_def Let_def fdiv_def float_of_int_def rnd_nonneg_iff)
qed

lemma first_above_Some:
  "first_above u ts = Some i \<Longrightarrow> i < length ts \<and> u < ts ! i \<and> (\<forall>j < i. ts ! j \<le> u)"
proof (induction ts arbitrary: i)
  case (Cons t ts)
  then show ?case by (auto split: if_splits simp: nth_Cons' not_less)
qed simp

lemma first_above_None: "first_above u ts = None \<Longrightarrow> \<forall>t \<in> set ts. t \<le> u"
  by (induction ts) (auto split: if_splits)

lemma build_cdf_length [simp]: "length (build_cdf ws) = length ws"
  by (simp add: build_cdf_def Let_def)

lemma build_cdf_nth:
  "i < length ws \<Longrightarrow> build_cdf ws ! i =
     (if Suc i = length ws then 1 else scan_end (fsum ws) 0 (take (Suc i) ws))"
  by (auto simp: build_cdf_def Let_def cdf_scan_nth nth_list_update)

lemma weighted_pick_index:
  assumes "\<forall>w \<in> set ws. 0 \<le> w" "0 < fsum ws"
  obtains i where "weighted_pick seq f (build_cdf ws) = int i" "i < length ws"
    and "0 < ws ! i \<or> Suc i = length ws \<and> 1 - rat_of_nat (2 * length ws + 1) * ulp \<le> weighted_u seq f"
proof -
  let ?cdf = "build_cdf ws" and ?u = "weighted_u seq f" and ?tot = "fsum ws"
  have ne: "ws \<noteq> []" using assms(2) by (auto simp: fsum_def)
  have last: "0 < ws ! i \<or> 1 - rat_of_nat (2 * length ws + 1) * ulp \<le> ?u"
    if "Suc i = length ws" "\<forall>j < i. ?cdf ! j \<le> ?u" for i
  proof (cases "0 < ws ! i")
    case False
    then have z: "ws ! i = 0" using assms(1) that(1) by (metis lessI nth_mem order.antisym not_less)
    have ws: "ws = take i ws @ [0]"
      using that(1) z by (metis lessI take_Suc_conv_app_nth take_all_iff order_refl)
    have "scan_end ?tot 0 ws = scan_end ?tot 0 (take i ws)"
      using ws scan_end_zero [of ?tot "take i ws"] by simp
    also have "\<dots> \<le> ?u"
    proof (cases i)
      case (Suc j)
      then show ?thesis using that build_cdf_nth [of j ws] by (metis Suc_lessD lessI less_irrefl)
    qed (simp add: scan_end_def)
    finally show ?thesis using scan_end_drift [OF assms] by simp
  qed simp
  show ?thesis
  proof (cases "first_above ?u ?cdf")
    case None
    obtain i where i: "Suc i = length ws" using ne by (metis Suc_pred length_greater_0_conv)
    have "\<forall>j < i. ?cdf ! j \<le> ?u" using first_above_None [OF None] i by auto
    then show ?thesis using that [of i] last [OF i] None i by (auto simp: weighted_pick_def)
  next
    case (Some i)
    note f = first_above_Some [OF Some]
    have "0 < ws ! i" if "Suc i \<noteq> length ws"
    proof (rule ccontr)
      assume "\<not> 0 < ws ! i"
      then have z: "ws ! i = 0" using assms(1) f by (metis build_cdf_length nth_mem order.antisym not_less)
      have "take (Suc i) ws = take i ws @ [0]" using f z by (simp add: take_Suc_conv_app_nth)
      then have eq: "?cdf ! i = scan_end ?tot 0 (take i ws)"
        using that f by (simp add: build_cdf_nth scan_end_zero)
      show False
      proof (cases i)
        case 0
        then show False using f eq weighted_u_nonneg [of seq f] by (simp add: scan_end_def not_less [symmetric])
      next
        case (Suc j)
        then have "?cdf ! j = ?cdf ! i" using eq f by (simp add: build_cdf_nth)
        then show False using f Suc by (metis lessI not_less)
      qed
    qed
    then show ?thesis using that [of i] last [of i] f Some by (auto simp: weighted_pick_def)
  qed
qed

subsection \<open>The flattened weights\<close>

lemma length_flat_weights [simp]: "length (flat_weights np w s) = nat np * length s"
  by (simp add: flat_weights_def length_concat comp_def sum_list_triv)

lemma concat_rows_nth:
  "i < n * k \<Longrightarrow> (\<And>p. p < n \<Longrightarrow> length (f p) = k) \<Longrightarrow>
   concat (map f [0..<n]) ! i = f (i div k) ! (i mod k)"
proof (induction n)
  case (Suc n)
  have len: "length (concat (map f [0..<n])) = n * k"
  proof -
    have "(\<Sum>x\<leftarrow>[0..<n]. length (f x)) = (\<Sum>x\<leftarrow>[0..<n]. k)"
      using Suc.prems(2) by (intro arg_cong [where f = sum_list] map_cong) auto
    then show ?thesis by (simp add: length_concat comp_def sum_list_triv)
  qed
  show ?case
  proof (cases "i < n * k")
    case True
    then show ?thesis using Suc len by (simp add: nth_append)
  next
    case False
    then have "i = n * k + (i - n * k)" "i - n * k < k" using Suc.prems(1) by auto
    then have "i div k = n" "i mod k = i - n * k"
      by (metis add.commute div_mult_self3 div_less add.left_neutral less_nat_zero_code mult.commute,
          metis add.commute mod_less mod_mult_self1)
    then show ?thesis using False len by (simp add: nth_append)
  qed
qed simp

lemma flat_weights_nth:
  assumes "i < nat np * length s"
  shows "flat_weights np w s ! i = w ! (i div length s) ! nat (s ! (i mod length s))"
proof -
  have "i mod length s < length s" using assms by (cases s) auto
  then show ?thesis
    unfolding flat_weights_def by (subst concat_rows_nth [OF assms]) auto
qed

end
