(* ===== verification/PolicyProperties.thy ===== *)
theory PolicyProperties
  imports Draw TopologyProperties EvWitness
begin

text \<open>
  Properties of the policies that need no file: the cache of spine subsets is transparent, the EV
  spray is a round robin over the whole EV set, and the health-aware policy stays off demoted EVs.
\<close>

subsection \<open>The subset cache\<close>

interpretation pol_selector: spine_selector "pol_select g tp" "pol_spines g tp" for g tp
  using module_selector.spine_selector_axioms [of g] class_selector.spine_selector_axioms [of "the tp"]
  by (cases tp) (simp_all add: pol_select_def [abs_def] pol_spines_def)

definition subsets_ok ::
  "(string \<Rightarrow> string \<Rightarrow> int \<Rightarrow> int list result) \<Rightarrow> int \<Rightarrow> subset_cache \<Rightarrow> bool" where
  "subsets_ok sel n cache \<longleftrightarrow>
     (\<forall>f s. dict_get cache f = Some s \<longrightarrow> sel (src_addr f) (dst_addr f) n = Inr s)"

lemma subsets_ok_Nil [simp]: "subsets_ok sel n []"
  by (simp add: subsets_ok_def)

context spine_selector
begin

lemma cached_subset:
  assumes "subsets_ok sel n cache" "1 \<le> n" "n \<le> nsp"
  obtains s cache' where "sel (src_addr f) (dst_addr f) n = Inr s"
    "spines_for_flow sel n cache f = Inr (cache', s)" "subsets_ok sel n cache'"
    "length s = nat n" "s \<noteq> []" "distinct s" "set s \<subseteq> {0..<nsp}"
proof -
  obtain s where s: "sel (src_addr f) (dst_addr f) n = Inr s" using sample [OF assms(2,3)] by blast
  moreover obtain cache' where "spines_for_flow sel n cache f = Inr (cache', s)" "subsets_ok sel n cache'"
    using assms(1) s by (cases "dict_get cache f") (auto simp: spines_for_flow_def subsets_ok_def)
  ultimately show thesis using that subset_facts [OF s] by blast
qed

end

lemma resolve_paths_Inr:
  "resolve_paths nsp paths = Inr n \<Longrightarrow> 1 \<le> n \<and> n \<le> nsp \<and> (paths = DEFAULT_PATHS \<and> n = nsp \<or> n = paths)"
  by (auto simp: resolve_paths_def Let_def split: if_splits)

subsection \<open>EV spray\<close>

definition es_ok :: "topo \<Rightarrow> ev_spray \<Rightarrow> bool" where
  "es_ok g p \<longleftrightarrow> 1 \<le> es_paths_per_plane p \<and> es_paths_per_plane p \<le> pol_spines g (es_topology p)
     \<and> subsets_ok (pol_select g (es_topology p)) (es_paths_per_plane p) (es_spine_subsets p)"

lemma mk_ev_spray_ok: "mk_ev_spray g paths tp = Inr p \<Longrightarrow> es_ok g p"
  by (auto simp: mk_ev_spray_def es_ok_def py_simps dest: resolve_paths_Inr)

lemma es_pick_known:
  assumes "es_ok g p" "0 < pol_planes g (es_topology p)"
  obtains s p' where "pol_select g (es_topology p) (src_addr f) (dst_addr f) (es_paths_per_plane p) = Inr s"
    "\<And>seq. es_pick_ev g p seq f = Inr (p', seq mod pol_planes g (es_topology p),
        s ! nat (seq div pol_planes g (es_topology p) mod int (length s)))"
    "es_ok g p'" "es_topology p' = es_topology p" "es_paths_per_plane p' = es_paths_per_plane p"
    "length s = nat (es_paths_per_plane p)" "s \<noteq> []" "distinct s" "set s \<subseteq> {0..<pol_spines g (es_topology p)}"
proof -
  let ?np = "pol_planes g (es_topology p)" and ?n = "es_paths_per_plane p"
  obtain s cache' where s: "pol_select g (es_topology p) (src_addr f) (dst_addr f) ?n = Inr s"
    "spines_for_flow (pol_select g (es_topology p)) ?n (es_spine_subsets p) f = Inr (cache', s)"
    "subsets_ok (pol_select g (es_topology p)) ?n cache'"
    "length s = nat ?n" "s \<noteq> []" "distinct s" "set s \<subseteq> {0..<pol_spines g (es_topology p)}"
    using pol_selector.cached_subset [of g "es_topology p" ?n "es_spine_subsets p" f] assms(1)
    unfolding es_ok_def by blast
  have l: "0 < int (length s)" using s(5) by simp
  have "es_pick_ev g p seq f = Inr (p\<lparr>es_spine_subsets := cache'\<rparr>, seq mod ?np,
      s ! nat (seq div ?np mod int (length s)))" for seq
  proof -
    have "seq mod (?np * int (length s)) mod ?np = seq mod ?np" by (simp add: mod_mod_cancel)
    moreover have "seq mod (?np * int (length s)) div ?np = seq div ?np mod int (length s)"
    proof -
      have "seq mod (?np * int (length s)) = ?np * (seq div ?np mod int (length s)) + seq mod ?np"
        by (rule zmod_zmult2_eq) simp
      then show ?thesis using assms(2) by simp
    qed
    ultimately show ?thesis using s l assms(2) by (simp add: es_pick_ev_def Let_def)
  qed
  then show thesis
    using that [of s "p\<lparr>es_spine_subsets := cache'\<rparr>"] s assms(1) by (simp add: es_ok_def)
qed

lemma div_mod_block:
  fixes np k base :: int
  assumes "0 < np" "0 < k" "0 \<le> i" "i < np" "0 \<le> j" "j < k"
  shows "\<exists>!seq. base \<le> seq \<and> seq < base + np * k \<and> seq mod np = i \<and> seq div np mod k = j"
proof -
  let ?m = "np * k" and ?v = "np * j + i"
  have m: "0 < ?m" using assms by simp
  have v: "0 \<le> ?v" "?v < ?m"
  proof -
    have "np * j \<le> np * (k - 1)" using assms by (intro mult_left_mono) auto
    then show "?v < ?m" using assms by (simp add: algebra_simps)
  qed (use assms in simp)
  have iff: "x mod np = i \<and> x div np mod k = j \<longleftrightarrow> x mod ?m = ?v" for x
  proof
    assume "x mod np = i \<and> x div np mod k = j"
    then show "x mod ?m = ?v" using zmod_zmult2_eq [of k x np] assms by simp
  next
    assume eq: "x mod ?m = ?v"
    have "x mod np = ?v mod np" unfolding eq [symmetric] by (simp add: mod_mod_cancel)
    moreover have "x div np mod k = ?v div np"
      using zmod_zmult2_eq [of k x np] assms unfolding eq [symmetric] by simp
    ultimately show "x mod np = i \<and> x div np mod k = j" using assms by simp
  qed
  let ?s = "base + (?v - base) mod ?m"
  have s: "base \<le> ?s \<and> ?s < base + ?m" "?s mod ?m = ?v"
    using m v by (simp_all add: mod_add_right_eq)
  show ?thesis
  proof (rule ex1I [of _ ?s])
    show "base \<le> ?s \<and> ?s < base + ?m \<and> ?s mod np = i \<and> ?s div np mod k = j" using s iff by blast
  next
    fix y assume y: "base \<le> y \<and> y < base + ?m \<and> y mod np = i \<and> y div np mod k = j"
    then have "y mod ?m = ?v" using iff by blast
    then have "(y - base) mod ?m = (?v - base) mod ?m" by (metis mod_diff_left_eq)
    moreover have "(y - base) mod ?m = y - base" using y by (intro mod_pos_pos_trivial) auto
    ultimately show "y = ?s" by linarith
  qed
qed

text \<open>
  C34. The EV spray covers the fabric evenly: in any window of planes * paths_per_plane
  consecutive sequence numbers, every EV of the flow's subset is picked exactly once, whatever the
  policy has cached, and two successive packets never use the same plane when there are two.
\<close>

theorem ev_spray_even:
  assumes "es_ok g p" and "0 < pol_planes g (es_topology p)"
    and "pol_select g (es_topology p) (src_addr f) (dst_addr f) (es_paths_per_plane p) = Inr spset"
    and "0 \<le> plane" "plane < pol_planes g (es_topology p)" "spine \<in> set spset"
  shows "(\<exists>!seq. base \<le> seq \<and> seq < base + pol_planes g (es_topology p) * es_paths_per_plane p
      \<and> (\<exists>p'. es_pick_ev g p seq f = Inr (p', plane, spine) \<and> es_ok g p'))
    \<and> (1 < pol_planes g (es_topology p) \<longrightarrow>
        (\<exists>p1 a p2 b. es_pick g p seq f = Inr (p1, a) \<and> es_pick g p (seq + 1) f = Inr (p2, b) \<and> a \<noteq> b))"
proof -
  let ?np = "pol_planes g (es_topology p)"
  obtain s p' where s: "pol_select g (es_topology p) (src_addr f) (dst_addr f) (es_paths_per_plane p) = Inr s"
    "\<And>seq. es_pick_ev g p seq f = Inr (p', seq mod ?np, s ! nat (seq div ?np mod int (length s)))"
    "es_ok g p'" "length s = nat (es_paths_per_plane p)" "s \<noteq> []" "distinct s"
    using es_pick_known [OF assms(1,2), of f] by metis
  with assms(3) have [simp]: "spset = s" by simp
  obtain j where j: "j < length s" "s ! j = spine" using assms(6) by (auto simp: in_set_conv_nth)
  have len: "int (length s) = es_paths_per_plane p" using s(4) assms(1) by (simp add: es_ok_def)
  have pos: "0 < int (length s)" using s(5) by simp
  have eq: "s ! nat (x mod int (length s)) = spine \<longleftrightarrow> x mod int (length s) = int j" for x
  proof -
    have "nat (x mod int (length s)) < length s" using pos by (simp add: nat_less_iff)
    then have "s ! nat (x mod int (length s)) = spine \<longleftrightarrow> nat (x mod int (length s)) = j"
      using j s(6) nth_eq_iff_index_eq by blast
    then show ?thesis using pos by (auto simp: nat_eq_iff)
  qed
  have "\<exists>!seq. base \<le> seq \<and> seq < base + ?np * int (length s) \<and> seq mod ?np = plane
      \<and> seq div ?np mod int (length s) = int j"
    using assms j pos by (intro div_mod_block) auto
  moreover have "(\<exists>p'. es_pick_ev g p seq f = Inr (p', plane, spine) \<and> es_ok g p') \<longleftrightarrow>
      seq mod ?np = plane \<and> seq div ?np mod int (length s) = int j" for seq
    using s(2,3) eq by auto
  moreover have "seq mod ?np \<noteq> (seq + 1) mod ?np" if "1 < ?np"
  proof
    assume "seq mod ?np = (seq + 1) mod ?np"
    then have "(seq + 1) mod ?np = seq mod ?np" by simp
    then have "?np dvd (seq + 1) - seq" by (simp only: mod_eq_dvd_iff)
    then show False using that by (simp add: zdvd1_eq)
  qed
  ultimately show ?thesis by (simp add: len es_pick_def s(2))
qed

subsection \<open>Weight sources\<close>

text \<open>
  What a health-aware policy relies on: a grid of non-negative floats of the fabric's shape. The
  live EV table and the published snapshot both provide it.
\<close>

definition ev_choice :: "int \<Rightarrow> pyfloat list list \<Rightarrow> int list \<Rightarrow> int \<Rightarrow> flow_key \<Rightarrow> int" where
  "ev_choice np w spines seq f =
     (let flat = flat_weights np w spines
      in if fsum flat \<le> 0 then seq mod (np * int (length spines)) else weighted_pick seq f (build_cdf flat))"

locale weight_source =
  fixes inv :: "'s \<Rightarrow> bool" and P Q :: "'s \<Rightarrow> nat" and grid :: "'s \<Rightarrow> pyfloat list list"
  assumes shape: "inv s \<Longrightarrow> shaped (P s) (Q s) (grid s) \<and> 0 < P s"
    and entries: "inv s \<Longrightarrow> p < P s \<Longrightarrow> q < Q s \<Longrightarrow>
      0 \<le> gget (grid s) p q \<and> rnd (gget (grid s) p q) = gget (grid s) p q"
begin

lemma flat_entry:
  assumes "inv s" "spines \<noteq> []" "set spines \<subseteq> {0..<int (Q s)}" "i < P s * length spines"
  shows "flat_weights (int (P s)) (grid s) spines ! i =
      gget (grid s) (i div length spines) (nat (spines ! (i mod length spines)))"
    and "i div length spines < P s" "i mod length spines < length spines"
    and "nat (spines ! (i mod length spines)) < Q s"
proof -
  show "i div length spines < P s" using assms(2,4) by (simp add: less_mult_imp_div_less)
  show m: "i mod length spines < length spines" using assms(2) by simp
  then have "spines ! (i mod length spines) \<in> {0..<int (Q s)}" using assms(3) nth_mem by blast
  then show "nat (spines ! (i mod length spines)) < Q s" by auto
  show "flat_weights (int (P s)) (grid s) spines ! i =
      gget (grid s) (i div length spines) (nat (spines ! (i mod length spines)))"
    using assms(4) by (simp add: flat_weights_nth gget_def)
qed

lemma flat_good:
  assumes "inv s" "spines \<noteq> []" "set spines \<subseteq> {0..<int (Q s)}"
  shows "\<forall>x \<in> set (flat_weights (int (P s)) (grid s) spines). 0 \<le> x \<and> rnd x = x"
  using flat_entry [OF assms] entries [OF assms(1)] by (auto simp: in_set_conv_nth)

lemma flat_zero_iff:
  assumes "inv s" "spines \<noteq> []" "set spines \<subseteq> {0..<int (Q s)}"
  shows "fsum (flat_weights (int (P s)) (grid s) spines) \<le> 0 \<longleftrightarrow>
    (\<forall>p < P s. \<forall>q \<in> set spines. gget (grid s) p (nat q) = 0)"
proof -
  let ?flat = "flat_weights (int (P s)) (grid s) spines"
  have "set ?flat = {gget (grid s) p (nat q) |p q. p < P s \<and> q \<in> set spines}"
    by (auto simp: flat_weights_def gget_def) blast
  moreover have "fsum ?flat \<le> 0 \<longleftrightarrow> (\<forall>x \<in> set ?flat. \<not> 0 < x)"
    using fsum_pos_iff [of ?flat] flat_good [OF assms] by (auto simp: not_less)
  ultimately show ?thesis using flat_good [OF assms] by (auto simp: not_less) force+
qed

lemma choice_sound:
  assumes "inv s" "spines \<noteq> []" "set spines \<subseteq> {0..<int (Q s)}"
  obtains p sp where "ev_choice (int (P s)) (grid s) spines seq f div int (length spines) = int p"
    "spines ! nat (ev_choice (int (P s)) (grid s) spines seq f mod int (length spines)) = sp"
    "p < P s" "sp \<in> set spines"
    "0 < gget (grid s) p (nat sp)
      \<or> (\<forall>p < P s. \<forall>q \<in> set spines. gget (grid s) p (nat q) = 0)
      \<or> 1 - rat_of_nat (2 * (P s * length spines) + 1) / 2 ^ 53 \<le> weighted_u seq f"
proof -
  let ?flat = "flat_weights (int (P s)) (grid s) spines" and ?k = "length spines"
  let ?c = "ev_choice (int (P s)) (grid s) spines seq f"
  have n: "0 < P s * ?k" using assms shape by simp
  obtain i where i: "?c = int i" "i < P s * ?k"
    "0 < ?flat ! i \<or> fsum ?flat \<le> 0 \<or> 1 - rat_of_nat (2 * (P s * ?k) + 1) / 2 ^ 53 \<le> weighted_u seq f"
  proof (cases "fsum ?flat \<le> 0")
    case True
    have "0 < int (P s) * int ?k" using n by (simp flip: of_nat_mult)
    then have "0 \<le> seq mod (int (P s) * int ?k)" "seq mod (int (P s) * int ?k) < int (P s * ?k)"
      by (simp_all add: flip: of_nat_mult)
    then show thesis using that [of "nat (seq mod (int (P s) * int ?k))"] True
      by (simp add: ev_choice_def nat_less_iff)
  next
    case False
    then obtain i where "weighted_pick seq f (build_cdf ?flat) = int i" "i < length ?flat"
      "0 < ?flat ! i \<or> Suc i = length ?flat \<and> 1 - rat_of_nat (2 * length ?flat + 1) * ulp \<le> weighted_u seq f"
      using weighted_pick_index [of ?flat seq f] flat_good [OF assms] by (metis not_less)
    then show thesis using that [of i] False by (auto simp: ev_choice_def)
  qed
  note e = flat_entry [OF assms i(2)]
  have "?c div int ?k = int (i div ?k)" "nat (?c mod int ?k) = i mod ?k"
    using i(1) by (simp_all add: zdiv_int flip: zmod_int)
  then show thesis
    using that [of "i div ?k" "spines ! (i mod ?k)"] e i(3) flat_zero_iff [OF assms] by auto
qed

end

subsection \<open>The live table\<close>

lemma rnd_weight: "rnd (gget (weights_of_grid P Q g) p q) = gget (weights_of_grid P Q g) p q"
  if "p < P" "q < Q" "0 < usable P Q g"
  using that by (simp add: gget_weights fdiv_def)

interpretation live: weight_source "\<lambda>t. ev_wf t \<and> tn \<in> set (tenants t)" num_planes num_paths
  "\<lambda>t. the (weights_cache t tn)" for tn
proof unfold_locales
  fix t :: ev_table and p q
  assume t: "ev_wf t \<and> tn \<in> set (tenants t)"
  note u = ev_wf_usable [OF conjunct1 [OF t] conjunct2 [OF t]]
  have w: "the (weights_cache t tn) = weights_of_grid (num_planes t) (num_paths t) (grid_at t tn)"
    using t by (auto simp: ev_wf_def)
  then show "shaped (num_planes t) (num_paths t) (the (weights_cache t tn)) \<and> 0 < num_planes t"
    using u by (auto simp: usable_def cells_def intro: gr0I)
  show "0 \<le> gget (the (weights_cache t tn)) p q
      \<and> rnd (gget (the (weights_cache t tn)) p q) = gget (the (weights_cache t tn)) p q"
    if "p < num_planes t" "q < num_paths t"
    using that w u weight_bounds(1) [OF u that] rnd_weight [OF that u] by simp
qed

lemma ev_weights_known:
  assumes "ev_reachable t" "tn \<in> set (tenants t)" "p < num_planes t" "q < num_paths t"
  shows "gget (the (weights_cache t tn)) p q = 0 \<longleftrightarrow> ev_state_of t tn (int p) (int q) = Inr ASSUMED_BAD"
proof -
  have wf: "ev_wf t" by (rule ev_reachable_wf [OF assms(1)])
  have "ev_state_of t tn (int p) (int q) = Inr (rstate (gget (grid_at t tn) p q))"
    using ev_state_of_valid [of t tn p q] wf assms by (simp add: valid_ev_def rec_at_def)
  then show ?thesis
    using weight_bounds(3) [OF ev_wf_usable [OF wf assms(2)] assms(3,4)] wf assms(2) by (auto simp: ev_wf_def)
qed

definition h_ok :: "topo \<Rightarrow> ev_table \<Rightarrow> health_aware_mrc \<Rightarrow> bool" where
  "h_ok g t p \<longleftrightarrow> h_tenant p \<in> set (tenants t)
     \<and> int (num_planes t) = pol_planes g (h_topology p) \<and> int (num_paths t) = pol_spines g (h_topology p)
     \<and> 1 \<le> h_paths_per_plane p \<and> h_paths_per_plane p \<le> pol_spines g (h_topology p)
     \<and> subsets_ok (pol_select g (h_topology p)) (h_paths_per_plane p) (h_spine_subsets p)"

lemma mk_health_aware_ok: "mk_health_aware_mrc g t tn paths tp = Inr p \<Longrightarrow> h_ok g t p"
  by (auto simp: mk_health_aware_mrc_def h_ok_def py_simps split: if_splits dest: resolve_paths_Inr)

lemma h_ok_step: "h_ok g t p \<Longrightarrow> ev_wf t \<Longrightarrow> ev_step t t' \<Longrightarrow> h_ok g t' p"
  using ev_step_keeps [of t t'] by (auto simp: h_ok_def same_config_def)

lemma weights_ev_known: "ev_wf t \<Longrightarrow> tn \<in> set (tenants t) \<Longrightarrow> weights_ev t tn = Inr (the (weights_cache t tn))"
  by (auto simp: weights_ev_def check_tenant_def raise_if_def ev_wf_def ev_shape_def)

lemma h_pick_known:
  assumes "ev_wf t" "h_ok g t p"
  obtains s p' where "pol_select g (h_topology p) (src_addr f) (dst_addr f) (h_paths_per_plane p) = Inr s"
    "length s = nat (h_paths_per_plane p)" "s \<noteq> []" "set s \<subseteq> {0..<int (num_paths t)}" "h_ok g t p'"
    "\<forall>seq. h_pick_ev g t p seq f = (let c = ev_choice (int (num_planes t)) (the (weights_cache t (h_tenant p))) s seq f
       in Inr (p', c div int (length s), s ! nat (c mod int (length s))))"
proof -
  let ?n = "h_paths_per_plane p"
  obtain s cache' where s: "pol_select g (h_topology p) (src_addr f) (dst_addr f) ?n = Inr s"
    "spines_for_flow (pol_select g (h_topology p)) ?n (h_spine_subsets p) f = Inr (cache', s)"
    "subsets_ok (pol_select g (h_topology p)) ?n cache'"
    "length s = nat ?n" "s \<noteq> []" "distinct s" "set s \<subseteq> {0..<pol_spines g (h_topology p)}"
    using pol_selector.cached_subset [of g "h_topology p" ?n "h_spine_subsets p" f] assms(2)
    unfolding h_ok_def by blast
  have tn: "h_tenant p \<in> set (tenants t)" using assms(2) by (simp add: h_ok_def)
  have "0 < num_planes t" using live.shape [of t "h_tenant p"] assms(1) tn by simp
  then have "h_pick_ev g t p seq f =
      (let c = ev_choice (int (num_planes t)) (the (weights_cache t (h_tenant p))) s seq f
       in Inr (p\<lparr>h_spine_subsets := cache'\<rparr>, c div int (length s), s ! nat (c mod int (length s))))" for seq
    using s(2,5) assms weights_ev_known [OF assms(1) tn]
    by (auto simp: h_pick_ev_def ev_choice_def h_ok_def Let_def)
  then show thesis
    using that [of s "p\<lparr>h_spine_subsets := cache'\<rparr>"] s assms(2) by (auto simp: h_ok_def)
qed

text \<open>
  C8. The health-aware policy stays off the EVs the table has demoted: whatever state the table
  is in, a pick is an EV of the flow's subset, and it is not ASSUMED_BAD, unless every EV of the
  subset is, or the packet's draw falls in the last (2n + 1) / 2^53 of the unit interval, for a
  subset of n EVs, which rounding of the cumulative sums can leave to the last EV.
\<close>

theorem health_pick_avoids_bad:
  assumes "ev_reachable t" and "h_ok g t p"
  shows "\<exists>p' plane spine s. h_pick_ev g t p seq f = Inr (p', plane, spine) \<and> h_ok g t p'
    \<and> pol_select g (h_topology p) (src_addr f) (dst_addr f) (h_paths_per_plane p) = Inr s
    \<and> 0 \<le> plane \<and> plane < pol_planes g (h_topology p) \<and> spine \<in> set s
    \<and> (ev_state_of t (h_tenant p) plane spine \<noteq> Inr ASSUMED_BAD
       \<or> (\<forall>q < num_planes t. \<forall>sp \<in> set s. ev_state_of t (h_tenant p) (int q) sp = Inr ASSUMED_BAD)
       \<or> 1 - rat_of_nat (2 * (num_planes t * length s) + 1) / 2 ^ 53 \<le> weighted_u seq f)"
proof -
  let ?w = "the (weights_cache t (h_tenant p))"
  have wf: "ev_wf t" by (rule ev_reachable_wf [OF assms(1)])
  have tn: "h_tenant p \<in> set (tenants t)" using assms(2) by (simp add: h_ok_def)
  obtain s p' where s: "pol_select g (h_topology p) (src_addr f) (dst_addr f) (h_paths_per_plane p) = Inr s"
    "length s = nat (h_paths_per_plane p)" "s \<noteq> []" "set s \<subseteq> {0..<int (num_paths t)}" "h_ok g t p'"
    "\<forall>seq. h_pick_ev g t p seq f = (let c = ev_choice (int (num_planes t)) ?w s seq f
       in Inr (p', c div int (length s), s ! nat (c mod int (length s))))"
    using h_pick_known [OF wf assms(2), of f] by blast
  obtain a sp where c: "ev_choice (int (num_planes t)) ?w s seq f div int (length s) = int a"
    "s ! nat (ev_choice (int (num_planes t)) ?w s seq f mod int (length s)) = sp" "a < num_planes t" "sp \<in> set s"
    "0 < gget ?w a (nat sp) \<or> (\<forall>a < num_planes t. \<forall>q \<in> set s. gget ?w a (nat q) = 0)
      \<or> 1 - rat_of_nat (2 * (num_planes t * length s) + 1) / 2 ^ 53 \<le> weighted_u seq f"
    using live.choice_sound [of t "h_tenant p" s seq f] wf tn s(3,4) by blast
  have zero: "gget ?w a (nat q) = 0 \<longleftrightarrow> ev_state_of t (h_tenant p) (int a) q = Inr ASSUMED_BAD"
    if "a < num_planes t" "q \<in> set s" for a q
    using ev_weights_known [OF assms(1) tn that(1), of "nat q"] that s(4) by (force simp: subset_iff)
  have "h_pick_ev g t p seq f = Inr (p', int a, sp)" using s(6) c(1,2) by (simp add: Let_def)
  moreover have "int a < pol_planes g (h_topology p)" using c(3) assms(2) by (simp add: h_ok_def)
  moreover have "ev_state_of t (h_tenant p) (int a) sp \<noteq> Inr ASSUMED_BAD
       \<or> (\<forall>q < num_planes t. \<forall>sp \<in> set s. ev_state_of t (h_tenant p) (int q) sp = Inr ASSUMED_BAD)
       \<or> 1 - rat_of_nat (2 * (num_planes t * length s) + 1) / 2 ^ 53 \<le> weighted_u seq f"
    using c(5)
  proof (elim disjE)
    assume "0 < gget ?w a (nat sp)"
    then have "gget ?w a (nat sp) \<noteq> 0" by simp
    then show ?thesis using zero [OF c(3,4)] by blast
  next
    assume "\<forall>a < num_planes t. \<forall>q \<in> set s. gget ?w a (nat q) = 0"
    then show ?thesis using zero by blast
  qed blast
  ultimately show ?thesis using s(1,5) c(4) by (intro exI [of _ p'] exI [of _ "int a"] exI [of _ sp] exI [of _ s]) simp
qed

subsection \<open>Witnesses\<close>

definition demo_flow :: flow_key where
  "demo_flow = \<lparr>src_addr = ''2001:db8:bbbb:00::2'', dst_addr = ''2001:db8:bbbb:07::2'',
     src_port = 7, dst_port = 9\<rparr>"

definition demo_spray :: ev_spray where
  "demo_spray = \<lparr>es_paths_per_plane = 4, es_topology = None, es_spine_subsets = []\<rparr>"

theorem ev_spray_even_witness:
  "\<exists>!seq. 32 \<le> seq \<and> seq < 48 \<and> (\<exists>p'. es_pick_ev demo_topo demo_spray seq demo_flow = Inr (p', 3, 2))"
proof -
  have mk: "mk_ev_spray demo_topo DEFAULT_PATHS None = Inr demo_spray"
    by (simp add: mk_ev_spray_def resolve_paths_def pol_spines_def demo_topo_def demo_spray_def)
  have g: "0 < pol_planes demo_topo (es_topology demo_spray)" "3 < pol_planes demo_topo (es_topology demo_spray)"
    "es_paths_per_plane demo_spray = pol_spines demo_topo (es_topology demo_spray)"
    "pol_spines demo_topo (es_topology demo_spray) = 4" "pol_planes demo_topo (es_topology demo_spray) = 4"
    by (simp_all add: pol_planes_def pol_spines_def demo_spray_def demo_topo_def)
  obtain sp where sp: "pol_select demo_topo (es_topology demo_spray) (src_addr demo_flow) (dst_addr demo_flow)
      (es_paths_per_plane demo_spray) = Inr sp"
    using pol_selector.sample [of "es_paths_per_plane demo_spray" demo_topo "es_topology demo_spray"] g by fastforce
  have two: "2 \<in> set sp"
    using pol_selector.full_request [of demo_topo "es_topology demo_spray"] sp g(3,4) by (metis atLeastLessThan_iff zero_le_numeral numeral_less_iff semiring_norm(76) semiring_norm(78))
  have ok: "es_ok demo_topo demo_spray" by (rule mk_ev_spray_ok [OF mk])
  from ev_spray_even [OF ok g(1) sp _ g(2) two, of 32]
  have ex: "\<exists>!seq. 32 \<le> seq \<and> seq < 48 \<and> (\<exists>p'. es_pick_ev demo_topo demo_spray seq demo_flow = Inr (p', 3, 2)
      \<and> es_ok demo_topo p')"
    using g by simp
  have "es_ok demo_topo p'" if "es_pick_ev demo_topo demo_spray seq demo_flow = Inr (p', x)" for seq p' x
    using es_pick_known [OF ok g(1), of demo_flow] that by force
  with ex show ?thesis by metis
qed

definition demo_fabric :: topo where
  "demo_fabric = \<lparr>NUM_PLANES = 2, NUM_SPINES = 1, NUM_LEAVES = 8,
     CLAB_TOPOLOGY_NAME = ''demo'', TENANTS = [''green'']\<rparr>"

definition demo_aware :: health_aware_mrc where
  "demo_aware = \<lparr>h_tenant = ''green'', h_paths_per_plane = 1, h_topology = None,
     h_name = ''health_aware_mrc(green)'', h_spine_subsets = []\<rparr>"

text \<open>A table in which plane 0 is ASSUMED_BAD.\<close>

definition demo_bad :: ev_table where
  "demo_bad = demo_loss demo_good 0"

lemma demo_bad_reachable: "ev_reachable demo_bad"
  unfolding demo_bad_def by (intro demo_steps demo_good_reachable)

lemma demo_bad_facts:
  "ev_state_of demo_bad ''green'' 0 0 = Inr ASSUMED_BAD" "ev_state_of demo_bad ''green'' 1 0 = Inr UNKNOWN"
  "tenants demo_bad = [''green'']" "num_planes demo_bad = 2" "num_paths demo_bad = 1"
  by code_simp+

lemma demo_aware_ok: "h_ok demo_fabric demo_bad demo_aware"
proof -
  have "mk_health_aware_mrc demo_fabric demo_bad ''green'' DEFAULT_PATHS None = Inr demo_aware"
    using demo_bad_facts
    by (simp add: mk_health_aware_mrc_def resolve_paths_def pol_planes_def pol_spines_def
        demo_fabric_def demo_aware_def)
  then show ?thesis by (rule mk_health_aware_ok)
qed

lemma demo_select: "pol_select demo_fabric None a b 1 = Inr [0]"
proof -
  obtain s where "pol_select demo_fabric None a b 1 = Inr s" "length s = 1" "set s \<subseteq> {0..<1}"
    using pol_selector.sample [of 1 demo_fabric None a b] by (auto simp: pol_spines_def demo_fabric_def)
  then show ?thesis by (cases s) auto
qed

theorem health_pick_avoids_bad_witness:
  "\<exists>p'. h_pick_ev demo_fabric demo_bad demo_aware 5 demo_flow = Inr (p', 1, 0)"
proof -
  have u: "\<not> 1 - rat_of_nat (2 * (num_planes demo_bad * length [0 :: int]) + 1) / 2 ^ 53 \<le> weighted_u 5 demo_flow"
    unfolding demo_bad_facts by code_simp
  have sel: "pol_select demo_fabric (h_topology demo_aware) (src_addr demo_flow) (dst_addr demo_flow)
      (h_paths_per_plane demo_aware) = Inr [0]"
    using demo_select by (simp add: demo_aware_def)
  have pl: "pol_planes demo_fabric (h_topology demo_aware) = 2"
    by (simp add: pol_planes_def demo_aware_def demo_fabric_def)
  obtain p' plane spine s where e: "h_pick_ev demo_fabric demo_bad demo_aware 5 demo_flow = Inr (p', plane, spine)"
    "s = [0]" "0 \<le> plane" "plane < 2" "spine \<in> set s"
    "ev_state_of demo_bad ''green'' plane spine \<noteq> Inr ASSUMED_BAD
       \<or> (\<forall>q < num_planes demo_bad. \<forall>sp \<in> set s. ev_state_of demo_bad ''green'' (int q) sp = Inr ASSUMED_BAD)
       \<or> 1 - rat_of_nat (2 * (num_planes demo_bad * length s) + 1) / 2 ^ 53 \<le> weighted_u 5 demo_flow"
    using health_pick_avoids_bad [OF demo_bad_reachable demo_aware_ok, of 5 demo_flow] sel pl
    by (auto simp: demo_aware_def)
  have "\<not> (\<forall>q < num_planes demo_bad. \<forall>sp \<in> set s. ev_state_of demo_bad ''green'' (int q) sp = Inr ASSUMED_BAD)"
    using demo_bad_facts e(2) by (auto intro!: exI [of _ 1])
  then have "ev_state_of demo_bad ''green'' plane 0 \<noteq> Inr ASSUMED_BAD" "spine = 0" using e u by auto
  then have "plane \<noteq> 0" using demo_bad_facts(1) by auto
  then have "plane = 1" using e(3,4) by simp
  with e(1) \<open>spine = 0\<close> show ?thesis by blast
qed

end
