(* ===== verification/Snapshot.thy ===== *)
theory Snapshot
  imports Policy
begin

text \<open>
  The snapshot-backed policy \<open>MrcSnapshot\<close> of \<^verbatim>\<open>srv6_mrc/policy.py\<close>: it reads the weights another
  process publishes as a file. The file system is an input of each refresh: the outcome of
  \<open>os.stat\<close> and the outcome of opening and decoding the file. The identity of a weight grid
  (\<open>id(wgrid)\<close>, the key of the cdf cache) is a number, and a refresh takes the number the new grid
  gets from the allocator. The thread that calls \<open>_refresh_once\<close> on a timer is not modelled: a run
  of the policy is any sequence of refreshes and picks.
\<close>

datatype stat_outcome = StatMissing | StatFailed | StatMtime pyfloat

record mrc_snapshot =
  sn_path :: string
  sn_tenant :: string
  sn_paths_per_plane :: int
  sn_topology :: "topology option"
  sn_refresh_interval_ms :: int
  sn_name :: string
  sn_planes :: int
  sn_spines :: int
  sn_wgrid :: "pyfloat list list"
  sn_wgrid_id :: nat
  sn_last_mtime :: pyfloat
  sn_spine_subsets :: subset_cache
  sn_cdf_cache :: "((nat \<times> int list) \<times> pyfloat list) list"
  refresh_attempts :: int
  refresh_loaded :: int
  refresh_errors :: int
  refresh_missing :: int

definition uniform_wgrid :: "int \<Rightarrow> int \<Rightarrow> pyfloat list list" where
  "uniform_wgrid np ns =
     (let n_total = np * ns; w = (if 0 < n_total then fdiv 1 (float_of_int n_total) else 0)
      in grid_const (nat np) (nat ns) w)"

subsection \<open>Reading a snapshot\<close>

definition unwrap_ev_state :: "json \<Rightarrow> json result" where
  "unwrap_ev_state data =
     bindE (py_get data ''ev_state'' JNull) (\<lambda>e.
       Inr (case e of JObj kv \<Rightarrow> e | _ \<Rightarrow> data))"

text \<open>\<open>tenants[self.tenant]\<close>; the message of the KeyError calls \<open>tenants.keys()\<close>.\<close>

definition snapshot_tenant_evs :: "json \<Rightarrow> string \<Rightarrow> json result" where
  "snapshot_tenant_evs ts tn =
     bindE (py_contains tn ts) (\<lambda>present.
       if \<not> present
       then Inl (case ts of JObj kv \<Rightarrow> KeyError | _ \<Rightarrow> AttributeError)
       else jitem ts tn)"

definition wgrid_from_snapshot :: "mrc_snapshot \<Rightarrow> json \<Rightarrow> pyfloat list list result" where
  "wgrid_from_snapshot s data0 =
     bindE (unwrap_ev_state data0) (\<lambda>data.
     bindE (bindE (jitem data ''num_planes'') py_int) (\<lambda>np.
     bindE (bindE (jitem data ''num_paths'') py_int) (\<lambda>nq.
     bindE (raise_if (np \<noteq> sn_planes s \<or> nq \<noteq> sn_spines s) ValueError) (\<lambda>_.
     bindE (py_get data ''tenants'' (JObj [])) (\<lambda>ts.
     bindE (snapshot_tenant_evs ts (sn_tenant s)) (\<lambda>evl.
     bindE (py_len evl) (\<lambda>len.
     bindE (raise_if (len \<noteq> np * nq) ValueError) (\<lambda>_.
       mapE (\<lambda>plane. mapE (\<lambda>path.
               bindE (py_index evl (plane * nat nq + path)) (\<lambda>rec.
               bindE (jitem rec ''weight'') py_float)) [0..<nat nq]) [0..<nat np]))))))))"

subsection \<open>Refreshing\<close>

text \<open>The exceptions \<open>_refresh_once\<close> catches (an OSError includes FileNotFoundError).\<close>

definition refresh_catches :: "py_error \<Rightarrow> bool" where
  "refresh_catches e \<longleftrightarrow>
     e \<in> {OSError, FileNotFoundError, JSONDecodeError, KeyError, ValueError, TypeError}"

definition refresh_once ::
  "mrc_snapshot \<Rightarrow> stat_outcome \<Rightarrow> json result \<Rightarrow> nat \<Rightarrow> mrc_snapshot \<times> bool result" where
  "refresh_once s st loaded new_id =
     (let s1 = s\<lparr>refresh_attempts := refresh_attempts s + 1\<rparr> in
      case st of
        StatMissing \<Rightarrow> (s1\<lparr>refresh_missing := refresh_missing s1 + 1\<rparr>, Inr False)
      | StatFailed \<Rightarrow> (s1\<lparr>refresh_errors := refresh_errors s1 + 1\<rparr>, Inr False)
      | StatMtime mtime \<Rightarrow>
          if mtime \<le> sn_last_mtime s1 then (s1, Inr False)
          else case bindE loaded (wgrid_from_snapshot s1) of
            Inl e \<Rightarrow>
              if refresh_catches e
              then (s1\<lparr>refresh_errors := refresh_errors s1 + 1\<rparr>, Inr False) else (s1, Inl e)
          | Inr wgrid \<Rightarrow>
              (s1\<lparr>sn_wgrid := wgrid, sn_wgrid_id := new_id, sn_last_mtime := mtime,
                  refresh_loaded := refresh_loaded s1 + 1, sn_cdf_cache := []\<rparr>, Inr True))"

text \<open>The fields before the first refresh, then \<open>__init__\<close> with its initial load.\<close>

definition cold_mrc_snapshot ::
  "topo \<Rightarrow> string \<Rightarrow> string \<Rightarrow> int \<Rightarrow> topology option \<Rightarrow> int \<Rightarrow> nat \<Rightarrow> mrc_snapshot" where
  "cold_mrc_snapshot g path tenant n tp refresh_ms id0 =
     (let np = pol_planes g tp; ns = pol_spines g tp in
      \<lparr>sn_path = path, sn_tenant = tenant, sn_paths_per_plane = n, sn_topology = tp,
       sn_refresh_interval_ms = refresh_ms,
       sn_name = ''mrc_snapshot('' @ tenant @ ''@'' @ path @ '')'',
       sn_planes = np, sn_spines = ns, sn_wgrid = uniform_wgrid np ns, sn_wgrid_id = id0,
       sn_last_mtime = 0, sn_spine_subsets = [], sn_cdf_cache = [],
       refresh_attempts = 0, refresh_loaded = 0, refresh_errors = 0, refresh_missing = 0\<rparr>)"

definition mk_mrc_snapshot ::
  "topo \<Rightarrow> string \<Rightarrow> string \<Rightarrow> int \<Rightarrow> topology option \<Rightarrow> int \<Rightarrow> stat_outcome \<Rightarrow> json result \<Rightarrow> nat \<Rightarrow> nat \<Rightarrow>
   mrc_snapshot result" where
  "mk_mrc_snapshot g path tenant paths tp refresh_ms st loaded id0 id1 =
     bindE (resolve_paths (pol_spines g tp) paths) (\<lambda>n.
     bindE (raise_if (refresh_ms \<le> 0) ValueError) (\<lambda>_.
       case refresh_once (cold_mrc_snapshot g path tenant n tp refresh_ms id0) st loaded id1 of
         (s, Inl e) \<Rightarrow> Inl e | (s, Inr _) \<Rightarrow> Inr s))"

subsection \<open>Picking\<close>

definition sn_pick_ev ::
  "topo \<Rightarrow> mrc_snapshot \<Rightarrow> int \<Rightarrow> flow_key \<Rightarrow> (mrc_snapshot \<times> int \<times> int) result" where
  "sn_pick_ev g s seq f =
     bindE (spines_for_flow (pol_select g (sn_topology s)) (sn_paths_per_plane s) (sn_spine_subsets s) f)
       (\<lambda>(cache, spines).
         let s1 = s\<lparr>sn_spine_subsets := cache\<rparr>; np = sn_planes s1; k = int (length spines);
             wgrid = sn_wgrid s1; cache_key = (sn_wgrid_id s1, spines);
             (s2, cdf) =
               (case dict_get (sn_cdf_cache s1) cache_key of
                  Some c \<Rightarrow> (s1, Some c)
                | None \<Rightarrow>
                    let flat = flat_weights np wgrid spines in
                    if 0 < fsum flat
                    then (s1\<lparr>sn_cdf_cache := dict_put cache_key (build_cdf flat) (sn_cdf_cache s1)\<rparr>,
                          Some (build_cdf flat))
                    else (s1, None))
         in bindE (case cdf of None \<Rightarrow> py_mod seq (np * k) | Some c \<Rightarrow> Inr (weighted_pick seq f c))
              (\<lambda>ev_idx. Inr (s2, ev_idx div k, spines ! nat (ev_idx mod k))))"

definition sn_pick :: "topo \<Rightarrow> mrc_snapshot \<Rightarrow> int \<Rightarrow> flow_key \<Rightarrow> (mrc_snapshot \<times> int) result" where
  "sn_pick g s seq f = bindE (sn_pick_ev g s seq f) (\<lambda>(s', plane, _). Inr (s', plane))"

definition sn_stats :: "mrc_snapshot \<Rightarrow> json" where
  "sn_stats s = JObj
     [(''refresh_attempts'', JInt (refresh_attempts s)), (''refresh_loaded'', JInt (refresh_loaded s)),
      (''refresh_errors'', JInt (refresh_errors s)), (''refresh_missing'', JInt (refresh_missing s)),
      (''last_mtime'', JFloat (sn_last_mtime s))]"

end
