(* ===== verification/SnapshotProperties.thy ===== *)
theory SnapshotProperties
  imports PolicyProperties Snapshot
begin

text \<open>
  The snapshot policy is the live policy at one remove: what the table publishes is read back as
  the weights it holds, the cdf cache never shows, a failed refresh keeps the last good grid, and
  so every pick is the pick the live policy would make on the published table.
\<close>

subsection \<open>Reading back what the table publishes\<close>

definition publishes :: "ev_table \<Rightarrow> json \<Rightarrow> bool" where
  "publishes t data \<longleftrightarrow> data = ev_snapshot t
     \<or> (\<exists>kv. data = JObj kv \<and> dict_get kv ''ev_state'' = Some (ev_snapshot t))"

lemma publishes_unwrap: "publishes t data \<Longrightarrow> unwrap_ev_state data = Inr (ev_snapshot t)"
  by (auto simp: publishes_def unwrap_ev_state_def ev_snapshot_def)

lemma cells_nth: "p < P \<Longrightarrow> q < Q \<Longrightarrow> cells P Q ! (p * Q + q) = (p, q)"
  and cells_nth_less: "p < P \<Longrightarrow> q < Q \<Longrightarrow> p * Q + q < P * Q"
proof -
  assume a: "p < P" "q < Q"
  have "p * Q + q < Suc p * Q" using a(2) by simp
  also have "\<dots> \<le> P * Q" using a(1) by (intro mult_right_mono) auto
  finally show "p * Q + q < P * Q" .
  then show "cells P Q ! (p * Q + q) = (p, q)"
    using a by (simp add: cells_def product_nth)
qed

lemma tenant_weight_at:
  assumes "p < num_planes t" "q < num_paths t"
  shows "bindE (py_index (tenant_evs_json t tn) (p * num_paths t + q)) (\<lambda>r. bindE (jitem r ''weight'') py_float)
    = Inr (gget (the (weights_cache t tn)) p q)"
proof -
  have "p * num_paths t + q < length (cells (num_planes t) (num_paths t))"
    using cells_nth_less [OF assms] by simp
  then show ?thesis
    by (simp add: tenant_evs_json_def Let_def cells_nth assms ev_entry_json_def)
qed

lemma wgrid_reads_table:
  assumes "ev_wf t" "publishes t data"
  shows "wgrid_from_snapshot s data =
    (if sn_planes s \<noteq> int (num_planes t) \<or> sn_spines s \<noteq> int (num_paths t) then Inl ValueError
     else if sn_tenant s \<notin> set (tenants t) then Inl KeyError
     else Inr (the (weights_cache t (sn_tenant s))))"
proof -
  let ?P = "num_planes t" and ?Q = "num_paths t" and ?tn = "sn_tenant s"
  let ?ts = "JObj (foldl (\<lambda>d tn. dict_put tn (tenant_evs_json t tn) d) [] (tenants t))"
  have evl: "snapshot_tenant_evs ?ts ?tn =
      (if ?tn \<in> set (tenants t) then Inr (tenant_evs_json t ?tn) else Inl KeyError)"
    by (simp add: snapshot_tenant_evs_def foldl_dict_put_get)
  have len: "py_len (tenant_evs_json t ?tn) = Inr (int ?P * int ?Q)"
    by (simp add: tenant_evs_json_def Let_def)
  have "mapE (\<lambda>p. mapE (\<lambda>q. bindE (py_index (tenant_evs_json t ?tn) (p * ?Q + q))
      (\<lambda>r. bindE (jitem r ''weight'') py_float)) [0..<?Q]) [0..<?P]
    = Inr (grid_of_fun ?P ?Q (gget (the (weights_cache t ?tn))))"
    unfolding grid_of_fun_def by (intro mapE_Inr) (auto simp: tenant_weight_at)
  moreover have "grid_of_fun ?P ?Q (gget (the (weights_cache t ?tn))) = the (weights_cache t ?tn)"
    if "?tn \<in> set (tenants t)"
    using live.shape [of t ?tn] assms(1) that by (intro shaped_ext [of ?P ?Q]) auto
  ultimately show ?thesis
    using evl len publishes_unwrap [OF assms(2)]
    by (auto simp: wgrid_from_snapshot_def ev_snapshot_def)
qed

subsection \<open>The cdf cache is transparent\<close>

definition cdf_cache_ok :: "mrc_snapshot \<Rightarrow> bool" where
  "cdf_cache_ok s \<longleftrightarrow> (\<forall>i spines c. dict_get (sn_cdf_cache s) (i, spines) = Some c \<longrightarrow>
     i = sn_wgrid_id s \<and> 0 < fsum (flat_weights (sn_planes s) (sn_wgrid s) spines)
     \<and> c = build_cdf (flat_weights (sn_planes s) (sn_wgrid s) spines))"

definition sn_ok :: "topo \<Rightarrow> mrc_snapshot \<Rightarrow> bool" where
  "sn_ok g s \<longleftrightarrow> sn_planes s = pol_planes g (sn_topology s) \<and> sn_spines s = pol_spines g (sn_topology s)
     \<and> 1 \<le> sn_paths_per_plane s \<and> sn_paths_per_plane s \<le> sn_spines s
     \<and> subsets_ok (pol_select g (sn_topology s)) (sn_paths_per_plane s) (sn_spine_subsets s)
     \<and> cdf_cache_ok s"

text \<open>The fields a refresh may change, and those a pick may change.\<close>

definition same_identity :: "mrc_snapshot \<Rightarrow> mrc_snapshot \<Rightarrow> bool" where
  "same_identity s s' \<longleftrightarrow> sn_tenant s' = sn_tenant s \<and> sn_topology s' = sn_topology s
     \<and> sn_paths_per_plane s' = sn_paths_per_plane s \<and> sn_planes s' = sn_planes s \<and> sn_spines s' = sn_spines s"

lemma same_identity_trans: "same_identity a b \<Longrightarrow> same_identity b c \<Longrightarrow> same_identity a c"
  by (simp add: same_identity_def)

lemma refresh_cases:
  assumes "refresh_once s st loaded i = (s', r)"
  obtains (loads) m w where "st = StatMtime m" "sn_last_mtime s < m" "r = Inr True"
      "bindE loaded (wgrid_from_snapshot (s\<lparr>refresh_attempts := refresh_attempts s + 1\<rparr>)) = Inr w"
      "sn_wgrid s' = w" "sn_wgrid_id s' = i" "sn_last_mtime s' = m" "sn_cdf_cache s' = []"
      "sn_spine_subsets s' = sn_spine_subsets s" "same_identity s s'"
      "refresh_attempts s' = refresh_attempts s + 1" "refresh_loaded s' = refresh_loaded s + 1"
      "refresh_errors s' = refresh_errors s" "refresh_missing s' = refresh_missing s"
  | (keeps) "r \<noteq> Inr True" "sn_wgrid s' = sn_wgrid s" "sn_wgrid_id s' = sn_wgrid_id s"
      "sn_last_mtime s' = sn_last_mtime s" "sn_cdf_cache s' = sn_cdf_cache s"
      "sn_spine_subsets s' = sn_spine_subsets s" "same_identity s s'"
      "refresh_attempts s' = refresh_attempts s + 1" "refresh_loaded s' = refresh_loaded s"
      "refresh_errors s' + refresh_missing s' \<le> refresh_errors s + refresh_missing s + 1"
      "\<And>e. r = Inl e \<Longrightarrow> \<not> refresh_catches e"
proof -
  let ?s = "s\<lparr>refresh_attempts := refresh_attempts s + 1\<rparr>"
  show thesis
  proof (cases st)
    case (StatMtime m)
    then show thesis
      using assms that
      by (cases "bindE loaded (wgrid_from_snapshot ?s)")
        (auto simp: refresh_once_def Let_def same_identity_def split: if_splits)
  qed (use assms that in \<open>auto simp: refresh_once_def Let_def same_identity_def\<close>)
qed

lemma refresh_ok:
  assumes "sn_ok g s" "refresh_once s st loaded i = (s', r)"
  shows "sn_ok g s'"
  using assms(2)
proof (cases rule: refresh_cases)
  case loads
  then show ?thesis using assms(1) by (auto simp: sn_ok_def cdf_cache_ok_def same_identity_def)
next
  case keeps
  then show ?thesis using assms(1) by (auto simp: sn_ok_def cdf_cache_ok_def same_identity_def)
qed

lemma sn_pick_known:
  assumes "sn_ok g s" "0 < sn_planes s"
  obtains spines s' where
    "pol_select g (sn_topology s) (src_addr f) (dst_addr f) (sn_paths_per_plane s) = Inr spines"
    "spines \<noteq> []" "set spines \<subseteq> {0..<sn_spines s}" "sn_ok g s'" "same_identity s s'" "sn_wgrid s' = sn_wgrid s"
    "\<forall>seq. sn_pick_ev g s seq f = (let c = ev_choice (sn_planes s) (sn_wgrid s) spines seq f
       in Inr (s', c div int (length spines), spines ! nat (c mod int (length spines))))"
proof -
  let ?n = "sn_paths_per_plane s"
  obtain spines cache' where s: "pol_select g (sn_topology s) (src_addr f) (dst_addr f) ?n = Inr spines"
    "spines_for_flow (pol_select g (sn_topology s)) ?n (sn_spine_subsets s) f = Inr (cache', spines)"
    "subsets_ok (pol_select g (sn_topology s)) ?n cache'"
    "length spines = nat ?n" "spines \<noteq> []" "distinct spines" "set spines \<subseteq> {0..<pol_spines g (sn_topology s)}"
    using pol_selector.cached_subset [of g "sn_topology s" ?n "sn_spine_subsets s" f] assms(1)
    unfolding sn_ok_def by metis
  let ?flat = "flat_weights (sn_planes s) (sn_wgrid s) spines" and ?key = "(sn_wgrid_id s, spines)"
  let ?c = "\<lambda>seq. ev_choice (sn_planes s) (sn_wgrid s) spines seq f" and ?k = "int (length spines)"
  define s' where "s' = (if dict_get (sn_cdf_cache s) ?key = None \<and> 0 < fsum ?flat
    then s\<lparr>sn_spine_subsets := cache', sn_cdf_cache := dict_put ?key (build_cdf ?flat) (sn_cdf_cache s)\<rparr>
    else s\<lparr>sn_spine_subsets := cache'\<rparr>)"
  have cached: "c = build_cdf ?flat \<and> 0 < fsum ?flat" if "dict_get (sn_cdf_cache s) ?key = Some c" for c
    using that assms(1) by (auto simp: sn_ok_def cdf_cache_ok_def)
  have "sn_planes s * ?k \<noteq> 0" using assms(2) s(5) by simp
  then have pick: "sn_pick_ev g s seq f = Inr (s', ?c seq div ?k, spines ! nat (?c seq mod ?k))" for seq
    using s(2) cached
    by (cases "dict_get (sn_cdf_cache s) ?key"; cases "0 < fsum ?flat")
      (auto simp: sn_pick_ev_def s'_def ev_choice_def Let_def not_less)
  have "sn_ok g s'" "same_identity s s'" "sn_wgrid s' = sn_wgrid s"
    using assms(1) s(3) by (auto simp: s'_def sn_ok_def cdf_cache_ok_def same_identity_def)
  then show thesis using that [of spines s'] s(1,5,7) pick assms(1) by (simp add: sn_ok_def Let_def)
qed

subsection \<open>Runs of the policy\<close>

text \<open>What the daemon's file can hold: an error, or a document some reachable table published.\<close>

definition daemon_file :: "json result \<Rightarrow> bool" where
  "daemon_file loaded \<longleftrightarrow> (case loaded of Inl e \<Rightarrow> True | Inr data \<Rightarrow> \<exists>t. ev_reachable t \<and> publishes t data)"

inductive sn_reachable :: "topo \<Rightarrow> mrc_snapshot \<Rightarrow> bool" for g where
  init: "mk_mrc_snapshot g path tn paths tp ms st loaded i j = Inr s \<Longrightarrow> daemon_file loaded \<Longrightarrow>
    0 < pol_planes g tp \<Longrightarrow> sn_reachable g s"
| refresh: "sn_reachable g s \<Longrightarrow> daemon_file loaded \<Longrightarrow> refresh_once s st loaded i = (s', r) \<Longrightarrow>
    sn_reachable g s'"
| pick: "sn_reachable g s \<Longrightarrow> sn_pick_ev g s seq f = Inr (s', ev) \<Longrightarrow> sn_reachable g s'"

definition grid_good :: "mrc_snapshot \<Rightarrow> bool" where
  "grid_good s \<longleftrightarrow> 0 < sn_planes s \<and> shaped (nat (sn_planes s)) (nat (sn_spines s)) (sn_wgrid s)
     \<and> (\<forall>p < nat (sn_planes s). \<forall>q < nat (sn_spines s).
          0 \<le> gget (sn_wgrid s) p q \<and> rnd (gget (sn_wgrid s) p q) = gget (sn_wgrid s) p q)"

lemma uniform_good:
  assumes "0 < np" "0 < ns"
  shows "shaped (nat np) (nat ns) (uniform_wgrid np ns)"
    "p < nat np \<Longrightarrow> q < nat ns \<Longrightarrow> 0 \<le> gget (uniform_wgrid np ns) p q
      \<and> rnd (gget (uniform_wgrid np ns) p q) = gget (uniform_wgrid np ns) p q"
proof -
  have "0 \<le> float_of_int (np * ns)"
    using assms by (simp add: float_of_int_def del: of_int_mult)
  then show "p < nat np \<Longrightarrow> q < nat ns \<Longrightarrow> 0 \<le> gget (uniform_wgrid np ns) p q
      \<and> rnd (gget (uniform_wgrid np ns) p q) = gget (uniform_wgrid np ns) p q"
    by (auto simp: uniform_wgrid_def Let_def fdiv_def)
qed (simp add: uniform_wgrid_def Let_def)

lemma refresh_good:
  assumes "grid_good s" "daemon_file loaded" "refresh_once s st loaded i = (s', r)"
  shows "grid_good s'"
  using assms(3)
proof (cases rule: refresh_cases)
  case (loads m w)
  then obtain data t where d: "loaded = Inr data" "ev_reachable t" "publishes t data"
    using assms(2) by (cases loaded) (auto simp: daemon_file_def)
  let ?s = "s\<lparr>refresh_attempts := refresh_attempts s + 1\<rparr>"
  have wf: "ev_wf t" by (rule ev_reachable_wf [OF d(2)])
  have w: "sn_planes s = int (num_planes t)" "sn_spines s = int (num_paths t)"
    "sn_tenant s \<in> set (tenants t)" "w = the (weights_cache t (sn_tenant s))"
    using loads(4) d(1) wgrid_reads_table [OF wf d(3), of ?s] by (simp_all split: if_splits)
  show ?thesis
    using live.shape [of t "sn_tenant s"] live.entries [of t "sn_tenant s"] wf w loads
    by (simp add: grid_good_def same_identity_def)
next
  case keeps
  then show ?thesis using assms(1) by (simp add: grid_good_def same_identity_def)
qed

lemma sn_reachable_ok: "sn_reachable g s \<Longrightarrow> sn_ok g s \<and> grid_good s"
proof (induction rule: sn_reachable.induct)
  case (init path tn paths tp ms st loaded i j s)
  then obtain n r where n: "resolve_paths (pol_spines g tp) paths = Inr n"
    and eq: "(case refresh_once (cold_mrc_snapshot g path tn n tp ms i) st loaded j of
         (s, Inl e) \<Rightarrow> Inl e | (s, Inr _) \<Rightarrow> Inr s) = Inr s"
    by (cases "resolve_paths (pol_spines g tp) paths") (simp_all add: mk_mrc_snapshot_def split: if_splits)
  obtain r where r: "refresh_once (cold_mrc_snapshot g path tn n tp ms i) st loaded j = (s, r)"
    using eq by (auto split: prod.splits sum.splits)
  let ?s0 = "cold_mrc_snapshot g path tn n tp ms i"
  have p: "1 \<le> n" "n \<le> pol_spines g tp" using resolve_paths_Inr [OF n] by auto
  have "sn_ok g ?s0" using p by (simp add: sn_ok_def cdf_cache_ok_def cold_mrc_snapshot_def Let_def)
  moreover have "grid_good ?s0"
    using p init.hyps(3) uniform_good by (simp add: grid_good_def cold_mrc_snapshot_def Let_def)
  ultimately show ?case using refresh_ok refresh_good r init.hyps(2) by blast
next
  case (refresh s loaded st i s' r)
  then show ?case using refresh_ok refresh_good by blast
next
  case (pick s seq f s' ev)
  then have "0 < sn_planes s" by (simp add: grid_good_def)
  then obtain spines s1 where "sn_ok g s1" "same_identity s s1" "sn_wgrid s1 = sn_wgrid s"
    "\<forall>seq. sn_pick_ev g s seq f = (let c = ev_choice (sn_planes s) (sn_wgrid s) spines seq f
       in Inr (s1, c div int (length spines), spines ! nat (c mod int (length spines))))"
    using sn_pick_known [of g s f] pick.IH by metis
  then show ?case using pick by (auto simp: grid_good_def same_identity_def Let_def)
qed

interpretation published: weight_source "sn_reachable g" "\<lambda>s. nat (sn_planes s)" "\<lambda>s. nat (sn_spines s)" sn_wgrid
  for g
  by unfold_locales (auto dest!: sn_reachable_ok simp: grid_good_def)

fun sn_picks :: "topo \<Rightarrow> mrc_snapshot \<Rightarrow> (int \<times> flow_key) list \<Rightarrow> mrc_snapshot result" where
  "sn_picks g s [] = Inr s"
| "sn_picks g s ((seq, f) # hist) = bindE (sn_pick_ev g s seq f) (\<lambda>(s', _). sn_picks g s' hist)"

lemma sn_picks_keep:
  assumes "sn_ok g s" "0 < sn_planes s"
  shows "\<exists>s'. sn_picks g s hist = Inr s' \<and> sn_ok g s' \<and> same_identity s s' \<and> sn_wgrid s' = sn_wgrid s"
  using assms
proof (induction hist arbitrary: s)
  case Nil
  then show ?case by (simp add: same_identity_def)
next
  case (Cons x hist)
  obtain seq f where x: "x = (seq, f)" by fastforce
  obtain spines s1 where s1: "sn_ok g s1" "same_identity s s1" "sn_wgrid s1 = sn_wgrid s"
    "\<forall>seq. sn_pick_ev g s seq f = (let c = ev_choice (sn_planes s) (sn_wgrid s) spines seq f
       in Inr (s1, c div int (length spines), spines ! nat (c mod int (length spines))))"
    using sn_pick_known [OF Cons.prems, of f] by metis
  moreover have "0 < sn_planes s1" using s1(2) Cons.prems(2) by (simp add: same_identity_def)
  then obtain s' where "sn_picks g s1 hist = Inr s'" "sn_ok g s'" "same_identity s1 s'" "sn_wgrid s' = sn_wgrid s1"
    using Cons.IH [OF s1(1)] by blast
  ultimately show ?case
    using same_identity_trans [of s s1 s'] by (auto simp: x Let_def)
qed

subsection \<open>Properties\<close>

text \<open>
  The snapshot policy is the live policy: once a refresh has read what a reachable table
  published, bare or in the daemon's wrapper, every later pick, after any history of picks with
  their caching, is the pick the live policy would make on that table.
\<close>

theorem snapshot_policy_agrees:
  assumes "ev_reachable t" and "h_ok g t p" and "sn_reachable g s"
    and "sn_tenant s = h_tenant p" and "sn_topology s = h_topology p" and "sn_paths_per_plane s = h_paths_per_plane p"
    and "publishes t data" and "sn_last_mtime s < m"
    and "refresh_once s (StatMtime m) (Inr data) i = (s', r)"
  shows "r = Inr True \<and> (\<forall>hist. \<exists>s2. sn_picks g s' hist = Inr s2 \<and>
    (\<forall>seq f. \<exists>s3 p' ev. sn_pick_ev g s2 seq f = Inr (s3, ev) \<and> h_pick_ev g t p seq f = Inr (p', ev)))"
proof -
  have wf: "ev_wf t" by (rule ev_reachable_wf [OF assms(1)])
  have ok: "sn_ok g s" "0 < sn_planes s" using sn_reachable_ok [OF assms(3)] by (simp_all add: grid_good_def)
  have dims: "sn_planes s = int (num_planes t)" "sn_spines s = int (num_paths t)" "sn_tenant s \<in> set (tenants t)"
    using ok(1) assms(2,4,5) by (simp_all add: sn_ok_def h_ok_def)
  have load: "bindE (Inr data) (wgrid_from_snapshot (s\<lparr>refresh_attempts := refresh_attempts s + 1\<rparr>))
      = Inr (the (weights_cache t (sn_tenant s)))"
    using wgrid_reads_table [OF wf assms(7)] dims by simp
  from assms(9) have new: "r = Inr True" "sn_wgrid s' = the (weights_cache t (sn_tenant s))" "same_identity s s'"
    using load assms(8) by (auto simp: refresh_once_def Let_def same_identity_def)
  have ok': "sn_ok g s'" by (rule refresh_ok [OF ok(1) assms(9)])
  have pos: "0 < sn_planes s'" using ok(2) new(3) by (simp add: same_identity_def)
  have "\<exists>s3 p' ev. sn_pick_ev g s2 seq f = Inr (s3, ev) \<and> h_pick_ev g t p seq f = Inr (p', ev)"
    if s2: "sn_ok g s2" "same_identity s' s2" "sn_wgrid s2 = sn_wgrid s'" for s2 seq f
  proof -
    have id: "same_identity s s2" using new(3) s2(2) same_identity_trans by blast
    have "0 < sn_planes s2" using pos s2(2) by (simp add: same_identity_def)
    then obtain spines s3 where p2: "pol_select g (sn_topology s2) (src_addr f) (dst_addr f) (sn_paths_per_plane s2) = Inr spines"
      "\<forall>seq. sn_pick_ev g s2 seq f = (let c = ev_choice (sn_planes s2) (sn_wgrid s2) spines seq f
         in Inr (s3, c div int (length spines), spines ! nat (c mod int (length spines))))"
      using sn_pick_known [OF s2(1), of f] by metis
    obtain spines' p' where p1: "pol_select g (h_topology p) (src_addr f) (dst_addr f) (h_paths_per_plane p) = Inr spines'"
      "\<forall>seq. h_pick_ev g t p seq f = (let c = ev_choice (int (num_planes t)) (the (weights_cache t (h_tenant p))) spines' seq f
         in Inr (p', c div int (length spines'), spines' ! nat (c mod int (length spines'))))"
      using h_pick_known [OF wf assms(2), of f] by metis
    have "spines' = spines" using p1(1) p2(1) id assms(5,6) by (simp add: same_identity_def)
    then show ?thesis
      using p1(2) p2(2) id dims s2(3) new(2) assms(4) by (simp add: same_identity_def Let_def)
  qed
  then show ?thesis using new(1) sn_picks_keep [OF ok' pos] by metis
qed

text \<open>
  C28. A pick of the snapshot policy is sound at every point of its life, before and after any
  refreshes: it is an EV of the flow's subset, and its weight in the current grid is positive
  unless the whole subset weighs nothing or the draw is in the last (2n + 1) / 2^53.
\<close>

theorem snapshot_pick_sound:
  assumes "sn_reachable g s"
  shows "\<exists>s' plane spine spines. sn_pick_ev g s seq f = Inr (s', plane, spine) \<and> sn_reachable g s'
    \<and> pol_select g (sn_topology s) (src_addr f) (dst_addr f) (sn_paths_per_plane s) = Inr spines
    \<and> 0 \<le> plane \<and> plane < sn_planes s \<and> spine \<in> set spines
    \<and> (0 < gget (sn_wgrid s) (nat plane) (nat spine)
       \<or> (\<forall>p < nat (sn_planes s). \<forall>q \<in> set spines. gget (sn_wgrid s) p (nat q) = 0)
       \<or> 1 - rat_of_nat (2 * (nat (sn_planes s) * length spines) + 1) / 2 ^ 53 \<le> weighted_u seq f)"
proof -
  have ok: "sn_ok g s" "0 < sn_planes s" using sn_reachable_ok [OF assms] by (simp_all add: grid_good_def)
  obtain spines s' where s: "pol_select g (sn_topology s) (src_addr f) (dst_addr f) (sn_paths_per_plane s) = Inr spines"
    "spines \<noteq> []" "set spines \<subseteq> {0..<sn_spines s}"
    "\<forall>seq. sn_pick_ev g s seq f = (let c = ev_choice (sn_planes s) (sn_wgrid s) spines seq f
       in Inr (s', c div int (length spines), spines ! nat (c mod int (length spines))))"
    using sn_pick_known [OF ok, of f] by metis
  have sub: "set spines \<subseteq> {0..<int (nat (sn_spines s))}" using s(3) by auto
  obtain a sp where c: "ev_choice (sn_planes s) (sn_wgrid s) spines seq f div int (length spines) = int a"
    "spines ! nat (ev_choice (sn_planes s) (sn_wgrid s) spines seq f mod int (length spines)) = sp"
    "a < nat (sn_planes s)" "sp \<in> set spines"
    "0 < gget (sn_wgrid s) a (nat sp) \<or> (\<forall>p < nat (sn_planes s). \<forall>q \<in> set spines. gget (sn_wgrid s) p (nat q) = 0)
      \<or> 1 - rat_of_nat (2 * (nat (sn_planes s) * length spines) + 1) / 2 ^ 53 \<le> weighted_u seq f"
    using published.choice_sound [OF assms s(2) sub, of seq f] ok(2) by auto
  have pick: "sn_pick_ev g s seq f = Inr (s', int a, sp)" using s(4) c(1,2) by (simp add: Let_def)
  then have "sn_reachable g s'" by (rule sn_reachable.pick [OF assms])
  then show ?thesis using pick s(1) c(3-5) by (intro exI [of _ s'] exI [of _ "int a"] exI [of _ sp] exI [of _ spines]) auto
qed

text \<open>
  C29. A refresh that does not load keeps the last good weights: missing file, failed stat,
  unchanged mtime, unreadable or malformed content all leave the grid, its cache and its mtime
  as they were, and every attempt is counted. It raises only what the code does not catch, and
  does so for any document that is not an object.
\<close>

theorem refresh_keeps_grid:
  assumes "refresh_once s st loaded i = (s', r)"
  shows "refresh_attempts s' = refresh_attempts s + 1
    \<and> (r \<noteq> Inr True \<longrightarrow> sn_wgrid s' = sn_wgrid s \<and> sn_cdf_cache s' = sn_cdf_cache s
         \<and> sn_last_mtime s' = sn_last_mtime s \<and> refresh_loaded s' = refresh_loaded s)
    \<and> (\<forall>e. r = Inl e \<longrightarrow> \<not> refresh_catches e)
    \<and> (\<forall>m data. st = StatMtime m \<and> sn_last_mtime s < m \<and> loaded = Inr data \<and> (\<forall>kv. data \<noteq> JObj kv)
         \<longrightarrow> r = Inl AttributeError)"
proof (intro conjI)
  show "\<forall>m data. st = StatMtime m \<and> sn_last_mtime s < m \<and> loaded = Inr data \<and> (\<forall>kv. data \<noteq> JObj kv)
      \<longrightarrow> r = Inl AttributeError"
  proof (intro allI impI)
    fix m data
    assume h: "st = StatMtime m \<and> sn_last_mtime s < m \<and> loaded = Inr data \<and> (\<forall>kv. data \<noteq> JObj kv)"
    then have "unwrap_ev_state data = Inl AttributeError" by (cases data) (auto simp: unwrap_ev_state_def)
    then show "r = Inl AttributeError"
      using assms h by (auto simp: refresh_once_def Let_def wgrid_from_snapshot_def refresh_catches_def)
  qed
qed (use assms in \<open>auto elim!: refresh_cases\<close>)

subsection \<open>Witnesses\<close>

definition demo_snap :: mrc_snapshot where
  "demo_snap = fst (refresh_once (cold_mrc_snapshot demo_fabric ''snap.json'' ''green'' 1 None 200 0) StatMissing (Inl OSError) 1)"

lemma demo_snap_new:
  "mk_mrc_snapshot demo_fabric ''snap.json'' ''green'' DEFAULT_PATHS None 200 StatMissing (Inl OSError) 0 1 = Inr demo_snap"
  by (simp add: mk_mrc_snapshot_def resolve_paths_def pol_spines_def demo_fabric_def demo_snap_def
      refresh_once_def Let_def)

lemma demo_snap_reachable: "sn_reachable demo_fabric demo_snap"
  by (rule sn_reachable.init [OF demo_snap_new])
    (simp_all add: daemon_file_def pol_planes_def demo_fabric_def)

lemma demo_snap_fields: "sn_tenant demo_snap = ''green''" "sn_topology demo_snap = None"
  "sn_paths_per_plane demo_snap = 1" "sn_last_mtime demo_snap = 0" "sn_planes demo_snap = 2"
  by (simp_all add: demo_snap_def cold_mrc_snapshot_def refresh_once_def Let_def pol_planes_def demo_fabric_def)

theorem snapshot_policy_agrees_witness:
  "\<exists>s'. refresh_once demo_snap (StatMtime 7) (Inr (JObj [(''ev_state'', ev_snapshot demo_bad)])) 2 = (s', Inr True)
    \<and> (\<exists>s3 p' ev. sn_pick_ev demo_fabric s' 5 demo_flow = Inr (s3, ev)
        \<and> h_pick_ev demo_fabric demo_bad demo_aware 5 demo_flow = Inr (p', ev))"
proof -
  let ?data = "JObj [(''ev_state'', ev_snapshot demo_bad)]"
  obtain s' r where r: "refresh_once demo_snap (StatMtime 7) (Inr ?data) 2 = (s', r)" by fastforce
  have h: "sn_tenant demo_snap = h_tenant demo_aware" "sn_topology demo_snap = h_topology demo_aware"
    "sn_paths_per_plane demo_snap = h_paths_per_plane demo_aware" "publishes demo_bad ?data" "sn_last_mtime demo_snap < 7"
    by (simp_all add: demo_snap_fields demo_aware_def publishes_def)
  note agree = snapshot_policy_agrees [OF demo_bad_reachable demo_aware_ok demo_snap_reachable h r]
  then obtain s2 where s2: "sn_picks demo_fabric s' [] = Inr s2"
    "\<forall>seq f. \<exists>s3 p' ev. sn_pick_ev demo_fabric s2 seq f = Inr (s3, ev) \<and> h_pick_ev demo_fabric demo_bad demo_aware seq f = Inr (p', ev)"
    by blast
  then show ?thesis using agree r by (intro exI [of _ s']) auto
qed

theorem snapshot_pick_sound_witness:
  "\<exists>s' plane. sn_pick_ev demo_fabric demo_snap 5 demo_flow = Inr (s', plane, 0) \<and> 0 \<le> plane \<and> plane < 2"
  using snapshot_pick_sound [OF demo_snap_reachable, of 5 demo_flow]
  by (auto simp: demo_snap_fields demo_select)

theorem refresh_keeps_grid_witness:
  "snd (refresh_once demo_snap (StatMtime 7) (Inr (JList [])) 2) = Inl AttributeError"
proof -
  obtain s' r where r: "refresh_once demo_snap (StatMtime 7) (Inr (JList [])) 2 = (s', r)" by fastforce
  from refresh_keeps_grid [OF r] have "r = Inl AttributeError" by (simp add: demo_snap_fields)
  with r show ?thesis by simp
qed

end
