(* ===== verification/SentCounters.thy ===== *)
theory SentCounters
  imports PyConv
begin

text \<open>
  The cross-process sent counters of \<^verbatim>\<open>srv6_mrc/mrc/sent_counters.py\<close>. The data sender counts
  packets per EV and publishes the cumulative grid in a file; the daemon reads the file and takes
  the difference to its previous read. The file is its decoded content, or the exception that
  opening and decoding it raises; \<open>os.replace\<close> makes a publication atomic. The publisher thread is
  a sequence of publications.
\<close>

type_synonym count_grid = "int list list"
type_synonym json_file = "json result"

definition DEFAULT_PUBLISH_INTERVAL_MS :: int where "DEFAULT_PUBLISH_INTERVAL_MS = 50"

subsection \<open>The writer\<close>

record sent_counter_writer =
  wr_planes :: int
  wr_paths :: int
  wr_interval_ms :: int
  wr_sent :: count_grid
  publish_errors :: int

definition mk_sent_counter_writer :: "int \<Rightarrow> int \<Rightarrow> int \<Rightarrow> sent_counter_writer result" where
  "mk_sent_counter_writer planes paths interval_ms =
     bindE (raise_if (interval_ms \<le> 0) ValueError) (\<lambda>_.
       Inr \<lparr>wr_planes = planes, wr_paths = paths, wr_interval_ms = interval_ms,
            wr_sent = grid_const (nat planes) (nat paths) 0, publish_errors = 0\<rparr>)"

definition wr_record :: "sent_counter_writer \<Rightarrow> int \<Rightarrow> int \<Rightarrow> sent_counter_writer" where
  "wr_record w plane path =
     (if 0 \<le> plane \<and> plane < wr_planes w \<and> 0 \<le> path \<and> path < wr_paths w
      then w\<lparr>wr_sent := gset (wr_sent w) (nat plane) (nat path) (gget (wr_sent w) (nat plane) (nat path) + 1)\<rparr>
      else w)"

definition sent_payload :: "int \<Rightarrow> count_grid \<Rightarrow> json" where
  "sent_payload now_ns grid =
     JObj [(''written_ns'', JInt now_ns), (''sent'', JList (map (\<lambda>row. JList (map JInt row)) grid))]"

text \<open>\<open>publish\<close>: \<open>failed\<close> is an OSError anywhere in the writing, which leaves the file as it was.\<close>

definition wr_publish ::
  "sent_counter_writer \<Rightarrow> int \<Rightarrow> bool \<Rightarrow> json_file \<Rightarrow> sent_counter_writer \<times> json_file" where
  "wr_publish w now_ns failed file =
     (if failed then (w\<lparr>publish_errors := publish_errors w + 1\<rparr>, file)
      else (w, Inr (sent_payload now_ns (wr_sent w))))"

subsection \<open>The reader\<close>

record sent_counter_reader =
  rd_planes :: int
  rd_paths :: int
  rd_last :: "count_grid option"
  read_errors :: int

definition mk_sent_counter_reader :: "int \<Rightarrow> int \<Rightarrow> sent_counter_reader" where
  "mk_sent_counter_reader planes paths =
     \<lparr>rd_planes = planes, rd_paths = paths, rd_last = None, read_errors = 0\<rparr>"

definition row_ok :: "int \<Rightarrow> json \<Rightarrow> bool" where
  "row_ok paths row = (case row of JList cs \<Rightarrow> int (length cs) = paths | _ \<Rightarrow> False)"

definition int_row :: "json \<Rightarrow> int list result" where
  "int_row row = bindE (py_iter row) (mapE py_int)"

text \<open>
  \<open>_read\<close>: a missing file is silent, other failures of reading and a wrong shape are counted; a
  cell that \<open>int\<close> rejects raises out of the method.
\<close>

definition rd_read :: "sent_counter_reader \<Rightarrow> json_file \<Rightarrow> sent_counter_reader \<times> count_grid option result" where
  "rd_read r file =
     (let bad = (r\<lparr>read_errors := read_errors r + 1\<rparr>, Inr None) in
      case file of
        Inl e \<Rightarrow> if e = FileNotFoundError then (r, Inr None)
                 else if e \<in> {OSError, ValueError, JSONDecodeError} then bad else (r, Inl e)
      | Inr payload \<Rightarrow>
          (case jget payload ''sent'' of
             Some (JList rows) \<Rightarrow>
               if int (length rows) \<noteq> rd_planes r \<or> list_ex (\<lambda>row. \<not> row_ok (rd_paths r) row) rows then bad
               else (r, bindE (mapE int_row rows) (\<lambda>grid. Inr (Some grid)))
           | _ \<Rightarrow> bad))"

definition grid_delta :: "count_grid \<Rightarrow> count_grid \<Rightarrow> count_grid" where
  "grid_delta current prev =
     map2 (\<lambda>cur_row prev_row. map2 (\<lambda>c l. if l \<le> c then c - l else c) cur_row prev_row) current prev"

definition read_delta :: "sent_counter_reader \<Rightarrow> json_file \<Rightarrow> sent_counter_reader \<times> count_grid option result" where
  "read_delta r file =
     (case rd_read r file of
        (r1, Inl e) \<Rightarrow> (r1, Inl e)
      | (r1, Inr None) \<Rightarrow> (r1, Inr None)
      | (r1, Inr (Some current)) \<Rightarrow>
          (r1\<lparr>rd_last := Some current\<rparr>,
           Inr (Some (case rd_last r1 of None \<Rightarrow> current | Some prev \<Rightarrow> grid_delta current prev))))"

subsection \<open>The two processes\<close>

text \<open>
  One life of the sender, interleaved in any way with the daemon's reads. \<open>taken\<close> is the ghost sum,
  per EV, of every delta the daemon has been given.
\<close>

record counter_world =
  cw_writer :: sent_counter_writer
  cw_file :: json_file
  cw_reader :: sent_counter_reader
  cw_taken :: "nat \<Rightarrow> nat \<Rightarrow> int"

definition take_delta :: "count_grid option result \<Rightarrow> (nat \<Rightarrow> nat \<Rightarrow> int) \<Rightarrow> nat \<Rightarrow> nat \<Rightarrow> int" where
  "take_delta d acc p q = acc p q + (case d of Inr (Some g) \<Rightarrow> gget g p q | _ \<Rightarrow> 0)"

inductive counter_step :: "counter_world \<Rightarrow> counter_world \<Rightarrow> bool" where
  count: "counter_step cw (cw\<lparr>cw_writer := wr_record (cw_writer cw) plane path\<rparr>)"
| publish: "wr_publish (cw_writer cw) now failed (cw_file cw) = (w', file') \<Longrightarrow>
    counter_step cw (cw\<lparr>cw_writer := w', cw_file := file'\<rparr>)"
| read: "read_delta (cw_reader cw) (cw_file cw) = (r', d) \<Longrightarrow>
    counter_step cw (cw\<lparr>cw_reader := r', cw_taken := take_delta d (cw_taken cw)\<rparr>)"
| torn_read: "read_delta (cw_reader cw) (Inl e) = (r', d) \<Longrightarrow>
    counter_step cw (cw\<lparr>cw_reader := r', cw_taken := take_delta d (cw_taken cw)\<rparr>)"

inductive counter_reachable :: "int \<Rightarrow> int \<Rightarrow> counter_world \<Rightarrow> bool" for P Q where
  init: "mk_sent_counter_writer P Q ms = Inr w \<Longrightarrow> 0 < P \<Longrightarrow> 0 < Q \<Longrightarrow>
    counter_reachable P Q \<lparr>cw_writer = w, cw_file = Inl FileNotFoundError,
      cw_reader = mk_sent_counter_reader P Q, cw_taken = (\<lambda>_ _. 0)\<rparr>"
| step: "counter_reachable P Q cw \<Longrightarrow> counter_step cw cw' \<Longrightarrow> counter_reachable P Q cw'"

subsection \<open>The invariant\<close>

lemma int_row_JInt [simp]: "int_row (JList (map JInt row)) = Inr row"
proof -
  have "mapE py_int (map JInt row) = Inr row" by (induction row) simp_all
  then show ?thesis by (simp add: int_row_def)
qed

definition grid_le :: "nat \<Rightarrow> nat \<Rightarrow> count_grid \<Rightarrow> count_grid \<Rightarrow> bool" where
  "grid_le P Q g h \<longleftrightarrow> (\<forall>p < P. \<forall>q < Q. gget g p q \<le> gget h p q)"

lemma grid_le_refl [simp]: "grid_le P Q g g"
  by (simp add: grid_le_def)

lemma grid_le_trans: "grid_le P Q a b \<Longrightarrow> grid_le P Q b c \<Longrightarrow> grid_le P Q a c"
  by (fastforce simp: grid_le_def intro: order.trans)

definition counters_ok :: "nat \<Rightarrow> nat \<Rightarrow> counter_world \<Rightarrow> bool" where
  "counters_ok P Q cw \<longleftrightarrow>
     wr_planes (cw_writer cw) = int P \<and> wr_paths (cw_writer cw) = int Q
     \<and> rd_planes (cw_reader cw) = int P \<and> rd_paths (cw_reader cw) = int Q
     \<and> shaped P Q (wr_sent (cw_writer cw))
     \<and> (\<forall>e. cw_file cw = Inl e \<longrightarrow> e = FileNotFoundError \<and> rd_last (cw_reader cw) = None)
     \<and> (\<forall>payload. cw_file cw = Inr payload \<longrightarrow> (\<exists>now g. payload = sent_payload now g \<and> shaped P Q g
            \<and> grid_le P Q g (wr_sent (cw_writer cw))
            \<and> (\<forall>l. rd_last (cw_reader cw) = Some l \<longrightarrow> grid_le P Q l g)))
     \<and> (rd_last (cw_reader cw) = None \<longrightarrow> (\<forall>p < P. \<forall>q < Q. cw_taken cw p q = 0))
     \<and> (\<forall>l. rd_last (cw_reader cw) = Some l \<longrightarrow>
          shaped P Q l \<and> (\<forall>p < P. \<forall>q < Q. cw_taken cw p q = gget l p q))"

lemma gget_grid_delta:
  assumes "shaped P Q g" "shaped P Q h" "p < P" "q < Q"
  shows "gget (grid_delta g h) p q = (if gget h p q \<le> gget g p q then gget g p q - gget h p q else gget g p q)"
  using assms shaped_row [OF assms(1,3)] shaped_row [OF assms(2,3)]
  by (simp add: grid_delta_def gget_def shaped_def)

lemma rd_read_payload:
  assumes "rd_planes r = int P" "rd_paths r = int Q" "shaped P Q g"
  shows "rd_read r (Inr (sent_payload now g)) = (r, Inr (Some g))"
proof -
  have "mapE int_row (map (\<lambda>row. JList (map JInt row)) g) = Inr g"
    by (induction g) simp_all
  then show ?thesis
    using assms by (auto simp: rd_read_def sent_payload_def row_ok_def shaped_def list_ex_iff Let_def)
qed

lemma rd_read_fields:
  "rd_read r file = (r', d) \<Longrightarrow> rd_planes r' = rd_planes r \<and> rd_paths r' = rd_paths r \<and> rd_last r' = rd_last r"
  by (auto simp: rd_read_def Let_def split: sum.splits option.splits json.splits if_splits)

lemma wr_record_fields [simp]:
  "wr_planes (wr_record w plane path) = wr_planes w" "wr_paths (wr_record w plane path) = wr_paths w"
  by (simp_all add: wr_record_def)

lemma wr_record_grid:
  assumes "wr_planes w = int P" "wr_paths w = int Q" "shaped P Q (wr_sent w)"
  shows "shaped P Q (wr_sent (wr_record w plane path))"
    and "grid_le P Q (wr_sent w) (wr_sent (wr_record w plane path))"
  using assms by (auto simp: wr_record_def grid_le_def gget_gset nat_less_iff)

lemma counters_ok_read:
  assumes "counters_ok P Q cw" "cw_file cw = Inr (sent_payload now g)" "shaped P Q g"
    and "grid_le P Q g (wr_sent (cw_writer cw))" "\<And>p q. p < P \<Longrightarrow> q < Q \<Longrightarrow> acc p q = gget g p q"
  shows "counters_ok P Q (cw\<lparr>cw_reader := (cw_reader cw)\<lparr>rd_last := Some g\<rparr>, cw_taken := acc\<rparr>)"
proof -
  have "\<exists>now' g'. sent_payload now g = sent_payload now' g' \<and> shaped P Q g'
      \<and> grid_le P Q g' (wr_sent (cw_writer cw)) \<and> grid_le P Q g g'"
    using assms(3,4) grid_le_refl by blast
  then show ?thesis using assms by (simp add: counters_ok_def)
qed

lemma counter_step_ok:
  assumes "counter_step cw cw'" "counters_ok P Q cw"
  shows "counters_ok P Q cw'"
  using assms
proof cases
  case (count plane path)
  note w = wr_record_grid [of "cw_writer cw" P Q plane path]
  show ?thesis
    using assms(2) w unfolding count
    by (cases "cw_file cw") (auto simp: counters_ok_def intro: grid_le_trans)
next
  case (publish now failed w' file')
  show ?thesis
  proof (cases failed)
    case True
    then have w': "w' = cw_writer cw\<lparr>publish_errors := publish_errors (cw_writer cw) + 1\<rparr>" "file' = cw_file cw"
      using publish(2) by (auto simp: wr_publish_def)
    show ?thesis using assms(2) unfolding publish(1) w' by (simp add: counters_ok_def)
  next
    case False
    have "\<forall>l. rd_last (cw_reader cw) = Some l \<longrightarrow> grid_le P Q l (wr_sent (cw_writer cw))"
      using assms(2) by (cases "cw_file cw") (auto simp: counters_ok_def intro: grid_le_trans)
    then show ?thesis
      using publish False assms(2)
      by (auto simp: wr_publish_def counters_ok_def) (blast intro: grid_le_refl)+
  qed
next
  case (read r' d)
  show ?thesis
  proof (cases "cw_file cw")
    case (Inl e)
    then have "r' = cw_reader cw \<and> d = Inr None"
      using read assms(2) by (simp add: read_delta_def rd_read_def counters_ok_def Let_def)
    then show ?thesis using assms(2) Inl unfolding read by (simp add: counters_ok_def take_delta_def)
  next
    case (Inr payload)
    then obtain now g where g: "payload = sent_payload now g" "shaped P Q g"
      "grid_le P Q g (wr_sent (cw_writer cw))" "\<forall>l. rd_last (cw_reader cw) = Some l \<longrightarrow> grid_le P Q l g"
      using assms(2) by (auto simp: counters_ok_def)
    have rd: "rd_read (cw_reader cw) (cw_file cw) = (cw_reader cw, Inr (Some g))"
      using assms(2) g(1,2) Inr rd_read_payload by (simp add: counters_ok_def)
    show ?thesis
    proof (cases "rd_last (cw_reader cw)")
      case None
      then have "r' = (cw_reader cw)\<lparr>rd_last := Some g\<rparr>" "d = Inr (Some g)"
        using read(2) rd by (auto simp: read_delta_def)
      moreover have "take_delta (Inr (Some g)) (cw_taken cw) p q = gget g p q" if "p < P" "q < Q" for p q
        using assms(2) None that by (simp add: take_delta_def counters_ok_def)
      ultimately show ?thesis
        unfolding read(1) using counters_ok_read [OF assms(2) _ g(2,3)] Inr g(1) by simp
    next
      case (Some l)
      then have l: "shaped P Q l" "grid_le P Q l g" "\<forall>p < P. \<forall>q < Q. cw_taken cw p q = gget l p q"
        using assms(2) g(4) by (auto simp: counters_ok_def)
      have "r' = (cw_reader cw)\<lparr>rd_last := Some g\<rparr>" "d = Inr (Some (grid_delta g l))"
        using read(2) rd Some by (auto simp: read_delta_def)
      moreover have "take_delta (Inr (Some (grid_delta g l))) (cw_taken cw) p q = gget g p q" if "p < P" "q < Q" for p q
        using that l gget_grid_delta [OF g(2) l(1) that] by (simp add: take_delta_def grid_le_def)
      ultimately show ?thesis
        unfolding read(1) using counters_ok_read [OF assms(2) _ g(2,3)] Inr g(1) by simp
    qed
  qed
next
  case (torn_read e r' d)
  have "rd_last r' = rd_last (cw_reader cw) \<and> rd_planes r' = rd_planes (cw_reader cw)
      \<and> rd_paths r' = rd_paths (cw_reader cw) \<and> (\<forall>g. d \<noteq> Inr (Some g))"
    using torn_read by (auto simp: read_delta_def rd_read_def Let_def split: if_splits)
  then have "take_delta d (cw_taken cw) = cw_taken cw" "rd_last r' = rd_last (cw_reader cw)"
    "rd_planes r' = rd_planes (cw_reader cw)" "rd_paths r' = rd_paths (cw_reader cw)"
    by (auto simp: take_delta_def fun_eq_iff split: sum.splits option.splits)
  then show ?thesis using assms(2) unfolding torn_read by (simp add: counters_ok_def)
qed

lemma counter_reachable_ok: "counter_reachable P Q cw \<Longrightarrow> 0 < P \<and> 0 < Q \<and> counters_ok (nat P) (nat Q) cw"
proof (induction rule: counter_reachable.induct)
  case (init ms w)
  then show ?case
    by (auto simp: mk_sent_counter_writer_def counters_ok_def mk_sent_counter_reader_def py_simps split: if_splits)
qed (use counter_step_ok in blast)

text \<open>
  C30. Exactly-once accounting across the two processes: under any interleaving of counting,
  publishing, failed publishing, reading and torn reading in one life of the sender, the daemon
  has never been given more packets of an EV than were sent on it, and one successful publication
  followed by one read gives it exactly all of them.
\<close>

theorem sent_counts_exactly_once:
  assumes "counter_reachable P Q cw" and "p < nat P" and "q < nat Q"
  shows "cw_taken cw p q \<le> gget (wr_sent (cw_writer cw)) p q
    \<and> (\<forall>now w' file' r' d. wr_publish (cw_writer cw) now False (cw_file cw) = (w', file')
        \<and> read_delta (cw_reader cw) file' = (r', d)
        \<longrightarrow> take_delta d (cw_taken cw) p q = gget (wr_sent (cw_writer cw)) p q)"
proof (intro conjI allI impI)
  have ok: "counters_ok (nat P) (nat Q) cw" using counter_reachable_ok [OF assms(1)] by simp
  have nonneg: "0 \<le> gget (wr_sent (cw_writer cw)) p q" if "counter_reachable P Q cw" for cw
    using that
  proof (induction rule: counter_reachable.induct)
    case (init ms w)
    then show ?case using assms(2,3) by (auto simp: mk_sent_counter_writer_def py_simps split: if_splits)
  next
    case (step cw cw')
    have c: "counters_ok (nat P) (nat Q) cw" using counter_reachable_ok [OF step.hyps(1)] by simp
    from step.hyps(2) show ?case
    proof cases
      case (count plane path)
      then show ?thesis
        using step.IH wr_record_grid(2) [of "cw_writer cw" "nat P" "nat Q" plane path] c assms(2,3)
        by (auto simp: counters_ok_def grid_le_def intro: order.trans)
    qed (use step.IH in \<open>auto simp: wr_publish_def split: if_splits\<close>)
  qed
  show "cw_taken cw p q \<le> gget (wr_sent (cw_writer cw)) p q"
  proof (cases "rd_last (cw_reader cw)")
    case None
    then show ?thesis using ok nonneg [OF assms(1)] assms(2,3) by (auto simp: counters_ok_def)
  next
    case (Some l)
    then have "grid_le (nat P) (nat Q) l (wr_sent (cw_writer cw))"
      using ok by (cases "cw_file cw") (auto simp: counters_ok_def intro: grid_le_trans)
    then show ?thesis using ok Some assms(2,3) by (auto simp: counters_ok_def grid_le_def)
  qed
  fix now w' file' r' d
  assume pr: "wr_publish (cw_writer cw) now False (cw_file cw) = (w', file')
        \<and> read_delta (cw_reader cw) file' = (r', d)"
  let ?cw = "cw\<lparr>cw_writer := w', cw_file := file'\<rparr>"
  have "counter_step cw ?cw" using pr by (intro counter_step.publish) auto
  moreover from this have "counter_step ?cw (?cw\<lparr>cw_reader := r', cw_taken := take_delta d (cw_taken ?cw)\<rparr>)"
    using pr by (intro counter_step.read) auto
  ultimately have ok': "counters_ok (nat P) (nat Q) (?cw\<lparr>cw_reader := r', cw_taken := take_delta d (cw_taken ?cw)\<rparr>)"
    using ok counter_step_ok by blast
  have "rd_read (cw_reader cw) file' = (cw_reader cw, Inr (Some (wr_sent (cw_writer cw))))"
    using pr ok rd_read_payload [of "cw_reader cw" "nat P" "nat Q" "wr_sent (cw_writer cw)" now]
    by (auto simp: wr_publish_def counters_ok_def)
  then have "rd_last r' = Some (wr_sent (cw_writer cw))" using pr by (auto simp: read_delta_def)
  then show "take_delta d (cw_taken cw) p q = gget (wr_sent (cw_writer cw)) p q"
    using ok' assms(2,3) by (simp add: counters_ok_def)
qed

text \<open>
  A sender that restarts and has already sent as much as the last reading showed is not noticed:
  the delta loses the packets of its previous life.
\<close>

lemma restart_unnoticed: "grid_delta [[7]] [[5]] = [[2]]"
  by (simp add: grid_delta_def)

definition demo_world :: counter_world where
  "demo_world = \<lparr>cw_writer = \<lparr>wr_planes = 1, wr_paths = 2, wr_interval_ms = 50, wr_sent = [[0, 0]], publish_errors = 0\<rparr>,
     cw_file = Inl FileNotFoundError, cw_reader = mk_sent_counter_reader 1 2, cw_taken = (\<lambda>_ _. 0)\<rparr>"

theorem sent_counts_exactly_once_witness:
  "gget (wr_sent (cw_writer (demo_world\<lparr>cw_writer := wr_record (cw_writer demo_world) 0 1\<rparr>))) 0 1 = 1
   \<and> take_delta (snd (read_delta (mk_sent_counter_reader 1 2) (Inr (sent_payload 9 [[0, 1]])))) (\<lambda>_ _. 0) 0 1 = 1"
proof -
  let ?cw = "demo_world\<lparr>cw_writer := wr_record (cw_writer demo_world) 0 1\<rparr>"
  have "counter_reachable 1 2 demo_world"
    unfolding demo_world_def by (rule counter_reachable.init [of _ _ 50]) (simp_all add: mk_sent_counter_writer_def grid_const_def numeral_2_eq_2)
  then have r: "counter_reachable 1 2 ?cw" by (rule counter_reachable.step) (rule counter_step.count)
  have sent: "wr_sent (cw_writer ?cw) = [[0, 1]]"
    by (simp add: demo_world_def wr_record_def gset_def gget_def)
  have n: "(0 :: nat) < nat 1" "1 < nat 2" by simp_all
  from sent_counts_exactly_once [OF r n]
  have "take_delta (snd (read_delta (cw_reader ?cw) (Inr (sent_payload 9 [[0, 1]])))) (cw_taken ?cw) 0 1
      = gget (wr_sent (cw_writer ?cw)) 0 1"
    using sent by (metis prod.collapse wr_publish_def)
  then show ?thesis using sent by (simp add: gget_def demo_world_def)
qed

end
