(* ===== verification/Netem.thy ===== *)
theory Netem
  imports PyText Topo
begin

text \<open>
  Failure injection on the host-side interfaces, \<^verbatim>\<open>srv6_mrc/netem.py\<close>: target and spec parsing,
  the command lines, and \<open>Netem.apply\<close> and \<open>Netem.revert\<close>. The \<open>runner\<close> that executes a command
  line is the source's own parameter; here it also threads the state of the machine it runs on,
  and it may raise (the program it starts may be missing). Messages are not modelled.
\<close>

subsection \<open>Targets\<close>

type_synonym nic_target = "string \<times> string"

definition all_hosts :: "topo \<Rightarrow> string list" where
  "all_hosts g = concat (map (\<lambda>t. map (\<lambda>i. host_name t (int i)) [0..<nat (NUM_LEAVES g)]) (TENANTS g))"

text \<open>\<open>\d+\<close> on a whole word.\<close>

definition all_digits :: "string \<Rightarrow> bool" where
  "all_digits w \<longleftrightarrow> w \<noteq> [] \<and> list_all py_digit w"

definition validate_host :: "topo \<Rightarrow> string \<Rightarrow> unit result" where
  "validate_host g host =
     (case (if starts_with ''green-host'' host then Some (drop 10 host)
            else if starts_with ''yellow-host'' host then Some (drop 11 host) else None) of
        None \<Rightarrow> Inl ValueError
      | Some ds \<Rightarrow>
          if length ds \<noteq> 2 \<or> \<not> list_all py_digit ds then Inl ValueError
          else raise_if (\<not> (0 \<le> int (dec_value 0 ds) \<and> int (dec_value 0 ds) < NUM_LEAVES g)) ValueError)"

text \<open>
  The target is stripped before it is matched, so each of the three patterns, which are words
  separated by \<open>\s+\<close>, matches exactly when the blank-separated words of the text have that form.
\<close>

definition parse_target :: "topo \<Rightarrow> json \<Rightarrow> nic_target list result" where
  "parse_target g v =
     (case v of
        JStr s \<Rightarrow>
          (case py_words s of
             [a, n] \<Rightarrow>
               if a = ''plane'' \<and> all_digits n
               then let plane = int (dec_value 0 n) in
                    if \<not> (0 \<le> plane \<and> plane < NUM_PLANES g) then Inl ValueError
                    else Inr (map (\<lambda>host. (host, PLANE_NIC plane)) (all_hosts g))
               else if a = ''host''
               then bindE (validate_host g n) (\<lambda>_.
                      Inr (map (\<lambda>p. (n, PLANE_NIC (int p))) [0..<nat (NUM_PLANES g)]))
               else Inl ValueError
           | [a, host, b, n] \<Rightarrow>
               if a = ''host'' \<and> b = ''plane'' \<and> all_digits n
               then let plane = int (dec_value 0 n) in
                    bindE (validate_host g host) (\<lambda>_.
                      if \<not> (0 \<le> plane \<and> plane < NUM_PLANES g) then Inl ValueError
                      else Inr [(host, PLANE_NIC plane)])
               else Inl ValueError
           | _ \<Rightarrow> Inl ValueError)
      | _ \<Rightarrow> Inl ValueError)"

subsection \<open>Specs\<close>

definition NETEM_ALLOWED_KEYWORDS :: "string list" where
  "NETEM_ALLOWED_KEYWORDS =
     [''loss'', ''delay'', ''duplicate'', ''corrupt'', ''reorder'', ''rate'', ''gap'', ''limit'',
      ''distribution'', ''normal'', ''pareto'', ''paretonormal'', ''blackhole'']"

definition netem_token_char :: "char \<Rightarrow> bool" where
  "netem_token_char c \<longleftrightarrow>
     (let n = (of_char c :: nat) in
      65 \<le> n \<and> n \<le> 90 \<or> 97 \<le> n \<and> n \<le> 122 \<or> 48 \<le> n \<and> n \<le> 57 \<or> c = CHR ''.'' \<or> c = CHR ''%'')"

definition normalize_spec :: "json \<Rightarrow> string list result" where
  "normalize_spec v =
     (case v of
        JStr s \<Rightarrow>
          (case py_words s of
             [] \<Rightarrow> Inl ValueError
           | first # rest \<Rightarrow>
               if first = ''blackhole'' \<and> rest = [] then Inr [''loss'', ''100%'']
               else if \<not> list_all (list_all netem_token_char) (first # rest) then Inl ValueError
               else if first \<notin> set NETEM_ALLOWED_KEYWORDS then Inl ValueError
               else Inr (first # rest))
      | _ \<Rightarrow> Inl ValueError)"

subsection \<open>Command lines\<close>

definition docker_pid_cmd :: "string \<Rightarrow> string list" where
  "docker_pid_cmd container = [''docker'', ''inspect'', ''-f'', ''{{.State.Pid}}'', container]"

definition nsenter_tc_argv_add :: "int \<Rightarrow> string \<Rightarrow> string list \<Rightarrow> string list" where
  "nsenter_tc_argv_add pid ifname tokens =
     [''nsenter'', ''-t'', int_str pid, ''-n'', ''tc'', ''qdisc'', ''add'', ''dev'', ifname, ''root'', ''netem'']
     @ tokens"

definition nsenter_tc_argv_del :: "int \<Rightarrow> string \<Rightarrow> string list" where
  "nsenter_tc_argv_del pid ifname =
     [''nsenter'', ''-t'', int_str pid, ''-n'', ''tc'', ''qdisc'', ''del'', ''dev'', ifname, ''root'']"

subsection \<open>The runner\<close>

record run_result =
  returncode :: int
  stdout :: string
  stderr :: string

type_synonym 's runner = "'s \<Rightarrow> string list \<Rightarrow> 's \<times> run_result result"

definition pid_of_stdout :: "string \<Rightarrow> int option result" where
  "pid_of_stdout out =
     (let pid_str = py_strip out in
      if py_isdigit pid_str
      then (case int_of_string pid_str of
              None \<Rightarrow> Inl ValueError
            | Some pid \<Rightarrow> Inr (if 0 < pid then Some pid else None))
      else Inr None)"

fun resolve_names :: "'s runner \<Rightarrow> string list \<Rightarrow> 's \<Rightarrow> 's \<times> int result" where
  "resolve_names run [] w = (w, Inl RuntimeError)"
| "resolve_names run (name # names) w =
     (case run w (docker_pid_cmd name) of
        (w1, Inl e) \<Rightarrow> (w1, Inl e)
      | (w1, Inr res) \<Rightarrow>
          if returncode res = 0
          then (case pid_of_stdout (stdout res) of
                  Inl e \<Rightarrow> (w1, Inl e)
                | Inr (Some pid) \<Rightarrow> (w1, Inr pid)
                | Inr None \<Rightarrow> resolve_names run names w1)
          else resolve_names run names w1)"

definition resolve_container_pid :: "'s runner \<Rightarrow> string \<Rightarrow> string \<Rightarrow> 's \<Rightarrow> 's \<times> int result" where
  "resolve_container_pid run clab container w =
     resolve_names run [container, ''clab-'' @ clab @ ''-'' @ container] w"

subsection \<open>Faults and the injector\<close>

record netem_fault =
  nf_target :: json
  nf_spec :: json
  nf_nics :: "nic_target list"
  nf_tokens :: "string list"
  nf_resolved :: bool

definition mk_netem_fault :: "json \<Rightarrow> json \<Rightarrow> netem_fault" where
  "mk_netem_fault target spec =
     \<lparr>nf_target = target, nf_spec = spec, nf_nics = [], nf_tokens = [], nf_resolved = False\<rparr>"

definition nf_resolve :: "topo \<Rightarrow> netem_fault \<Rightarrow> netem_fault result" where
  "nf_resolve g f =
     bindE (parse_target g (nf_target f)) (\<lambda>nics.
     bindE (normalize_spec (nf_spec f)) (\<lambda>tokens.
       Inr (f\<lparr>nf_nics := nics, nf_tokens := tokens, nf_resolved := True\<rparr>)))"

record netem =
  nm_faults :: "netem_fault list"
  nm_topo :: string
  nm_applied :: "(int \<times> string) list"

definition mk_netem :: "netem_fault list \<Rightarrow> string \<Rightarrow> netem" where
  "mk_netem faults clab = \<lparr>nm_faults = faults, nm_topo = clab, nm_applied = []\<rparr>"

text \<open>
  \<open>revert\<close>: the applied list is popped from its end, before the command runs. The loop recurses on
  the reversed list and returns what is left of it.
\<close>

fun revert_loop ::
  "'s runner \<Rightarrow> bool \<Rightarrow> (int \<times> string) list \<Rightarrow> 's \<Rightarrow> string list list \<Rightarrow>
   (int \<times> string) list \<times> 's \<times> string list list result" where
  "revert_loop run quiet [] w invoked = ([], w, Inr invoked)"
| "revert_loop run quiet ((pid, ifname) # rest) w invoked =
     (let argv = nsenter_tc_argv_del pid ifname in
      case run w argv of
        (w1, Inl e) \<Rightarrow> (rest, w1, Inl e)
      | (w1, Inr res) \<Rightarrow>
          if returncode res \<noteq> 0 \<and> \<not> quiet then (rest, w1, Inl RuntimeError)
          else revert_loop run quiet rest w1 (invoked @ [argv]))"

definition nm_revert :: "'s runner \<Rightarrow> bool \<Rightarrow> netem \<Rightarrow> 's \<Rightarrow> netem \<times> 's \<times> string list list result" where
  "nm_revert run quiet nm w =
     (case revert_loop run quiet (rev (nm_applied nm)) w [] of
        (rest, w1, r) \<Rightarrow> (nm\<lparr>nm_applied := rev rest\<rparr>, w1, r))"

text \<open>\<open>apply\<close>: the inner loop over the interfaces of one fault.\<close>

fun add_nics ::
  "'s runner \<Rightarrow> bool \<Rightarrow> string list \<Rightarrow> nic_target list \<Rightarrow> netem \<Rightarrow> 's \<Rightarrow> string list list \<Rightarrow>
   netem \<times> 's \<times> string list list result" where
  "add_nics run dry tokens [] nm w invoked = (nm, w, Inr invoked)"
| "add_nics run dry tokens ((container, ifname) # nics) nm w invoked =
     (case (if dry then (w, Inr 0) else resolve_container_pid run (nm_topo nm) container w) of
        (w1, Inl e) \<Rightarrow> (nm, w1, Inl e)
      | (w1, Inr pid) \<Rightarrow>
          (let argv = nsenter_tc_argv_add pid ifname tokens in
           if dry then add_nics run dry tokens nics nm w1 (invoked @ [argv])
           else (case run w1 argv of
                   (w2, Inl e) \<Rightarrow> (nm, w2, Inl e)
                 | (w2, Inr res) \<Rightarrow>
                     if returncode res \<noteq> 0
                     then (case nm_revert run True nm w2 of
                             (nm3, w3, Inl e) \<Rightarrow> (nm3, w3, Inl e)
                           | (nm3, w3, Inr _) \<Rightarrow> (nm3, w3, Inl RuntimeError))
                     else add_nics run dry tokens nics
                            (nm\<lparr>nm_applied := nm_applied nm @ [(pid, ifname)]\<rparr>) w2 (invoked @ [argv]))))"

text \<open>
  The outer loop. A fault is resolved in place when the loop reaches it; \<open>before\<close> and \<open>after\<close> are
  the faults on both sides of it.
\<close>

fun apply_faults ::
  "topo \<Rightarrow> 's runner \<Rightarrow> bool \<Rightarrow> netem_fault list \<Rightarrow> netem_fault list \<Rightarrow> netem \<Rightarrow> 's \<Rightarrow> string list list \<Rightarrow>
   netem \<times> 's \<times> string list list result" where
  "apply_faults g run dry before [] nm w invoked = (nm, w, Inr invoked)"
| "apply_faults g run dry before (f # after) nm w invoked =
     (case (if nf_resolved f then Inr f else nf_resolve g f) of
        Inl e \<Rightarrow> (nm, w, Inl e)
      | Inr f1 \<Rightarrow>
          (case add_nics run dry (nf_tokens f1) (nf_nics f1)
                  (nm\<lparr>nm_faults := before @ f1 # after\<rparr>) w invoked of
             (nm1, w1, Inl e) \<Rightarrow> (nm1, w1, Inl e)
           | (nm1, w1, Inr invoked1) \<Rightarrow> apply_faults g run dry (before @ [f1]) after nm1 w1 invoked1))"

definition nm_apply ::
  "topo \<Rightarrow> 's runner \<Rightarrow> bool \<Rightarrow> netem \<Rightarrow> 's \<Rightarrow> netem \<times> 's \<times> string list list result" where
  "nm_apply g run dry nm w = apply_faults g run dry [] (nm_faults nm) nm w []"

text \<open>
  \<open>with Netem(...)\<close>: \<open>__exit__\<close> runs only when \<open>__enter__\<close> has returned; an exception of the body
  is raised again after it.
\<close>

definition nm_with ::
  "topo \<Rightarrow> 's runner \<Rightarrow> ('s \<Rightarrow> 's \<times> unit result) \<Rightarrow> netem \<Rightarrow> 's \<Rightarrow> netem \<times> 's \<times> unit result" where
  "nm_with g run body nm w =
     (case nm_apply g run False nm w of
        (nm1, w1, Inl e) \<Rightarrow> (nm1, w1, Inl e)
      | (nm1, w1, Inr _) \<Rightarrow>
          (case body w1 of (w2, outcome) \<Rightarrow>
           (case nm_revert run True nm1 w2 of
              (nm3, w3, Inl e) \<Rightarrow> (nm3, w3, Inl e)
            | (nm3, w3, Inr _) \<Rightarrow> (nm3, w3, outcome))))"

end
