(* ===== verification/NetemProperties.thy ===== *)
theory NetemProperties
  imports Netem
begin

text \<open>
  What applying and reverting netem faults does to the machine, against the documented behaviour
  of \<open>tc\<close>: adding a root qdisc succeeds only where there is none, deleting one succeeds where there
  is one, and \<open>docker inspect\<close> changes nothing.
\<close>

subsection \<open>The contract of the runner\<close>

definition ran_ok :: "run_result result \<Rightarrow> bool" where
  "ran_ok r = (case r of Inr res \<Rightarrow> returncode res = 0 | Inl e \<Rightarrow> False)"

definition tc_contract :: "'s runner \<Rightarrow> ('s \<Rightarrow> (int \<times> string) \<Rightarrow> string list option) \<Rightarrow> bool" where
  "tc_contract run qd \<longleftrightarrow>
     (\<forall>w name. qd (fst (run w (docker_pid_cmd name))) = qd w)
   \<and> (\<forall>w pid ifname tokens. let (w', r) = run w (nsenter_tc_argv_add pid ifname tokens) in
        if ran_ok r then qd w (pid, ifname) = None \<and> qd w' = (qd w)((pid, ifname) \<mapsto> tokens)
        else qd w' = qd w)
   \<and> (\<forall>w pid ifname. let (w', r) = run w (nsenter_tc_argv_del pid ifname) in
        if qd w (pid, ifname) \<noteq> None then ran_ok r \<and> qd w' = (qd w)((pid, ifname) := None)
        else qd w' = qd w)"

lemma tc_inspect:
  "tc_contract run qd \<Longrightarrow> run w (docker_pid_cmd name) = (w', r) \<Longrightarrow> qd w' = qd w"
  unfolding tc_contract_def by (metis fst_conv)

lemma tc_add:
  assumes "tc_contract run qd" "run w (nsenter_tc_argv_add pid ifname tokens) = (w', r)"
  shows "ran_ok r \<Longrightarrow> qd w (pid, ifname) = None"
    "ran_ok r \<Longrightarrow> qd w' = (qd w)((pid, ifname) \<mapsto> tokens)" "\<not> ran_ok r \<Longrightarrow> qd w' = qd w"
proof -
  have "let (w', r) = run w (nsenter_tc_argv_add pid ifname tokens) in
      if ran_ok r then qd w (pid, ifname) = None \<and> qd w' = (qd w)((pid, ifname) \<mapsto> tokens)
      else qd w' = qd w"
    using assms(1) unfolding tc_contract_def by blast
  then show "ran_ok r \<Longrightarrow> qd w (pid, ifname) = None"
    "ran_ok r \<Longrightarrow> qd w' = (qd w)((pid, ifname) \<mapsto> tokens)" "\<not> ran_ok r \<Longrightarrow> qd w' = qd w"
    using assms(2) by (auto split: if_splits)
qed

lemma tc_del:
  assumes "tc_contract run qd" "qd w (pid, ifname) \<noteq> None"
  obtains w' res where "run w (nsenter_tc_argv_del pid ifname) = (w', Inr res)" "returncode res = 0"
    "qd w' = (qd w)((pid, ifname) := None)"
proof -
  obtain w' r where r: "run w (nsenter_tc_argv_del pid ifname) = (w', r)" by fastforce
  have "let (w', r) = run w (nsenter_tc_argv_del pid ifname) in
        if qd w (pid, ifname) \<noteq> None then ran_ok r \<and> qd w' = (qd w)((pid, ifname) := None)
        else qd w' = qd w"
    using assms(1) unfolding tc_contract_def by blast
  then have "ran_ok r" "qd w' = (qd w)((pid, ifname) := None)" using r assms(2) by simp_all
  then show thesis using that r by (cases r) (auto simp: ran_ok_def)
qed

subsection \<open>The stack of applied interfaces\<close>

text \<open>
  \<open>stacked base ks cur\<close>: deleting the interfaces \<open>ks\<close>, newest first, takes the qdiscs \<open>cur\<close> back
  to \<open>base\<close>, and each deletion finds a qdisc to delete.
\<close>

fun stacked :: "('k \<Rightarrow> 'v option) \<Rightarrow> 'k list \<Rightarrow> ('k \<Rightarrow> 'v option) \<Rightarrow> bool" where
  "stacked base [] cur \<longleftrightarrow> cur = base"
| "stacked base (k # ks) cur \<longleftrightarrow> cur k \<noteq> None \<and> stacked base ks (cur(k := None))"

lemma stacked_push: "stacked base ks cur \<Longrightarrow> cur k = None \<Longrightarrow> stacked base (k # ks) (cur(k \<mapsto> v))"
  by (simp add: fun_upd_idem)

lemma stacked_other: "stacked base ks cur \<Longrightarrow> k \<notin> set ks \<Longrightarrow> cur k = base k"
  by (induction ks arbitrary: cur) auto

lemma revert_loop_restores:
  assumes "tc_contract run qd" "stacked base rs (qd w)"
  shows "\<exists>w' out. revert_loop run quiet rs w invoked = ([], w', Inr out) \<and> qd w' = base"
  using assms(2)
proof (induction rs arbitrary: w invoked)
  case (Cons k rs)
  obtain pid ifname where k: "k = (pid, ifname)" by fastforce
  then have "qd w (pid, ifname) \<noteq> None" using Cons.prems by simp
  from tc_del [OF assms(1) this] obtain w' res where run: "run w (nsenter_tc_argv_del pid ifname) = (w', Inr res)"
    "returncode res = 0" "qd w' = (qd w)((pid, ifname) := None)" .
  then have "stacked base rs (qd w')" using Cons.prems k by simp
  from Cons.IH [OF this] show ?case using run k by (simp add: Let_def)
qed simp

lemma nm_revert_restores:
  assumes "tc_contract run qd" "stacked base (rev (nm_applied nm)) (qd w)"
  shows "\<exists>w' out. nm_revert run quiet nm w = (nm\<lparr>nm_applied := []\<rparr>, w', Inr out) \<and> qd w' = base"
proof -
  from revert_loop_restores [OF assms, of quiet "[]"]
  obtain w' out where "revert_loop run quiet (rev (nm_applied nm)) w [] = ([], w', Inr out)" "qd w' = base"
    by blast
  then show ?thesis by (simp add: nm_revert_def)
qed

lemma resolve_keeps_qdiscs:
  assumes "tc_contract run qd" "resolve_container_pid run clab c w = (w', r)"
  shows "qd w' = qd w"
proof -
  have "resolve_names run names w = (w', r) \<Longrightarrow> qd w' = qd w" for names w
  proof (induction names arbitrary: w)
    case (Cons name names)
    obtain w1 r1 where r1: "run w (docker_pid_cmd name) = (w1, r1)" by fastforce
    have eq: "qd w1 = qd w" by (rule tc_inspect [OF assms(1) r1])
    show ?case
    proof (cases r1)
      case (Inl e)
      then show ?thesis using Cons.prems r1 eq by simp
    next
      case (Inr res)
      show ?thesis
      proof (cases "returncode res = 0 \<and> pid_of_stdout (stdout res) \<noteq> Inr None")
        case True
        then show ?thesis using Cons.prems r1 Inr eq by (auto split: sum.splits option.splits)
      next
        case False
        then have "resolve_names run names w1 = (w', r)"
          using Cons.prems r1 Inr by (auto split: if_splits)
        then show ?thesis using Cons.IH eq by simp
      qed
    qed
  qed simp
  then show ?thesis using assms(2) unfolding resolve_container_pid_def by blast
qed

text \<open>The invariant of the two loops, whatever their outcome.\<close>

lemma add_nics_stacked:
  assumes "tc_contract run qd"
  shows "add_nics run False tokens nics nm w invoked = (nm', w', r) \<Longrightarrow>
    stacked base (rev (nm_applied nm)) (qd w) \<Longrightarrow>
    stacked base (rev (nm_applied nm')) (qd w')
    \<and> nm_faults nm' = nm_faults nm \<and> nm_topo nm' = nm_topo nm
    \<and> (\<forall>out. r = Inr out \<longrightarrow>
         (\<forall>k. qd w k \<noteq> None \<longrightarrow> qd w' k = qd w k)
       \<and> (\<forall>(c, ifname) \<in> set nics. \<exists>pid. qd w' (pid, ifname) = Some tokens))"
proof (induction nics arbitrary: nm w invoked)
  case Nil
  then show ?case by auto
next
  case (Cons nic nics)
  obtain c ifname where nic: "nic = (c, ifname)" by fastforce
  obtain w1 r1 where r1: "resolve_container_pid run (nm_topo nm) c w = (w1, r1)" by fastforce
  have q1: "qd w1 = qd w" by (rule resolve_keeps_qdiscs [OF assms r1])
  show ?case
  proof (cases r1)
    case (Inl e)
    then show ?thesis using Cons.prems nic r1 q1 by auto
  next
    case (Inr pid)
    obtain w2 r2 where r2: "run w1 (nsenter_tc_argv_add pid ifname tokens) = (w2, r2)" by fastforce
    show ?thesis
    proof (cases "ran_ok r2")
      case True
      let ?nm = "nm\<lparr>nm_applied := nm_applied nm @ [(pid, ifname)]\<rparr>"
      note add = tc_add [OF assms r2]
      have call: "add_nics run False tokens nics ?nm w2 (invoked @ [nsenter_tc_argv_add pid ifname tokens])
          = (nm', w', r)"
        using Cons.prems(1) nic r1 Inr r2 True by (auto simp: ran_ok_def Let_def split: sum.splits)
      have free: "qd w (pid, ifname) = None" and q2: "qd w2 = (qd w)((pid, ifname) \<mapsto> tokens)"
        using add(1,2) True q1 by simp_all
      have "stacked base (rev (nm_applied ?nm)) (qd w2)"
        using stacked_push [OF Cons.prems(2) free] by (simp add: q2)
      from Cons.IH [OF call this] show ?thesis using nic free q2 by fastforce
    next
      case False
      have q2: "qd w2 = qd w" using tc_add(3) [OF assms r2 False] q1 by simp
      show ?thesis
      proof (cases r2)
        case (Inl e)
        then show ?thesis using Cons.prems nic r1 \<open>r1 = Inr pid\<close> r2 q2 by (auto simp: Let_def)
      next
        case (Inr res)
        have rc: "returncode res \<noteq> 0" using False Inr by (simp add: ran_ok_def)
        from nm_revert_restores [OF assms, of base nm w2 True] Cons.prems(2) q2
        obtain w3 out where rev3: "nm_revert run True nm w2 = (nm\<lparr>nm_applied := []\<rparr>, w3, Inr out)"
          "qd w3 = base" by auto
        have "(nm', w', r) = (nm\<lparr>nm_applied := []\<rparr>, w3, Inl RuntimeError)"
          using Cons.prems(1) nic r1 \<open>r1 = Inr pid\<close> r2 Inr rc rev3 by (simp add: Let_def)
        then show ?thesis using rev3(2) by simp
      qed
    qed
  qed
qed


text \<open>A fault's interfaces all carry its tokens.\<close>

definition fault_in_force :: "((int \<times> string) \<Rightarrow> string list option) \<Rightarrow> netem_fault \<Rightarrow> bool" where
  "fault_in_force qs f \<longleftrightarrow> (\<forall>(c, ifname) \<in> set (nf_nics f). \<exists>pid. qs (pid, ifname) = Some (nf_tokens f))"

definition resolved_form :: "topo \<Rightarrow> netem_fault \<Rightarrow> netem_fault \<Rightarrow> bool" where
  "resolved_form g f f' \<longleftrightarrow> (if nf_resolved f then f' = f else nf_resolve g f = Inr f')"

lemma fault_in_force_mono:
  "fault_in_force qs f \<Longrightarrow> (\<And>k. qs k \<noteq> None \<Longrightarrow> qs' k = qs k) \<Longrightarrow> fault_in_force qs' f"
proof -
  assume f: "fault_in_force qs f" and keep: "\<And>k. qs k \<noteq> None \<Longrightarrow> qs' k = qs k"
  have "\<exists>pid. qs' (pid, ifname) = Some (nf_tokens f)" if nic: "(c, ifname) \<in> set (nf_nics f)" for c ifname
  proof -
    obtain pid where "qs (pid, ifname) = Some (nf_tokens f)" using f nic by (auto simp: fault_in_force_def)
    then show ?thesis using keep [of "(pid, ifname)"] by auto
  qed
  then show "fault_in_force qs' f" by (auto simp: fault_in_force_def)
qed

lemma apply_faults_stacked:
  assumes "tc_contract run qd"
  shows "apply_faults g run False before after nm w invoked = (nm', w', r) \<Longrightarrow>
    stacked base (rev (nm_applied nm)) (qd w) \<Longrightarrow> nm_faults nm = before @ after \<Longrightarrow>
    stacked base (rev (nm_applied nm')) (qd w')
    \<and> (\<forall>out. r = Inr out \<longrightarrow>
         (\<forall>k. qd w k \<noteq> None \<longrightarrow> qd w' k = qd w k)
       \<and> (\<exists>fs. nm_faults nm' = before @ fs \<and> list_all2 (resolved_form g) after fs
            \<and> (\<forall>f \<in> set fs. fault_in_force (qd w') f)))"
proof (induction after arbitrary: before nm w invoked)
  case Nil
  then show ?case by auto
next
  case (Cons f after)
  show ?case
  proof (cases "if nf_resolved f then Inr f else nf_resolve g f")
    case (Inl e)
    then show ?thesis using Cons.prems by auto
  next
    case (Inr f1)
    have form: "resolved_form g f f1" using Inr by (auto simp: resolved_form_def split: if_splits)
    let ?nm = "nm\<lparr>nm_faults := before @ f1 # after\<rparr>"
    obtain nm1 w1 r1 where a1: "add_nics run False (nf_tokens f1) (nf_nics f1) ?nm w invoked = (nm1, w1, r1)"
      by (metis prod_cases3)
    have "stacked base (rev (nm_applied ?nm)) (qd w)" using Cons.prems(2) by simp
    note add = add_nics_stacked [OF assms a1 this]
    show ?thesis
    proof (cases r1)
      case (Inl e)
      then show ?thesis using Cons.prems(1) a1 \<open>_ = Inr f1\<close> add by auto
    next
      case r1: (Inr out1)
      have call: "apply_faults g run False (before @ [f1]) after nm1 w1 out1 = (nm', w', r)"
        using Cons.prems(1) a1 Inr r1 by simp
      have "stacked base (rev (nm_applied nm1)) (qd w1)" "nm_faults nm1 = (before @ [f1]) @ after"
        using add by simp_all
      note rest = Cons.IH [OF call this]
      have keep1: "\<And>k. qd w k \<noteq> None \<Longrightarrow> qd w1 k = qd w k" using add r1 by blast
      have in1: "fault_in_force (qd w1) f1" using add r1 by (simp add: fault_in_force_def)
      have "(\<forall>k. qd w k \<noteq> None \<longrightarrow> qd w' k = qd w k)
          \<and> (\<exists>fs. nm_faults nm' = before @ fs \<and> list_all2 (resolved_form g) (f # after) fs
            \<and> (\<forall>f \<in> set fs. fault_in_force (qd w') f))" if out: "r = Inr out" for out
      proof -
        have keep2: "\<And>k. qd w1 k \<noteq> None \<Longrightarrow> qd w' k = qd w1 k" using rest out by blast
        obtain fs where fs: "nm_faults nm' = (before @ [f1]) @ fs" "list_all2 (resolved_form g) after fs"
          "\<forall>f \<in> set fs. fault_in_force (qd w') f" using rest out by blast
        have "fault_in_force (qd w') f1" by (rule fault_in_force_mono [OF in1 keep2])
        then have "nm_faults nm' = before @ (f1 # fs) \<and> list_all2 (resolved_form g) (f # after) (f1 # fs)
            \<and> (\<forall>f \<in> set (f1 # fs). fault_in_force (qd w') f)" using fs form by simp
        moreover have "qd w' k = qd w k" if "qd w k \<noteq> None" for k
          using keep1 [OF that] keep2 [of k] that by simp
        ultimately show ?thesis by blast
      qed
      then show ?thesis using rest by blast
    qed
  qed
qed

subsection \<open>Properties\<close>

text \<open>
  Reverting takes back exactly what applying put up: after any call of \<open>apply\<close>, also one that
  raised half way through, a call of \<open>revert\<close> on the same object succeeds, empties its list and
  leaves every qdisc of the machine as it was before the call of \<open>apply\<close>.
\<close>

theorem netem_revert_restores:
  assumes "tc_contract run qd" and "nm_applied nm = []"
    and "nm_apply g run False nm w = (nm', w', outcome)"
  shows "\<exists>w'' out. nm_revert run quiet nm' w' = (nm'\<lparr>nm_applied := []\<rparr>, w'', Inr out) \<and> qd w'' = qd w"
proof -
  have "stacked (qd w) (rev (nm_applied nm)) (qd w)" using assms(2) by simp
  with assms(1,3) have "stacked (qd w) (rev (nm_applied nm')) (qd w')"
    unfolding nm_apply_def using apply_faults_stacked [of run qd g "[]"] by blast
  then show ?thesis by (rule nm_revert_restores [OF assms(1)])
qed

text \<open>
  When \<open>apply\<close> returns, every fault of the list is resolved and in force: each interface it
  names carries the fault's tokens, no qdisc that was there before is lost, and outside the
  interfaces on the object's list nothing has changed.
\<close>

theorem netem_apply_in_force:
  assumes "tc_contract run qd" and "nm_applied nm = []"
    and "nm_apply g run False nm w = (nm', w', Inr argvs)"
  shows "list_all2 (resolved_form g) (nm_faults nm) (nm_faults nm')
    \<and> (\<forall>f \<in> set (nm_faults nm'). fault_in_force (qd w') f)
    \<and> (\<forall>k. qd w k \<noteq> None \<longrightarrow> qd w' k = qd w k)
    \<and> (\<forall>k. k \<notin> set (nm_applied nm') \<longrightarrow> qd w' k = qd w k)"
proof -
  have "stacked (qd w) (rev (nm_applied nm)) (qd w)" using assms(2) by simp
  with assms(1,3) have r: "stacked (qd w) (rev (nm_applied nm')) (qd w')"
    "\<forall>k. qd w k \<noteq> None \<longrightarrow> qd w' k = qd w k"
    "\<exists>fs. nm_faults nm' = fs \<and> list_all2 (resolved_form g) (nm_faults nm) fs
      \<and> (\<forall>f \<in> set fs. fault_in_force (qd w') f)"
    unfolding nm_apply_def using apply_faults_stacked [of run qd g "[]" "nm_faults nm" nm w "[]" nm' w'] by auto
  then show ?thesis using stacked_other [OF r(1)] by auto
qed

subsection \<open>A machine\<close>

text \<open>
  Containers with their process ids, and the root qdiscs by process id and interface, both as
  the texts that occur in the command lines.
\<close>

record host_machine =
  hm_pids :: "(string \<times> string) list"
  hm_qdiscs :: "((string \<times> string) \<times> string list) list"

definition rc :: "int \<Rightarrow> string \<Rightarrow> run_result result" where
  "rc code out = Inr \<lparr>returncode = code, stdout = out, stderr = []\<rparr>"

definition hm_run :: "host_machine runner" where
  "hm_run m argv =
     (case argv of
        [_, _, _, _, name] \<Rightarrow>
          (case dict_get (hm_pids m) name of Some pid \<Rightarrow> (m, rc 0 pid) | None \<Rightarrow> (m, rc 1 []))
      | [_, _, pid, _, _, _, _, _, ifname, _] \<Rightarrow>
          if dict_get (hm_qdiscs m) (pid, ifname) = None then (m, rc 2 [])
          else (m\<lparr>hm_qdiscs := dict_del (pid, ifname) (hm_qdiscs m)\<rparr>, rc 0 [])
      | _ # _ # pid # _ # _ # _ # _ # _ # ifname # _ # _ # tokens \<Rightarrow>
          if dict_get (hm_qdiscs m) (pid, ifname) \<noteq> None then (m, rc 2 [])
          else (m\<lparr>hm_qdiscs := dict_put (pid, ifname) tokens (hm_qdiscs m)\<rparr>, rc 0 [])
      | _ \<Rightarrow> (m, rc 127 []))"

definition hm_qd :: "host_machine \<Rightarrow> (int \<times> string) \<Rightarrow> string list option" where
  "hm_qd m = (\<lambda>(pid, ifname). dict_get (hm_qdiscs m) (int_str pid, ifname))"

lemma hm_contract: "tc_contract hm_run hm_qd"
  unfolding tc_contract_def
  by (auto simp: hm_run_def hm_qd_def docker_pid_cmd_def nsenter_tc_argv_add_def nsenter_tc_argv_del_def
      rc_def ran_ok_def fun_eq_iff split: option.splits)

definition demo_lab :: topo where
  "demo_lab = \<lparr>NUM_PLANES = 2, NUM_SPINES = 2, NUM_LEAVES = 2, CLAB_TOPOLOGY_NAME = ''lab'',
     TENANTS = [''green'']\<rparr>"

definition demo_machine :: host_machine where
  "demo_machine = \<lparr>hm_pids = [(''green-host00'', ''7''), (''clab-lab-green-host01'', ''9'')], hm_qdiscs = []\<rparr>"

definition demo_netem :: netem where
  "demo_netem = mk_netem [mk_netem_fault (JStr ''plane 1'') (JStr ''blackhole'')] ''lab''"

definition demo_applied :: "netem \<times> host_machine \<times> string list list result" where
  "demo_applied = nm_apply demo_lab hm_run False demo_netem demo_machine"

lemma demo_applied_value:
  "demo_applied =
     (\<lparr>nm_faults = [\<lparr>nf_target = JStr ''plane 1'', nf_spec = JStr ''blackhole'',
          nf_nics = [(''green-host00'', ''eth2''), (''green-host01'', ''eth2'')],
          nf_tokens = [''loss'', ''100%''], nf_resolved = True\<rparr>],
        nm_topo = ''lab'', nm_applied = [(7, ''eth2''), (9, ''eth2'')]\<rparr>,
      \<lparr>hm_pids = hm_pids demo_machine,
       hm_qdiscs = [((''7'', ''eth2''), [''loss'', ''100%'']), ((''9'', ''eth2''), [''loss'', ''100%''])]\<rparr>,
      Inr [nsenter_tc_argv_add 7 ''eth2'' [''loss'', ''100%''], nsenter_tc_argv_add 9 ''eth2'' [''loss'', ''100%'']])"
  by code_simp

theorem netem_revert_restores_witness:
  "\<exists>w'' out. nm_revert hm_run False (fst demo_applied) (fst (snd demo_applied)) =
     ((fst demo_applied)\<lparr>nm_applied := []\<rparr>, w'', Inr out) \<and> hm_qd w'' = hm_qd demo_machine"
proof (rule netem_revert_restores [OF hm_contract])
  show "nm_applied demo_netem = []" by (simp add: demo_netem_def mk_netem_def)
  show "nm_apply demo_lab hm_run False demo_netem demo_machine =
      (fst demo_applied, fst (snd demo_applied), snd (snd demo_applied))"
    by (simp add: demo_applied_def)
qed

theorem netem_apply_in_force_witness:
  "list_all (fault_in_force (hm_qd (fst (snd demo_applied)))) (nm_faults (fst demo_applied))"
proof -
  have "nm_applied demo_netem = []" by (simp add: demo_netem_def mk_netem_def)
  from netem_apply_in_force [OF hm_contract this, of demo_lab demo_machine "fst demo_applied"
      "fst (snd demo_applied)" "[nsenter_tc_argv_add 7 ''eth2'' [''loss'', ''100%''],
         nsenter_tc_argv_add 9 ''eth2'' [''loss'', ''100%'']]"]
  show ?thesis unfolding demo_applied_def [symmetric] list_all_iff by (simp add: demo_applied_value)
qed

text \<open>
  A container whose process id cannot be found makes \<open>apply\<close> raise without taking back the
  interfaces before it, and the \<open>with\<close> statement does not revert a failed \<open>__enter__\<close>: the qdiscs
  stay.
\<close>

lemma netem_with_leaks:
  "case nm_with demo_lab hm_run (\<lambda>w. (w, Inr ())) demo_netem
      \<lparr>hm_pids = [(''green-host00'', ''7'')], hm_qdiscs = []\<rparr> of
     (nm, w, outcome) \<Rightarrow> outcome = Inl RuntimeError \<and> hm_qdiscs w = [((''7'', ''eth2''), [''loss'', ''100%''])]"
  by code_simp

text \<open>A new object has nothing to revert: no command runs.\<close>

lemma netem_fresh_revert: "nm_revert run quiet (mk_netem faults clab) w = (mk_netem faults clab, w, Inr [])"
  by (simp add: nm_revert_def mk_netem_def)

end
