(* ===== verification/Fault.thy ===== *)
theory Fault
  imports Netem
begin

text \<open>
  Fault bookkeeping, \<^verbatim>\<open>srv6_mrc/fault.py\<close>: interface names, the persistent fault list and its JSON
  form, the link table of the topology file, and the commands that take interfaces down and up.
  Decoding does not check types, so the fields of a fault are decoded values. The state file is
  its decoded content, absent, or an exception of opening or decoding it.
\<close>

subsection \<open>Interface names\<close>

definition clab_to_sonic :: "string \<Rightarrow> string result" where
  "clab_to_sonic clab_iface =
     (if \<not> starts_with ''eth'' clab_iface then Inl ValueError
      else case int_of_string (drop 3 clab_iface) of
             None \<Rightarrow> Inl ValueError
           | Some n \<Rightarrow> Inr (''Ethernet'' @ int_str ((n - 1) * 4)))"

definition sonic_to_clab :: "string \<Rightarrow> string result" where
  "sonic_to_clab sonic_iface =
     (if \<not> starts_with ''Ethernet'' sonic_iface then Inl ValueError
      else case int_of_string (drop 8 sonic_iface) of
             None \<Rightarrow> Inl ValueError
           | Some m \<Rightarrow> if m mod 4 \<noteq> 0 then Inl ValueError
                       else Inr (''eth'' @ int_str (m div 4 + 1)))"

subsection \<open>Faults\<close>

record interface_endpoint =
  ep_node :: json
  ep_interface :: json

definition endpoint_json :: "interface_endpoint \<Rightarrow> json" where
  "endpoint_json t = JObj [(''node'', ep_node t), (''interface'', ep_interface t)]"

definition endpoint_of_json :: "json \<Rightarrow> interface_endpoint result" where
  "endpoint_of_json d =
     bindE (jitem d ''node'') (\<lambda>node.
     bindE (jitem d ''interface'') (\<lambda>iface. Inr \<lparr>ep_node = node, ep_interface = iface\<rparr>))"

record fault =
  ft_id :: json
  ft_type :: json
  ft_targets :: "interface_endpoint list"
  ft_spec :: json
  ft_bidirectional :: json
  ft_applied_at :: json
  ft_applied_by :: json

definition fault_json :: "fault \<Rightarrow> json" where
  "fault_json f = JObj
     [(''id'', ft_id f), (''type'', ft_type f), (''targets'', JList (map endpoint_json (ft_targets f))),
      (''spec'', ft_spec f), (''bidirectional'', ft_bidirectional f),
      (''applied_at'', ft_applied_at f), (''applied_by'', ft_applied_by f)]"

definition fault_of_json :: "json \<Rightarrow> fault result" where
  "fault_of_json d =
     bindE (jitem d ''id'') (\<lambda>i.
     bindE (jitem d ''type'') (\<lambda>ty.
     bindE (bindE (bindE (jitem d ''targets'') py_iter) (mapE endpoint_of_json)) (\<lambda>ts.
     bindE (py_get d ''spec'' JNull) (\<lambda>spec.
     bindE (py_get d ''bidirectional'' (JBool True)) (\<lambda>bi.
     bindE (jitem d ''applied_at'') (\<lambda>applied_time.
     bindE (py_get d ''applied_by'' (JStr ''srctl fault'')) (\<lambda>by_whom.
       Inr \<lparr>ft_id = i, ft_type = ty, ft_targets = ts, ft_spec = spec, ft_bidirectional = bi,
            ft_applied_at = applied_time, ft_applied_by = by_whom\<rparr>)))))))"

record fault_state =
  fa_version :: json
  fa_faults :: "fault list"

definition new_fault_state :: fault_state where
  "new_fault_state = \<lparr>fa_version = JInt 1, fa_faults = []\<rparr>"

definition fault_state_json :: "fault_state \<Rightarrow> json" where
  "fault_state_json s =
     JObj [(''version'', fa_version s), (''faults'', JList (map fault_json (fa_faults s)))]"

definition fault_state_of_json :: "json \<Rightarrow> fault_state result" where
  "fault_state_of_json d =
     bindE (py_get d ''version'' (JInt 1)) (\<lambda>v.
     bindE (bindE (bindE (py_get d ''faults'' (JList [])) py_iter) (mapE fault_of_json)) (\<lambda>fs.
       Inr \<lparr>fa_version = v, fa_faults = fs\<rparr>))"

type_synonym fault_file = "json result option"

definition fa_load :: "fault_file \<Rightarrow> fault_state result" where
  "fa_load file =
     (case file of None \<Rightarrow> Inr new_fault_state | Some content \<Rightarrow> bindE content fault_state_of_json)"

text \<open>A write that succeeds. What a failed one leaves in the file is the system's matter.\<close>

definition fa_save :: "fault_state \<Rightarrow> fault_file" where
  "fa_save s = Some (Inr (fault_state_json s))"

definition add_fault :: "fault_state \<Rightarrow> fault \<Rightarrow> fault_state" where
  "add_fault s f = s\<lparr>fa_faults := fa_faults s @ [f]\<rparr>"

fun remove_first :: "json \<Rightarrow> fault list \<Rightarrow> fault list" where
  "remove_first i [] = []"
| "remove_first i (f # fs) = (if ft_id f = i then fs else f # remove_first i fs)"

definition remove_fault :: "fault_state \<Rightarrow> json \<Rightarrow> fault_state \<times> bool" where
  "remove_fault s fault_id =
     (if list_ex (\<lambda>f. ft_id f = fault_id) (fa_faults s)
      then (s\<lparr>fa_faults := remove_first fault_id (fa_faults s)\<rparr>, True)
      else (s, False))"

definition fa_clear_all :: "fault_state \<Rightarrow> fault_state \<times> int" where
  "fa_clear_all s = (s\<lparr>fa_faults := []\<rparr>, int (length (fa_faults s)))"

definition find_by_node :: "fault_state \<Rightarrow> string \<Rightarrow> fault list" where
  "find_by_node s node = filter (\<lambda>f. list_ex (\<lambda>t. ep_node t = JStr node) (ft_targets f)) (fa_faults s)"

definition find_by_interface :: "fault_state \<Rightarrow> string \<Rightarrow> string \<Rightarrow> fault list" where
  "find_by_interface s node iface =
     filter (\<lambda>f. list_ex (\<lambda>t. ep_node t = JStr node \<and> ep_interface t = JStr iface) (ft_targets f))
       (fa_faults s)"

subsection \<open>Fault ids\<close>

text \<open>The number in an id of the form \<open>fault-<n>\<close>; an id that is not text has no \<open>startswith\<close>.\<close>

definition fault_number :: "json \<Rightarrow> int option result" where
  "fault_number i =
     (case i of
        JStr s \<Rightarrow>
          if starts_with ''fault-'' s
          then (case split_on (CHR ''-'') s of
                  _ # n # _ \<Rightarrow> Inr (int_of_string n)
                | _ \<Rightarrow> Inr None)
          else Inr None
      | _ \<Rightarrow> Inl AttributeError)"

fun max_fault_number :: "int \<Rightarrow> fault list \<Rightarrow> int result" where
  "max_fault_number mx [] = Inr mx"
| "max_fault_number mx (f # fs) =
     bindE (fault_number (ft_id f)) (\<lambda>n.
       max_fault_number (case n of None \<Rightarrow> mx | Some k \<Rightarrow> max mx k) fs)"

definition fault_id_text :: "int \<Rightarrow> string" where
  "fault_id_text n = ''fault-'' @ zpad 3 (dec_str (nat n))"

definition generate_fault_id :: "fault_state \<Rightarrow> string result" where
  "generate_fault_id s = bindE (max_fault_number 0 (fa_faults s)) (\<lambda>mx. Inr (fault_id_text (mx + 1)))"

subsection \<open>Links of the topology\<close>

type_synonym endpoint_key = "string \<times> string"
type_synonym link_table = "(endpoint_key \<times> endpoint_key) list"

definition split_colon :: "json \<Rightarrow> string list result" where
  "split_colon v = (case v of JStr s \<Rightarrow> Inr (split_on (CHR '':'') s) | _ \<Rightarrow> Inl AttributeError)"

text \<open>One link: None when the entry is skipped.\<close>

definition link_endpoints :: "json \<Rightarrow> (endpoint_key \<times> endpoint_key) option result" where
  "link_endpoints link =
     bindE (py_get link ''endpoints'' (JList [])) (\<lambda>endpoints.
     bindE (py_len endpoints) (\<lambda>n.
       if n \<noteq> 2 then Inr None
       else
         bindE (bindE (py_index endpoints 0) split_colon) (\<lambda>a_parts.
         bindE (bindE (py_index endpoints 1) split_colon) (\<lambda>b_parts.
           case (a_parts, b_parts) of
             ([node_a, clab_a], [node_b, clab_b]) \<Rightarrow>
               bindE (clab_to_sonic clab_a) (\<lambda>sonic_a.
               bindE (clab_to_sonic clab_b) (\<lambda>sonic_b.
                 Inr (Some ((node_a, sonic_a), (node_b, sonic_b)))))
           | _ \<Rightarrow> Inr None))))"

definition add_link :: "link_table \<Rightarrow> (endpoint_key \<times> endpoint_key) option \<Rightarrow> link_table" where
  "add_link ls l = (case l of None \<Rightarrow> ls | Some (a, b) \<Rightarrow> dict_put b a (dict_put a b ls))"

fun load_link_loop :: "link_table \<Rightarrow> json list \<Rightarrow> link_table result" where
  "load_link_loop ls [] = Inr ls"
| "load_link_loop ls (link # links) =
     bindE (link_endpoints link) (\<lambda>l. load_link_loop (add_link ls l) links)"

definition load_links :: "json result option \<Rightarrow> link_table result" where
  "load_links file =
     (case file of
        None \<Rightarrow> Inl FileNotFoundError
      | Some content \<Rightarrow>
          bindE content (\<lambda>topo_doc.
          bindE (py_get topo_doc ''topology'' (JObj [])) (\<lambda>t.
          bindE (py_get t ''links'' (JList [])) (\<lambda>links.
          bindE (py_iter links) (load_link_loop [])))))"

definition get_peer :: "link_table \<Rightarrow> string \<Rightarrow> string \<Rightarrow> endpoint_key option" where
  "get_peer ls node iface = dict_get ls (node, iface)"

definition get_all_interfaces :: "link_table \<Rightarrow> string \<Rightarrow> string list" where
  "get_all_interfaces ls node =
     sorted_str_set (map (snd \<circ> fst) (filter (\<lambda>e. fst (fst e) = node) ls))"

subsection \<open>Interface commands\<close>

definition docker_exec :: "'s runner \<Rightarrow> string \<Rightarrow> string list \<Rightarrow> 's \<Rightarrow> 's \<times> run_result result" where
  "docker_exec run node cmd w = run w ([''docker'', ''exec'', node] @ cmd)"

definition set_interface :: "'s runner \<Rightarrow> string \<Rightarrow> string \<Rightarrow> string \<Rightarrow> 's \<Rightarrow> 's \<times> unit result" where
  "set_interface run direction node iface w =
     (case sonic_to_clab iface of
        Inl e \<Rightarrow> (w, Inl e)
      | Inr clab_iface \<Rightarrow>
          (case docker_exec run node [''ip'', ''link'', ''set'', clab_iface, direction] w of
             (w1, Inl e) \<Rightarrow> (w1, Inl e)
           | (w1, Inr res) \<Rightarrow> (w1, raise_if (returncode res \<noteq> 0) RuntimeError)))"

definition shutdown_interface :: "'s runner \<Rightarrow> string \<Rightarrow> string \<Rightarrow> 's \<Rightarrow> 's \<times> unit result" where
  "shutdown_interface run node iface w = set_interface run ''down'' node iface w"

definition startup_interface :: "'s runner \<Rightarrow> string \<Rightarrow> string \<Rightarrow> 's \<Rightarrow> 's \<times> unit result" where
  "startup_interface run node iface w = set_interface run ''up'' node iface w"

end
