(* ===== verification/FaultCli.thy ===== *)
theory FaultCli
  imports Fault
begin

text \<open>
  The fault commands of \<^verbatim>\<open>srv6_mrc/cli/srctl.py\<close>. Each takes the machine and the fault file and
  returns both with its exit code or the exception that ends the program. Printing is not
  modelled. The time stamp is an argument; an option that was not given is the empty string, as
  both are false.
\<close>

type_synonym 's fault_world = "'s \<times> fault_file"

subsection \<open>Shutdown\<close>

definition shutdown_targets :: "link_table \<Rightarrow> string \<Rightarrow> bool \<Rightarrow> string list \<Rightarrow> endpoint_key list" where
  "shutdown_targets ls node unidirectional interfaces =
     concat (map (\<lambda>iface. (node, iface) #
       (if unidirectional then []
        else case get_peer ls node iface of Some peer \<Rightarrow> [peer] | None \<Rightarrow> [])) interfaces)"

fun shutdown_all :: "'s runner \<Rightarrow> endpoint_key list \<Rightarrow> 's \<Rightarrow> 's \<times> unit result" where
  "shutdown_all run [] w = (w, Inr ())"
| "shutdown_all run ((node, iface) # ts) w =
     (case shutdown_interface run node iface w of
        (w1, Inl e) \<Rightarrow> (w1, Inl e)
      | (w1, Inr _) \<Rightarrow> shutdown_all run ts w1)"

definition endpoint_of_key :: "endpoint_key \<Rightarrow> interface_endpoint" where
  "endpoint_of_key k = \<lparr>ep_node = JStr (fst k), ep_interface = JStr (snd k)\<rparr>"

definition record_new_fault ::
  "fault_state \<Rightarrow> (string \<Rightarrow> fault) \<Rightarrow> 's \<Rightarrow> fault_file \<Rightarrow> 's fault_world \<times> int result" where
  "record_new_fault st mk w file =
     (case generate_fault_id st of
        Inl e \<Rightarrow> ((w, file), Inl e)
      | Inr fault_id \<Rightarrow> ((w, fa_save (add_fault st (mk fault_id))), Inr 0))"

definition cmd_fault_shutdown ::
  "'s runner \<Rightarrow> json result option \<Rightarrow> string \<Rightarrow> string \<Rightarrow> string list \<Rightarrow> bool \<Rightarrow> 's fault_world \<Rightarrow>
   's fault_world \<times> int result" where
  "cmd_fault_shutdown run topo_file now node interfaces unidirectional fw =
     (let (w, file) = fw in
      case fa_load file of
        Inl e \<Rightarrow> (fw, Inl e)
      | Inr st \<Rightarrow>
          (case load_links topo_file of
             Inl e \<Rightarrow> (fw, Inl e)
           | Inr ls \<Rightarrow>
               (let every = (length interfaces = 1 \<and> py_lower (interfaces ! 0) = ''all'');
                    ifaces = (if every then get_all_interfaces ls node else interfaces) in
                if every \<and> ifaces = [] then (fw, Inr 1)
                else if list_ex (\<lambda>iface. \<not> starts_with ''Ethernet'' iface) ifaces then (fw, Inr 1)
                else let targets = shutdown_targets ls node unidirectional ifaces in
                  (case shutdown_all run targets w of
                     (w1, Inl e) \<Rightarrow> ((w1, file), if e = RuntimeError then Inr 1 else Inl e)
                   | (w1, Inr _) \<Rightarrow>
                       record_new_fault st
                         (\<lambda>i. \<lparr>ft_id = JStr i, ft_type = JStr ''shutdown'',
                               ft_targets = map endpoint_of_key targets, ft_spec = JStr ''down'',
                               ft_bidirectional = JBool (\<not> unidirectional),
                               ft_applied_at = JStr now, ft_applied_by = JStr ''srctl fault''\<rparr>)
                         w1 file))))"

subsection \<open>Netem\<close>

definition cmd_fault_netem ::
  "topo \<Rightarrow> 's runner \<Rightarrow> string \<Rightarrow> string \<Rightarrow> string \<Rightarrow> 's fault_world \<Rightarrow> 's fault_world \<times> int result" where
  "cmd_fault_netem g run now target spec fw =
     (let (w, file) = fw in
      case nm_apply g run False (mk_netem [mk_netem_fault (JStr target) (JStr spec)] (CLAB_TOPOLOGY_NAME g)) w of
        (_, w1, Inl e) \<Rightarrow> ((w1, file), Inr 1)
      | (_, w1, Inr _) \<Rightarrow>
          (case fa_load file of
             Inl e \<Rightarrow> ((w1, file), Inl e)
           | Inr st \<Rightarrow>
               record_new_fault st
                 (\<lambda>i. \<lparr>ft_id = JStr i, ft_type = JStr ''netem'',
                       ft_targets = [\<lparr>ep_node = JStr ''netem'', ep_interface = JStr target\<rparr>],
                       ft_spec = JStr spec, ft_bidirectional = JBool False,
                       ft_applied_at = JStr now, ft_applied_by = JStr ''srctl fault''\<rparr>)
                 w1 file))"

subsection \<open>Clear\<close>

text \<open>
  \<open>startup_interface\<close> on a decoded target: the interface is sliced before the command is built, a
  node that is not text is rejected by \<open>subprocess\<close>.
\<close>

definition startup_target :: "'s runner \<Rightarrow> interface_endpoint \<Rightarrow> 's \<Rightarrow> 's \<times> unit result" where
  "startup_target run t w =
     (case ep_interface t of
        JStr iface \<Rightarrow>
          (case ep_node t of
             JStr node \<Rightarrow> startup_interface run node iface w
           | _ \<Rightarrow> (case sonic_to_clab iface of Inl e \<Rightarrow> (w, Inl e) | Inr _ \<Rightarrow> (w, Inl TypeError)))
      | _ \<Rightarrow> (w, Inl AttributeError))"

fun startup_all :: "'s runner \<Rightarrow> interface_endpoint list \<Rightarrow> 's \<Rightarrow> 's \<times> unit result" where
  "startup_all run [] w = (w, Inr ())"
| "startup_all run (t # ts) w =
     (case startup_target run t w of
        (w1, Inl e) \<Rightarrow> if e = RuntimeError then startup_all run ts w1 else (w1, Inl e)
      | (w1, Inr _) \<Rightarrow> startup_all run ts w1)"

definition revert_fault :: "topo \<Rightarrow> 's runner \<Rightarrow> fault \<Rightarrow> 's \<Rightarrow> 's \<times> unit result" where
  "revert_fault g run f w =
     (if ft_type f = JStr ''shutdown'' then startup_all run (ft_targets f) w
      else if ft_type f = JStr ''netem''
      then (case ft_targets f of
              [] \<Rightarrow> (w, Inl IndexError)
            | t # _ \<Rightarrow>
                (let spec = (if py_truth (ft_spec f) then ft_spec f else JStr []) in
                 case nm_revert run False
                        (mk_netem [mk_netem_fault (ep_interface t) spec] (CLAB_TOPOLOGY_NAME g)) w of
                   (_, w1, _) \<Rightarrow> (w1, Inr ())))
      else (w, Inr ()))"

fun revert_all :: "topo \<Rightarrow> 's runner \<Rightarrow> fault list \<Rightarrow> 's \<Rightarrow> 's \<times> unit result" where
  "revert_all g run [] w = (w, Inr ())"
| "revert_all g run (f # fs) w =
     (case revert_fault g run f w of
        (w1, Inl e) \<Rightarrow> (w1, Inl e)
      | (w1, Inr _) \<Rightarrow> revert_all g run fs w1)"

text \<open>The loop that reverts and removes each fault it found.\<close>

fun revert_remove ::
  "topo \<Rightarrow> 's runner \<Rightarrow> fault list \<Rightarrow> fault_state \<Rightarrow> 's \<Rightarrow> fault_state \<times> 's \<times> unit result" where
  "revert_remove g run [] st w = (st, w, Inr ())"
| "revert_remove g run (f # fs) st w =
     (case revert_fault g run f w of
        (w1, Inl e) \<Rightarrow> (st, w1, Inl e)
      | (w1, Inr _) \<Rightarrow> revert_remove g run fs (fst (remove_fault st (ft_id f))) w1)"

definition cmd_fault_clear ::
  "topo \<Rightarrow> 's runner \<Rightarrow> bool \<Rightarrow> string \<Rightarrow> string \<Rightarrow> 's fault_world \<Rightarrow> 's fault_world \<times> int result" where
  "cmd_fault_clear g run every node iface fw =
     (let (w, file) = fw in
      case fa_load file of
        Inl e \<Rightarrow> (fw, Inl e)
      | Inr st \<Rightarrow>
          if every
          then (if fa_faults st = [] then (fw, Inr 0)
                else case revert_all g run (fa_faults st) w of
                       (w1, Inl e) \<Rightarrow> ((w1, file), Inl e)
                     | (w1, Inr _) \<Rightarrow> ((w1, fa_save (fst (fa_clear_all st))), Inr 0))
          else if node \<noteq> []
          then (let faults = (if iface \<noteq> [] then find_by_interface st node iface else find_by_node st node) in
                if faults = [] then (fw, Inr 0)
                else case revert_remove g run faults st w of
                       (st1, w1, Inl e) \<Rightarrow> ((w1, file), Inl e)
                     | (st1, w1, Inr _) \<Rightarrow> ((w1, fa_save st1), Inr 0))
          else (fw, Inr 1))"

end
