(* ===== verification/FaultProperties.thy ===== *)
theory FaultProperties
  imports FaultCli NetemProperties
begin

text \<open>
  Properties of the fault bookkeeping: names and ids, the link table, and the fault commands seen
  together: which interfaces are down and which faults are on file, over any sequence of commands.
\<close>

subsection \<open>Interface names\<close>

text \<open>
  The two interface namings correspond: a containerlab name that converts, converts back to
  its normal form \<open>eth<n>\<close>, which names the same interface; and converting a SONiC name there and
  back gives its normal form, which converts to the same containerlab name.
\<close>

theorem interface_names_roundtrip:
  "(\<forall>c s. clab_to_sonic c = Inr s \<longrightarrow>
      (\<exists>n. int_of_string (drop 3 c) = Some n \<and> sonic_to_clab s = Inr (''eth'' @ int_str n)
         \<and> clab_to_sonic (''eth'' @ int_str n) = Inr s))
   \<and> (\<forall>s c. sonic_to_clab s = Inr c \<longrightarrow>
      (\<exists>m. int_of_string (drop 8 s) = Some m \<and> clab_to_sonic c = Inr (''Ethernet'' @ int_str m)
         \<and> sonic_to_clab (''Ethernet'' @ int_str m) = Inr c))"
proof (intro conjI allI impI)
  fix c s assume "clab_to_sonic c = Inr s"
  then obtain n where n: "int_of_string (drop 3 c) = Some n" "s = ''Ethernet'' @ int_str ((n - 1) * 4)"
    by (auto simp: clab_to_sonic_def split: if_splits option.splits)
  then show "\<exists>n. int_of_string (drop 3 c) = Some n \<and> sonic_to_clab s = Inr (''eth'' @ int_str n)
      \<and> clab_to_sonic (''eth'' @ int_str n) = Inr s"
    by (auto simp: sonic_to_clab_def clab_to_sonic_def starts_with_def)
next
  fix s c assume "sonic_to_clab s = Inr c"
  then obtain m where m: "int_of_string (drop 8 s) = Some m" "m mod 4 = 0"
    "c = ''eth'' @ int_str (m div 4 + 1)"
    by (auto simp: sonic_to_clab_def split: if_splits option.splits)
  then have "m div 4 * 4 = m" by presburger
  with m show "\<exists>m. int_of_string (drop 8 s) = Some m \<and> clab_to_sonic c = Inr (''Ethernet'' @ int_str m)
      \<and> sonic_to_clab (''Ethernet'' @ int_str m) = Inr c"
    by (auto simp: sonic_to_clab_def clab_to_sonic_def starts_with_def)
qed

theorem interface_names_roundtrip_witness:
  "sonic_to_clab ''Ethernet32'' = Inr ''eth9'' \<and> clab_to_sonic ''eth9'' = Inr ''Ethernet32''"
proof -
  have e: "sonic_to_clab ''Ethernet32'' = Inr ''eth9''" by code_simp
  have n: "int_of_string (drop 8 ''Ethernet32'') = Some 32" "int_str 32 = ''32''" by code_simp+
  from e interface_names_roundtrip obtain m where "int_of_string (drop 8 ''Ethernet32'') = Some m"
    "clab_to_sonic ''eth9'' = Inr (''Ethernet'' @ int_str m)" by blast
  then show ?thesis using e n by simp
qed

subsection \<open>The fault file\<close>

lemma endpoint_of_endpoint_json [simp]: "endpoint_of_json (endpoint_json t) = Inr t"
  by (simp add: endpoint_of_json_def endpoint_json_def)

lemma fault_of_fault_json [simp]: "fault_of_json (fault_json f) = Inr f"
proof -
  have "mapE endpoint_of_json (map endpoint_json ts) = Inr ts" for ts by (induction ts) simp_all
  then show ?thesis by (simp add: fault_of_json_def fault_json_def)
qed

lemma fa_load_save [simp]: "fa_load (fa_save s) = Inr s"
proof -
  have "mapE fault_of_json (map fault_json fs) = Inr fs" for fs by (induction fs) simp_all
  then show ?thesis
    by (simp add: fa_load_def fa_save_def fault_state_of_json_def fault_state_json_def)
qed

text \<open>
  Saving a fault list and loading the file gives the same list, with every field of every
  fault: the JSON form loses nothing.
\<close>

theorem fault_file_roundtrip: "fa_load (fa_save s) = Inr s"
  by (rule fa_load_save)

subsection \<open>Fault ids\<close>

lemma max_fault_number_bound:
  assumes "max_fault_number mx fs = Inr m"
  shows "mx \<le> m" and "\<And>f n. f \<in> set fs \<Longrightarrow> fault_number (ft_id f) = Inr (Some n) \<Longrightarrow> n \<le> m"
proof -
  have "max_fault_number mx fs = Inr m \<Longrightarrow>
      mx \<le> m \<and> (\<forall>f \<in> set fs. \<forall>n. fault_number (ft_id f) = Inr (Some n) \<longrightarrow> n \<le> m)" for mx
  proof (induction fs arbitrary: mx)
    case (Cons f fs)
    then show ?case by (fastforce simp: py_simps split: option.splits)
  qed simp
  then show "mx \<le> m" and "\<And>f n. f \<in> set fs \<Longrightarrow> fault_number (ft_id f) = Inr (Some n) \<Longrightarrow> n \<le> m"
    using assms by blast+
qed

lemma fault_number_text:
  assumes "0 \<le> n"
  shows "fault_number (JStr (fault_id_text n)) = Inr (Some n)"
proof -
  have "CHR ''-'' \<notin> set (zpad 3 (dec_str (nat n)))"
    using decimal_chars(3) [OF decimal_zpad [OF decimal_dec_str]] by blast
  then show ?thesis
    using assms by (simp add: fault_number_def fault_id_text_def starts_with_def split_on_none)
qed

lemma generate_fault_id_fresh:
  assumes "generate_fault_id s = Inr i"
  shows "JStr i \<notin> ft_id ` set (fa_faults s)"
proof
  assume "JStr i \<in> ft_id ` set (fa_faults s)"
  then obtain f where f: "f \<in> set (fa_faults s)" "ft_id f = JStr i" by auto
  obtain mx where mx: "max_fault_number 0 (fa_faults s) = Inr mx" "i = fault_id_text (mx + 1)"
    using assms by (auto simp: generate_fault_id_def py_simps)
  have "0 \<le> mx" using max_fault_number_bound(1) [OF mx(1)] .
  then have "fault_number (ft_id f) = Inr (Some (mx + 1))" using fault_number_text f(2) mx(2) by simp
  from max_fault_number_bound(2) [OF mx(1) f(1) this] show False by simp
qed

subsection \<open>The link table\<close>

text \<open>The entries of a topology, as the loader reads them.\<close>

definition links_of :: "(endpoint_key \<times> endpoint_key) option list \<Rightarrow> (endpoint_key \<times> endpoint_key) list" where
  "links_of ls = List.map_filter id ls"

lemma load_link_loop_fold:
  "load_link_loop ls links = bindE (mapE link_endpoints links) (\<lambda>es. Inr (foldl add_link ls es))"
proof (induction links arbitrary: ls)
  case (Cons l links)
  then show ?case by (cases "link_endpoints l"; cases "mapE link_endpoints links") simp_all
qed simp

definition mutual :: "link_table \<Rightarrow> bool" where
  "mutual ls \<longleftrightarrow> (\<forall>a b. dict_get ls a = Some b \<longrightarrow> dict_get ls b = Some a)"

lemma foldl_add_link:
  assumes "distinct (concat (map (\<lambda>(a, b). [a, b]) (links_of es)))"
    and "\<forall>k \<in> set (concat (map (\<lambda>(a, b). [a, b]) (links_of es))). dict_get ls k = None"
    and "mutual ls"
  shows "mutual (foldl add_link ls es)"
  using assms
proof (induction es arbitrary: ls)
  case (Cons e es)
  show ?case
  proof (cases e)
    case None
    then have "links_of (e # es) = links_of es" "foldl add_link ls (e # es) = foldl add_link ls es"
      by (simp_all add: add_link_def links_of_def map_filter_simps)
    with Cons.IH [of ls] Cons.prems show ?thesis by simp
  next
    case (Some l)
    obtain a b where l: "l = (a, b)" by (cases l)
    have ks: "links_of (e # es) = (a, b) # links_of es" using Some l by (simp add: links_of_def map_filter_simps)
    have new: "dict_get ls a = None" "dict_get ls b = None" "a \<noteq> b"
      using Cons.prems(1,2) ks by auto
    have nv: "dict_get ls x \<noteq> Some a" "dict_get ls x \<noteq> Some b" for x
      using Cons.prems(3) new(1,2) unfolding mutual_def by fastforce+
    let ?ls = "add_link ls e"
    have get: "dict_get ?ls x = (if x = b then Some a else if x = a then Some b else dict_get ls x)" for x
      using Some l by (simp add: add_link_def)
    have "\<forall>k \<in> set (concat (map (\<lambda>(a, b). [a, b]) (links_of es))). dict_get ?ls k = None"
      using Cons.prems(1,2) ks get by auto
    moreover have mut: "dict_get ?ls y = Some x" if "dict_get ?ls x = Some y" for x y
    proof (cases "x = a \<or> x = b")
      case True
      then show ?thesis using that get new(3) by (auto split: if_splits)
    next
      case False
      then have "dict_get ls x = Some y" using that get by simp
      then have "dict_get ls y = Some x" "y \<noteq> a" "y \<noteq> b"
        using Cons.prems(3) nv unfolding mutual_def by blast+
      then show ?thesis using get by simp
    qed
    moreover have "distinct (concat (map (\<lambda>(a, b). [a, b]) (links_of es)))" using Cons.prems(1) ks by auto
    moreover have "mutual ?ls" unfolding mutual_def using mut by blast
    ultimately show ?thesis unfolding foldl_Cons by (intro Cons.IH)
  qed
qed simp

text \<open>
  In a topology file that uses each interface in at most one link, peers are mutual: the peer
  of the peer of an interface is that interface.
\<close>

theorem link_peers_mutual:
  assumes "load_links (Some (Inr doc)) = Inr ls"
    and "py_get doc ''topology'' (JObj []) = Inr t" and "py_get t ''links'' (JList []) = Inr (JList links)"
    and "mapE link_endpoints links = Inr es"
    and "distinct (concat (map (\<lambda>(a, b). [a, b]) (links_of es)))"
  shows "get_peer ls n i = Some (n', i') \<longleftrightarrow> get_peer ls n' i' = Some (n, i)"
proof -
  have "ls = foldl add_link [] es" using assms(1-4) by (simp add: load_links_def load_link_loop_fold)
  moreover have "mutual (foldl add_link [] es)"
    by (rule foldl_add_link [OF assms(5)]) (simp_all add: mutual_def)
  ultimately have "mutual ls" by simp
  then show ?thesis unfolding get_peer_def mutual_def by blast
qed

definition demo_links_doc :: json where
  "demo_links_doc = JObj [(''topology'', JObj [(''links'', JList
     [JObj [(''endpoints'', JList [JStr ''s1:eth1'', JStr ''l1:eth2''])],
      JObj [(''endpoints'', JList [JStr ''s1:eth2'', JStr ''l2:eth2''])]])])]"

definition demo_links :: link_table where
  "demo_links = (case load_links (Some (Inr demo_links_doc)) of Inr ls \<Rightarrow> ls | Inl e \<Rightarrow> [])"

theorem link_peers_mutual_witness:
  "get_peer demo_links ''l1'' ''Ethernet4'' = Some (''s1'', ''Ethernet0'')
   \<longleftrightarrow> get_peer demo_links ''s1'' ''Ethernet0'' = Some (''l1'', ''Ethernet4'')"
proof (rule link_peers_mutual)
  show "load_links (Some (Inr demo_links_doc)) = Inr demo_links" by code_simp
  show "py_get demo_links_doc ''topology'' (JObj []) = Inr (JObj [(''links'', JList
     [JObj [(''endpoints'', JList [JStr ''s1:eth1'', JStr ''l1:eth2''])],
      JObj [(''endpoints'', JList [JStr ''s1:eth2'', JStr ''l2:eth2''])]])])"
    by (simp add: demo_links_doc_def)
  show "py_get (JObj [(''links'', JList
     [JObj [(''endpoints'', JList [JStr ''s1:eth1'', JStr ''l1:eth2''])],
      JObj [(''endpoints'', JList [JStr ''s1:eth2'', JStr ''l2:eth2''])]])]) ''links'' (JList []) =
     Inr (JList [JObj [(''endpoints'', JList [JStr ''s1:eth1'', JStr ''l1:eth2''])],
      JObj [(''endpoints'', JList [JStr ''s1:eth2'', JStr ''l2:eth2''])]])"
    by simp
  show "mapE link_endpoints [JObj [(''endpoints'', JList [JStr ''s1:eth1'', JStr ''l1:eth2''])],
      JObj [(''endpoints'', JList [JStr ''s1:eth2'', JStr ''l2:eth2''])]] =
     Inr [Some ((''s1'', ''Ethernet0''), (''l1'', ''Ethernet4'')),
          Some ((''s1'', ''Ethernet4''), (''l2'', ''Ethernet4''))]"
    by code_simp
  show "distinct (concat (map (\<lambda>(a, b). [a, b]) (links_of
     [Some ((''s1'', ''Ethernet0''), (''l1'', ''Ethernet4'')),
      Some ((''s1'', ''Ethernet4''), (''l2'', ''Ethernet4''))])))"
    by code_simp
qed

end
