(* ===== verification/FaultRuns.thy ===== *)
theory FaultRuns
  imports FaultProperties
begin

text \<open>
  The fault commands over time: which interfaces are down on the machine against which faults are
  on file, for every sequence of commands with any outcomes, a shutdown that stops half way included.
  The machine obeys the documented behaviour of \<open>ip link set\<close>; the netem commands do not touch link state.
\<close>

subsection \<open>The contract of the machine\<close>

definition link_argv :: "string \<Rightarrow> string \<Rightarrow> string \<Rightarrow> string list" where
  "link_argv node clab direction =
     [''docker'', ''exec'', node] @ [''ip'', ''link'', ''set'', clab, direction]"

definition link_contract :: "'s runner \<Rightarrow> ('s \<Rightarrow> (string \<times> string) set) \<Rightarrow> bool" where
  "link_contract run down \<longleftrightarrow>
     (\<forall>w argv. \<exists>res. snd (run w argv) = Inr res)
   \<and> (\<forall>w name. down (fst (run w (docker_pid_cmd name))) = down w)
   \<and> (\<forall>w pid ifname tokens. down (fst (run w (nsenter_tc_argv_add pid ifname tokens))) = down w)
   \<and> (\<forall>w pid ifname. down (fst (run w (nsenter_tc_argv_del pid ifname))) = down w)
   \<and> (\<forall>w node clab. let (w', r) = run w (link_argv node clab ''down'') in
        if ran_ok r then down w' = insert (node, clab) (down w) else down w' = down w)
   \<and> (\<forall>w node clab. let (w', r) = run w (link_argv node clab ''up'') in
        if (node, clab) \<in> down w then ran_ok r \<and> down w' = down w - {(node, clab)}
        else down w' = down w)"

lemma link_no_raise:
  assumes "link_contract run down"
  obtains w' res where "run w argv = (w', Inr res)"
proof -
  have "\<exists>res. snd (run w argv) = Inr res" using assms unfolding link_contract_def by blast
  then show thesis using that by (metis prod.collapse)
qed

lemma link_down:
  assumes "link_contract run down" "run w (link_argv node clab ''down'') = (w', Inr res)"
  shows "down w' = (if returncode res = 0 then insert (node, clab) (down w) else down w)"
proof -
  have "let (w', r) = run w (link_argv node clab ''down'') in
        if ran_ok r then down w' = insert (node, clab) (down w) else down w' = down w"
    using assms(1) unfolding link_contract_def by blast
  then show ?thesis using assms(2) by (auto simp: ran_ok_def split: if_splits)
qed

lemma link_up:
  assumes "link_contract run down" "run w (link_argv node clab ''up'') = (w', Inr res)"
  shows "down w' = down w - {(node, clab)}"
proof -
  have "let (w', r) = run w (link_argv node clab ''up'') in
        if (node, clab) \<in> down w then ran_ok r \<and> down w' = down w - {(node, clab)}
        else down w' = down w"
    using assms(1) unfolding link_contract_def by blast
  then show ?thesis using assms(2) by (auto split: if_splits)
qed

subsection \<open>Netem leaves link state alone\<close>

lemma link_neutral:
  assumes "link_contract run down"
  shows "run w (docker_pid_cmd name) = (w', r) \<Longrightarrow> down w' = down w"
    "run w (nsenter_tc_argv_add pid ifname tokens) = (w', r) \<Longrightarrow> down w' = down w"
    "run w (nsenter_tc_argv_del pid ifname) = (w', r) \<Longrightarrow> down w' = down w"
  using assms unfolding link_contract_def by (metis fst_conv)+

lemma resolve_names_neutral:
  assumes "link_contract run down"
  shows "resolve_names run names w = (w', r) \<Longrightarrow> down w' = down w"
proof (induction names arbitrary: w)
  case (Cons name names)
  obtain w1 res where r1: "run w (docker_pid_cmd name) = (w1, Inr res)" by (rule link_no_raise [OF assms])
  have eq: "down w1 = down w" by (rule link_neutral(1) [OF assms r1])
  show ?case
  proof (cases "returncode res = 0 \<and> pid_of_stdout (stdout res) \<noteq> Inr None")
    case True
    then show ?thesis using Cons.prems r1 eq by (auto split: sum.splits option.splits)
  next
    case False
    then have "resolve_names run names w1 = (w', r)" using Cons.prems r1 by (auto split: if_splits)
    then show ?thesis using Cons.IH eq by simp
  qed
qed simp

lemma revert_loop_neutral:
  assumes "link_contract run down"
  shows "revert_loop run quiet rs w invoked = (rest, w', r) \<Longrightarrow> down w' = down w"
proof (induction rs arbitrary: w invoked)
  case (Cons k rs)
  obtain pid ifname where k: "k = (pid, ifname)" by (cases k)
  obtain w1 res where r1: "run w (nsenter_tc_argv_del pid ifname) = (w1, Inr res)"
    by (rule link_no_raise [OF assms])
  have eq: "down w1 = down w" by (rule link_neutral(3) [OF assms r1])
  show ?case using Cons.prems Cons.IH [of w1] k r1 eq by (auto simp: Let_def split: if_splits)
qed simp

lemma nm_revert_neutral:
  assumes "link_contract run down" "nm_revert run quiet nm w = (nm', w', r)"
  shows "down w' = down w"
proof -
  obtain rest w1 r1 where l: "revert_loop run quiet (rev (nm_applied nm)) w [] = (rest, w1, r1)"
    by (metis prod_cases3)
  then show ?thesis using assms revert_loop_neutral [OF assms(1) l] by (simp add: nm_revert_def)
qed

lemma add_nics_neutral:
  assumes "link_contract run down"
  shows "add_nics run False tokens nics nm w invoked = (nm', w', r) \<Longrightarrow> down w' = down w"
proof (induction nics arbitrary: nm w invoked)
  case (Cons nic nics)
  obtain c ifname where nic: "nic = (c, ifname)" by (cases nic)
  obtain w1 r1 where r1: "resolve_container_pid run (nm_topo nm) c w = (w1, r1)" by fastforce
  have eq1: "down w1 = down w"
    using resolve_names_neutral [OF assms] r1 unfolding resolve_container_pid_def by blast
  show ?case
  proof (cases r1)
    case (Inl e)
    then show ?thesis using Cons.prems nic r1 eq1 by simp
  next
    case (Inr pid)
    obtain w2 res where r2: "run w1 (nsenter_tc_argv_add pid ifname tokens) = (w2, Inr res)"
      by (rule link_no_raise [OF assms])
    have eq2: "down w2 = down w" using link_neutral(2) [OF assms r2] eq1 by simp
    obtain nm3 w3 r3 where r3: "nm_revert run True nm w2 = (nm3, w3, r3)" by (metis prod_cases3)
    have eq3: "down w3 = down w" using nm_revert_neutral [OF assms r3] eq2 by simp
    show ?thesis
    proof (cases "returncode res = 0")
      case True
      then show ?thesis using Cons.prems Cons.IH nic r1 Inr r2 eq2 by (fastforce simp: Let_def)
    next
      case False
      then have "w' = w3" using Cons.prems nic r1 Inr r2 r3 by (auto simp: Let_def split: sum.splits)
      then show ?thesis using eq3 by simp
    qed
  qed
qed simp

lemma nm_apply_neutral:
  assumes "link_contract run down" "nm_apply g run False nm w = (nm', w', r)"
  shows "down w' = down w"
proof -
  have "apply_faults g run False before after nm w invoked = (nm', w', r) \<Longrightarrow> down w' = down w"
    for before after nm w invoked
  proof (induction after arbitrary: before nm w invoked)
    case (Cons f after)
    show ?case
    proof (cases "if nf_resolved f then Inr f else nf_resolve g f")
      case (Inl e)
      then show ?thesis using Cons.prems by simp
    next
      case (Inr f1)
      obtain nm1 w1 r1 where a1: "add_nics run False (nf_tokens f1) (nf_nics f1)
          (nm\<lparr>nm_faults := before @ f1 # after\<rparr>) w invoked = (nm1, w1, r1)" by (metis prod_cases3)
      have "down w1 = down w" by (rule add_nics_neutral [OF assms(1) a1])
      then show ?thesis using Cons.prems Cons.IH Inr a1 by (cases r1) fastforce+
    qed
  qed simp
  then show ?thesis using assms(2) unfolding nm_apply_def by blast
qed

subsection \<open>Taking interfaces down and up\<close>

lemma shutdown_all_down:
  assumes "link_contract run down"
  shows "shutdown_all run ts w = (w', Inr ()) \<Longrightarrow>
    (\<forall>(n, i) \<in> set ts. \<exists>clab. sonic_to_clab i = Inr clab)
    \<and> down w' = down w \<union> {(n, clab). \<exists>i. (n, i) \<in> set ts \<and> sonic_to_clab i = Inr clab}"
proof (induction ts arbitrary: w)
  case (Cons t ts)
  obtain n i where t: "t = (n, i)" by (cases t)
  obtain w1 where s1: "shutdown_interface run n i w = (w1, Inr ())" "shutdown_all run ts w1 = (w', Inr ())"
    using Cons.prems t by (auto split: prod.splits sum.splits)
  then obtain clab where clab: "sonic_to_clab i = Inr clab"
    by (auto simp: shutdown_interface_def set_interface_def split: sum.splits)
  obtain w2 res where r: "run w (link_argv n clab ''down'') = (w2, Inr res)" by (rule link_no_raise [OF assms])
  have "w2 = w1" "returncode res = 0"
    using s1(1) clab r by (simp_all add: shutdown_interface_def set_interface_def docker_exec_def link_argv_def)
  then have "down w1 = insert (n, clab) (down w)" using link_down [OF assms r] by simp
  then show ?case using Cons.IH [OF s1(2)] t clab by auto
qed simp

text \<open>The interfaces that a set of SONiC endpoints names; a shutdown, whatever its outcome, downs no other.\<close>

definition named_by :: "endpoint_key set \<Rightarrow> (string \<times> string) set" where
  "named_by L = {(n, clab). \<exists>i. (n, i) \<in> L \<and> sonic_to_clab i = Inr clab}"

lemma named_by_union [simp]: "named_by (L \<union> M) = named_by L \<union> named_by M"
  by (auto simp: named_by_def)

lemma shutdown_all_within:
  assumes "link_contract run down"
  shows "shutdown_all run ts w = (w', r) \<Longrightarrow> down w' \<subseteq> down w \<union> named_by (set ts)"
proof (induction ts arbitrary: w)
  case (Cons t ts)
  obtain n i where t: "t = (n, i)" by (cases t)
  show ?case
  proof (cases "sonic_to_clab i")
    case (Inl e)
    then show ?thesis using Cons.prems t by (simp add: shutdown_interface_def set_interface_def)
  next
    case (Inr clab)
    obtain w1 res where r: "run w (link_argv n clab ''down'') = (w1, Inr res)" by (rule link_no_raise [OF assms])
    have d: "down w1 \<subseteq> down w \<union> named_by {t}"
      using link_down [OF assms r] Inr t by (auto simp: named_by_def)
    have "shutdown_interface run n i w = (w1, raise_if (returncode res \<noteq> 0) RuntimeError)"
      using Inr r by (simp add: shutdown_interface_def set_interface_def docker_exec_def link_argv_def)
    then consider "w' = w1" | "shutdown_all run ts w1 = (w', r)"
      using Cons.prems t by (auto simp: raise_if_def split: if_splits)
    then show ?thesis
      using d Cons.IH [of w1] by cases (auto simp: named_by_def)
  qed
qed simp

definition covers :: "fault \<Rightarrow> (string \<times> string) set" where
  "covers f = {(n, clab). ft_type f = JStr ''shutdown''
     \<and> (\<exists>i. endpoint_of_key (n, i) \<in> set (ft_targets f) \<and> sonic_to_clab i = Inr clab)}"

definition fault_wf :: "fault \<Rightarrow> bool" where
  "fault_wf f \<longleftrightarrow>
     ft_type f = JStr ''shutdown''
       \<and> (\<forall>t \<in> set (ft_targets f). \<exists>n i clab. t = endpoint_of_key (n, i) \<and> sonic_to_clab i = Inr clab)
   \<or> ft_type f = JStr ''netem'' \<and> ft_targets f \<noteq> []"

lemma endpoint_of_key_inj [simp]: "endpoint_of_key (n, i) = endpoint_of_key (m, j) \<longleftrightarrow> n = m \<and> i = j"
  by (auto simp: endpoint_of_key_def)

lemma startup_all_up:
  assumes "link_contract run down"
    and "\<forall>t \<in> set ts. \<exists>n i clab. t = endpoint_of_key (n, i) \<and> sonic_to_clab i = Inr clab"
  shows "\<exists>w'. startup_all run ts w = (w', Inr ())
    \<and> down w' = down w - {(n, clab). \<exists>i. endpoint_of_key (n, i) \<in> set ts \<and> sonic_to_clab i = Inr clab}"
  using assms(2)
proof (induction ts arbitrary: w)
  case (Cons t ts)
  obtain n i clab where t: "t = endpoint_of_key (n, i)" "sonic_to_clab i = Inr clab" using Cons.prems by auto
  obtain w1 res where r: "run w (link_argv n clab ''up'') = (w1, Inr res)" by (rule link_no_raise [OF assms(1)])
  have d1: "down w1 = down w - {(n, clab)}" by (rule link_up [OF assms(1) r])
  have "startup_target run t w = (w1, raise_if (returncode res \<noteq> 0) RuntimeError)"
    using t r by (simp add: startup_target_def endpoint_of_key_def startup_interface_def set_interface_def
        docker_exec_def link_argv_def)
  then have "startup_all run (t # ts) w = startup_all run ts w1"
    by (simp add: raise_if_def)
  moreover obtain w' where "startup_all run ts w1 = (w', Inr ())"
    "down w' = down w1 - {(n, clab). \<exists>i. endpoint_of_key (n, i) \<in> set ts \<and> sonic_to_clab i = Inr clab}"
    using Cons by force
  ultimately show ?case using d1 t by auto
qed simp

lemma revert_fault_up:
  assumes "link_contract run down" "fault_wf f"
  shows "\<exists>w'. revert_fault g run f w = (w', Inr ()) \<and> down w' = down w - covers f"
proof (cases "ft_type f = JStr ''shutdown''")
  case True
  then have ts: "\<forall>t \<in> set (ft_targets f). \<exists>n i clab. t = endpoint_of_key (n, i) \<and> sonic_to_clab i = Inr clab"
    using assms(2) by (simp add: fault_wf_def)
  from startup_all_up [OF assms(1) this, of w] True show ?thesis
    by (simp add: revert_fault_def covers_def)
next
  case False
  then have ty: "ft_type f = JStr ''netem''" and "ft_targets f \<noteq> []" using assms(2) by (auto simp: fault_wf_def)
  then obtain t ts where "ft_targets f = t # ts" by (cases "ft_targets f") auto
  then show ?thesis using ty by (simp add: revert_fault_def covers_def netem_fresh_revert Let_def)
qed

lemma revert_all_up:
  assumes "link_contract run down"
  shows "\<forall>f \<in> set fs. fault_wf f \<Longrightarrow>
    \<exists>w'. revert_all g run fs w = (w', Inr ()) \<and> down w' = down w - (\<Union>f \<in> set fs. covers f)"
proof (induction fs arbitrary: w)
  case (Cons f fs)
  obtain w1 where 1: "revert_fault g run f w = (w1, Inr ())" "down w1 = down w - covers f"
    using revert_fault_up [OF assms, of f g w] Cons.prems by auto
  obtain w2 where 2: "revert_all g run fs w1 = (w2, Inr ())" "down w2 = down w1 - (\<Union>f \<in> set fs. covers f)"
    using Cons.IH [of w1] Cons.prems by auto
  show ?case using 1 2 by auto
qed simp

lemma remove_fault_distinct:
  assumes "distinct (map ft_id (fa_faults st))"
  shows "fa_faults (fst (remove_fault st i)) = filter (\<lambda>f. ft_id f \<noteq> i) (fa_faults st)"
proof -
  have "distinct (map ft_id fs) \<Longrightarrow> remove_first i fs = filter (\<lambda>f. ft_id f \<noteq> i) fs" for fs
  proof (induction fs)
    case (Cons f fs)
    have "filter (\<lambda>f. ft_id f \<noteq> i) fs = fs" if "ft_id f = i"
      using Cons.prems that by (intro filter_True) (metis distinct.simps(2) image_eqI list.simps(9) set_map)
    then show ?case using Cons by auto
  qed simp
  then show ?thesis using assms
    by (auto simp: remove_fault_def list_ex_iff intro!: filter_True [symmetric])
qed

lemma revert_remove_up:
  assumes "link_contract run down"
  shows "\<forall>f \<in> set fs. fault_wf f \<Longrightarrow> distinct (map ft_id (fa_faults st)) \<Longrightarrow>
    \<exists>st' w'. revert_remove g run fs st w = (st', w', Inr ())
      \<and> fa_faults st' = filter (\<lambda>f. ft_id f \<notin> ft_id ` set fs) (fa_faults st)
      \<and> down w' = down w - (\<Union>f \<in> set fs. covers f)"
proof (induction fs arbitrary: st w)
  case (Cons f fs)
  obtain w1 where 1: "revert_fault g run f w = (w1, Inr ())" "down w1 = down w - covers f"
    using revert_fault_up [OF assms, of f g w] Cons.prems by auto
  let ?st = "fst (remove_fault st (ft_id f))"
  note rem = remove_fault_distinct [OF Cons.prems(2), of "ft_id f"]
  have "distinct (map ft_id (fa_faults ?st))" using Cons.prems(2) rem by (simp add: distinct_map_filter)
  then obtain st2 w2 where 2: "revert_remove g run fs ?st w1 = (st2, w2, Inr ())"
    "fa_faults st2 = filter (\<lambda>f. ft_id f \<notin> ft_id ` set fs) (fa_faults ?st)"
    "down w2 = down w1 - (\<Union>f \<in> set fs. covers f)"
    using Cons.IH [of ?st w1] Cons.prems(1) by auto
  have "fa_faults st2 = filter (\<lambda>h. ft_id h \<notin> ft_id ` set (f # fs)) (fa_faults st)"
    unfolding 2(2) rem by (auto intro: filter_cong)
  then show ?case using 1 2 by auto
qed simp


subsection \<open>Runs of the commands\<close>

text \<open>
  Any sequence of the fault commands, with any outcomes, on a machine that starts with no fault
  file. \<open>L\<close> collects the endpoints that the shutdown commands which did not exit with 0 were
  asked to take down: such a command may have stopped half way, and records nothing.
\<close>

definition asked_down :: "json result option \<Rightarrow> string \<Rightarrow> string list \<Rightarrow> bool \<Rightarrow> endpoint_key set" where
  "asked_down topo_file node ifaces uni =
     (case load_links topo_file of Inl e \<Rightarrow> {}
      | Inr ls \<Rightarrow> set (shutdown_targets ls node uni
          (if length ifaces = 1 \<and> py_lower (ifaces ! 0) = ''all'' then get_all_interfaces ls node else ifaces)))"

inductive fault_reachable :: "topo \<Rightarrow> 's runner \<Rightarrow> 's \<Rightarrow> endpoint_key set \<Rightarrow> 's fault_world \<Rightarrow> bool" for g run w0 where
  start: "fault_reachable g run w0 {} (w0, None)"
| shutdown: "fault_reachable g run w0 L fw \<Longrightarrow>
    cmd_fault_shutdown run topo_file now node ifaces uni fw = (fw', outcome) \<Longrightarrow>
    fault_reachable g run w0 (if outcome = Inr 0 then L else L \<union> asked_down topo_file node ifaces uni) fw'"
| netem: "fault_reachable g run w0 L fw \<Longrightarrow>
    cmd_fault_netem g run now target spec fw = (fw', outcome) \<Longrightarrow> fault_reachable g run w0 L fw'"
| clear: "fault_reachable g run w0 L fw \<Longrightarrow>
    cmd_fault_clear g run every node iface fw = (fw', outcome) \<Longrightarrow> fault_reachable g run w0 L fw'"

text \<open>
  The invariant: the file loads, its ids are distinct, its faults are well formed, and every
  interface that is down is a target of a fault on file or was named by \<open>L\<close>.
\<close>

definition fault_inv :: "('s \<Rightarrow> (string \<times> string) set) \<Rightarrow> endpoint_key set \<Rightarrow> 's fault_world \<Rightarrow> bool" where
  "fault_inv down L fw \<longleftrightarrow>
     (\<exists>st. fa_load (snd fw) = Inr st \<and> distinct (map ft_id (fa_faults st))
        \<and> (\<forall>f \<in> set (fa_faults st). fault_wf f)
        \<and> down (fst fw) \<subseteq> (\<Union>f \<in> set (fa_faults st). covers f) \<union> named_by L)"

lemma fault_invI:
  "fa_load ff = Inr st \<Longrightarrow> distinct (map ft_id (fa_faults st)) \<Longrightarrow> \<forall>f \<in> set (fa_faults st). fault_wf f \<Longrightarrow>
   down w \<subseteq> (\<Union>f \<in> set (fa_faults st). covers f) \<union> named_by L \<Longrightarrow> fault_inv down L (w, ff)"
  unfolding fault_inv_def by auto

lemma record_new_fault_inv:
  assumes "record_new_fault st mk w ff = (fw', Inr 0)" and "distinct (map ft_id (fa_faults st))"
    and "\<forall>f \<in> set (fa_faults st). fault_wf f" and "\<And>i. ft_id (mk i) = JStr i" and "\<And>i. fault_wf (mk i)"
    and "\<And>i. down w \<subseteq> covers (mk i) \<union> (\<Union>f \<in> set (fa_faults st). covers f) \<union> named_by L"
  shows "fault_inv down L fw'"
proof -
  obtain i where i: "generate_fault_id st = Inr i" and fw': "fw' = (w, fa_save (add_fault st (mk i)))"
    using assms(1) by (auto simp: record_new_fault_def split: sum.splits)
  have "JStr i \<notin> ft_id ` set (fa_faults st)" by (rule generate_fault_id_fresh [OF i])
  then have "distinct (map ft_id (fa_faults (add_fault st (mk i))))"
    using assms(2,4) by (simp add: add_fault_def)
  moreover have "\<forall>f \<in> set (fa_faults (add_fault st (mk i))). fault_wf f"
    using assms(3,5) by (simp add: add_fault_def)
  moreover have "down w \<subseteq> (\<Union>f \<in> set (fa_faults (add_fault st (mk i))). covers f) \<union> named_by L"
    using assms(6) [of i] by (auto simp: add_fault_def)
  ultimately show ?thesis unfolding fw' by (intro fault_invI [OF fa_load_save])
qed

lemma record_new_fault_cases:
  assumes "record_new_fault st mk w ff = (fw', outcome)"
  shows "outcome = Inr 0 \<or> fw' = (w, ff)"
  using assms by (auto simp: record_new_fault_def split: sum.splits)

lemma shutdown_keeps:
  assumes "link_contract run down" "fault_inv down L fw"
    and "cmd_fault_shutdown run topo_file now node ifaces uni fw = (fw', Inr 0)"
  shows "fault_inv down L fw'"
proof -
  obtain w ff where fw: "fw = (w, ff)" by (cases fw)
  obtain st where st: "fa_load ff = Inr st" "distinct (map ft_id (fa_faults st))"
    "\<forall>f \<in> set (fa_faults st). fault_wf f" "down w \<subseteq> (\<Union>f \<in> set (fa_faults st). covers f) \<union> named_by L"
    using assms(2) fw by (auto simp: fault_inv_def)
  obtain targets w1 where targets: "shutdown_all run targets w = (w1, Inr ())"
    "record_new_fault st
       (\<lambda>i. \<lparr>ft_id = JStr i, ft_type = JStr ''shutdown'', ft_targets = map endpoint_of_key targets,
             ft_spec = JStr ''down'', ft_bidirectional = JBool (\<not> uni), ft_applied_at = JStr now,
             ft_applied_by = JStr ''srctl fault''\<rparr>) w1 ff = (fw', Inr 0)"
    using assms(3) st(1) fw
    by (auto simp: cmd_fault_shutdown_def Let_def split: sum.splits if_splits prod.splits)
  note downs = shutdown_all_down [OF assms(1) targets(1)]
  show ?thesis
  proof (rule record_new_fault_inv [OF targets(2) st(2,3)])
    fix i
    let ?f = "\<lparr>ft_id = JStr i, ft_type = JStr ''shutdown'', ft_targets = map endpoint_of_key targets,
             ft_spec = JStr ''down'', ft_bidirectional = JBool (\<not> uni), ft_applied_at = JStr now,
             ft_applied_by = JStr ''srctl fault''\<rparr>"
    show "ft_id ?f = JStr i" by simp
    show "fault_wf ?f" using downs by (fastforce simp: fault_wf_def)
    have "{(n, clab). \<exists>i. (n, i) \<in> set targets \<and> sonic_to_clab i = Inr clab} \<subseteq> covers ?f"
      by (auto simp: covers_def image_iff)
    then show "down w1 \<subseteq> covers ?f \<union> (\<Union>f \<in> set (fa_faults st). covers f) \<union> named_by L"
      using downs st(4) by blast
  qed
qed

text \<open>A shutdown that does not exit with 0 leaves the file alone and downs only what it was asked to.\<close>

lemma shutdown_failed_keeps:
  assumes "link_contract run down" "fault_inv down L fw"
    and "cmd_fault_shutdown run topo_file now node ifaces uni fw = (fw', outcome)" "outcome \<noteq> Inr 0"
  shows "fault_inv down (L \<union> asked_down topo_file node ifaces uni) fw'"
proof -
  obtain w ff where fw: "fw = (w, ff)" by (cases fw)
  obtain st where st: "fa_load ff = Inr st" "distinct (map ft_id (fa_faults st))"
    "\<forall>f \<in> set (fa_faults st). fault_wf f" "down w \<subseteq> (\<Union>f \<in> set (fa_faults st). covers f) \<union> named_by L"
    using assms(2) fw by (auto simp: fault_inv_def)
  have "\<exists>w1. fw' = (w1, ff) \<and> down w1 \<subseteq> down w \<union> named_by (asked_down topo_file node ifaces uni)"
  proof (cases "load_links topo_file")
    case (Inl e)
    then have "fw' = (w, ff)" using assms(3) fw st(1) by (simp add: cmd_fault_shutdown_def)
    then show ?thesis by auto
  next
    case (Inr ls)
    define every where "every \<longleftrightarrow> length ifaces = 1 \<and> py_lower (ifaces ! 0) = ''all''"
    define ts where "ts = shutdown_targets ls node uni (if every then get_all_interfaces ls node else ifaces)"
    have asked: "asked_down topo_file node ifaces uni = set ts"
      by (simp add: asked_down_def Inr ts_def every_def)
    obtain w1 r where sh: "shutdown_all run ts w = (w1, r)" by (cases "shutdown_all run ts w")
    have d: "down w1 \<subseteq> down w \<union> named_by (set ts)" by (rule shutdown_all_within [OF assms(1) sh])
    define mk where "mk = (\<lambda>i. \<lparr>ft_id = JStr i, ft_type = JStr ''shutdown'', ft_targets = map endpoint_of_key ts,
             ft_spec = JStr ''down'', ft_bidirectional = JBool (\<not> uni), ft_applied_at = JStr now,
             ft_applied_by = JStr ''srctl fault''\<rparr>)"
    define quiet where "quiet \<longleftrightarrow> every \<and> (if every then get_all_interfaces ls node else ifaces) = []
      \<or> list_ex (\<lambda>iface. \<not> starts_with ''Ethernet'' iface) (if every then get_all_interfaces ls node else ifaces)"
    have "cmd_fault_shutdown run topo_file now node ifaces uni (w, ff) = (if quiet then ((w, ff), Inr 1)
        else case r of Inl e \<Rightarrow> ((w1, ff), if e = RuntimeError then Inr 1 else Inl e)
                     | Inr _ \<Rightarrow> record_new_fault st mk w1 ff)"
      unfolding cmd_fault_shutdown_def Let_def prod.case st(1) Inr sum.case
        every_def [symmetric] ts_def [symmetric] mk_def [symmetric] sh
      by (simp only: quiet_def if_cancel split: if_split) blast
    then have "(fw', outcome) = (if quiet then (fw, Inr 1)
        else case r of Inl e \<Rightarrow> ((w1, ff), if e = RuntimeError then Inr 1 else Inl e)
                     | Inr _ \<Rightarrow> record_new_fault st mk w1 ff)"
      using assms(3) unfolding fw by argo
    then have "fw' = fw \<or> fw' = (w1, ff) \<or> record_new_fault st mk w1 ff = (fw', outcome)"
      by (auto split: if_splits sum.splits)
    then have "fw' = fw \<or> fw' = (w1, ff)"
      using record_new_fault_cases [of st mk w1 ff fw' outcome] assms(4) by metis
    then show ?thesis using d fw unfolding asked by auto
  qed
  then obtain w1 where w1: "fw' = (w1, ff)" "down w1 \<subseteq> down w \<union> named_by (asked_down topo_file node ifaces uni)" by blast
  show ?thesis
    unfolding w1(1) by (rule fault_invI [OF st(1-3)]) (use st(4) w1(2) in auto)
qed

lemma netem_keeps:
  assumes "link_contract run down" "fault_inv down L fw"
    and "cmd_fault_netem g run now target spec fw = (fw', outcome)"
  shows "fault_inv down L fw'"
proof -
  obtain w ff where fw: "fw = (w, ff)" by (cases fw)
  obtain st where st: "fa_load ff = Inr st" "distinct (map ft_id (fa_faults st))"
    "\<forall>f \<in> set (fa_faults st). fault_wf f" "down w \<subseteq> (\<Union>f \<in> set (fa_faults st). covers f) \<union> named_by L"
    using assms(2) fw by (auto simp: fault_inv_def)
  let ?nm = "mk_netem [mk_netem_fault (JStr target) (JStr spec)] (CLAB_TOPOLOGY_NAME g)"
  let ?mk = "\<lambda>i. \<lparr>ft_id = JStr i, ft_type = JStr ''netem'',
       ft_targets = [\<lparr>ep_node = JStr ''netem'', ep_interface = JStr target\<rparr>],
       ft_spec = JStr spec, ft_bidirectional = JBool False, ft_applied_at = JStr now,
       ft_applied_by = JStr ''srctl fault''\<rparr>"
  obtain nm1 w1 r1 where a: "nm_apply g run False ?nm w = (nm1, w1, r1)" by (metis prod_cases3)
  have d1: "down w1 \<subseteq> (\<Union>f \<in> set (fa_faults st). covers f) \<union> named_by L"
    using nm_apply_neutral [OF assms(1) a] st(4) by simp
  have same: "fault_inv down L (w1, ff)" using fault_invI [of ff st down w1] st(1-3) d1 by blast
  show ?thesis
  proof (cases r1)
    case (Inl e)
    then have "fw' = (w1, ff)" using assms(3) fw a by (simp add: cmd_fault_netem_def)
    then show ?thesis using same by simp
  next
    case (Inr out)
    then have rec_new: "record_new_fault st ?mk w1 ff = (fw', outcome)"
      using assms(3) fw a st(1) by (simp add: cmd_fault_netem_def)
    show ?thesis
    proof (cases "outcome = Inr 0")
      case False
      then show ?thesis using record_new_fault_cases [OF rec_new] same by simp
    next
      case True
      show ?thesis
        by (rule record_new_fault_inv [OF rec_new [unfolded True] st(2,3)])
          (use d1 in \<open>auto simp: fault_wf_def\<close>)
    qed
  qed
qed

lemma clear_keeps:
  assumes "link_contract run down" "fault_inv down L fw"
    and "cmd_fault_clear g run every node iface fw = (fw', outcome)"
  shows "fault_inv down L fw' \<and> (every \<longrightarrow> outcome = Inr 0 \<and> down (fst fw') \<subseteq> named_by L)"
proof -
  obtain w ff where fw: "fw = (w, ff)" by (cases fw)
  obtain st where st: "fa_load ff = Inr st" "distinct (map ft_id (fa_faults st))"
    "\<forall>f \<in> set (fa_faults st). fault_wf f" "down w \<subseteq> (\<Union>f \<in> set (fa_faults st). covers f) \<union> named_by L"
    using assms(2) fw by (auto simp: fault_inv_def)
  have same: "fault_inv down L fw" by (rule assms(2))
  show ?thesis
  proof (cases every)
    case True
    show ?thesis
    proof (cases "fa_faults st = []")
      case True
      then have "fw' = fw" "outcome = Inr 0" using assms(3) \<open>every\<close> fw st(1) by (auto simp: cmd_fault_clear_def)
      then show ?thesis using same st(4) True fw by auto
    next
      case False
      obtain w1 where r: "revert_all g run (fa_faults st) w = (w1, Inr ())"
        "down w1 = down w - (\<Union>f \<in> set (fa_faults st). covers f)"
        using revert_all_up [OF assms(1) st(3), of g w] by blast
      then have d: "down w1 \<subseteq> named_by L" using st(4) by auto
      have "fw' = (w1, fa_save (fst (fa_clear_all st)))" "outcome = Inr 0"
        using assms(3) \<open>every\<close> fw st(1) False r(1) by (auto simp: cmd_fault_clear_def)
      moreover have "fault_inv down L (w1, fa_save (fst (fa_clear_all st)))"
        by (rule fault_invI [OF fa_load_save]) (simp_all add: fa_clear_all_def d)
      ultimately show ?thesis using d by simp
    qed
  next
    case False
    let ?fs = "if iface \<noteq> [] then find_by_interface st node iface else find_by_node st node"
    have sub: "set ?fs \<subseteq> set (fa_faults st)" by (auto simp: find_by_interface_def find_by_node_def)
    have wf: "\<forall>f \<in> set ?fs. fault_wf f" using sub st(3) by blast
    obtain st' w' where r: "revert_remove g run ?fs st w = (st', w', Inr ())"
      "fa_faults st' = filter (\<lambda>f. ft_id f \<notin> ft_id ` set ?fs) (fa_faults st)"
      "down w' = down w - (\<Union>f \<in> set ?fs. covers f)"
      using revert_remove_up [OF assms(1) wf st(2), of g w] by blast
    have inj: "f \<in> set ?fs" if mem: "f \<in> set (fa_faults st)" "ft_id f \<in> ft_id ` set ?fs" for f
    proof -
      obtain h where h: "h \<in> set ?fs" "ft_id h = ft_id f" using mem(2) by (metis imageE)
      have "inj_on ft_id (set (fa_faults st))" using st(2) by (simp add: distinct_map)
      then have "h = f" using h sub mem(1) by (meson inj_onD subsetD)
      then show ?thesis using h(1) by simp
    qed
    have "fault_inv down L (w', fa_save st')"
    proof (rule fault_invI [OF fa_load_save])
      show "distinct (map ft_id (fa_faults st'))" using st(2) r(2) by (simp add: distinct_map_filter)
      show "\<forall>f \<in> set (fa_faults st'). fault_wf f" using st(3) r(2) by simp
      show "down w' \<subseteq> (\<Union>f \<in> set (fa_faults st'). covers f) \<union> named_by L"
        unfolding r(3) r(2) using st(4) inj by fastforce
    qed
    moreover have "fw' = fw \<or> fw' = (w', fa_save st')"
      using assms(3) False fw st(1) r(1) by (auto simp: cmd_fault_clear_def Let_def split: if_splits)
    ultimately show ?thesis using same False by auto
  qed
qed

lemma fault_reachable_inv:
  assumes "link_contract run down" "down w0 = {}" "fault_reachable g run w0 L fw"
  shows "fault_inv down L fw"
  using assms(3)
proof (induction rule: fault_reachable.induct)
  case start
  show ?case using assms(2) by (simp add: fault_inv_def fa_load_def new_fault_state_def)
next
  case (shutdown L fw topo_file now node ifaces uni fw' outcome)
  show ?case
  proof (cases "outcome = Inr 0")
    case True
    then have "fault_inv down L fw'" using shutdown shutdown_keeps [OF assms(1)] by blast
    then show ?thesis using True by simp
  next
    case False
    then have "fault_inv down (L \<union> asked_down topo_file node ifaces uni) fw'"
      using shutdown shutdown_failed_keeps [OF assms(1)] by blast
    then show ?thesis using False by simp
  qed
next
  case netem
  then show ?case using netem_keeps [OF assms(1)] by blast
next
  case clear
  then show ?case using clear_keeps [OF assms(1)] by blast
qed

text \<open>
  C24. Every interface that is down is accounted for. After any sequence of fault commands, with any
  outcomes, on a machine whose \<open>ip link\<close> does what it says and that started with no interface down
  and no fault file: the file loads, the ids on it are distinct, so that removing by id removes that
  fault alone, and every interface that is down is a target of a shutdown fault on file or was named
  by a shutdown command that failed. While no shutdown command failed, nothing is down without a
  record.
\<close>

theorem fault_down_recorded:
  assumes "link_contract run down" and "down w0 = {}" and "fault_reachable g run w0 L (w, ff)"
  shows "\<exists>st. fa_load ff = Inr st \<and> distinct (map ft_id (fa_faults st))
    \<and> (\<forall>(n, clab) \<in> down w. (\<exists>f \<in> set (fa_faults st). (n, clab) \<in> covers f)
         \<or> (\<exists>i. (n, i) \<in> L \<and> sonic_to_clab i = Inr clab))"
  using fault_reachable_inv [OF assms] unfolding fault_inv_def named_by_def by fastforce

text \<open>
  Clearing all faults, after any sequence of fault commands, succeeds, leaves an empty fault list
  and brings up every interface but those that a failed shutdown may have left behind.
\<close>

theorem fault_clear_all_restores:
  assumes "link_contract run down" and "down w0 = {}" and "fault_reachable g run w0 L fw"
    and "cmd_fault_clear g run True node iface fw = ((w', ff'), outcome)"
  shows "outcome = Inr 0 \<and> down w' \<subseteq> named_by L \<and> (\<exists>st. fa_load ff' = Inr st \<and> fa_faults st = [])"
proof -
  note inv = fault_reachable_inv [OF assms(1-3)]
  obtain w ff st where fw: "fw = (w, ff)" "fa_load ff = Inr st"
    using inv by (cases fw) (auto simp: fault_inv_def)
  have "outcome = Inr 0 \<and> down w' \<subseteq> named_by L" using clear_keeps [OF assms(1) inv assms(4)] by simp
  moreover have "\<exists>st. fa_load ff' = Inr st \<and> fa_faults st = []"
    using assms(4) fw calculation
    by (auto simp: cmd_fault_clear_def fa_clear_all_def split: if_splits sum.splits prod.splits)
  ultimately show ?thesis by blast
qed

subsection \<open>A machine\<close>

text \<open>The state is the list of the interfaces that are down.\<close>

definition sw_run :: "(string \<times> string) list runner" where
  "sw_run w argv =
     (case argv of
        [_, _, node, _, _, _, clab, direction] \<Rightarrow>
          (if direction = ''down'' then (List.insert (node, clab) w, rc 0 [])
           else if direction = ''up'' then (removeAll (node, clab) w, rc 0 []) else (w, rc 255 []))
      | _ \<Rightarrow> (w, rc 1 []))"

lemma sw_contract: "link_contract sw_run set"
  unfolding link_contract_def
  by (auto simp: sw_run_def link_argv_def docker_pid_cmd_def nsenter_tc_argv_add_def
      nsenter_tc_argv_del_def rc_def ran_ok_def split: list.splits)

definition demo_fault_world :: "(string \<times> string) list fault_world" where
  "demo_fault_world =
     fst (cmd_fault_shutdown sw_run (Some (Inr demo_links_doc)) ''t'' ''s1'' [''Ethernet0''] False ([], None))"

lemma demo_fault_step:
  "cmd_fault_shutdown sw_run (Some (Inr demo_links_doc)) ''t'' ''s1'' [''Ethernet0''] False ([], None) =
     (demo_fault_world, Inr 0)"
  "fst demo_fault_world = [(''l1'', ''eth2''), (''s1'', ''eth1'')]"
  by code_simp+

lemma demo_fault_reachable: "fault_reachable demo_lab sw_run [] {} demo_fault_world"
  using fault_reachable.shutdown [OF fault_reachable.start demo_fault_step(1)] by simp

text \<open>
  A shutdown that stops half way leaves interfaces down that no record names: here the second
  interface is not a multiple of four, after the first has gone down.
\<close>

lemma fault_shutdown_leaks:
  "cmd_fault_shutdown sw_run (Some (Inr demo_links_doc)) ''t'' ''s1'' [''Ethernet4'', ''Ethernet3''] True demo_fault_world
   = (((''s1'', ''eth2'') # fst demo_fault_world, snd demo_fault_world), Inl ValueError)"
  by code_simp

theorem fault_down_recorded_witness:
  "\<exists>st. fa_load (snd demo_fault_world) = Inr st
    \<and> ((\<exists>f \<in> set (fa_faults st). (''s1'', ''eth2'') \<in> covers f)
       \<or> (\<exists>i. (''s1'', i) \<in> asked_down (Some (Inr demo_links_doc)) ''s1'' [''Ethernet4'', ''Ethernet3''] True
            \<and> sonic_to_clab i = Inr ''eth2''))"
proof -
  let ?L = "asked_down (Some (Inr demo_links_doc)) ''s1'' [''Ethernet4'', ''Ethernet3''] True"
  have "fault_reachable demo_lab sw_run [] ?L ((''s1'', ''eth2'') # fst demo_fault_world, snd demo_fault_world)"
    using fault_reachable.shutdown [OF demo_fault_reachable fault_shutdown_leaks] by simp
  from fault_down_recorded [OF sw_contract _ this] obtain st where
    "fa_load (snd demo_fault_world) = Inr st"
    "\<forall>(n, clab) \<in> set ((''s1'', ''eth2'') # fst demo_fault_world). (\<exists>f \<in> set (fa_faults st). (n, clab) \<in> covers f)
       \<or> (\<exists>i. (n, i) \<in> ?L \<and> sonic_to_clab i = Inr clab)" by auto
  then show ?thesis by (intro exI [of _ st]) simp
qed

theorem fault_clear_all_restores_witness:
  "fst (fst (cmd_fault_clear demo_lab sw_run True [] [] demo_fault_world)) = []"
proof -
  obtain w' ff' outcome where c: "cmd_fault_clear demo_lab sw_run True [] [] demo_fault_world = ((w', ff'), outcome)"
    by (metis prod.collapse)
  have "set w' \<subseteq> named_by {}" using fault_clear_all_restores [OF sw_contract _ demo_fault_reachable c] by simp
  then show ?thesis using c by (simp add: named_by_def)
qed

text \<open>Clearing a netem fault runs no command: the new object has nothing on its list.\<close>

lemma fault_clear_netem_noop:
  "ft_type f = JStr ''netem'' \<Longrightarrow> ft_targets f \<noteq> [] \<Longrightarrow> revert_fault g run f w = (w, Inr ())"
  by (cases "ft_targets f") (auto simp: revert_fault_def netem_fresh_revert Let_def)

end
