(* ===== verification/Scenario.thy ===== *)
theory Scenario
  imports Netem Policy Trim Agent
begin

text \<open>
  The scenario validator of \<^verbatim>\<open>srv6_mrc/mrc/scenario.py\<close>: a parsed YAML document, as a \<open>json\<close> value, to the
  tree of flows, faults and settings, or an error with the dotted path of the offending key. Keys of
  mappings are strings. The text of an unusual policy value is the parameter \<open>repr\<close>; messages are not
  modelled.
\<close>

subsection \<open>Errors\<close>

text \<open>A \<open>ScenarioError\<close> and its path, or an exception the validator does not convert.\<close>

datatype scenario_error = ScenarioError string | Unexpected py_error

type_synonym 'a checked = "scenario_error + 'a"

fun unexpected :: "'a result \<Rightarrow> 'a checked" where
  "unexpected (Inr x) = Inr x"
| "unexpected (Inl e) = Inl (Unexpected e)"

text \<open>\<open>try: ... except ValueError: raise ScenarioError(path, ...)\<close>.\<close>

fun catch_value :: "string \<Rightarrow> 'a result \<Rightarrow> 'a checked" where
  "catch_value path (Inr x) = Inr x"
| "catch_value path (Inl e) = Inl (if e = ValueError then ScenarioError path else Unexpected e)"

definition reject_if :: "bool \<Rightarrow> string \<Rightarrow> unit checked" where
  "reject_if c path = raise_if c (ScenarioError path)"

lemma reject_if_Inr [simp]: "reject_if c path = Inr u \<longleftrightarrow> \<not> c"
  by (simp add: reject_if_def)

lemma bindE_reject_if [simp]: "bindE (reject_if c path) f = (if c then Inl (ScenarioError path) else f ())"
  by (simp add: reject_if_def)

subsection \<open>The tree\<close>

record flow_pair =
  fp_tenant :: string
  fp_src :: int
  fp_dst :: int

definition flow_pair_of :: "string \<Rightarrow> int \<Rightarrow> int \<Rightarrow> flow_pair" where
  "flow_pair_of tenant src dst = \<lparr>fp_tenant = tenant, fp_src = src, fp_dst = dst\<rparr>"

definition src_host :: "flow_pair \<Rightarrow> string" where
  "src_host p = host_name (fp_tenant p) (fp_src p)"

definition dst_host :: "flow_pair \<Rightarrow> string" where
  "dst_host p = host_name (fp_tenant p) (fp_dst p)"

record flow_spec =
  fl_pairs :: "flow_pair list"
  fl_policy_spec :: json
  fl_rate_pps :: int
  fl_duration_s :: pyfloat
  fl_policy_label :: string

record fault_spec =
  fa_kind :: string
  fa_target :: string
  fa_spec :: string

record mrc_spec =
  ms_probe_interval_ms :: "int option"
  ms_probe_timeout_ms :: "int option"
  ms_loss_window_ms :: "int option"
  ms_max_window_skew_ms :: "int option"
  ms_probe_window_ticks :: "int option"
  ms_probe_min_samples :: "int option"
  ms_probe_fail_ratio :: "pyfloat option"
  ms_probe_recover_ratio :: "pyfloat option"
  ms_probe_recover_ticks :: "int option"
  ms_loss_threshold :: "pyfloat option"
  ms_loss_demote_consecutive :: "int option"
  ms_min_active_evs :: "int option"
  ms_loss_backoff_max_level :: "int option"
  ms_loss_backoff_reset_ticks :: "int option"

record scenario =
  sc_name :: string
  sc_description :: string
  sc_flows :: "flow_spec list"
  sc_faults :: "fault_spec list"
  sc_report_out :: "string option"
  sc_mrc :: "mrc_spec option"
  sc_paths_per_plane :: "int option"
  sc_sid :: "string option"
  sc_transport :: "string option"
  sc_trim :: "trim_spec option"

definition empty_mrc_spec :: mrc_spec where
  "empty_mrc_spec =
     \<lparr>ms_probe_interval_ms = None, ms_probe_timeout_ms = None, ms_loss_window_ms = None,
      ms_max_window_skew_ms = None, ms_probe_window_ticks = None, ms_probe_min_samples = None,
      ms_probe_fail_ratio = None, ms_probe_recover_ratio = None, ms_probe_recover_ticks = None,
      ms_loss_threshold = None, ms_loss_demote_consecutive = None, ms_min_active_evs = None,
      ms_loss_backoff_max_level = None, ms_loss_backoff_reset_ticks = None\<rparr>"

text \<open>
  \<open>MrcSpec.to_env_json\<close>: \<open>dataclasses.fields(self)\<close> with their values, the object of those that are set, and \<open>dumps\<close>, which is
  \<open>json.dumps(..., sort_keys=True)\<close>.
\<close>

definition set_field :: "string \<Rightarrow> json option \<Rightarrow> (string \<times> json) list" where
  "set_field name v = (case v of None \<Rightarrow> [] | Some x \<Rightarrow> [(name, x)])"

definition mrc_spec_fields :: "mrc_spec \<Rightarrow> (string \<times> json option) list" where
  "mrc_spec_fields m =
     [(''probe_interval_ms'', map_option JInt (ms_probe_interval_ms m)),
      (''probe_timeout_ms'', map_option JInt (ms_probe_timeout_ms m)),
      (''loss_window_ms'', map_option JInt (ms_loss_window_ms m)),
      (''max_window_skew_ms'', map_option JInt (ms_max_window_skew_ms m)),
      (''probe_window_ticks'', map_option JInt (ms_probe_window_ticks m)),
      (''probe_min_samples'', map_option JInt (ms_probe_min_samples m)),
      (''probe_fail_ratio'', map_option JFloat (ms_probe_fail_ratio m)),
      (''probe_recover_ratio'', map_option JFloat (ms_probe_recover_ratio m)),
      (''probe_recover_ticks'', map_option JInt (ms_probe_recover_ticks m)),
      (''loss_threshold'', map_option JFloat (ms_loss_threshold m)),
      (''loss_demote_consecutive'', map_option JInt (ms_loss_demote_consecutive m)),
      (''min_active_evs'', map_option JInt (ms_min_active_evs m)),
      (''loss_backoff_max_level'', map_option JInt (ms_loss_backoff_max_level m)),
      (''loss_backoff_reset_ticks'', map_option JInt (ms_loss_backoff_reset_ticks m))]"

definition mrc_env_fields :: "mrc_spec \<Rightarrow> (string \<times> json) list" where
  "mrc_env_fields m = concat (map (\<lambda>(name, v). set_field name v) (mrc_spec_fields m))"

definition mrc_to_env_json :: "(json \<Rightarrow> string) \<Rightarrow> mrc_spec \<Rightarrow> string" where
  "mrc_to_env_json dumps m = dumps (JObj (mrc_env_fields m))"

subsection \<open>Named pair sets\<close>

definition REFERENCE_PAIRS :: "(int \<times> int) list" where
  "REFERENCE_PAIRS = [(0, 15), (1, 14), (2, 13), (3, 12), (4, 11), (5, 10), (6, 9), (7, 8)]"

definition REFERENCE_PAIRS_4 :: "(int \<times> int) list" where
  "REFERENCE_PAIRS_4 = [(0, 7), (1, 6), (2, 5), (3, 4)]"

definition all_to_all_pairs :: "topo \<Rightarrow> string \<Rightarrow> flow_pair list" where
  "all_to_all_pairs g tenant =
     (let n = NUM_LEAVES g
      in concat (map (\<lambda>i. map (\<lambda>j. flow_pair_of tenant i j) (filter (\<lambda>j. i \<noteq> j) [0..n - 1])) [0..n - 1]))"

definition ring_pairs :: "topo \<Rightarrow> string \<Rightarrow> flow_pair list" where
  "ring_pairs g tenant =
     (let n = NUM_LEAVES g in map (\<lambda>i. flow_pair_of tenant i ((i + 1) mod n)) [0..n - 1])"

definition reference_pairs :: "topo \<Rightarrow> string \<Rightarrow> flow_pair list" where
  "reference_pairs g tenant =
     (let n = NUM_LEAVES g in map (\<lambda>i. flow_pair_of tenant i (n - 1 - i)) [0..n div 2 - 1])"

definition fixed_pair_sets :: "(string \<times> flow_pair list) list" where
  "fixed_pair_sets =
     [(''green-pairs-8'', map (\<lambda>(a, b). flow_pair_of ''green'' a b) REFERENCE_PAIRS),
      (''yellow-pairs-8'', map (\<lambda>(a, b). flow_pair_of ''yellow'' a b) REFERENCE_PAIRS),
      (''green-pairs-4'', map (\<lambda>(a, b). flow_pair_of ''green'' a b) REFERENCE_PAIRS_4),
      (''yellow-pairs-4'', map (\<lambda>(a, b). flow_pair_of ''yellow'' a b) REFERENCE_PAIRS_4),
      (''green-00-15'', [flow_pair_of ''green'' 0 15]),
      (''yellow-00-15'', [flow_pair_of ''yellow'' 0 15])]"

definition NAMED_PAIR_SETS :: "topo \<Rightarrow> (string \<times> flow_pair list) list" where
  "NAMED_PAIR_SETS g =
     foldl (\<lambda>d t.
        dict_put (t @ ''-pairs'') (reference_pairs g t)
        (dict_put (t @ ''-ring'') (ring_pairs g t)
        (dict_put (t @ ''-all-to-all'') (all_to_all_pairs g t) d))) fixed_pair_sets (TENANTS g)"

subsection \<open>Primitive helpers\<close>

text \<open>\<open>path.rsplit(".", 1)[-1]\<close>\<close>

definition path_leaf :: "string \<Rightarrow> string" where
  "path_leaf path = rev (takeWhile (\<lambda>c. c \<noteq> CHR ''.'') (rev path))"

text \<open>\<open>f"{path}[{i}]"\<close>\<close>

definition at_index :: "string \<Rightarrow> nat \<Rightarrow> string" where
  "at_index path i = path @ ''['' @ dec_str i @ '']''"

definition require_keys :: "(string \<times> json) list \<Rightarrow> string \<Rightarrow> string list \<Rightarrow> string list \<Rightarrow> unit checked" where
  "require_keys d path required optional =
     bindE (reject_if (list_ex (\<lambda>k. k \<notin> set (map fst d)) required) path) (\<lambda>_.
       reject_if (list_ex (\<lambda>k. k \<notin> set (required @ optional)) (map fst d)) path)"

definition subscript :: "(string \<times> json) list \<Rightarrow> string \<Rightarrow> json checked" where
  "subscript d k = (case dict_get d k of None \<Rightarrow> Inl (Unexpected KeyError) | Some v \<Rightarrow> Inr v)"

definition require_str :: "(string \<times> json) list \<Rightarrow> string \<Rightarrow> string checked" where
  "require_str d path =
     bindE (subscript d (path_leaf path)) (\<lambda>v.
       case v of JStr s \<Rightarrow> bindE (reject_if (s = []) path) (\<lambda>_. Inr s)
               | _ \<Rightarrow> Inl (ScenarioError path))"

definition opt_str :: "(string \<times> json) list \<Rightarrow> string \<Rightarrow> string \<Rightarrow> string checked" where
  "opt_str d path dflt =
     (case dict_get d (path_leaf path) of
        None \<Rightarrow> Inr dflt
      | Some (JStr s) \<Rightarrow> Inr s
      | Some _ \<Rightarrow> Inl (ScenarioError path))"

definition require_choice :: "(string \<times> json) list \<Rightarrow> string \<Rightarrow> string list \<Rightarrow> string checked" where
  "require_choice d path choices =
     bindE (subscript d (path_leaf path)) (\<lambda>v.
       case v of JStr s \<Rightarrow> bindE (reject_if (s \<notin> set choices) path) (\<lambda>_. Inr s)
               | _ \<Rightarrow> Inl (ScenarioError path))"

text \<open>\<open>isinstance(v, int)\<close>: a bool is an int, and is kept as the number it is equal to.\<close>

fun int_instance :: "json \<Rightarrow> int option" where
  "int_instance (JInt k) = Some k"
| "int_instance (JBool b) = Some (if b then 1 else 0)"
| "int_instance _ = None"

definition require_host_id :: "topo \<Rightarrow> (string \<times> json) list \<Rightarrow> string \<Rightarrow> int checked" where
  "require_host_id g d path =
     bindE (subscript d (path_leaf path)) (\<lambda>v.
       case int_instance v of
         None \<Rightarrow> Inl (ScenarioError path)
       | Some k \<Rightarrow> bindE (reject_if (\<not> (0 \<le> k \<and> k < NUM_LEAVES g)) path) (\<lambda>_. Inr k))"

text \<open>
  The two regular expressions. Blanks may surround the text, and separate the number from its unit;
  \<open>re.I\<close> is the comparison of the lower-case unit.
\<close>

definition rate_match :: "string \<Rightarrow> string option" where
  "rate_match s =
     (let t = py_strip s; ds = takeWhile py_digit t; unit = dropWhile py_space (dropWhile py_digit t)
      in if ds \<noteq> [] \<and> py_lower unit \<in> {[], ''pp'', ''pps''} then Some ds else None)"

definition parse_rate :: "json \<Rightarrow> string \<Rightarrow> int checked" where
  "parse_rate v path =
     (case int_instance v of
        Some k \<Rightarrow> if 0 < k then Inr k else Inl (ScenarioError path)
      | None \<Rightarrow>
          (case v of
             JStr s \<Rightarrow> (case rate_match s of
                         Some ds \<Rightarrow> Inr (int (dec_value 0 ds)) | None \<Rightarrow> Inl (ScenarioError path))
           | _ \<Rightarrow> Inl (ScenarioError path)))"

text \<open>The matched number and whether the unit is \<open>ms\<close>.\<close>

definition duration_match :: "string \<Rightarrow> (string \<times> bool) option" where
  "duration_match s =
     (let t = py_strip s; ds = takeWhile py_digit t; u = dropWhile py_digit t;
          frac = (if u \<noteq> [] \<and> hd u = CHR ''.'' then takeWhile py_digit (tl u) else []);
          num = (if frac = [] then ds else ds @ CHR ''.'' # frac);
          unit = dropWhile py_space (if frac = [] then u else dropWhile py_digit (tl u))
      in if ds \<noteq> [] \<and> py_lower unit \<in> {[], ''ms'', ''s''} then Some (num, py_lower unit = ''ms'') else None)"

definition duration_value :: "string \<times> bool \<Rightarrow> pyfloat result" where
  "duration_value m =
     bindE (py_float (JStr (fst m))) (\<lambda>val. Inr (if snd m then fdiv val 1000 else val))"

definition parse_duration :: "json \<Rightarrow> string \<Rightarrow> pyfloat checked" where
  "parse_duration v path =
     (case v of
        JStr s \<Rightarrow> (case duration_match s of
                    Some m \<Rightarrow> unexpected (duration_value m) | None \<Rightarrow> Inl (ScenarioError path))
      | JFloat x \<Rightarrow> if 0 < x then Inr x else Inl (ScenarioError path)
      | _ \<Rightarrow> (case int_instance v of
               Some k \<Rightarrow> if 0 < k then Inr (float_of_int k) else Inl (ScenarioError path)
             | None \<Rightarrow> Inl (ScenarioError path)))"

definition parse_duration_str :: "string \<Rightarrow> pyfloat result" where
  "parse_duration_str s =
     bindE (raise_if (py_strip s = []) ValueError) (\<lambda>_.
       case duration_match s of
         None \<Rightarrow> Inl ValueError
       | Some m \<Rightarrow>
           bindE (py_float (JStr (fst m))) (\<lambda>val.
           bindE (raise_if (val \<le> 0) ValueError) (\<lambda>_.
             Inr (if snd m then fdiv val 1000 else val))))"

subsection \<open>Flows\<close>

definition resolve_pair :: "topo \<Rightarrow> string \<Rightarrow> nat \<times> json \<Rightarrow> flow_pair checked" where
  "resolve_pair g path ie =
     (let ep = at_index path (fst ie) in
      case snd ie of
        JObj d \<Rightarrow>
          bindE (require_keys d ep [''tenant'', ''src'', ''dst''] []) (\<lambda>_.
          bindE (require_choice d (ep @ ''.tenant'') (TENANTS g)) (\<lambda>tenant.
          bindE (require_host_id g d (ep @ ''.src'')) (\<lambda>src.
          bindE (require_host_id g d (ep @ ''.dst'')) (\<lambda>dst.
          bindE (reject_if (src = dst) ep) (\<lambda>_. Inr (flow_pair_of tenant src dst))))))
      | _ \<Rightarrow> Inl (ScenarioError ep))"

definition resolve_pairs :: "topo \<Rightarrow> json \<Rightarrow> string \<Rightarrow> flow_pair list checked" where
  "resolve_pairs g v path =
     (case v of
        JStr s \<Rightarrow> (case dict_get (NAMED_PAIR_SETS g) s of
                    None \<Rightarrow> Inl (ScenarioError path) | Some named \<Rightarrow> Inr named)
      | JList xs \<Rightarrow> bindE (reject_if (xs = []) path) (\<lambda>_. mapE (resolve_pair g path) (enumerate 0 xs))
      | _ \<Rightarrow> Inl (ScenarioError path))"

fun policy_label :: "(json \<Rightarrow> string) \<Rightarrow> json \<Rightarrow> string" where
  "policy_label repr (JStr s) = s"
| "policy_label repr (JObj [(k, JList ws)]) = k @ ''(weights)''"
| "policy_label repr (JObj [(k, v)]) = k @ ''('' @ policy_label repr v @ '')''"
| "policy_label repr v = repr v"

text \<open>The parameter \<open>tp\<close> is what \<open>current_topology()\<close> returns, or raises.\<close>

definition validate_flow ::
  "topo \<Rightarrow> topology result \<Rightarrow> (json \<Rightarrow> string) \<Rightarrow> string \<Rightarrow> nat \<times> json \<Rightarrow> flow_spec checked" where
  "validate_flow g tp repr base ie =
     (let path = at_index base (fst ie) in
      case snd ie of
        JObj d \<Rightarrow>
          bindE (require_keys d path [''pairs'', ''policy'', ''rate'', ''duration''] []) (\<lambda>_.
          bindE (bindE (subscript d ''pairs'') (\<lambda>v. resolve_pairs g v (path @ ''.pairs''))) (\<lambda>pairs.
          bindE (subscript d ''policy'') (\<lambda>policy_raw.
          bindE (catch_value (path @ ''.policy'') (bindE tp (\<lambda>T. policy_from_spec g policy_raw (Some T)))) (\<lambda>_.
          bindE (bindE (subscript d ''rate'') (\<lambda>v. parse_rate v (path @ ''.rate''))) (\<lambda>rate.
          bindE (bindE (subscript d ''duration'') (\<lambda>v. parse_duration v (path @ ''.duration''))) (\<lambda>dur.
            Inr \<lparr>fl_pairs = pairs, fl_policy_spec = policy_raw, fl_rate_pps = rate, fl_duration_s = dur,
                 fl_policy_label = policy_label repr policy_raw\<rparr>))))))
      | _ \<Rightarrow> Inl (ScenarioError path))"

subsection \<open>Faults, report and the scalar settings\<close>

definition validate_fault :: "topo \<Rightarrow> string \<Rightarrow> nat \<times> json \<Rightarrow> fault_spec checked" where
  "validate_fault g base ie =
     (let path = at_index base (fst ie) in
      case snd ie of
        JObj d \<Rightarrow>
          bindE (require_keys d path [''kind'', ''target'', ''spec''] []) (\<lambda>_.
          bindE (require_str d (path @ ''.kind'')) (\<lambda>kind.
          bindE (reject_if (kind \<noteq> ''netem'') (path @ ''.kind'')) (\<lambda>_.
          bindE (require_str d (path @ ''.target'')) (\<lambda>target.
          bindE (require_str d (path @ ''.spec'')) (\<lambda>spec.
          bindE (catch_value (path @ ''.target'') (parse_target g (JStr target))) (\<lambda>_.
          bindE (catch_value (path @ ''.spec'') (normalize_spec (JStr spec))) (\<lambda>_.
            Inr \<lparr>fa_kind = kind, fa_target = target, fa_spec = spec\<rparr>)))))))
      | _ \<Rightarrow> Inl (ScenarioError path))"

definition validate_report :: "json \<Rightarrow> string \<Rightarrow> string option checked" where
  "validate_report v path =
     (case v of
        JNull \<Rightarrow> Inr None
      | JObj d \<Rightarrow>
          bindE (require_keys d path [] [''out'']) (\<lambda>_.
            case dict_get d ''out'' of
              None \<Rightarrow> Inr None
            | Some JNull \<Rightarrow> Inr None
            | Some (JStr s) \<Rightarrow> Inr (Some s)
            | Some _ \<Rightarrow> Inl (ScenarioError (path @ ''.out'')))
      | _ \<Rightarrow> Inl (ScenarioError path))"

definition validate_paths_per_plane :: "topo \<Rightarrow> json \<Rightarrow> string \<Rightarrow> int option checked" where
  "validate_paths_per_plane g v path =
     (case v of
        JNull \<Rightarrow> Inr None
      | JInt k \<Rightarrow> bindE (reject_if (\<not> (1 \<le> k \<and> k \<le> NUM_SPINES g)) path) (\<lambda>_. Inr (Some k))
      | _ \<Rightarrow> Inl (ScenarioError path))"

definition validate_sid_mode :: "json \<Rightarrow> string \<Rightarrow> string option checked" where
  "validate_sid_mode v path =
     (case v of
        JNull \<Rightarrow> Inr None
      | JStr s \<Rightarrow> bindE (reject_if (s \<notin> set SID_MODES) path) (\<lambda>_. Inr (Some s))
      | _ \<Rightarrow> Inl (ScenarioError path))"

definition validate_transport :: "json \<Rightarrow> string \<Rightarrow> string option checked" where
  "validate_transport v path =
     (case v of
        JNull \<Rightarrow> Inr None
      | JStr s \<Rightarrow> bindE (reject_if (s \<notin> set TRANSPORTS) path) (\<lambda>_. Inr (Some s))
      | _ \<Rightarrow> Inl (ScenarioError path))"

subsection \<open>The mrc block\<close>

definition MRC_POSITIVE_INT_FIELDS :: "string list" where
  "MRC_POSITIVE_INT_FIELDS =
     [''probe_interval_ms'', ''probe_timeout_ms'', ''loss_window_ms'', ''max_window_skew_ms'',
      ''probe_window_ticks'', ''probe_min_samples'', ''probe_recover_ticks'',
      ''loss_demote_consecutive'', ''min_active_evs'', ''loss_backoff_reset_ticks'']"

definition MRC_NON_NEGATIVE_INT_FIELDS :: "string list" where
  "MRC_NON_NEGATIVE_INT_FIELDS = [''loss_backoff_max_level'']"

definition MRC_RATIO_FIELDS :: "string list" where
  "MRC_RATIO_FIELDS = [''probe_fail_ratio'', ''probe_recover_ratio'', ''loss_threshold'']"

definition MRC_OPTIONAL :: "string list" where
  "MRC_OPTIONAL = MRC_POSITIVE_INT_FIELDS @ MRC_NON_NEGATIVE_INT_FIELDS @ MRC_RATIO_FIELDS"

fun positive_int :: "json \<Rightarrow> int option" where
  "positive_int (JInt k) = (if 0 < k then Some k else None)"
| "positive_int _ = None"

fun non_negative_int :: "json \<Rightarrow> int option" where
  "non_negative_int (JInt k) = (if 0 \<le> k then Some k else None)"
| "non_negative_int _ = None"

text \<open>A number that is no bool, as a float, in the unit interval.\<close>

definition in_unit :: "pyfloat \<Rightarrow> pyfloat option" where
  "in_unit x = (if 0 \<le> x \<and> x \<le> 1 then Some x else None)"

fun unit_ratio :: "json \<Rightarrow> pyfloat option" where
  "unit_ratio (JInt k) = in_unit (float_of_int k)"
| "unit_ratio (JFloat x) = in_unit x"
| "unit_ratio _ = None"

text \<open>One loop \<open>for fname in <fields>: if fname in value: ...\<close>, with its check.\<close>

fun mrc_fields ::
  "(json \<Rightarrow> 'b option) \<Rightarrow> (string \<times> json) list \<Rightarrow> string \<Rightarrow> string list \<Rightarrow> (string \<times> 'b) list checked" where
  "mrc_fields check d path [] = Inr []"
| "mrc_fields check d path (f # fs) =
     (case dict_get d f of
        None \<Rightarrow> mrc_fields check d path fs
      | Some v \<Rightarrow>
          (case check v of
             None \<Rightarrow> Inl (ScenarioError (path @ ''.'' @ f))
           | Some w \<Rightarrow> bindE (mrc_fields check d path fs) (\<lambda>kw. Inr ((f, w) # kw))))"

definition mrc_spec_of :: "(string \<times> int) list \<Rightarrow> (string \<times> pyfloat) list \<Rightarrow> mrc_spec" where
  "mrc_spec_of ints ratios =
     \<lparr>ms_probe_interval_ms = dict_get ints ''probe_interval_ms'',
      ms_probe_timeout_ms = dict_get ints ''probe_timeout_ms'',
      ms_loss_window_ms = dict_get ints ''loss_window_ms'',
      ms_max_window_skew_ms = dict_get ints ''max_window_skew_ms'',
      ms_probe_window_ticks = dict_get ints ''probe_window_ticks'',
      ms_probe_min_samples = dict_get ints ''probe_min_samples'',
      ms_probe_fail_ratio = dict_get ratios ''probe_fail_ratio'',
      ms_probe_recover_ratio = dict_get ratios ''probe_recover_ratio'',
      ms_probe_recover_ticks = dict_get ints ''probe_recover_ticks'',
      ms_loss_threshold = dict_get ratios ''loss_threshold'',
      ms_loss_demote_consecutive = dict_get ints ''loss_demote_consecutive'',
      ms_min_active_evs = dict_get ints ''min_active_evs'',
      ms_loss_backoff_max_level = dict_get ints ''loss_backoff_max_level'',
      ms_loss_backoff_reset_ticks = dict_get ints ''loss_backoff_reset_ticks''\<rparr>"

definition validate_mrc :: "json \<Rightarrow> string \<Rightarrow> mrc_spec checked" where
  "validate_mrc v path =
     (case v of
        JNull \<Rightarrow> Inr empty_mrc_spec
      | JObj d \<Rightarrow>
          bindE (require_keys d path [] MRC_OPTIONAL) (\<lambda>_.
          bindE (mrc_fields positive_int d path MRC_POSITIVE_INT_FIELDS) (\<lambda>ps.
          bindE (mrc_fields non_negative_int d path MRC_NON_NEGATIVE_INT_FIELDS) (\<lambda>ns.
          bindE (mrc_fields unit_ratio d path MRC_RATIO_FIELDS) (\<lambda>rs.
            Inr (mrc_spec_of (ps @ ns) rs)))))
      | _ \<Rightarrow> Inl (ScenarioError path))"

subsection \<open>The trim block\<close>

text \<open>The local function \<open>ints\<close>.\<close>

definition trim_ints :: "json \<Rightarrow> string \<Rightarrow> int list checked" where
  "trim_ints v path =
     (case v of
        JList xs \<Rightarrow> bindE (reject_if (list_ex (\<lambda>x. non_negative_int x = None) xs) path)
                      (\<lambda>_. Inr (List.map_filter non_negative_int xs))
      | _ \<Rightarrow> Inl (ScenarioError path))"

definition trim_ev :: "string \<Rightarrow> nat \<times> json \<Rightarrow> (int \<times> int) checked" where
  "trim_ev path ie =
     bindE (trim_ints (snd ie) (at_index path (fst ie))) (\<lambda>pair.
       case pair of [p, q] \<Rightarrow> Inr (p, q) | _ \<Rightarrow> Inl (ScenarioError (at_index path (fst ie))))"

definition get_or :: "(string \<times> json) list \<Rightarrow> string \<Rightarrow> json \<Rightarrow> json" where
  "get_or d k dflt = (case dict_get d k of None \<Rightarrow> dflt | Some v \<Rightarrow> v)"

definition or_reject :: "'a option \<Rightarrow> string \<Rightarrow> 'a checked" where
  "or_reject x path = (case x of None \<Rightarrow> Inl (ScenarioError path) | Some y \<Rightarrow> Inr y)"

definition trim_mode_of :: "json \<Rightarrow> string option" where
  "trim_mode_of v = (case v of JStr m \<Rightarrow> if m \<in> set TRIM_MODES then Some m else None | _ \<Rightarrow> None)"

definition validate_trim :: "json \<Rightarrow> string \<Rightarrow> trim_spec checked" where
  "validate_trim v path =
     (case v of
        JObj d \<Rightarrow>
          bindE (require_keys d path [''rate''] [''mode'', ''planes'', ''evs'', ''seed'', ''max_retransmits'']) (\<lambda>_.
          bindE (subscript d ''rate'') (\<lambda>rv.
          bindE (or_reject (unit_ratio rv) (path @ ''.rate'')) (\<lambda>rate.
          bindE (or_reject (trim_mode_of (get_or d ''mode'' (JStr ''trim''))) (path @ ''.mode'')) (\<lambda>mode.
          bindE (trim_ints (get_or d ''planes'' (JList [])) (path @ ''.planes'')) (\<lambda>pls.
          bindE (case get_or d ''evs'' (JList []) of JList es \<Rightarrow> Inr es | _ \<Rightarrow> Inl (ScenarioError (path @ ''.evs''))) (\<lambda>evs_raw.
          bindE (mapE (trim_ev (path @ ''.evs'')) (enumerate 0 evs_raw)) (\<lambda>evs.
          bindE (or_reject (non_negative_int (get_or d ''seed'' (JInt 0))) (path @ ''.seed'')) (\<lambda>seed.
          bindE (or_reject (non_negative_int (get_or d ''max_retransmits'' (JInt 3))) (path @ ''.max_retransmits'')) (\<lambda>mx.
            unexpected (mk_trim_spec rate mode pls evs seed mx))))))))))
      | _ \<Rightarrow> Inl (ScenarioError path))"

subsection \<open>The document\<close>

definition SCENARIO_OPTIONAL :: "string list" where
  "SCENARIO_OPTIONAL =
     [''description'', ''faults'', ''report'', ''mrc'', ''paths_per_plane'', ''sid'', ''transport'', ''trim'']"

text \<open>\<open>x if "k" in doc else None\<close>\<close>

definition if_present ::
  "(string \<times> json) list \<Rightarrow> string \<Rightarrow> (json \<Rightarrow> 'a checked) \<Rightarrow> 'a option checked" where
  "if_present d k f = (case dict_get d k of None \<Rightarrow> Inr None | Some v \<Rightarrow> bindE (f v) (\<lambda>x. Inr (Some x)))"

definition validate :: "topo \<Rightarrow> topology result \<Rightarrow> (json \<Rightarrow> string) \<Rightarrow> json \<Rightarrow> scenario checked" where
  "validate g tp repr doc =
     (case doc of
        JObj d \<Rightarrow>
          bindE (require_keys d ''$'' [''name'', ''flows''] SCENARIO_OPTIONAL) (\<lambda>_.
          bindE (require_str d ''$.name'') (\<lambda>name.
          bindE (opt_str d ''$.description'' []) (\<lambda>description.
          bindE (subscript d ''flows'') (\<lambda>flows_raw.
          bindE (case flows_raw of
                   JList (x # xs) \<Rightarrow> mapE (validate_flow g tp repr ''$.flows'') (enumerate 0 (x # xs))
                 | _ \<Rightarrow> Inl (ScenarioError ''$.flows'')) (\<lambda>flows.
          bindE (let faults_raw = get_or d ''faults'' JNull in
                 if \<not> py_truth faults_raw then Inr []
                 else case faults_raw of
                        JList xs \<Rightarrow> mapE (validate_fault g ''$.faults'') (enumerate 0 xs)
                      | _ \<Rightarrow> Inl (ScenarioError ''$.faults'')) (\<lambda>faults.
          bindE (validate_report (get_or d ''report'' JNull) ''$.report'') (\<lambda>report.
          bindE (if_present d ''mrc'' (\<lambda>v. validate_mrc v ''$.mrc'')) (\<lambda>mrc.
          bindE (validate_paths_per_plane g (get_or d ''paths_per_plane'' JNull) ''$.paths_per_plane'') (\<lambda>paths.
          bindE (validate_sid_mode (get_or d ''sid'' JNull) ''$.sid'') (\<lambda>sid.
          bindE (validate_transport (get_or d ''transport'' JNull) ''$.transport'') (\<lambda>transport.
          bindE (if_present d ''trim'' (\<lambda>v. validate_trim v ''$.trim'')) (\<lambda>trim.
          bindE (reject_if (trim \<noteq> None \<and> mrc = None) ''$.trim'') (\<lambda>_.
            Inr \<lparr>sc_name = name, sc_description = description, sc_flows = flows, sc_faults = faults,
                 sc_report_out = report, sc_mrc = mrc, sc_paths_per_plane = paths, sc_sid = sid,
                 sc_transport = transport, sc_trim = trim\<rparr>)))))))))))))
      | _ \<Rightarrow> Inl (ScenarioError ''$''))"

subsection \<open>Overrides from the command line\<close>

definition override_duration :: "scenario \<Rightarrow> pyfloat \<Rightarrow> scenario" where
  "override_duration s d = s\<lparr>sc_flows := map (\<lambda>fs. fs\<lparr>fl_duration_s := d\<rparr>) (sc_flows s)\<rparr>"

definition override_sid_mode :: "scenario \<Rightarrow> string \<Rightarrow> scenario" where
  "override_sid_mode s m = s\<lparr>sc_sid := Some m\<rparr>"

definition override_transport :: "scenario \<Rightarrow> string \<Rightarrow> scenario" where
  "override_transport s t = s\<lparr>sc_transport := Some t\<rparr>"

end
