(* ===== verification/ScenarioProperties.thy ===== *)
theory ScenarioProperties
  imports Scenario
begin

text \<open>
  What an accepted scenario is, which exceptions the validator lets through, and the way of the mrc
  block to the configuration of the agents.
\<close>

subsection \<open>Only ScenarioErrors\<close>

text \<open>\<open>fails_only P m\<close>: an exception that is no \<open>ScenarioError\<close> satisfies \<open>P\<close>.\<close>

definition fails_only :: "(py_error \<Rightarrow> bool) \<Rightarrow> 'a checked \<Rightarrow> bool" where
  "fails_only P m \<longleftrightarrow> (\<forall>e. m = Inl (Unexpected e) \<longrightarrow> P e)"

named_theorems only_intros \<open>where unexpected exceptions come from\<close>

lemma fails_only_simps [simp]:
  "fails_only P (Inr x)" "fails_only P (Inl (ScenarioError path))" "fails_only P (reject_if c path)"
  "fails_only P (or_reject y path)" "fails_only P (opt_str d path dflt)" "fails_only P (require_keys d path req opt)"
  by (auto simp: fails_only_def reject_if_def raise_if_def or_reject_def opt_str_def require_keys_def
        split: option.splits json.splits)

lemma fails_only_bindE [only_intros]:
  "fails_only P m \<Longrightarrow> (\<And>x. m = Inr x \<Longrightarrow> fails_only P (f x)) \<Longrightarrow> fails_only P (bindE m f)"
  by (cases m) (auto simp: fails_only_def)

lemma fails_only_mapE [only_intros]:
  "(\<And>x. x \<in> set xs \<Longrightarrow> fails_only P (f x)) \<Longrightarrow> fails_only P (mapE f xs)"
  by (induction xs) (auto intro!: only_intros)

lemma fails_only_mono: "fails_only P m \<Longrightarrow> (\<And>e. P e \<Longrightarrow> Q e) \<Longrightarrow> fails_only Q m"
  by (auto simp: fails_only_def)

lemma fails_only_catch:
  "(\<And>e. m = Inl e \<Longrightarrow> e \<noteq> ValueError \<Longrightarrow> P e) \<Longrightarrow> fails_only P (catch_value path m)"
  by (cases m) (auto simp: fails_only_def)

lemma fails_only_unexpected: "(\<And>e. m = Inl e \<Longrightarrow> P e) \<Longrightarrow> fails_only P (unexpected m)"
  by (cases m) (auto simp: fails_only_def)

definition has_key :: "(string \<times> json) list \<Rightarrow> string \<Rightarrow> bool" where
  "has_key d k \<longleftrightarrow> dict_get d k \<noteq> None"

lemma require_keys_Inr [simp]:
  "require_keys d path req opt = Inr u \<longleftrightarrow>
   list_all (has_key d) req \<and> fst ` set d \<subseteq> set req \<union> set opt"
proof -
  have "has_key d k \<longleftrightarrow> k \<in> set (map fst d)" for k by (simp add: has_key_def map_of_eq_None_iff)
  then show ?thesis by (auto simp: require_keys_def list_ex_iff list_all_iff)
qed

lemma fails_only_subscript: "has_key d k \<Longrightarrow> fails_only P (subscript d k)"
  by (auto simp: has_key_def subscript_def)

lemma path_leaf_dot [simp]: "CHR ''.'' \<notin> set k \<Longrightarrow> path_leaf (path @ CHR ''.'' # k) = k"
  by (simp add: path_leaf_def takeWhile_append)

lemma path_leaf_top [simp]: "path_leaf ''$.name'' = ''name''" "path_leaf ''$.description'' = ''description''"
  by (simp_all add: path_leaf_def)

lemma fails_only_require:
  assumes "has_key d (path_leaf path)"
  shows "fails_only P (require_str d path)" "fails_only P (require_choice d path ch)"
    "fails_only P (require_host_id g d path)"
proof -
  have k: "fails_only P (subscript d (path_leaf path))" using assms by (rule fails_only_subscript)
  show "fails_only P (require_str d path)" unfolding require_str_def
    by (rule fails_only_bindE [OF k]) (simp split: json.split)
  show "fails_only P (require_choice d path ch)" unfolding require_choice_def
    by (rule fails_only_bindE [OF k]) (simp split: json.split)
  show "fails_only P (require_host_id g d path)" unfolding require_host_id_def
    by (rule fails_only_bindE [OF k]) (simp split: option.split)
qed

lemma parse_target_ValueError: "parse_target g v = Inl e \<Longrightarrow> e = ValueError"
proof -
  have h: "validate_host g n = Inl e \<Longrightarrow> e = ValueError" for n
    by (auto simp: validate_host_def raise_if_def split: if_splits option.splits)
  assume a: "parse_target g v = Inl e"
  then consider s where "v = JStr s" | "e = ValueError" by (cases v) (auto simp: parse_target_def)
  then show ?thesis
  proof cases
    case (1 s)
    consider (two) x y where "py_words s = [x, y]" | (four) x y z u where "py_words s = [x, y, z, u]"
      | (other) "e = ValueError"
      using a 1 by (auto simp: parse_target_def split: list.splits)
    then show ?thesis
    proof cases
      case two
      then show ?thesis using a 1 by (auto simp: parse_target_def Let_def py_simps dest: h split: if_splits)
    next
      case four
      then show ?thesis using a 1 by (auto simp: parse_target_def Let_def py_simps dest: h split: if_splits)
    qed
  qed
qed

lemma normalize_spec_ValueError: "normalize_spec v = Inl e \<Longrightarrow> e = ValueError"
  by (auto simp: normalize_spec_def split: json.splits list.splits if_splits)

lemma fails_only_resolve [simp]:
  "fails_only P (catch_value path (parse_target g v))" "fails_only P (catch_value path (normalize_spec v))"
  using parse_target_ValueError normalize_spec_ValueError by (blast intro: fails_only_catch)+

subsection \<open>Numbers in text\<close>

lemma all_takeWhile: "list_all P (takeWhile P xs)"
  by (auto simp: list_all_iff dest: set_takeWhileD)

lemma takeWhile_digits: "list_all py_digit ds \<Longrightarrow> takeWhile py_digit (ds @ r) = ds @ takeWhile py_digit r"
  by (simp add: takeWhile_append list_all_iff)

lemma dropWhile_digits: "list_all py_digit ds \<Longrightarrow> dropWhile py_digit (ds @ r) = dropWhile py_digit r"
  by (simp add: dropWhile_append list_all_iff)

lemma digit_not_special:
  "py_digit c \<Longrightarrow> \<not> py_space c \<and> c \<noteq> CHR ''-'' \<and> c \<noteq> CHR ''+'' \<and> c \<noteq> CHR ''.''"
  by (auto simp: py_digit_def py_space_def Let_def)

lemma not_digit_dot [simp]: "\<not> py_digit (CHR ''.'')" "\<not> py_space (CHR ''.'')"
  by code_simp+

text \<open>A numeral of the grammar reads as the decimal number it writes.\<close>

lemma float_of_numeral:
  assumes "list_all py_digit ds" "ds \<noteq> []"
  shows "float_of_string ds = Some (rnd (rat_of_nat (dec_value 0 ds)))"
    and "list_all py_digit fr \<Longrightarrow> float_of_string (ds @ CHR ''.'' # fr) =
      Some (rnd (rat_of_nat (dec_value 0 (ds @ fr)) * 10 powi (- int (length fr))))"
proof -
  have sp: "\<forall>c \<in> set ds. \<not> py_space c" using assms(1) by (auto simp: list_all_iff digit_not_special)
  have sg: "split_sign (ds @ r) = (False, ds @ r)" for r
    using assms by (cases ds) (auto simp: digit_not_special)
  have tw: "takeWhile py_digit ds = ds" "dropWhile py_digit ds = []"
    using takeWhile_digits [OF assms(1), of "[]"] dropWhile_digits [OF assms(1), of "[]"] by simp_all
  show "float_of_string ds = Some (rnd (rat_of_nat (dec_value 0 ds)))"
    using sg [of "[]"] assms(2) by (simp add: float_of_string_def py_strip_id [OF sp] tw exponent_of_string_def Let_def)
  assume f: "list_all py_digit fr"
  have sp': "\<forall>c \<in> set (ds @ CHR ''.'' # fr). \<not> py_space c"
    using sp f by (auto simp: list_all_iff digit_not_special)
  have tf: "takeWhile py_digit fr = fr" "dropWhile py_digit fr = []"
    using takeWhile_digits [OF f, of "[]"] dropWhile_digits [OF f, of "[]"] by simp_all
  show "float_of_string (ds @ CHR ''.'' # fr) =
      Some (rnd (rat_of_nat (dec_value 0 (ds @ fr)) * 10 powi (- int (length fr))))"
    using assms by (simp add: float_of_string_def py_strip_id [OF sp'] sg takeWhile_digits dropWhile_digits
        tf exponent_of_string_def Let_def)
qed

lemma duration_match_numeral:
  assumes "duration_match s = Some m"
  shows "\<exists>x. py_float (JStr (fst m)) = Inr x \<and> 0 \<le> x"
proof -
  define u where "u = dropWhile py_digit (py_strip s)"
  define ds where "ds = takeWhile py_digit (py_strip s)"
  define fr where "fr = (if u \<noteq> [] \<and> hd u = CHR ''.'' then takeWhile py_digit (tl u) else [])"
  have m: "ds \<noteq> []" "fst m = (if fr = [] then ds else ds @ CHR ''.'' # fr)"
    using assms by (auto simp: duration_match_def Let_def u_def ds_def fr_def split: if_splits)
  have d: "list_all py_digit ds" "list_all py_digit fr"
    by (simp_all add: ds_def fr_def all_takeWhile)
  show ?thesis
    using m(2) float_of_numeral [OF d(1) m(1)] d(2) by (cases "fr = []") auto
qed

lemma duration_value_total:
  assumes "duration_match s = Some m"
  shows "\<exists>x. duration_value m = Inr x \<and> 0 \<le> x"
proof -
  obtain x where x: "py_float (JStr (fst m)) = Inr x" "0 \<le> x" using duration_match_numeral [OF assms] by blast
  then show ?thesis by (auto simp: duration_value_def fdiv_def simp del: py_float.simps)
qed

lemma parse_duration_only: "fails_only P (parse_duration v path)"
  using duration_value_total
  by (fastforce simp: parse_duration_def fails_only_def split: json.splits option.splits if_splits)

lemma parse_rate_only: "fails_only P (parse_rate v path)"
  by (auto simp: parse_rate_def fails_only_def split: json.splits option.splits if_splits)


subsection \<open>Every other failure is a ScenarioError\<close>

lemma resolve_pair_only: "fails_only P (resolve_pair g path ie)"
  by (auto simp: resolve_pair_def Let_def intro!: only_intros fails_only_require split: json.split)

lemma resolve_pairs_only: "fails_only P (resolve_pairs g v path)"
  by (auto simp: resolve_pairs_def intro!: only_intros resolve_pair_only split: json.split option.split)

lemma validate_fault_only: "fails_only P (validate_fault g base ie)"
  by (auto simp: validate_fault_def Let_def intro!: only_intros fails_only_require split: json.split)

lemma validate_mrc_only: "fails_only P (validate_mrc v path)"
proof -
  have f: "fails_only P (mrc_fields check d path fs)" for check :: "json \<Rightarrow> 'b option" and d fs
    by (induction fs) (auto intro!: only_intros split: option.split)
  show ?thesis by (auto simp: validate_mrc_def intro!: only_intros f split: json.split)
qed

lemma in_unit_Some: "in_unit x = Some y \<longleftrightarrow> y = x \<and> 0 \<le> x \<and> x \<le> 1"
  by (auto simp: in_unit_def)

lemma unit_ratio_bounds: "unit_ratio v = Some x \<Longrightarrow> 0 \<le> x \<and> x \<le> 1"
  by (cases v) (auto simp: in_unit_Some)

lemma non_negative_int_Some: "non_negative_int v = Some k \<Longrightarrow> v = JInt k \<and> 0 \<le> k"
  by (cases v) (auto split: if_splits)

lemma or_reject_Inr [simp]: "or_reject x path = Inr y \<longleftrightarrow> x = Some y"
  by (auto simp: or_reject_def split: option.splits)

lemma trim_mode_of_Some: "trim_mode_of v = Some m \<Longrightarrow> v = JStr m \<and> m \<in> set TRIM_MODES"
  by (auto simp: trim_mode_of_def split: json.splits if_splits)

text \<open>The checks of the validator imply those of \<open>TrimSpec.__post_init__\<close>.\<close>

lemma validate_trim_spec_total:
  assumes "unit_ratio rv = Some rate" "trim_mode_of mv = Some mode" "non_negative_int xv = Some mx"
  shows "mk_trim_spec rate mode pls es seed mx =
    Inr \<lparr>trim_rate = rate, trim_mode = mode, trim_planes = pls, trim_evs = es, trim_seed = seed,
         trim_max_retransmits = mx\<rparr>"
  using unit_ratio_bounds [OF assms(1)] trim_mode_of_Some [OF assms(2)] non_negative_int_Some [OF assms(3)]
  by (auto simp: mk_trim_spec_def trim_post_init_def Let_def)

lemma trim_ints_only: "fails_only P (trim_ints v path)"
  by (auto simp: trim_ints_def split: json.split)

lemma trim_ev_only: "fails_only P (trim_ev path ie)"
  by (auto simp: trim_ev_def intro!: only_intros trim_ints_only split: list.split)

lemma validate_trim_only: "fails_only P (validate_trim v path)"
  by (auto simp: validate_trim_def validate_trim_spec_total
      intro!: only_intros trim_ints_only trim_ev_only fails_only_subscript fails_only_unexpected split: json.split)

text \<open>The specification of a flow whose policy cannot be built, for another reason than its value.\<close>

definition flow_policy :: "json \<Rightarrow> json option" where
  "flow_policy item = jget item ''policy''"

definition policy_raises :: "topo \<Rightarrow> topology result \<Rightarrow> json \<Rightarrow> py_error \<Rightarrow> bool" where
  "policy_raises g tp item e \<longleftrightarrow>
     e \<noteq> ValueError \<and> (\<exists>spec. flow_policy item = Some spec \<and> bindE tp (\<lambda>T. policy_from_spec g spec (Some T)) = Inl e)"

lemma subscript_Inr [simp]: "subscript d k = Inr v \<longleftrightarrow> dict_get d k = Some v"
  by (auto simp: subscript_def split: option.splits)

lemma validate_flow_only: "fails_only (policy_raises g tp (snd ie)) (validate_flow g tp repr base ie)"
proof (cases "snd ie")
  case (JObj d)
  show ?thesis
    unfolding validate_flow_def Let_def JObj json.case
    by (intro only_intros fails_only_catch)
       (auto intro!: fails_only_subscript resolve_pairs_only parse_rate_only parse_duration_only only_intros
         simp: policy_raises_def flow_policy_def)
qed (simp_all add: validate_flow_def Let_def)

lemma fails_only_if_present:
  "(\<And>v. dict_get d k = Some v \<Longrightarrow> fails_only P (f v)) \<Longrightarrow> fails_only P (if_present d k f)"
  by (auto simp: if_present_def intro!: only_intros split: option.split)

lemma settings_only:
  "fails_only P (validate_report v path)" "fails_only P (validate_paths_per_plane g v path)"
  "fails_only P (validate_sid_mode v path)" "fails_only P (validate_transport v path)"
  by (auto simp: validate_report_def validate_paths_per_plane_def validate_sid_mode_def validate_transport_def
      intro!: only_intros split: json.split option.split)

lemma faults_only:
  "fails_only P (let raw = get_or d ''faults'' JNull in
     if \<not> py_truth raw then Inr []
     else case raw of JList xs \<Rightarrow> mapE (validate_fault g base) (enumerate 0 xs) | _ \<Rightarrow> Inl (ScenarioError path))"
  by (auto simp: Let_def intro!: only_intros validate_fault_only split: json.split)

definition flow_items :: "json \<Rightarrow> json list" where
  "flow_items doc = (case jget doc ''flows'' of Some (JList xs) \<Rightarrow> xs | _ \<Rightarrow> [])"

lemma flows_only:
  "fails_only (\<lambda>e. \<exists>item \<in> set (case raw of JList xs \<Rightarrow> xs | _ \<Rightarrow> []). policy_raises g tp item e)
     (case raw of JList (x # xs) \<Rightarrow> mapE (validate_flow g tp repr base) (enumerate 0 (x # xs))
      | _ \<Rightarrow> Inl (ScenarioError path))"
proof -
  have m: "fails_only (\<lambda>e. \<exists>item \<in> set xs. policy_raises g tp item e) (mapE (validate_flow g tp repr base) (enumerate 0 xs))" for xs
    by (intro fails_only_mapE fails_only_mono [OF validate_flow_only])
       (auto simp: in_set_enumerate_eq intro: bexI [OF _ nth_mem])
  show ?thesis
  proof (cases raw)
    case (JList xs)
    then show ?thesis using m [of xs] by (cases xs) (simp_all del: enumerate_simps list.set)
  qed simp_all
qed

text \<open>
  C20. The validator reports what is wrong with a document as a ScenarioError, with one exception: an
  error other than ValueError raised while a flow's policy is built (a weight or a fan-out that is
  no number) leaves it as it is. Missing keys, values of the wrong type, numbers out of range,
  unparsable targets, specs, rates and durations never do.
\<close>

theorem scenario_errors_converted:
  assumes "validate g tp repr doc = Inl (Unexpected e)"
  shows "\<exists>item \<in> set (flow_items doc). policy_raises g tp item e"
proof (cases doc)
  case (JObj d)
  have "fails_only (\<lambda>e. \<exists>item \<in> set (flow_items doc). policy_raises g tp item e) (validate g tp repr doc)"
    unfolding validate_def JObj json.case
    by (intro only_intros; (rule settings_only fails_only_if_present fails_only_require fails_only_subscript
          fails_only_mono [OF flows_only] faults_only)?;
        auto simp: flow_items_def intro!: validate_mrc_only validate_trim_only)
  then show ?thesis using assms by (simp add: fails_only_def)
qed (use assms in \<open>simp_all add: validate_def\<close>)


subsection \<open>Accepted documents\<close>

definition pair_ok :: "topo \<Rightarrow> flow_pair \<Rightarrow> bool" where
  "pair_ok g p \<longleftrightarrow> fp_tenant p \<in> set (TENANTS g) \<and> 0 \<le> fp_src p \<and> fp_src p < NUM_LEAVES g
     \<and> 0 \<le> fp_dst p \<and> fp_dst p < NUM_LEAVES g \<and> fp_src p \<noteq> fp_dst p"

definition flow_ok :: "topo \<Rightarrow> topology result \<Rightarrow> flow_spec \<Rightarrow> bool" where
  "flow_ok g tp fs \<longleftrightarrow>
     fl_pairs fs \<noteq> [] \<and> (list_all (pair_ok g) (fl_pairs fs) \<or> fl_pairs fs \<in> snd ` set fixed_pair_sets)
     \<and> (\<exists>T p. tp = Inr T \<and> policy_from_spec g (fl_policy_spec fs) (Some T) = Inr p)
     \<and> 0 \<le> fl_rate_pps fs \<and> 0 \<le> fl_duration_s fs"

definition fault_ok :: "topo \<Rightarrow> fault_spec \<Rightarrow> bool" where
  "fault_ok g f \<longleftrightarrow> (\<exists>nf. nf_resolve g (mk_netem_fault (JStr (fa_target f)) (JStr (fa_spec f))) = Inr nf)"

definition mrc_ok :: "mrc_spec \<Rightarrow> bool" where
  "mrc_ok m \<longleftrightarrow>
     list_all (pred_option (\<lambda>k. 0 < k))
       [ms_probe_interval_ms m, ms_probe_timeout_ms m, ms_loss_window_ms m,
        ms_max_window_skew_ms m, ms_probe_window_ticks m, ms_probe_min_samples m, ms_probe_recover_ticks m,
        ms_loss_demote_consecutive m, ms_min_active_evs m, ms_loss_backoff_reset_ticks m]
     \<and> pred_option (\<lambda>k. 0 \<le> k) (ms_loss_backoff_max_level m)
     \<and> list_all (pred_option (\<lambda>x. 0 \<le> x \<and> x \<le> 1))
          [ms_probe_fail_ratio m, ms_probe_recover_ratio m, ms_loss_threshold m]"

definition scenario_ok :: "topo \<Rightarrow> topology result \<Rightarrow> scenario \<Rightarrow> bool" where
  "scenario_ok g tp s \<longleftrightarrow>
     sc_name s \<noteq> [] \<and> sc_flows s \<noteq> [] \<and> list_all (flow_ok g tp) (sc_flows s)
     \<and> list_all (fault_ok g) (sc_faults s)
     \<and> pred_option mrc_ok (sc_mrc s)
     \<and> pred_option (\<lambda>k. 1 \<le> k \<and> k \<le> NUM_SPINES g) (sc_paths_per_plane s)
     \<and> pred_option (\<lambda>m. m \<in> set SID_MODES) (sc_sid s)
     \<and> pred_option (\<lambda>t. t \<in> set TRANSPORTS) (sc_transport s)
     \<and> pred_option (\<lambda>t. trim_post_init t = Inr () \<and> 0 \<le> trim_seed t
           \<and> list_all (\<lambda>p. 0 \<le> p) (trim_planes t) \<and> list_all (\<lambda>(p, q). 0 \<le> p \<and> 0 \<le> q) (trim_evs t)
           \<and> sc_mrc s \<noteq> None) (sc_trim s)"

lemma mapE_all:
  assumes "mapE f xs = Inr ys" "\<And>x y. f x = Inr y \<Longrightarrow> P y"
  shows "list_all P ys"
  using assms(1) by (induction xs arbitrary: ys) (auto simp: py_simps assms(2))

lemma mapE_Nil_iff: "mapE f xs = Inr [] \<longleftrightarrow> xs = []"
  by (cases xs) (auto simp: py_simps)

lemma require_choice_Inr: "require_choice d path ch = Inr t \<Longrightarrow> t \<in> set ch"
  unfolding require_choice_def bindE_Inr_iff subscript_Inr
  by (elim exE conjE) (simp split: json.split_asm if_split_asm)

lemma require_host_id_Inr: "require_host_id g d path = Inr k \<Longrightarrow> 0 \<le> k \<and> k < NUM_LEAVES g"
  by (auto simp: require_host_id_def py_simps split: option.splits if_splits)

lemma require_str_Inr: "require_str d path = Inr t \<Longrightarrow> t \<noteq> []"
  unfolding require_str_def bindE_Inr_iff subscript_Inr
  by (elim exE conjE) (simp split: json.split_asm if_split_asm)

lemma list_pair_ok:
  assumes "resolve_pair g path ie = Inr p"
  shows "pair_ok g p"
  using assms
  by (auto simp: resolve_pair_def Let_def py_simps pair_ok_def flow_pair_of_def
      dest: require_choice_Inr require_host_id_Inr split: json.splits if_splits)

text \<open>The generated sets fit the fabric they are generated for; a ring of one host would not.\<close>

lemma generated_pairs_ok:
  assumes "2 \<le> NUM_LEAVES g" "t \<in> set (TENANTS g)"
  shows "list_all (pair_ok g) (all_to_all_pairs g t)" "all_to_all_pairs g t \<noteq> []"
    "list_all (pair_ok g) (ring_pairs g t)" "ring_pairs g t \<noteq> []"
    "list_all (pair_ok g) (reference_pairs g t)" "reference_pairs g t \<noteq> []"
proof -
  have r: "(i + 1) mod n \<noteq> i" if "0 \<le> i" "i < n" "2 \<le> n" for i n :: int
    using that by (cases "i + 1 = n") auto
  show "list_all (pair_ok g) (all_to_all_pairs g t)"
    using assms by (auto simp: all_to_all_pairs_def Let_def list_all_iff pair_ok_def flow_pair_of_def)
  show "all_to_all_pairs g t \<noteq> []"
  proof -
    have "flow_pair_of t 0 1 \<in> set (all_to_all_pairs g t)"
      using assms by (auto simp: all_to_all_pairs_def Let_def intro!: bexI [of _ 0])
    then show ?thesis by auto
  qed
  show "list_all (pair_ok g) (ring_pairs g t)"
    using assms r [symmetric] by (auto simp: ring_pairs_def Let_def list_all_iff pair_ok_def flow_pair_of_def)
  show "ring_pairs g t \<noteq> []" "reference_pairs g t \<noteq> []"
    using assms by (simp_all add: ring_pairs_def reference_pairs_def Let_def)
  show "list_all (pair_ok g) (reference_pairs g t)"
    using assms by (auto simp: reference_pairs_def Let_def list_all_iff pair_ok_def flow_pair_of_def)
qed

definition set_ok :: "topo \<Rightarrow> flow_pair list \<Rightarrow> bool" where
  "set_ok g ps \<longleftrightarrow> ps \<noteq> [] \<and> (list_all (pair_ok g) ps \<or> ps \<in> snd ` set fixed_pair_sets)"

lemma named_pairs_ok:
  assumes "2 \<le> NUM_LEAVES g" "dict_get (NAMED_PAIR_SETS g) s = Some ps"
  shows "set_ok g ps"
proof -
  have gen: "set_ok g (all_to_all_pairs g t)" "set_ok g (ring_pairs g t)" "set_ok g (reference_pairs g t)"
    if "t \<in> set (TENANTS g)" for t
    using generated_pairs_ok [OF assms(1) that] by (simp_all add: set_ok_def)
  define sets_ok where "sets_ok d \<longleftrightarrow> (\<forall>s ps. dict_get d s = Some ps \<longrightarrow> set_ok g ps)"
    for d :: "(string \<times> flow_pair list) list"
  define add where "add d t =
        dict_put (t @ ''-pairs'') (reference_pairs g t)
        (dict_put (t @ ''-ring'') (ring_pairs g t)
        (dict_put (t @ ''-all-to-all'') (all_to_all_pairs g t) d))" for d t
  have put: "sets_ok (dict_put k qs d)" if "sets_ok d" "set_ok g qs" for k qs d
    using that by (auto simp: sets_ok_def)
  have step: "sets_ok (foldl add d0 ts)" if "set ts \<subseteq> set (TENANTS g)" "sets_ok d0" for d0 ts
    using that by (induction ts arbitrary: d0) (simp_all add: add_def put gen)
  have base: "set_ok g qs" if "dict_get fixed_pair_sets q = Some qs" for q qs
  proof -
    have "(q, qs) \<in> set fixed_pair_sets" using that by (rule map_of_SomeD)
    moreover have "[] \<notin> snd ` set fixed_pair_sets"
      by (simp add: fixed_pair_sets_def REFERENCE_PAIRS_def REFERENCE_PAIRS_4_def)
    ultimately show ?thesis unfolding set_ok_def by force
  qed
  show ?thesis using assms(2) step [of "TENANTS g" fixed_pair_sets] base by (simp add: NAMED_PAIR_SETS_def sets_ok_def add_def [abs_def])
qed


lemma resolve_pairs_ok:
  assumes "2 \<le> NUM_LEAVES g" "resolve_pairs g v path = Inr ps"
  shows "set_ok g ps"
proof (cases v)
  case (JStr s)
  then show ?thesis using assms named_pairs_ok [OF assms(1)] by (auto simp: resolve_pairs_def split: option.splits)
next
  case (JList xs)
  then have m: "xs \<noteq> []" "mapE (resolve_pair g path) (enumerate 0 xs) = Inr ps"
    using assms(2) by (auto simp: resolve_pairs_def split: if_splits)
  then have "length ps = length xs" using mapE_length by fastforce
  then show ?thesis using m(1) mapE_all [OF m(2) list_pair_ok] by (auto simp: set_ok_def)
qed (use assms(2) in \<open>simp_all add: resolve_pairs_def\<close>)

lemma parse_rate_ok: "parse_rate v path = Inr k \<Longrightarrow> 0 \<le> k"
  by (auto simp: parse_rate_def split: option.splits if_splits json.splits)

lemma parse_duration_ok: "parse_duration v path = Inr x \<Longrightarrow> 0 \<le> x"
proof -
  assume a: "parse_duration v path = Inr x"
  show ?thesis
  proof (cases v)
    case (JStr s)
    then obtain m where m: "duration_match s = Some m" "unexpected (duration_value m) = Inr x"
      using a by (auto simp: parse_duration_def split: option.splits)
    obtain y where "duration_value m = Inr y" "0 \<le> y" using duration_value_total [OF m(1)] by blast
    then show ?thesis using m(2) by simp
  qed (use a in \<open>auto simp: parse_duration_def float_of_int_def split: if_splits\<close>)
qed

lemma catch_value_Inr [simp]: "catch_value path m = Inr x \<longleftrightarrow> m = Inr x"
  by (cases m) auto

lemma validate_flow_ok:
  assumes "2 \<le> NUM_LEAVES g" "validate_flow g tp repr base ie = Inr fs"
  shows "flow_ok g tp fs"
proof (cases "snd ie")
  case (JObj d)
  from assms(2) obtain pv pairs raw p rate rv dur dv path where
    "resolve_pairs g pv path = Inr pairs" "bindE tp (\<lambda>T. policy_from_spec g raw (Some T)) = Inr p"
    "\<exists>q. parse_rate rv q = Inr rate"
    "\<exists>q. parse_duration dv q = Inr dur"
    "fs = \<lparr>fl_pairs = pairs, fl_policy_spec = raw, fl_rate_pps = rate, fl_duration_s = dur,
           fl_policy_label = policy_label repr raw\<rparr>"
    unfolding validate_flow_def Let_def JObj json.case bindE_Inr_iff catch_value_Inr by blast
  then show ?thesis
    using resolve_pairs_ok [OF assms(1)] parse_rate_ok parse_duration_ok
    by (fastforce simp: flow_ok_def set_ok_def bindE_Inr_iff)
qed (use assms(2) in \<open>simp_all add: validate_flow_def Let_def\<close>)

lemma validate_fault_ok:
  assumes "validate_fault g base ie = Inr f"
  shows "fault_ok g f"
proof (cases "snd ie")
  case (JObj d)
  then show ?thesis
    using assms by (auto simp: validate_fault_def Let_def bindE_Inr_iff fault_ok_def nf_resolve_def
        mk_netem_fault_def split: if_splits)
qed (use assms in \<open>simp_all add: validate_fault_def Let_def\<close>)

subsubsection \<open>The fields of the mrc block\<close>

text \<open>A loop collects exactly the fields that are there, checked.\<close>

lemma mrc_fields_get:
  assumes "mrc_fields check d path fs = Inr kw"
  shows "dict_get kw f = (if f \<in> set fs then Option.bind (dict_get d f) check else None)"
    and "f \<in> set fs \<Longrightarrow> dict_get d f = Some v \<Longrightarrow> check v \<noteq> None"
  using assms by (induction fs arbitrary: kw) (auto simp: py_simps split: option.splits if_splits)

lemma validate_mrc_fields:
  assumes "validate_mrc v path = Inr m"
  obtains d ps ns rs where
    "v = JNull \<and> d = [] \<or> v = JObj d" "fst ` set d \<subseteq> set MRC_OPTIONAL" "m = mrc_spec_of (ps @ ns) rs"
    "mrc_fields positive_int d path MRC_POSITIVE_INT_FIELDS = Inr ps"
    "mrc_fields non_negative_int d path MRC_NON_NEGATIVE_INT_FIELDS = Inr ns"
    "mrc_fields unit_ratio d path MRC_RATIO_FIELDS = Inr rs"
proof (cases v)
  case JNull
  have n: "mrc_fields c [] path fs = Inr []" for c :: "json \<Rightarrow> 'b option" and fs by (induction fs) auto
  show ?thesis
    by (rule that [of "[]" "[]" "[]" "[]"]) (use assms JNull in \<open>simp_all add: n validate_mrc_def mrc_spec_of_def empty_mrc_spec_def\<close>)
next
  case (JObj d)
  have "fst ` set d \<subseteq> set MRC_OPTIONAL" and
    "\<exists>ps ns rs. mrc_fields positive_int d path MRC_POSITIVE_INT_FIELDS = Inr ps
      \<and> mrc_fields non_negative_int d path MRC_NON_NEGATIVE_INT_FIELDS = Inr ns
      \<and> mrc_fields unit_ratio d path MRC_RATIO_FIELDS = Inr rs \<and> m = mrc_spec_of (ps @ ns) rs"
    using assms JObj by (auto simp: validate_mrc_def py_simps)
  then show ?thesis using that [of d] JObj by blast
qed (use assms in \<open>simp_all add: validate_mrc_def\<close>)

lemmas mrc_field_lists = MRC_POSITIVE_INT_FIELDS_def MRC_NON_NEGATIVE_INT_FIELDS_def MRC_RATIO_FIELDS_def

lemma mrc_int_kwargs:
  assumes "mrc_fields positive_int d path MRC_POSITIVE_INT_FIELDS = Inr ps"
    "mrc_fields non_negative_int d path MRC_NON_NEGATIVE_INT_FIELDS = Inr ns"
  shows "dict_get (ps @ ns) f =
    (if f = ''loss_backoff_max_level'' then Option.bind (dict_get d f) non_negative_int
     else if f \<in> set MRC_POSITIVE_INT_FIELDS then Option.bind (dict_get d f) positive_int else None)"
proof -
  have l: "g \<in> set MRC_NON_NEGATIVE_INT_FIELDS \<longleftrightarrow> g = ''loss_backoff_max_level''" for g
    by (simp add: MRC_NON_NEGATIVE_INT_FIELDS_def)
  have n: "''loss_backoff_max_level'' \<notin> set MRC_POSITIVE_INT_FIELDS" by (simp add: MRC_POSITIVE_INT_FIELDS_def)
  show ?thesis
    unfolding map_of_append map_add_def mrc_fields_get(1) [OF assms(1)] mrc_fields_get(1) [OF assms(2)] l
    using n by (cases "f = ''loss_backoff_max_level''") (auto split: option.split)
qed

lemma positive_int_Some: "positive_int v = Some k \<longleftrightarrow> v = JInt k \<and> 0 < k"
  by (cases v) auto

lemma validate_mrc_ok:
  assumes "validate_mrc v path = Inr m"
  shows "mrc_ok m"
proof -
  obtain d ps ns rs where m: "m = mrc_spec_of (ps @ ns) rs"
    and p: "mrc_fields positive_int d path MRC_POSITIVE_INT_FIELDS = Inr ps"
    and n: "mrc_fields non_negative_int d path MRC_NON_NEGATIVE_INT_FIELDS = Inr ns"
    and r: "mrc_fields unit_ratio d path MRC_RATIO_FIELDS = Inr rs"
    using validate_mrc_fields [OF assms] by metis
  have pos: "pred_option (\<lambda>k. 0 < k) (dict_get (ps @ ns) f)" if "f \<in> set MRC_POSITIVE_INT_FIELDS" for f
    using that by (auto simp: mrc_int_kwargs [OF p n] positive_int_Some MRC_POSITIVE_INT_FIELDS_def
        bind_eq_Some_conv option.pred_set simp del: map_of_append)
  have nn: "pred_option (\<lambda>k. 0 \<le> k) (dict_get (ps @ ns) ''loss_backoff_max_level'')"
    by (auto simp: mrc_int_kwargs [OF p n] bind_eq_Some_conv option.pred_set simp del: map_of_append
        dest: non_negative_int_Some)
  have ra: "pred_option (\<lambda>x. 0 \<le> x \<and> x \<le> 1) (dict_get rs f)" for f
    by (auto simp: mrc_fields_get(1) [OF r] bind_eq_Some_conv option.pred_set dest: unit_ratio_bounds
        split: if_splits)
  show ?thesis
    unfolding m mrc_ok_def mrc_spec_of_def mrc_spec.select_convs list.pred_inject
    by (intro conjI pos nn ra TrueI) (simp_all add: MRC_POSITIVE_INT_FIELDS_def)
qed

lemma validate_trim_ok:
  assumes "validate_trim v path = Inr t"
  shows "trim_post_init t = Inr () \<and> 0 \<le> trim_seed t \<and> list_all (\<lambda>p. 0 \<le> p) (trim_planes t)
    \<and> list_all (\<lambda>(p, q). 0 \<le> p \<and> 0 \<le> q) (trim_evs t)"
proof (cases v)
  case (JObj d)
  have ints: "list_all (\<lambda>k. 0 \<le> k) ks" if t: "trim_ints w q = Inr ks" for w q ks
  proof -
    obtain xs where "ks = List.map_filter non_negative_int xs"
      using t by (auto simp: trim_ints_def split: json.splits if_splits)
    then show ?thesis using non_negative_int_Some by (fastforce simp: List.map_filter_def list_all_iff)
  qed
  have ev: "0 \<le> a \<and> 0 \<le> b" if t: "trim_ev q ie = Inr (a, b)" for q ie a b
  proof -
    obtain ks where "trim_ints (snd ie) (at_index q (fst ie)) = Inr ks" "ks = [a, b]"
      using t unfolding trim_ev_def bindE_Inr_iff by (elim exE conjE) (simp split: list.split_asm)
    with ints show ?thesis by fastforce
  qed
  obtain rv rate mv mode pv pls eraw es sv seed xv mx q1 q2 where *:
    "unit_ratio rv = Some rate" "trim_mode_of mv = Some mode" "trim_ints pv q1 = Inr pls"
    "mapE (trim_ev q2) (enumerate 0 eraw) = Inr es" "non_negative_int sv = Some seed"
    "non_negative_int xv = Some mx" "unexpected (mk_trim_spec rate mode pls es seed mx) = Inr t"
    using assms unfolding validate_trim_def JObj json.case bindE_Inr_iff or_reject_Inr by blast
  have t: "mk_trim_spec rate mode pls es seed mx = Inr t"
    using *(7) by (cases "mk_trim_spec rate mode pls es seed mx") auto
  have "list_all (\<lambda>(p, q). 0 \<le> p \<and> 0 \<le> q) es" by (rule mapE_all [OF *(4)]) (auto dest: ev)
  then show ?thesis
    using t ints [OF *(3)] non_negative_int_Some [OF *(5)] by (auto simp: mk_trim_spec_def Let_def bindE_Inr_iff)
qed (use assms in \<open>simp_all add: validate_trim_def\<close>)

lemma settings_ok:
  "validate_paths_per_plane g v path = Inr k \<Longrightarrow> pred_option (\<lambda>k. 1 \<le> k \<and> k \<le> NUM_SPINES g) k"
  "validate_sid_mode v path = Inr m \<Longrightarrow> pred_option (\<lambda>m. m \<in> set SID_MODES) m"
  "validate_transport v path = Inr m \<Longrightarrow> pred_option (\<lambda>t. t \<in> set TRANSPORTS) m"
  by (auto simp: validate_paths_per_plane_def validate_sid_mode_def validate_transport_def
      split: json.splits if_splits)

lemma if_present_ok:
  "if_present d k f = Inr x \<Longrightarrow> (\<And>v y. f v = Inr y \<Longrightarrow> P y) \<Longrightarrow> pred_option P x"
  by (auto simp: if_present_def bindE_Inr_iff split: option.splits)

text \<open>
  C19. What the validator accepts can be run: the name is not empty and there is a flow; every flow
  has a pair, pairs two different hosts of one tenant of the fabric (or is one of the six sets with
  fixed host numbers), and its policy can be built; every fault resolves to interfaces and
  tokens; rates, durations, the mrc tunables, the fan-out, the SID mode, the transport and the trim
  block are in their ranges, and a trim block comes with an mrc block.
\<close>

theorem scenario_accepted_ok:
  assumes "validate g tp repr doc = Inr s" and "2 \<le> NUM_LEAVES g"
  shows "scenario_ok g tp s"
proof (cases doc)
  case (JObj d)
  obtain name desc raw flows faults rep mrc pp sd tr tm where *:
    "require_str d ''$.name'' = Inr name"
    "(case raw of JList (x # xs) \<Rightarrow> mapE (validate_flow g tp repr ''$.flows'') (enumerate 0 (x # xs))
                 | _ \<Rightarrow> Inl (ScenarioError ''$.flows'')) = Inr flows"
    "(let faults_raw = get_or d ''faults'' JNull in
                 if \<not> py_truth faults_raw then Inr []
                 else case faults_raw of
                        JList xs \<Rightarrow> mapE (validate_fault g ''$.faults'') (enumerate 0 xs)
                      | _ \<Rightarrow> Inl (ScenarioError ''$.faults'')) = Inr faults"
    "if_present d ''mrc'' (\<lambda>v. validate_mrc v ''$.mrc'') = Inr mrc"
    "validate_paths_per_plane g (get_or d ''paths_per_plane'' JNull) ''$.paths_per_plane'' = Inr pp"
    "validate_sid_mode (get_or d ''sid'' JNull) ''$.sid'' = Inr sd"
    "validate_transport (get_or d ''transport'' JNull) ''$.transport'' = Inr tr"
    "if_present d ''trim'' (\<lambda>v. validate_trim v ''$.trim'') = Inr tm"
    "\<not> (tm \<noteq> None \<and> mrc = None)"
    and s: "s = \<lparr>sc_name = name, sc_description = desc, sc_flows = flows, sc_faults = faults,
                 sc_report_out = rep, sc_mrc = mrc, sc_paths_per_plane = pp, sc_sid = sd,
                 sc_transport = tr, sc_trim = tm\<rparr>"
    using assms(1) unfolding validate_def JObj json.case bindE_Inr_iff reject_if_Inr sum.inject
    by (elim exE conjE) (rule that; (assumption | erule sym))
  have "flows \<noteq> [] \<and> list_all (flow_ok g tp) flows"
  proof (cases raw)
    case (JList xs)
    then have xs: "xs \<noteq> []" "mapE (validate_flow g tp repr ''$.flows'') (enumerate 0 xs) = Inr flows"
      using *(2) by (auto split: list.splits)
    moreover have "enumerate 0 xs \<noteq> []" using xs(1) by (cases xs) auto
    ultimately have "flows \<noteq> []" by (metis mapE_Nil_iff)
    moreover have "list_all (flow_ok g tp) flows"
      using xs(2) by (rule mapE_all) (rule validate_flow_ok [OF assms(2)])
    ultimately show ?thesis by blast
  qed (use *(2) in simp_all)
  moreover have "list_all (fault_ok g) faults"
    using *(3) mapE_all [OF _ validate_fault_ok] by (auto simp: Let_def split: json.splits if_splits)
  moreover have "pred_option mrc_ok mrc" using *(4) validate_mrc_ok by (rule if_present_ok)
  moreover have "pred_option (\<lambda>t. trim_post_init t = Inr () \<and> 0 \<le> trim_seed t \<and> list_all (\<lambda>p. 0 \<le> p) (trim_planes t)
    \<and> list_all (\<lambda>(p, q). 0 \<le> p \<and> 0 \<le> q) (trim_evs t)) tm"
    using *(8) validate_trim_ok by (rule if_present_ok)
  ultimately show ?thesis
    using require_str_Inr [OF *(1)] *(9) settings_ok(1) [OF *(5)] settings_ok(2) [OF *(6)] settings_ok(3) [OF *(7)]
    unfolding scenario_ok_def s scenario.select_convs by (cases tm) simp_all
qed (use assms(1) in \<open>simp_all add: validate_def\<close>)


subsubsection \<open>Examples\<close>

definition small_lab :: topo where
  "small_lab = \<lparr>NUM_PLANES = 2, NUM_SPINES = 4, NUM_LEAVES = 8, CLAB_TOPOLOGY_NAME = ''lab'',
     TENANTS = [''green'', ''yellow'']\<rparr>"

definition small_lab_topology :: topology where
  "small_lab_topology = \<lparr>topology_name = ''2p-4x8'', planes = 2, spines_per_plane = 4, leaves_per_plane = 8,
     topology_tenants = [''green'', ''yellow''], clab_topology_name = ''lab'', reference_pairs_items = []\<rparr>"

definition demo_flow :: "json \<Rightarrow> json \<Rightarrow> json" where
  "demo_flow pairs policy = JObj [(''pairs'', pairs), (''policy'', policy), (''rate'', JStr '' 1000 pps''), (''duration'', JStr ''500ms'')]"

definition demo_doc :: json where
  "demo_doc = JObj
     [(''name'', JStr ''demo''),
      (''flows'', JList
        [demo_flow (JList [JObj [(''tenant'', JStr ''green''), (''src'', JInt 0), (''dst'', JInt 7)]])
           (JObj [(''ev_spray'', JInt 2)]),
         demo_flow (JStr ''yellow-pairs'') (JStr ''health_aware_mrc'')]),
      (''faults'', JList [JObj [(''kind'', JStr ''netem''), (''target'', JStr ''plane 1''), (''spec'', JStr ''loss 5%'')]]),
      (''mrc'', JObj [(''probe_interval_ms'', JInt 100), (''loss_threshold'', JFloat (1 / 2))]),
      (''trim'', JObj [(''rate'', JInt 1), (''evs'', JList [JList [JInt 1, JInt 2]])])]"

definition demo_scenario :: "scenario checked" where
  "demo_scenario = validate small_lab (Inr small_lab_topology) (\<lambda>_. []) demo_doc"

lemma demo_accepted: "\<not> isl demo_scenario"
  by code_simp

theorem scenario_accepted_ok_witness: "scenario_ok small_lab (Inr small_lab_topology) (projr demo_scenario)"
proof -
  have "validate small_lab (Inr small_lab_topology) (\<lambda>_. []) demo_doc = Inr (projr demo_scenario)"
    using demo_accepted by (cases demo_scenario) (simp_all add: demo_scenario_def)
  from scenario_accepted_ok [OF this] show ?thesis by (simp add: small_lab_def)
qed

text \<open>The exception that stays one: weights that are no list.\<close>

definition demo_bad_weights :: json where
  "demo_bad_weights = JObj
     [(''name'', JStr ''demo''),
      (''flows'', JList [demo_flow (JStr ''green-pairs'') (JObj [(''weighted'', JInt 3)])])]"

lemma demo_bad_weights_raises:
  "validate small_lab (Inr small_lab_topology) (\<lambda>_. []) demo_bad_weights = Inl (Unexpected TypeError)"
  by code_simp

theorem scenario_errors_converted_witness:
  "\<exists>item \<in> set (flow_items demo_bad_weights). policy_raises small_lab (Inr small_lab_topology) item TypeError"
  using scenario_errors_converted [OF demo_bad_weights_raises] .

text \<open>
  The six fixed sets are not checked against the fabric: on eight hosts per tenant the reference
  set of the larger fabric is accepted, with hosts that do not exist. A rate or a duration written
  as text may be zero, which their other form excludes.
\<close>

lemma fixed_set_accepted:
  "case resolve_pairs small_lab (JStr ''green-pairs-8'') ''p'' of
     Inl e \<Rightarrow> False | Inr ps \<Rightarrow> \<not> list_all (pair_ok small_lab) ps"
  by code_simp

lemma zero_text_accepted:
  "parse_rate (JStr ''0pps'') path = Inr 0" "parse_duration (JStr ''0s'') path = Inr 0"
  "parse_rate (JInt 0) path = Inl (ScenarioError path)" "parse_duration_str ''0s'' = Inl ValueError"
proof -
  show "parse_rate (JInt 0) path = Inl (ScenarioError path)" by (simp add: parse_rate_def)
  have "rate_match ''0pps'' = Some ''0''" by code_simp
  then show "parse_rate (JStr ''0pps'') path = Inr 0" by (simp add: parse_rate_def)
  have "duration_match ''0s'' = Some (''0'', False)" "py_float (JStr ''0'') = Inr 0" by code_simp+
  then show "parse_duration (JStr ''0s'') path = Inr 0"
    by (simp add: parse_duration_def duration_value_def del: py_float.simps)
  show "parse_duration_str ''0s'' = Inl ValueError" by code_simp
qed

subsection \<open>From the mrc block to the agents\<close>

text \<open>The value a tunable has for the agents: a ratio is a float, whatever number the document has.\<close>

definition mrc_value :: "string \<Rightarrow> json \<Rightarrow> json" where
  "mrc_value f v = (case v of JInt k \<Rightarrow> if f \<in> set MRC_RATIO_FIELDS then JFloat (float_of_int k) else v | _ \<Rightarrow> v)"

lemma dict_get_set_fields:
  "distinct (map fst fs) \<Longrightarrow>
   dict_get (concat (map (\<lambda>(n, v). set_field n v) fs)) f = Option.bind (dict_get fs f) (\<lambda>v. v)"
proof (induction fs arbitrary: f)
  case (Cons nv fs)
  obtain n v where nv: "nv = (n, v)" by fastforce
  have "dict_get fs n = None" using Cons.prems nv by (simp add: map_of_eq_None_iff)
  then have "dict_get (concat (map (\<lambda>(n, v). set_field n v) fs)) n = None"
    using Cons.prems Cons.IH [of n] by simp
  then show ?case using Cons nv by (cases v) (auto simp: set_field_def)
qed simp

lemma dict_ok_set_fields:
  "distinct (map fst fs) \<Longrightarrow> dict_ok (concat (map (\<lambda>(n, v). set_field n v) fs))
    \<and> fst ` set (concat (map (\<lambda>(n, v). set_field n v) fs)) \<subseteq> fst ` set fs"
proof (induction fs)
  case (Cons nv fs)
  obtain n v where nv: "nv = (n, v)" by fastforce
  define c where "c = concat (map (\<lambda>(n, v). set_field n v) fs)"
  have "dict_ok c" "fst ` set c \<subseteq> fst ` set fs" using Cons by (simp_all add: c_def)
  moreover have "n \<notin> fst ` set fs" using Cons.prems nv by simp
  moreover have "concat (map (\<lambda>(n, v). set_field n v) (nv # fs)) = set_field n v @ c" by (simp add: nv c_def)
  ultimately show ?case by (cases v) (auto simp: nv set_field_def dict_ok_def)
qed simp

lemma mrc_spec_fields_names:
  "map fst (mrc_spec_fields m) = AGENT_CONFIG_FIELDS @ EV_STATE_CONFIG_FIELDS"
  by (simp add: mrc_spec_fields_def AGENT_CONFIG_FIELDS_def EV_STATE_CONFIG_FIELDS_def)

lemma config_fields_distinct: "distinct (AGENT_CONFIG_FIELDS @ EV_STATE_CONFIG_FIELDS)"
  by code_simp

lemma mrc_env_fields_get: "dict_get (mrc_env_fields m) f = Option.bind (dict_get (mrc_spec_fields m) f) (\<lambda>v. v)"
  unfolding mrc_env_fields_def
  by (rule dict_get_set_fields) (simp only: mrc_spec_fields_names config_fields_distinct)


lemma mrc_spec_of_fields:
  "Option.bind (dict_get (mrc_spec_fields (mrc_spec_of ints ratios)) f) (\<lambda>v. v) =
     (if f \<in> set MRC_RATIO_FIELDS then map_option JFloat (dict_get ratios f)
      else if f \<in> set (AGENT_CONFIG_FIELDS @ EV_STATE_CONFIG_FIELDS) then map_option JInt (dict_get ints f)
      else None)"
proof (cases "f \<in> set (AGENT_CONFIG_FIELDS @ EV_STATE_CONFIG_FIELDS)")
  case True
  then show ?thesis unfolding AGENT_CONFIG_FIELDS_def EV_STATE_CONFIG_FIELDS_def MRC_RATIO_FIELDS_def
    by (simp only: append.simps list.set insert_iff empty_iff simp_thms, elim disjE)
       (simp_all add: mrc_spec_fields_def mrc_spec_of_def)
next
  case False
  then have "dict_get (mrc_spec_fields m) f = None" for m
    unfolding map_of_eq_None_iff mrc_spec_fields_names [of m, symmetric] by simp
  moreover have "f \<notin> set MRC_RATIO_FIELDS"
    using False by (auto simp: MRC_RATIO_FIELDS_def EV_STATE_CONFIG_FIELDS_def)
  ultimately show ?thesis using False by simp
qed

lemma config_fields_mrc:
  "set (AGENT_CONFIG_FIELDS @ EV_STATE_CONFIG_FIELDS) = set MRC_OPTIONAL"
  by (auto simp: AGENT_CONFIG_FIELDS_def EV_STATE_CONFIG_FIELDS_def MRC_OPTIONAL_def mrc_field_lists)

lemma mrc_env_fields_value:
  assumes "validate_mrc v path = Inr m"
  shows "dict_get (mrc_env_fields m) f = (case v of JObj d \<Rightarrow> map_option (mrc_value f) (dict_get d f) | _ \<Rightarrow> None)"
proof -
  obtain d ps ns rs where d: "v = JNull \<and> d = [] \<or> v = JObj d" "fst ` set d \<subseteq> set MRC_OPTIONAL"
    and m: "m = mrc_spec_of (ps @ ns) rs"
    and p: "mrc_fields positive_int d path MRC_POSITIVE_INT_FIELDS = Inr ps"
    and n: "mrc_fields non_negative_int d path MRC_NON_NEGATIVE_INT_FIELDS = Inr ns"
    and r: "mrc_fields unit_ratio d path MRC_RATIO_FIELDS = Inr rs"
    using validate_mrc_fields [OF assms] by metis
  have "dict_get (mrc_env_fields m) f = map_option (mrc_value f) (dict_get d f)"
  proof (cases "dict_get d f")
    case None
    then show ?thesis
      by (auto simp: mrc_env_fields_get m mrc_spec_of_fields mrc_int_kwargs [OF p n] mrc_fields_get(1) [OF r]
          simp del: map_of_append)
  next
    case (Some w)
    then have f: "f \<in> set MRC_OPTIONAL" using d(2) by (force dest: map_of_SomeD)
    then have g: "f \<in> set AGENT_CONFIG_FIELDS \<or> f \<in> set EV_STATE_CONFIG_FIELDS"
      using config_fields_mrc by auto
    have disj: "set MRC_RATIO_FIELDS \<inter> (set MRC_POSITIVE_INT_FIELDS \<union> set MRC_NON_NEGATIVE_INT_FIELDS) = {}"
      by code_simp
    consider "f \<in> set MRC_RATIO_FIELDS" | "f \<notin> set MRC_RATIO_FIELDS" "f \<in> set MRC_POSITIVE_INT_FIELDS"
      | "f \<notin> set MRC_RATIO_FIELDS" "f = ''loss_backoff_max_level''"
      using f by (auto simp: MRC_OPTIONAL_def MRC_NON_NEGATIVE_INT_FIELDS_def)
    then show ?thesis
    proof cases
      case 1
      then obtain x where "unit_ratio w = Some x" using mrc_fields_get(2) [OF r 1 Some] by blast
      then show ?thesis using 1 Some
        by (cases w) (auto simp: mrc_env_fields_get m mrc_spec_of_fields mrc_fields_get(1) [OF r] mrc_value_def in_unit_Some)
    next
      case 2
      then obtain k where "positive_int w = Some k" using mrc_fields_get(2) [OF p 2(2) Some] by blast
      moreover have "f \<noteq> ''loss_backoff_max_level''" using 2(2) by (auto simp: MRC_POSITIVE_INT_FIELDS_def)
      ultimately show ?thesis using 2 Some g
        by (auto simp: mrc_env_fields_get m mrc_spec_of_fields mrc_int_kwargs [OF p n] mrc_value_def
            positive_int_Some simp del: map_of_append)
    next
      case 3
      then obtain k where "non_negative_int w = Some k"
        using mrc_fields_get(2) [OF n _ Some] by (auto simp: MRC_NON_NEGATIVE_INT_FIELDS_def)
      then show ?thesis using 3 Some g
        by (auto simp: mrc_env_fields_get m mrc_spec_of_fields mrc_int_kwargs [OF p n] mrc_value_def
            simp del: map_of_append dest: non_negative_int_Some)
    qed
  qed
  then show ?thesis using d(1) by auto
qed

definition or_empty :: "(string \<times> json) list option \<Rightarrow> (string \<times> json) list" where
  "or_empty kv = (case kv of None \<Rightarrow> [] | Some d \<Rightarrow> d)"

text \<open>
  C21. Every tunable of an accepted mrc block reaches the agents: the environment variable made from
  it is read back without an error, each key becomes an argument of exactly one of the two
  configurations, with its value (a ratio as a float), and neither gets any other argument. \<open>dumps\<close>
  and \<open>loads\<close> are the JSON writer and reader; \<open>kv\<close> is the object they hand over, in any order.
\<close>

theorem mrc_block_reaches_configs:
  assumes "validate_mrc v path = Inr m"
    and "mrc_to_env_json dumps m \<noteq> []" and "loads (mrc_to_env_json dumps m) = Inr (JObj kv)"
    and "set kv = set (mrc_env_fields m)" and "dict_ok kv"
  shows "\<exists>a e. config_kwargs loads env (Some (mrc_to_env_json dumps m)) = Inr (Some (a, e))
    \<and> (\<forall>f. dict_get a f = (if f \<in> set AGENT_CONFIG_FIELDS
         then (case v of JObj d \<Rightarrow> map_option (mrc_value f) (dict_get d f) | _ \<Rightarrow> None) else None))
    \<and> (\<forall>f. dict_get (or_empty e) f = (if f \<in> set EV_STATE_CONFIG_FIELDS
         then (case v of JObj d \<Rightarrow> map_option (mrc_value f) (dict_get d f) | _ \<Rightarrow> None) else None))"
proof -
  let ?K = "set (AGENT_CONFIG_FIELDS @ EV_STATE_CONFIG_FIELDS)"
  have ok: "dict_ok (mrc_env_fields m)"
    unfolding mrc_env_fields_def
    using dict_ok_set_fields [of "mrc_spec_fields m"] config_fields_distinct mrc_spec_fields_names [of m] by metis
  have get: "dict_get kv f = dict_get (mrc_env_fields m) f" for f
    using assms(4) dict_get_iff_mem [OF assms(5), of f] dict_get_iff_mem [OF ok, of f] by (metis not_Some_eq)
  have "fst ` set (mrc_env_fields m) \<subseteq> ?K"
    unfolding mrc_env_fields_def mrc_spec_fields_names [of m, symmetric] set_map
    using dict_ok_set_fields [of "mrc_spec_fields m"] config_fields_distinct mrc_spec_fields_names [of m] by metis
  then have known: "\<forall>(f, w) \<in> set kv. f \<in> ?K" using assms(4) by force
  have flt: "dict_get (filter (\<lambda>(k, _). k \<in> S) kv) f = (if f \<in> S then dict_get kv f else None)" for S f
    by (induction kv) auto
  have e: "or_empty (if xs \<noteq> [] then Some xs else None) = xs" for xs by (simp add: or_empty_def)
  show ?thesis
    using assms(2,3) known
    by (auto simp: config_kwargs_def list_ex_iff Let_def e flt get mrc_env_fields_value [OF assms(1)])
qed

theorem mrc_block_reaches_configs_witness:
  "\<exists>a e. config_kwargs (\<lambda>_. Inr (JObj [(''loss_threshold'', JFloat 1)])) None (Some ''x'') = Inr (Some (a, e))
    \<and> dict_get (or_empty e) ''loss_threshold'' = Some (JFloat 1)"
proof -
  let ?v = "JObj [(''loss_threshold'', JInt 1)]"
  define m where "m = projr (validate_mrc ?v ''m'')"
  have "\<not> isl (validate_mrc ?v ''m'')" by code_simp
  then have v: "validate_mrc ?v ''m'' = Inr m" by (cases "validate_mrc ?v ''m''") (simp_all add: m_def)
  have p: "mrc_env_fields m = [(''loss_threshold'', JFloat 1)]" unfolding m_def by code_simp
  have f: "''loss_threshold'' \<in> set EV_STATE_CONFIG_FIELDS" "mrc_value ''loss_threshold'' (JInt 1) = JFloat 1"
    by code_simp+
  show ?thesis
    using mrc_block_reaches_configs [OF v, of "\<lambda>_. ''x''" "\<lambda>_. Inr (JObj [(''loss_threshold'', JFloat 1)])"
        "[(''loss_threshold'', JFloat 1)]" None] f
    by (fastforce simp: p mrc_to_env_json_def dict_ok_def)
qed

end
