(* ===== verification/Daemon.thy ===== *)
theory Daemon
  imports Agent SentCounters EvReport
begin

text \<open>
  The per-host daemon of \<^verbatim>\<open>srv6_mrc/mrc/daemon.py\<close>: one agent per flow behind one shared socket, the
  dispatcher that hands each packet to the agent it is for, and the publisher of the agents' tables.
  The agent and reader objects live in dictionaries keyed by flow; the demultiplexer's reference to
  an agent is the agent's key. A thread is the body of its loop; what the socket delivers, the times
  and the queue length are arguments. The transport object, thread control and the parsing of the
  kernel's time stamp are not modelled.
\<close>

type_synonym flow_id = "string \<times> int"

definition DEFAULT_SNAPSHOT_DIR :: string where "DEFAULT_SNAPSHOT_DIR = ''/dev/shm/srv6-mrc''"
definition FINAL_REPORT_FILENAME :: string where "FINAL_REPORT_FILENAME = ''final_report.json''"

subsection \<open>State\<close>

record dispatch_counters =
  packets_received :: int
  probes_dispatched :: int
  probes_no_flow :: int
  probes_decode_failed :: int
  probes_ev_mismatch :: int
  loss_reports_dispatched :: int
  loss_reports_no_peer :: int
  unknown_magic :: int

type_synonym buckets = "(string \<times> int) list"

record mrc_daemon =
  dm_src_host :: string
  dm_src_id :: int
  dm_flows :: "flow_id list"
  dm_cfg :: agent_config
  dm_snapshot_dir :: string
  dm_agents :: "(flow_id \<times> sender_agent) list"
  dm_readers :: "(flow_id \<times> sent_counter_reader) list"
  dm_demux :: "(int \<times> flow_id) list"
  dm_counters :: dispatch_counters
  dm_gap :: buckets
  dm_backlog :: buckets
  dm_dwell :: buckets
  dm_last_recv_ns :: "int option"

definition zero_buckets :: "string list \<Rightarrow> buckets" where
  "zero_buckets ks = map (\<lambda>k. (k, 0)) ks"

definition bump :: "string \<Rightarrow> buckets \<Rightarrow> buckets" where
  "bump k b = dict_put k ((case dict_get b k of None \<Rightarrow> 0 | Some n \<Rightarrow> n) + 1) b"

definition new_dispatch_counters :: dispatch_counters where
  "new_dispatch_counters =
     \<lparr>packets_received = 0, probes_dispatched = 0, probes_no_flow = 0, probes_decode_failed = 0,
      probes_ev_mismatch = 0, loss_reports_dispatched = 0, loss_reports_no_peer = 0, unknown_magic = 0\<rparr>"

definition GAP_BUCKETS :: "string list" where
  "GAP_BUCKETS = [''lt_1ms'', ''lt_10ms'', ''lt_100ms'', ''lt_1s'', ''ge_1s'']"

definition BACKLOG_BUCKETS :: "string list" where
  "BACKLOG_BUCKETS = [''inq_0'', ''le_512'', ''le_4k'', ''le_32k'', ''gt_32k'']"

definition DWELL_BUCKETS :: "string list" where
  "DWELL_BUCKETS = [''lt_1ms'', ''lt_10ms'', ''lt_100ms'', ''lt_1s'', ''ge_1s'', ''negative'', ''no_timestamp'']"

text \<open>
  The constructor: a table per flow, then an agent and a sent-counter reader per flow. A key that
  occurs twice keeps its last object; \<open>clock\<close> is the time the agent of the flow at an index reads.
\<close>

definition dict_of :: "('k \<times> 'v) list \<Rightarrow> ('k \<times> 'v) list" where
  "dict_of kvs = foldl (\<lambda>d (k, v). dict_put k v d) [] kvs"

definition flow_table :: "topo \<Rightarrow> ev_state_config option \<Rightarrow> flow_id \<Rightarrow> (flow_id \<times> ev_table) result" where
  "flow_table g ev_cfg k =
     bindE (mk_ev_table [fst k] (NUM_PLANES g) (NUM_SPINES g)
              (case ev_cfg of None \<Rightarrow> default_ev_state_config | Some c \<Rightarrow> c) False)
       (\<lambda>t. Inr (k, t))"

definition flow_agent ::
  "topo \<Rightarrow> int \<Rightarrow> (flow_id \<times> ev_table) list \<Rightarrow> agent_config \<Rightarrow> (nat \<Rightarrow> int) \<Rightarrow> nat \<times> flow_id \<Rightarrow>
   (flow_id \<times> sender_agent) result" where
  "flow_agent g src_id tables conf clock ik =
     (case dict_get tables (snd ik) of
        None \<Rightarrow> Inl KeyError
      | Some t \<Rightarrow>
          bindE (mk_sender_agent g (fst (snd ik)) src_id (snd (snd ik)) t conf (clock (fst ik)))
            (\<lambda>a. Inr (snd ik, a)))"

definition mk_mrc_daemon ::
  "topo \<Rightarrow> string \<Rightarrow> int \<Rightarrow> flow_id list \<Rightarrow> agent_config \<Rightarrow> ev_state_config option \<Rightarrow> string \<Rightarrow>
   (nat \<Rightarrow> int) \<Rightarrow> mrc_daemon result" where
  "mk_mrc_daemon g src_host src_id flows conf ev_cfg dir clock =
     bindE (raise_if (flows = []) ValueError) (\<lambda>_.
     bindE (mapE (flow_table g ev_cfg) flows) (\<lambda>tables.
     bindE (mapE (flow_agent g src_id (dict_of tables) conf clock) (enumerate 0 flows)) (\<lambda>agents.
       Inr \<lparr>dm_src_host = src_host, dm_src_id = src_id, dm_flows = flows, dm_cfg = conf,
            dm_snapshot_dir = dir @ ''/'' @ src_host,
            dm_agents = dict_of agents,
            dm_readers = dict_of (map (\<lambda>k. (k, mk_sent_counter_reader (NUM_PLANES g) (NUM_SPINES g))) flows),
            dm_demux = dict_of (map (\<lambda>k. (snd k, k)) flows),
            dm_counters = new_dispatch_counters, dm_gap = zero_buckets GAP_BUCKETS,
            dm_backlog = zero_buckets BACKLOG_BUCKETS, dm_dwell = zero_buckets DWELL_BUCKETS,
            dm_last_recv_ns = None\<rparr>)))"

definition put_agent :: "flow_id \<Rightarrow> sender_agent \<Rightarrow> mrc_daemon \<Rightarrow> mrc_daemon" where
  "put_agent k a d = d\<lparr>dm_agents := dict_put k a (dm_agents d)\<rparr>"

definition tally :: "(dispatch_counters \<Rightarrow> dispatch_counters) \<Rightarrow> mrc_daemon \<Rightarrow> mrc_daemon" where
  "tally f d = d\<lparr>dm_counters := f (dm_counters d)\<rparr>"

definition demux_agent :: "mrc_daemon \<Rightarrow> int \<Rightarrow> (flow_id \<times> sender_agent) option" where
  "demux_agent d dst_id =
     (case dict_get (dm_demux d) dst_id of
        None \<Rightarrow> None
      | Some k \<Rightarrow> map_option (Pair k) (dict_get (dm_agents d) k))"

subsection \<open>Dispatching\<close>

text \<open>
  The returning probe. The address of the peer is None when the socket reports none; it is only
  compared, never used. The agent's method raises nothing.
\<close>

definition ev_mismatch :: "topo \<Rightarrow> probe \<Rightarrow> string option \<Rightarrow> bool" where
  "ev_mismatch g p peer =
     (case peer of
        None \<Rightarrow> False
      | Some addr \<Rightarrow>
          addr \<noteq> [] \<and>
          (case probe_ev_from_inner_dst g addr of
             None \<Rightarrow> False
           | Some (_, _, plane, path) \<Rightarrow> (plane, path) \<noteq> (pr_plane_id p, pr_path_id p)))"

definition dispatch_probe :: "topo \<Rightarrow> mrc_daemon \<Rightarrow> bytes \<Rightarrow> string option \<Rightarrow> mrc_daemon \<times> unit result" where
  "dispatch_probe g d payload peer =
     (case decode_probe payload of
        Inl e \<Rightarrow>
          if e = ProbeDecodeError
          then (tally (\<lambda>c. c\<lparr>probes_decode_failed := probes_decode_failed c + 1\<rparr>) d, Inr ())
          else (d, Inl e)
      | Inr p \<Rightarrow>
          (case demux_agent d (pr_dst_id p) of
             None \<Rightarrow> (tally (\<lambda>c. c\<lparr>probes_no_flow := probes_no_flow c + 1\<rparr>) d, Inr ())
           | Some (k, a) \<Rightarrow>
               (let d1 = (if ev_mismatch g p peer
                          then tally (\<lambda>c. c\<lparr>probes_ev_mismatch := probes_ev_mismatch c + 1\<rparr>) d else d)
                in (tally (\<lambda>c. c\<lparr>probes_dispatched := probes_dispatched c + 1\<rparr>)
                      (put_agent k (sa_record_probe_recv a (pr_plane_id p) (pr_path_id p)) d1), Inr ()))))"

text \<open>The loss report: an exception of the handler is logged, and the report is not counted.\<close>

definition dispatch_loss_report :: "mrc_daemon \<Rightarrow> bytes \<Rightarrow> string option \<Rightarrow> int \<Rightarrow> mrc_daemon" where
  "dispatch_loss_report d payload peer now_ns =
     (let no_peer = tally (\<lambda>c. c\<lparr>loss_reports_no_peer := loss_reports_no_peer c + 1\<rparr>) d in
      case (case peer of None \<Rightarrow> None | Some addr \<Rightarrow> if addr = [] then None else host_id_from_inner_addr addr) of
        None \<Rightarrow> no_peer
      | Some (_, host_id) \<Rightarrow>
          (case demux_agent d host_id of
             None \<Rightarrow> no_peer
           | Some (k, a) \<Rightarrow>
               (case handle_loss_report a payload now_ns of
                  (a', None) \<Rightarrow>
                    tally (\<lambda>c. c\<lparr>loss_reports_dispatched := loss_reports_dispatched c + 1\<rparr>) (put_agent k a' d)
                | (a', Some e) \<Rightarrow> put_agent k a' d)))"

text \<open>The statistics of one arrival. The queue length is negative when the ioctl fails.\<close>

definition gap_bucket :: "int \<Rightarrow> string" where
  "gap_bucket ns =
     (if ns < 1000000 then ''lt_1ms'' else if ns < 10000000 then ''lt_10ms''
      else if ns < 100000000 then ''lt_100ms'' else if ns < 1000000000 then ''lt_1s'' else ''ge_1s'')"

definition dwell_bucket :: "int option \<Rightarrow> int \<Rightarrow> string" where
  "dwell_bucket kernel_ns realtime_ns =
     (case kernel_ns of
        None \<Rightarrow> ''no_timestamp''
      | Some k \<Rightarrow> let dwell = realtime_ns - k in if dwell < 0 then ''negative'' else gap_bucket dwell)"

definition backlog_bucket :: "int \<Rightarrow> string" where
  "backlog_bucket n =
     (if n = 0 then ''inq_0'' else if n \<le> 512 then ''le_512'' else if n \<le> 4096 then ''le_4k''
      else if n \<le> 32768 then ''le_32k'' else ''gt_32k'')"

definition note_arrival :: "mrc_daemon \<Rightarrow> int option \<Rightarrow> int \<Rightarrow> int \<Rightarrow> int \<Rightarrow> mrc_daemon" where
  "note_arrival d kernel_ns realtime_ns now_ns inq =
     tally (\<lambda>c. c\<lparr>packets_received := packets_received c + 1\<rparr>)
       (d\<lparr>dm_dwell := bump (dwell_bucket kernel_ns realtime_ns) (dm_dwell d),
          dm_gap := (case dm_last_recv_ns d of
                       None \<Rightarrow> dm_gap d | Some prev \<Rightarrow> bump (gap_bucket (now_ns - prev)) (dm_gap d)),
          dm_last_recv_ns := Some now_ns,
          dm_backlog := (if 0 \<le> inq then bump (backlog_bucket inq) (dm_backlog d) else dm_backlog d)\<rparr>)"

record rx_arrival =
  ar_payload :: bytes
  ar_peer :: "string option"
  ar_kernel_ns :: "int option"
  ar_realtime_ns :: int
  ar_now_ns :: int
  ar_inq :: int
  ar_handled_ns :: int

text \<open>One turn of \<open>_dispatch_loop\<close> that received something; an empty payload is skipped.\<close>

definition dispatch_turn :: "topo \<Rightarrow> mrc_daemon \<Rightarrow> rx_arrival \<Rightarrow> mrc_daemon \<times> unit result" where
  "dispatch_turn g d r =
     (case ar_payload r of
        [] \<Rightarrow> (d, Inr ())
      | magic # _ \<Rightarrow>
          (let d1 = note_arrival d (ar_kernel_ns r) (ar_realtime_ns r) (ar_now_ns r) (ar_inq r) in
           if uint magic = MAGIC_PROBE then dispatch_probe g d1 (ar_payload r) (ar_peer r)
           else if uint magic = MAGIC_LOSS_REPORT
           then (dispatch_loss_report d1 (ar_payload r) (ar_peer r) (ar_handled_ns r), Inr ())
           else (tally (\<lambda>c. c\<lparr>unknown_magic := unknown_magic c + 1\<rparr>) d1, Inr ())))"

subsection \<open>The agents' threads\<close>

text \<open>
  One EV of an agent's emit thread, and one turn of its window thread, whose \<open>sent_source\<close> is the
  reader of the flow's sent counters: it is called when the window is due.
\<close>

definition daemon_emit ::
  "mrc_daemon \<Rightarrow> flow_id \<Rightarrow> nat \<times> nat \<Rightarrow> unit result \<Rightarrow> int \<Rightarrow> mrc_daemon \<times> transmission list" where
  "daemon_emit d k ev outcome elapsed_ns =
     (case dict_get (dm_agents d) k of
        None \<Rightarrow> (d, [])
      | Some a \<Rightarrow>
          (case emit_probe a ev outcome elapsed_ns of (a', tx, _) \<Rightarrow> (put_agent k a' d, tx)))"

definition daemon_window_turn ::
  "mrc_daemon \<Rightarrow> flow_id \<Rightarrow> deadlines \<Rightarrow> pyfloat \<Rightarrow> json_file \<Rightarrow> int \<Rightarrow> mrc_daemon \<times> deadlines" where
  "daemon_window_turn d k dl now file now_ns =
     (case (dict_get (dm_agents d) k, dict_get (dm_readers d) k) of
        (Some a, Some r) \<Rightarrow>
          (let (r', delta) = read_delta r file;
               (a', dl', _) = window_turn a dl now (Some delta) now_ns
           in (put_agent k a' (if next_window_tick dl \<le> now
                               then d\<lparr>dm_readers := dict_put k r' (dm_readers d)\<rparr> else d), dl'))
      | _ \<Rightarrow> (d, dl))"

subsection \<open>Publishing\<close>

definition snapshot_name :: "flow_id \<Rightarrow> string" where
  "snapshot_name k = fst k @ ''_'' @ dec_pad2 (snd k) @ ''.json''"

definition snapshot_path :: "mrc_daemon \<Rightarrow> flow_id \<Rightarrow> string" where
  "snapshot_path d k = dm_snapshot_dir d @ ''/'' @ snapshot_name k"

definition buckets_json :: "buckets \<Rightarrow> json" where
  "buckets_json b = JObj (map (\<lambda>(k, n). (k, JInt n)) b)"

definition dispatch_stats :: "dispatch_counters \<Rightarrow> json" where
  "dispatch_stats c = JObj
     [(''packets_received'', JInt (packets_received c)), (''probes_dispatched'', JInt (probes_dispatched c)),
      (''probes_no_flow'', JInt (probes_no_flow c)), (''probes_decode_failed'', JInt (probes_decode_failed c)),
      (''probes_ev_mismatch'', JInt (probes_ev_mismatch c)),
      (''loss_reports_dispatched'', JInt (loss_reports_dispatched c)),
      (''loss_reports_no_peer'', JInt (loss_reports_no_peer c)), (''unknown_magic'', JInt (unknown_magic c))]"

definition emit_buckets_json :: "emit_buckets \<Rightarrow> json" where
  "emit_buckets_json b = JObj
     [(''lt_100us'', JInt (lt_100us b)), (''lt_1ms'', JInt (lt_1ms b)), (''lt_10ms'', JInt (lt_10ms b)),
      (''lt_100ms'', JInt (lt_100ms b)), (''lt_1s'', JInt (lt_1s b)), (''ge_1s'', JInt (ge_1s b))]"

definition snapshot_payload :: "mrc_daemon \<Rightarrow> json \<Rightarrow> int \<Rightarrow> flow_id \<Rightarrow> sender_agent \<Rightarrow> json" where
  "snapshot_payload d transport_stats captured_ns k a = JObj
     [(''src_host'', JStr (dm_src_host d)), (''src_id'', JInt (dm_src_id d)), (''tenant'', JStr (fst k)),
      (''dst_id'', JInt (snd k)), (''captured_ns'', JInt captured_ns), (''ev_state'', ev_snapshot (sa_table a)),
      (''transport_stats'', transport_stats), (''dispatch_stats'', dispatch_stats (dm_counters d)),
      (''dispatch_rx_gap_buckets'', buckets_json (dm_gap d)),
      (''dispatch_rx_backlog_buckets'', buckets_json (dm_backlog d)),
      (''kernel_rx_dwell_buckets'', buckets_json (dm_dwell d)),
      (''probe_emit_buckets'', emit_buckets_json (sa_buckets a))]"

text \<open>
  The files, by path; \<open>os.replace\<close> makes a write atomic, and a write that fails leaves the file.
  \<open>failed\<close> says at which paths the writes of a round fail.
\<close>

type_synonym files = "string \<Rightarrow> json option"

definition atomic_write_json :: "bool \<Rightarrow> string \<Rightarrow> json \<Rightarrow> files \<Rightarrow> files" where
  "atomic_write_json failed path payload fs = (if failed then fs else fs(path \<mapsto> payload))"

definition publish_all_snapshots ::
  "mrc_daemon \<Rightarrow> json \<Rightarrow> (flow_id \<Rightarrow> int) \<Rightarrow> (string \<Rightarrow> bool) \<Rightarrow> files \<Rightarrow> files" where
  "publish_all_snapshots d transport_stats captured failed fs =
     foldl (\<lambda>fs (k, a). atomic_write_json (failed (snapshot_path d k)) (snapshot_path d k)
                          (snapshot_payload d transport_stats (captured k) k a) fs) fs (dm_agents d)"

subsection \<open>The final report\<close>

definition fusion_stats_json :: "fusion_stats \<Rightarrow> json" where
  "fusion_stats_json s = JObj
     [(''reports_processed'', JInt (reports_processed s)), (''planes_updated'', JInt (planes_updated s)),
      (''planes_skipped_no_data'', JInt (planes_skipped_no_data s)),
      (''paired_with_sent_window'', JInt (paired_with_sent_window s)),
      (''fell_back_to_receiver_expected'', JInt (fell_back_to_receiver_expected s)),
      (''no_pairing_window_in_ring'', JInt (no_pairing_window_in_ring s)),
      (''absent_evs_counted_as_lost'', JInt (absent_evs_counted_as_lost s)),
      (''absent_check_skipped_low_coverage'', JInt (absent_check_skipped_low_coverage s))]"

definition flow_report_key :: "flow_id \<Rightarrow> string" where
  "flow_report_key k = fst k @ ''/'' @ dec_pad2 (snd k)"

definition final_report :: "mrc_daemon \<Rightarrow> json" where
  "final_report d = JObj
     [(''src_host'', JStr (dm_src_host d)), (''src_id'', JInt (dm_src_id d)),
      (''flows'', JObj (dict_of (map (\<lambda>(k, a). (flow_report_key k,
         JObj [(''ev_state'', ev_snapshot (sa_table a)), (''loss_fusion'', fusion_stats_json (sa_stats a))]))
         (dm_agents d))))]"

definition final_report_path :: "mrc_daemon \<Rightarrow> string" where
  "final_report_path d = dm_snapshot_dir d @ ''/'' @ FINAL_REPORT_FILENAME"

definition write_final_report_file :: "bool \<Rightarrow> mrc_daemon \<Rightarrow> files \<Rightarrow> files" where
  "write_final_report_file failed d fs = atomic_write_json failed (final_report_path d) (final_report d) fs"

end
