(* ===== verification/DaemonProperties.thy ===== *)
theory DaemonProperties
  imports Daemon SnapshotProperties AgentProperties PyText
begin

text \<open>
  The daemon is transparent: whatever it does, each of its flows keeps its own table, a packet only
  touches the flow it is for, every packet is counted, and what it publishes is what a snapshot
  policy can read.
\<close>

subsection \<open>Runs of the daemon\<close>

text \<open>
  The threads' steps in any order: an arrival, a probe sent by an agent, a turn of an agent's window
  thread. Publishing does not change the daemon.
\<close>

inductive daemon_step :: "topo \<Rightarrow> mrc_daemon \<Rightarrow> mrc_daemon \<Rightarrow> bool" for g where
  arrive: "dispatch_turn g d r = (d', res) \<Longrightarrow> daemon_step g d d'"
| emit: "daemon_emit d k ev outcome ns = (d', tx) \<Longrightarrow> daemon_step g d d'"
| window: "daemon_window_turn d k dl now file now_ns = (d', dl') \<Longrightarrow> daemon_step g d d'"

text \<open>The threshold of the configuration is one the scenario validator accepts.\<close>

inductive daemon_reachable :: "topo \<Rightarrow> mrc_daemon \<Rightarrow> bool" for g where
  init: "mk_mrc_daemon g host src flows conf ev_cfg dir clock = Inr d \<Longrightarrow>
    pred_option (\<lambda>c. 0 \<le> loss_threshold c) ev_cfg \<Longrightarrow> daemon_reachable g d"
| step: "daemon_reachable g d \<Longrightarrow> daemon_step g d d' \<Longrightarrow> daemon_reachable g d'"

subsection \<open>One agent\<close>

definition agent_inv :: "topo \<Rightarrow> int \<Rightarrow> flow_id \<Rightarrow> sender_agent \<Rightarrow> bool" where
  "agent_inv g src k a \<longleftrightarrow> ev_reachable (sa_table a) \<and> 0 \<le> loss_threshold (cfg (sa_table a))
     \<and> tenants (sa_table a) = [fst k] \<and> int (num_planes (sa_table a)) = NUM_PLANES g
     \<and> int (num_paths (sa_table a)) = NUM_SPINES g
     \<and> sa_tenant a = fst k \<and> sa_dst_id a = snd k \<and> sa_src_id a = src"

lemma agent_inv_table:
  assumes "agent_inv g src k a" "ev_reachable t" "same_config (sa_table a) t"
  shows "agent_inv g src k (a\<lparr>sa_table := t\<rparr>)"
  using assms by (auto simp: agent_inv_def same_config_def)

lemma agent_inv_ev_step:
  assumes "agent_inv g src k a" "ev_step (sa_table a) t"
  shows "agent_inv g src k (a\<lparr>sa_table := t\<rparr>)"
proof (rule agent_inv_table [OF assms(1)])
  show "ev_reachable t" using assms by (auto simp: agent_inv_def intro: ev_reachable.step)
  show "same_config (sa_table a) t"
    using assms ev_step_keeps ev_reachable_wf by (metis agent_inv_def)
qed

lemma agent_inv_ignoring:
  assumes "agent_inv g src k a" "\<And>t. r = Inr t \<Longrightarrow> ev_step (sa_table a) t"
  shows "agent_inv g src k (a\<lparr>sa_table := ignoring (sa_table a) r\<rparr>)"
  using assms agent_inv_ev_step by (cases r) (auto simp: ignoring_def)

lemma agent_inv_fields [simp]:
  "agent_inv g src k (a\<lparr>sa_buckets := b\<rparr>) = agent_inv g src k a"
  "agent_inv g src k (a\<lparr>sa_stats := st\<rparr>) = agent_inv g src k a"
  "agent_inv g src k (a\<lparr>sa_ring := ring\<rparr>) = agent_inv g src k a"
  "agent_inv g src k (a\<lparr>sa_window_sent := w\<rparr>) = agent_inv g src k a"
  "agent_inv g src k (a\<lparr>sa_window_start_ns := n\<rparr>) = agent_inv g src k a"
  "agent_inv g src k (a\<lparr>sa_window_id := i\<rparr>) = agent_inv g src k a"
  by (simp_all add: agent_inv_def)

lemma recv_inv: "agent_inv g src k a \<Longrightarrow> agent_inv g src k (sa_record_probe_recv a plane path)"
  unfolding sa_record_probe_recv_def by (rule agent_inv_ignoring) (auto intro: ev_step.recv)

lemma emit_inv: "agent_inv g src k a \<Longrightarrow> agent_inv g src k (fst (emit_probe a ev outcome ns))"
  by (auto simp: emit_probe_def Let_def intro!: agent_inv_ignoring ev_step.sent split: sum.split)

lemma report_inv:
  assumes "agent_inv g src k a"
  shows "agent_inv g src k (fst (handle_loss_report a payload now))"
proof -
  have t: "ev_reachable (sa_table a)" "0 \<le> loss_threshold (cfg (sa_table a))" using assms by (simp_all add: agent_inv_def)
  have "agent_inv g src k (a\<lparr>sa_table := fst (apply_loss_report (sa_table a) tn rep ring now sk st ms)\<rparr>)"
    for tn rep ring sk st ms
    using apply_loss_report_sink(2) [OF t] by (intro agent_inv_table [OF assms]) (auto simp: sink_inv_def)
  then show ?thesis
    using assms by (auto simp: handle_loss_report_def split: sum.split prod.split) (metis fst_conv)
qed

lemma rotate_inv: "agent_inv g src k a \<Longrightarrow> agent_inv g src k (fst (rotate_window a source now))"
  by (auto simp: rotate_window_def Let_def split: sum.split)

lemma window_inv_turn: "agent_inv g src k a \<Longrightarrow> agent_inv g src k (fst (window_turn a dl now source now_ns))"
proof -
  assume a: "agent_inv g src k a"
  have "agent_inv g src k (a\<lparr>sa_table := fst (tick (sa_table a) (sa_tenant a))\<rparr>)"
    by (rule agent_inv_ev_step [OF a]) (metis ev_step.tick prod.collapse)
  moreover have "fst (window_turn a dl now source now_ns) \<in>
      {a1, fst (rotate_window a1 source now_ns)}"
    if "a1 = (if next_probe_tick dl \<le> now then a\<lparr>sa_table := fst (tick (sa_table a) (sa_tenant a))\<rparr> else a)" for a1
    unfolding that by (auto simp: window_turn_def Let_def split: prod.split sum.split)
  ultimately show ?thesis using a rotate_inv by (metis insert_iff singletonD)
qed


subsection \<open>All of them\<close>

lemma dict_of_get: "dict_get (dict_of kvs) k = dict_get (rev kvs) k"
proof -
  have "dict_get (foldl (\<lambda>d (k, v). dict_put k v d) d kvs) k = (case dict_get (rev kvs) k of None \<Rightarrow> dict_get d k | Some v \<Rightarrow> Some v)" for d
    by (induction kvs arbitrary: d) (auto simp: map_add_def split: option.split)
  from this [of "[]"] show ?thesis by (simp add: dict_of_def split: option.split)
qed

lemma dict_of_ok [simp]: "dict_ok (dict_of kvs)"
proof -
  have "dict_ok d \<Longrightarrow> dict_ok (foldl (\<lambda>d (k, v). dict_put k v d) d kvs)" for d
    by (induction kvs arbitrary: d) auto
  then show ?thesis by (simp add: dict_of_def)
qed

lemma dict_of_mem: "dict_get (dict_of kvs) k = Some v \<Longrightarrow> (k, v) \<in> set kvs"
  by (auto simp: dict_of_get dest: map_of_SomeD)

lemma dict_of_present: "dict_get (dict_of kvs) k \<noteq> None \<longleftrightarrow> k \<in> fst ` set kvs"
  by (simp add: dict_of_get map_of_eq_None_iff)

definition daemon_inv :: "topo \<Rightarrow> mrc_daemon \<Rightarrow> bool" where
  "daemon_inv g d \<longleftrightarrow> dict_ok (dm_agents d)
     \<and> (\<forall>k. dict_get (dm_agents d) k \<noteq> None \<longleftrightarrow> k \<in> set (dm_flows d))
     \<and> (\<forall>k a. dict_get (dm_agents d) k = Some a \<longrightarrow> agent_inv g (dm_src_id d) k a)
     \<and> (\<forall>i k. dict_get (dm_demux d) i = Some k \<longrightarrow> snd k = i \<and> k \<in> set (dm_flows d))
     \<and> (\<forall>k \<in> set (dm_flows d). dict_get (dm_demux d) (snd k) \<noteq> None)"

lemma daemon_agent: "daemon_inv g d \<Longrightarrow> dict_get (dm_agents d) k = Some a \<Longrightarrow> agent_inv g (dm_src_id d) k a"
  unfolding daemon_inv_def by blast

lemma mk_agent_inv:
  assumes "flow_table g ev_cfg k = Inr (k', t)" "pred_option (\<lambda>c. 0 \<le> loss_threshold c) ev_cfg"
    "mk_sender_agent g (fst k) src (snd k) t conf now = Inr a"
  shows "k' = k" "agent_inv g src k a"
proof -
  define c where "c = (case ev_cfg of None \<Rightarrow> default_ev_state_config | Some c \<Rightarrow> c)"
  have t: "mk_ev_table [fst k] (NUM_PLANES g) (NUM_SPINES g) c False = Inr t" "k' = k"
    using assms(1) by (auto simp: flow_table_def c_def py_simps)
  have "0 \<le> loss_threshold c"
    using assms(2) by (cases ev_cfg) (auto simp: c_def default_ev_state_config_def)
  moreover have "ev_reachable t" using t(1) by (rule ev_reachable.init)
  moreover have "cfg t = c" "tenants t = [fst k]" "int (num_planes t) = NUM_PLANES g" "int (num_paths t) = NUM_SPINES g"
    using t(1) by (auto simp: mk_ev_table_def Let_def split: if_splits)
  moreover have "sa_table a = t" "sa_tenant a = fst k" "sa_dst_id a = snd k" "sa_src_id a = src"
    using assms(3) by (auto simp: mk_sender_agent_def py_simps split: if_splits)
  ultimately show "agent_inv g src k a" by (simp add: agent_inv_def)
  show "k' = k" by fact
qed

lemma mapE_mem: "mapE f xs = Inr ys \<Longrightarrow> y \<in> set ys \<Longrightarrow> \<exists>x \<in> set xs. f x = Inr y"
  by (induction xs arbitrary: ys) (auto simp: py_simps)

lemma mapE_fst: "mapE f xs = Inr ys \<Longrightarrow> (\<And>x y. f x = Inr y \<Longrightarrow> fst y = h x) \<Longrightarrow> map fst ys = map h xs"
  by (induction xs arbitrary: ys) (auto simp: py_simps)

lemma mk_daemon_inv:
  assumes "mk_mrc_daemon g host src flows conf ev_cfg dir clock = Inr d"
    and "pred_option (\<lambda>c. 0 \<le> loss_threshold c) ev_cfg"
  shows "daemon_inv g d"
proof -
  obtain tables agents where t: "mapE (flow_table g ev_cfg) flows = Inr tables"
    and a: "mapE (flow_agent g src (dict_of tables) conf clock) (enumerate 0 flows) = Inr agents"
    and d: "dm_agents d = dict_of agents" "dm_flows d = flows" "dm_src_id d = src"
      "dm_demux d = dict_of (map (\<lambda>k. (snd k, k)) flows)"
    using assms(1) by (auto simp: mk_mrc_daemon_def py_simps split: if_splits)
  have "map fst agents = map snd (enumerate 0 flows)"
    using a by (rule mapE_fst) (auto simp: flow_agent_def py_simps split: option.splits)
  then have keys: "fst ` set agents = set flows" by (metis list.set_map map_snd_enumerate)
  have inv: "agent_inv g src k ag" if "dict_get (dm_agents d) k = Some ag" for k ag
  proof -
    have "(k, ag) \<in> set agents" using that d(1) dict_of_mem by metis
    then obtain ik where "flow_agent g src (dict_of tables) conf clock ik = Inr (k, ag)"
      using mapE_mem [OF a] by blast
    then obtain tb where tb: "dict_get (dict_of tables) k = Some tb"
      "mk_sender_agent g (fst k) src (snd k) tb conf (clock (fst ik)) = Inr ag"
      by (auto simp: flow_agent_def py_simps split: option.splits)
    then have "(k, tb) \<in> set tables" using dict_of_mem by metis
    then obtain k0 where k0: "flow_table g ev_cfg k0 = Inr (k, tb)" using mapE_mem [OF t] by blast
    then have "k0 = k" by (auto simp: flow_table_def py_simps)
    then show ?thesis using mk_agent_inv(2) k0 assms(2) tb(2) by metis
  qed
  have "snd k = i \<and> k \<in> set flows" if "dict_get (dm_demux d) i = Some k" for i k
    using that d(4) dict_of_mem by fastforce
  moreover have "dict_get (dm_demux d) (snd k) \<noteq> None" if "k \<in> set flows" for k
    unfolding d(4) dict_of_present using that by force
  ultimately show ?thesis
    using inv keys unfolding daemon_inv_def d(1,2,3) dict_of_present by simp
qed

lemma put_agent_inv:
  assumes "daemon_inv g d" "dict_get (dm_agents d) k = Some a" "agent_inv g (dm_src_id d) k a'"
  shows "daemon_inv g (put_agent k a' d)"
  using assms by (auto simp: daemon_inv_def put_agent_def)

lemma tally_inv [simp]: "daemon_inv g (tally f d) = daemon_inv g d"
  by (simp add: daemon_inv_def tally_def)

lemma note_arrival_fields [simp]:
  "dm_agents (note_arrival d k r n i) = dm_agents d" "dm_demux (note_arrival d k r n i) = dm_demux d"
  "dm_flows (note_arrival d k r n i) = dm_flows d" "dm_src_id (note_arrival d k r n i) = dm_src_id d"
  "dm_readers (note_arrival d k r n i) = dm_readers d"
  "dm_counters (note_arrival d k r n i) = (dm_counters d)\<lparr>packets_received := packets_received (dm_counters d) + 1\<rparr>"
  by (simp_all add: note_arrival_def tally_def)

lemma tally_fields [simp]:
  "dm_agents (tally f d) = dm_agents d" "dm_demux (tally f d) = dm_demux d" "dm_flows (tally f d) = dm_flows d"
  "dm_src_id (tally f d) = dm_src_id d" "dm_readers (tally f d) = dm_readers d"
  "dm_counters (tally f d) = f (dm_counters d)"
  by (simp_all add: tally_def)

lemma put_agent_fields [simp]:
  "dm_agents (put_agent k a d) = dict_put k a (dm_agents d)" "dm_demux (put_agent k a d) = dm_demux d"
  "dm_flows (put_agent k a d) = dm_flows d" "dm_src_id (put_agent k a d) = dm_src_id d"
  "dm_readers (put_agent k a d) = dm_readers d" "dm_counters (put_agent k a d) = dm_counters d"
  by (simp_all add: put_agent_def)

lemma demux_agent_Some:
  "demux_agent d i = Some (k, a) \<longleftrightarrow> dict_get (dm_demux d) i = Some k \<and> dict_get (dm_agents d) k = Some a"
  by (auto simp: demux_agent_def split: option.splits)

lemma demux_agent_cong [simp]:
  "demux_agent (note_arrival d kn r n i) = demux_agent d" "demux_agent (tally f d) = demux_agent d"
  by (rule ext, simp add: demux_agent_def split: option.split)+

lemma dispatch_probe_inv: "daemon_inv g d \<Longrightarrow> daemon_inv g (fst (dispatch_probe g d payload peer))"
proof -
  assume d: "daemon_inv g d"
  have "daemon_inv g (put_agent k (sa_record_probe_recv a plane path) d)" if "demux_agent d i = Some (k, a)" for i k a plane path
    using that d daemon_agent by (intro put_agent_inv recv_inv) (auto simp: demux_agent_Some)
  moreover have "put_agent k a (tally f d) = tally f (put_agent k a d)" for k a f by (simp add: put_agent_def tally_def)
  ultimately show ?thesis
    using d by (auto simp: dispatch_probe_def Let_def split: sum.split option.split)
qed

lemma dispatch_report_inv: "daemon_inv g d \<Longrightarrow> daemon_inv g (dispatch_loss_report d payload peer now)"
proof -
  assume d: "daemon_inv g d"
  have "daemon_inv g (put_agent k a' d)" if "demux_agent d i = Some (k, a)" "handle_loss_report a payload now = (a', e)" for i k a a' e
    using that d report_inv [of g "dm_src_id d" k a payload now] daemon_agent
    by (intro put_agent_inv) (auto simp: demux_agent_Some)
  then show ?thesis
    using d by (auto simp: dispatch_loss_report_def Let_def split: option.split prod.split)
qed

lemma dispatch_inv:
  assumes "daemon_inv g d"
  shows "daemon_inv g (fst (dispatch_turn g d r))"
proof -
  have "daemon_inv g (note_arrival d k rt n i)" for k rt n i
    using assms by (simp add: daemon_inv_def)
  then show ?thesis
    using assms dispatch_probe_inv dispatch_report_inv
    by (auto simp: dispatch_turn_def Let_def split: list.split)
qed

lemma emit_daemon_inv:
  assumes "daemon_inv g d"
  shows "daemon_inv g (fst (daemon_emit d k ev outcome ns))"
proof (cases "dict_get (dm_agents d) k")
  case (Some a)
  then have "agent_inv g (dm_src_id d) k a" by (rule daemon_agent [OF assms])
  note put = put_agent_inv [OF assms Some emit_inv [OF this, where ev = ev and outcome = outcome and ns = ns]]
  obtain a' tx e where "emit_probe a ev outcome ns = (a', tx, e)" by (metis prod_cases3)
  then show ?thesis using put by (simp add: daemon_emit_def Some)
qed (simp add: daemon_emit_def assms)

lemma window_daemon_inv:
  assumes "daemon_inv g d"
  shows "daemon_inv g (fst (daemon_window_turn d k dl now file now_ns))"
proof (cases "dict_get (dm_agents d) k")
  case (Some a)
  then have i: "agent_inv g (dm_src_id d) k a" by (rule daemon_agent [OF assms])
  have put: "daemon_inv g (put_agent k (fst (window_turn a dl now src now_ns)) dd)"
    if "daemon_inv g dd" "dm_agents dd = dm_agents d" "dm_src_id dd = dm_src_id d" for dd src
    using put_agent_inv [OF that(1), of k a] Some window_inv_turn [OF i] that by simp
  have r: "daemon_inv g (d\<lparr>dm_readers := rs\<rparr>)" for rs using assms by (simp add: daemon_inv_def)
  show ?thesis
  proof (cases "dict_get (dm_readers d) k")
    case None
    then show ?thesis using assms by (simp add: daemon_window_turn_def Some)
  next
    case rd: (Some rd)
    obtain r' delta where rr: "read_delta rd file = (r', delta)" by fastforce
    obtain a' dl' e where w: "window_turn a dl now (Some delta) now_ns = (a', dl', e)" by (metis prod_cases3)
    show ?thesis
      using put [OF r, of "dict_put k r' (dm_readers d)" "Some delta"] put [OF assms, of "Some delta"]
      by (simp add: daemon_window_turn_def Some rd rr w)
  qed
qed (simp add: daemon_window_turn_def assms)

lemma daemon_reachable_inv: "daemon_reachable g d \<Longrightarrow> daemon_inv g d"
proof (induction rule: daemon_reachable.induct)
  case (step d d')
  from step(2) show ?case
    using step.IH dispatch_inv emit_daemon_inv window_daemon_inv by cases (metis fst_conv)+
qed (rule mk_daemon_inv)


subsection \<open>Routing\<close>

text \<open>What the decoders accept starts with the magic number the dispatcher looks at.\<close>

lemma decoded_head:
  "decode_probe bs = Inr p \<Longrightarrow> \<exists>x xs. bs = x # xs \<and> uint x = MAGIC_PROBE"
  "decode_loss_report bs = Inr rp \<Longrightarrow> \<exists>x xs. bs = x # xs \<and> uint x = MAGIC_LOSS_REPORT"
proof -
  assume d: "decode_probe bs = Inr p"
  show "\<exists>x xs. bs = x # xs \<and> uint x = MAGIC_PROBE"
    using decoded_magic(1) [OF d] d by (cases bs) (auto simp: be_int_def decode_probe_def probe_size_def wire_constants)
next
  assume d: "decode_loss_report bs = Inr rp"
  show "\<exists>x xs. bs = x # xs \<and> uint x = MAGIC_LOSS_REPORT"
    using decoded_magic(3) [OF d] d by (cases bs) (auto simp: be_int_def decode_loss_report_def wire_constants)
qed

lemma encoded_probe:
  assumes "encode_probe plane path tid src dst = Inr bs"
  shows "decode_probe (bs @ tail) = Inr \<lparr>pr_plane_id = plane, pr_path_id = path, pr_tenant_id = tid,
      pr_src_id = src, pr_dst_id = dst\<rparr>"
proof -
  let ?p = "\<lparr>pr_plane_id = plane, pr_path_id = path, pr_tenant_id = tid, pr_src_id = src, pr_dst_id = dst\<rparr>"
  have e: "enc_probe ?p = Inr bs" using assms by (simp add: enc_probe_def)
  have "probe_ok ?p"
    using assms by (auto simp: encode_probe_def check_defs probe_ok_iff py_simps split: if_splits)
  from enc_probe_ok [OF this] e show ?thesis by auto
qed

lemma demux_own:
  assumes "daemon_inv g d" "k \<in> set (dm_flows d)" "\<forall>j \<in> set (dm_flows d). fst j = fst k"
  obtains a where "demux_agent d (snd k) = Some (k, a)" "dict_get (dm_agents d) k = Some a"
proof -
  obtain a where a: "dict_get (dm_agents d) k = Some a" using assms(1,2) unfolding daemon_inv_def by blast
  obtain j where j: "dict_get (dm_demux d) (snd k) = Some j" using assms(1,2) unfolding daemon_inv_def by blast
  then have "snd j = snd k" "j \<in> set (dm_flows d)" using assms(1) unfolding daemon_inv_def by blast+
  then have "j = k" using assms(3) by (simp add: prod_eq_iff)
  with a j show ?thesis using that by (simp add: demux_agent_Some)
qed

text \<open>
  C10. The dispatcher gives every packet to the flow it is for, and to no other. The probe the agent
  of a flow sent is, when it comes back, credited to that agent's table on the EV it was sent on; a
  loss report that comes from the flow's destination is fused by that agent; the agents of all the
  other flows are as before, in whatever order packets, probes and windows of all flows interleave.
  The flows of a daemon are of one tenant, as its documentation says.
\<close>

theorem daemon_routes:
  assumes "daemon_reachable g d" and "k \<in> set (dm_flows d)" and "\<forall>j \<in> set (dm_flows d). fst j = fst k"
  shows "\<exists>a. dict_get (dm_agents d) k = Some a \<and> sa_tenant a = fst k \<and> sa_dst_id a = snd k
    \<and> (\<forall>plane path tail bs r. encode_probe plane path (sa_tenant_id a) (sa_src_id a) (sa_dst_id a) = Inr bs \<longrightarrow>
          ar_payload r = bs @ tail \<longrightarrow>
          (\<exists>d'. dispatch_turn g d r = (d', Inr ())
            \<and> (\<forall>j. dict_get (dm_agents d') j =
                 (if j = k then Some (sa_record_probe_recv a plane path) else dict_get (dm_agents d) j))))
    \<and> (\<forall>rep addr r. decode_loss_report (ar_payload r) = Inr rep \<longrightarrow> ar_peer r = Some addr \<longrightarrow>
          NUM_LEAVES g \<le> 16 \<longrightarrow> fst k \<in> {''green'', ''yellow''} \<longrightarrow> inner_addr g (fst k) (snd k) = Inr addr \<longrightarrow>
          (\<exists>d'. dispatch_turn g d r = (d', Inr ())
            \<and> (\<forall>j. dict_get (dm_agents d') j =
                 (if j = k then Some (fst (handle_loss_report a (ar_payload r) (ar_handled_ns r)))
                  else dict_get (dm_agents d) j))))"
proof -
  have inv: "daemon_inv g d" by (rule daemon_reachable_inv [OF assms(1)])
  obtain a where a: "demux_agent d (snd k) = Some (k, a)" "dict_get (dm_agents d) k = Some a"
    using demux_own [OF inv assms(2,3)] .
  have id: "sa_tenant a = fst k" "sa_dst_id a = snd k" using daemon_agent [OF inv a(2)] by (simp_all add: agent_inv_def)
  have probe: "\<exists>d'. dispatch_turn g d r = (d', Inr ())
      \<and> (\<forall>j. dict_get (dm_agents d') j =
           (if j = k then Some (sa_record_probe_recv a plane path) else dict_get (dm_agents d) j))"
    if e: "encode_probe plane path (sa_tenant_id a) (sa_src_id a) (sa_dst_id a) = Inr bs" "ar_payload r = bs @ tail"
    for plane path tail bs r
  proof -
    have d: "decode_probe (ar_payload r) = Inr \<lparr>pr_plane_id = plane, pr_path_id = path, pr_tenant_id = sa_tenant_id a,
      pr_src_id = sa_src_id a, pr_dst_id = sa_dst_id a\<rparr>" using encoded_probe [OF e(1)] e(2) by simp
    then obtain x xs where "ar_payload r = x # xs" "uint x = MAGIC_PROBE" using decoded_head(1) by blast
    then show ?thesis using d a id by (simp add: dispatch_turn_def dispatch_probe_def Let_def)
  qed
  have report: "\<exists>d'. dispatch_turn g d r = (d', Inr ())
      \<and> (\<forall>j. dict_get (dm_agents d') j =
           (if j = k then Some (fst (handle_loss_report a (ar_payload r) (ar_handled_ns r)))
            else dict_get (dm_agents d) j))"
    if e: "decode_loss_report (ar_payload r) = Inr rep" "ar_peer r = Some addr" "NUM_LEAVES g \<le> 16"
      "fst k \<in> {''green'', ''yellow''}" "inner_addr g (fst k) (snd k) = Inr addr" for rep addr r
  proof -
    have h: "host_id_from_inner_addr addr = Some (fst k, snd k)"
      using inner_addr_roundtrip [OF e(3) _ e(5)] e(4) by auto
    moreover have "host_id_from_inner_addr [] = None" by code_simp
    ultimately have "addr \<noteq> []" by auto
    moreover obtain x xs where "ar_payload r = x # xs" "uint x = MAGIC_LOSS_REPORT" using decoded_head(2) e(1) by blast
    moreover have "MAGIC_LOSS_REPORT \<noteq> MAGIC_PROBE" by (simp add: wire_constants)
    moreover obtain tn dst where "k = (tn, dst)" by fastforce
    ultimately show ?thesis using a e(2) h
      by (cases "handle_loss_report a (ar_payload r) (ar_handled_ns r)")
         (auto simp: dispatch_turn_def dispatch_loss_report_def Let_def split: option.split)
  qed
  show ?thesis using a(2) id probe report by (intro exI [of _ a]) blast
qed


text \<open>Two flows to the same host id of different tenants: the second takes the packets of both.\<close>

lemma demux_overwritten:
  "dict_get (dict_of (map (\<lambda>k. (snd k, k)) [(''green'', 3 :: int), (''yellow'', 3)])) 3 = Some (''yellow'', 3)"
  by (simp add: dict_of_def)

subsection \<open>Every packet is counted\<close>

definition accounted :: "dispatch_counters \<Rightarrow> int" where
  "accounted c = probes_dispatched c + probes_no_flow c + probes_decode_failed c
     + loss_reports_dispatched c + loss_reports_no_peer c + unknown_magic c"

definition dispatch_counters_ok :: "dispatch_counters \<Rightarrow> bool" where
  "dispatch_counters_ok c \<longleftrightarrow> accounted c \<le> packets_received c \<and> 0 \<le> probes_ev_mismatch c
     \<and> probes_ev_mismatch c \<le> probes_dispatched c"


lemma dispatch_accounts:
  "accounted (dm_counters (fst (dispatch_turn g d r))) - packets_received (dm_counters (fst (dispatch_turn g d r)))
     \<le> accounted (dm_counters d) - packets_received (dm_counters d)"
  by (auto simp: dispatch_turn_def dispatch_probe_def dispatch_loss_report_def Let_def accounted_def
      split: list.split sum.split option.split prod.split)


text \<open>Every packet is counted at most once; the difference is the reports whose handler raised.\<close>

lemma other_threads_counters:
  "dm_counters (fst (daemon_emit d k ev outcome ns)) = dm_counters d"
  "dm_counters (fst (daemon_window_turn d k dl now file now_ns)) = dm_counters d"
  by (auto simp: daemon_emit_def daemon_window_turn_def Let_def split: option.split prod.split)

lemma daemon_counts_once: "daemon_reachable g d \<Longrightarrow> accounted (dm_counters d) \<le> packets_received (dm_counters d)"
proof (induction rule: daemon_reachable.induct)
  case (init host src flows conf ev_cfg dir clock d)
  then show ?case by (auto simp: mk_mrc_daemon_def py_simps new_dispatch_counters_def accounted_def split: if_splits)
next
  case (step d d')
  from step(2) show ?case
  proof cases
    case (arrive r res)
    then show ?thesis using step.IH dispatch_accounts [of g d r] by simp
  next
    case (emit k ev outcome ns tx)
    then show ?thesis using step.IH other_threads_counters(1) by (metis fst_conv)
  next
    case (window k dl now fl now_ns dl')
    then show ?thesis using step.IH other_threads_counters(2) by (metis fst_conv)
  qed
qed

subsection \<open>What is published is what the policies read\<close>

lemma no_underscore: "0 \<le> n \<Longrightarrow> CHR ''_'' \<notin> set (dec_pad2 n)"
  using decimal_chars(5) [OF decimal_zpad [OF decimal_dec_str]] by (auto simp: dec_pad2_def)

lemma dec_pad2_inj: "0 \<le> m \<Longrightarrow> 0 \<le> n \<Longrightarrow> dec_pad2 m = dec_pad2 n \<longleftrightarrow> m = n"
  by (metis dec_pad2_def int_of_zpad int_nat_eq linorder_not_less option.inject)

lemma snapshot_path_inj:
  assumes "0 \<le> snd k" "0 \<le> snd j"
  shows "snapshot_path d k = snapshot_path d j \<longleftrightarrow> k = j"
proof
  assume "snapshot_path d k = snapshot_path d j"
  then have e: "fst k @ CHR ''_'' # dec_pad2 (snd k) = fst j @ CHR ''_'' # dec_pad2 (snd j)"
    by (simp add: snapshot_path_def snapshot_name_def)
  have tail: "rev (takeWhile (\<lambda>c. c \<noteq> CHR ''_'') (rev (t @ CHR ''_'' # x))) = x" if "CHR ''_'' \<notin> set x" for t x
    using that by (simp add: takeWhile_append)
  have "dec_pad2 (snd k) = dec_pad2 (snd j)" using e tail no_underscore assms by metis
  with e assms show "k = j" by (simp add: dec_pad2_inj prod_eq_iff)
qed simp

lemma foldl_files:
  assumes "distinct (map f xs)" "x \<in> set xs" "\<not> failed (f x)"
  shows "foldl (\<lambda>fs x. atomic_write_json (failed (f x)) (f x) (h x) fs) fs xs (f x) = Some (h x)"
  using assms
proof (induction xs arbitrary: fs)
  case (Cons y ys)
  have keep: "foldl (\<lambda>fs x. atomic_write_json (failed (f x)) (f x) (h x) fs) fs ys q = fs q" if "q \<notin> f ` set ys" for fs q
    using that by (induction ys arbitrary: fs) (auto simp: atomic_write_json_def)
  show ?case
  proof (cases "x = y")
    case True
    then show ?thesis using Cons.prems keep by (simp add: atomic_write_json_def)
  next
    case False
    then show ?thesis using Cons by auto
  qed
qed simp

lemma publish_writes:
  assumes "daemon_inv g d" "\<forall>j \<in> set (dm_flows d). 0 \<le> snd j"
    and "dict_get (dm_agents d) k = Some a" "\<not> failed (snapshot_path d k)"
  shows "publish_all_snapshots d stats captured failed fs (snapshot_path d k)
    = Some (snapshot_payload d stats (captured k) k a)"
proof -
  have dk: "distinct (map fst (dm_agents d))" using assms(1) unfolding daemon_inv_def dict_ok_def by blast
  have fl: "fst x \<in> set (dm_flows d)" if "x \<in> set (dm_agents d)" for x
  proof -
    have "dict_get (dm_agents d) (fst x) \<noteq> None" using that by (simp add: map_of_eq_None_iff)
    then show ?thesis using assms(1) unfolding daemon_inv_def by blast
  qed
  have "inj_on (\<lambda>x. snapshot_path d (fst x)) (set (dm_agents d))"
  proof (rule inj_onI)
    fix x y assume x: "x \<in> set (dm_agents d)" "y \<in> set (dm_agents d)" "snapshot_path d (fst x) = snapshot_path d (fst y)"
    then have "fst x = fst y" using snapshot_path_inj fl assms(2) by blast
    then show "x = y" using x(1,2) dk by (metis eq_key_imp_eq_value prod.collapse)
  qed
  then have dist: "distinct (map (\<lambda>x. snapshot_path d (fst x)) (dm_agents d))"
    using dk by (auto simp: distinct_map)
  have mem: "(k, a) \<in> set (dm_agents d)" using assms(3) by (rule map_of_SomeD)
  show ?thesis
    using foldl_files [OF dist mem, of failed "\<lambda>(k, a). snapshot_payload d stats (captured k) k a" fs] assms(4)
    by (simp add: publish_all_snapshots_def case_prod_beta')
qed

text \<open>
  C9. The daemon feeds the senders' policies: after any run of the daemon's threads, a round of
  publishing in which the write for a flow succeeds leaves a file for it, whatever other writes
  fail; a data sender's snapshot policy that then refreshes from that file takes it, and makes, for
  every packet and after any history of picks, the choice the live policy would make on the table of
  that flow's agent.
\<close>

theorem daemon_feeds_policy:
  assumes "daemon_reachable g d" and "\<forall>j \<in> set (dm_flows d). 0 \<le> snd j"
    and "dict_get (dm_agents d) k = Some a" and "\<not> failed (snapshot_path d k)"
    and "h_ok g (sa_table a) p" and "sn_reachable g s"
    and "sn_tenant s = h_tenant p" and "sn_topology s = h_topology p" and "sn_paths_per_plane s = h_paths_per_plane p"
    and "sn_last_mtime s < m"
  shows "\<exists>data s'. publish_all_snapshots d stats captured failed fs (snapshot_path d k) = Some data
    \<and> refresh_once s (StatMtime m) (Inr data) i = (s', Inr True)
    \<and> (\<forall>hist. \<exists>s2. sn_picks g s' hist = Inr s2 \<and>
        (\<forall>seq f. \<exists>s3 p' ev. sn_pick_ev g s2 seq f = Inr (s3, ev) \<and> h_pick_ev g (sa_table a) p seq f = Inr (p', ev)))"
proof -
  let ?data = "snapshot_payload d stats (captured k) k a"
  have inv: "daemon_inv g d" by (rule daemon_reachable_inv [OF assms(1)])
  have r: "ev_reachable (sa_table a)" using daemon_agent [OF inv assms(3)] by (simp add: agent_inv_def)
  have p: "publishes (sa_table a) ?data" by (simp add: publishes_def snapshot_payload_def)
  obtain s' res where ref: "refresh_once s (StatMtime m) (Inr ?data) i = (s', res)" by fastforce
  from snapshot_policy_agrees [OF r assms(5-9) p assms(10) ref] publish_writes [where failed = failed, OF inv assms(2-4)] ref
  show ?thesis by (intro exI [of _ ?data] exI [of _ s']) auto
qed


subsection \<open>Witnesses\<close>

definition demo_daemon :: mrc_daemon where
  "demo_daemon = projr (mk_mrc_daemon demo_fabric ''green-host00'' 0 [(''green'', 1), (''green'', 2)] default_agent_config
     None DEFAULT_SNAPSHOT_DIR (\<lambda>_. 0))"

lemma demo_daemon_reachable: "daemon_reachable demo_fabric demo_daemon"
proof -
  have "\<not> isl (mk_mrc_daemon demo_fabric ''green-host00'' 0 [(''green'', 1), (''green'', 2)] default_agent_config
     None DEFAULT_SNAPSHOT_DIR (\<lambda>_. 0))"
    by code_simp
  then have "mk_mrc_daemon demo_fabric ''green-host00'' 0 [(''green'', 1), (''green'', 2)] default_agent_config
     None DEFAULT_SNAPSHOT_DIR (\<lambda>_. 0) = Inr demo_daemon"
    unfolding demo_daemon_def by (metis sum.collapse(2))
  then show ?thesis by (rule daemon_reachable.init) simp
qed

lemma demo_daemon_flows: "dm_flows demo_daemon = [(''green'', 1), (''green'', 2)]"
  by code_simp

theorem daemon_routes_witness:
  "\<exists>a. dict_get (dm_agents demo_daemon) (''green'', 2) = Some a \<and> sa_dst_id a = 2"
  using daemon_routes [OF demo_daemon_reachable, of "(''green'', 2)"] by (fastforce simp: demo_daemon_flows)

theorem daemon_feeds_policy_witness:
  "\<exists>a data s'. dict_get (dm_agents demo_daemon) (''green'', 1) = Some a
    \<and> publish_all_snapshots demo_daemon JNull (\<lambda>_. 0) (\<lambda>_. False) (\<lambda>_. None)
        ''/dev/shm/srv6-mrc/green-host00/green_01.json'' = Some data
    \<and> refresh_once demo_snap (StatMtime 7) (Inr data) 2 = (s', Inr True)"
proof -
  obtain a where a: "dict_get (dm_agents demo_daemon) (''green'', 1) = Some a"
    using daemon_reachable_inv [OF demo_daemon_reachable] unfolding daemon_inv_def demo_daemon_flows
    by (metis list.set_intros(1) not_Some_eq)
  have i: "agent_inv demo_fabric (dm_src_id demo_daemon) (''green'', 1) a"
    by (rule daemon_agent [OF daemon_reachable_inv [OF demo_daemon_reachable] a])
  have "mk_health_aware_mrc demo_fabric (sa_table a) ''green'' DEFAULT_PATHS None = Inr demo_aware"
    using i by (simp add: agent_inv_def mk_health_aware_mrc_def resolve_paths_def pol_planes_def pol_spines_def
        demo_fabric_def demo_aware_def)
  then have ok: "h_ok demo_fabric (sa_table a) demo_aware" by (rule mk_health_aware_ok)
  have path: "snapshot_path demo_daemon (''green'', 1) = ''/dev/shm/srv6-mrc/green-host00/green_01.json''" by code_simp
  have "\<not> (\<lambda>_. False) (snapshot_path demo_daemon (''green'', 1))" by simp
  from daemon_feeds_policy [where failed = "\<lambda>_. False" and m = 7 and p = demo_aware and s = demo_snap and i = 2
      and stats = JNull and captured = "\<lambda>_. 0" and fs = "\<lambda>_. None",
      OF demo_daemon_reachable _ a this ok demo_snap_reachable]
  show ?thesis using a
    by (simp add: demo_daemon_flows demo_snap_fields demo_aware_def path) blast
qed

end
