(* ===== verification/RunPlan.thy ===== *)
theory RunPlan
  imports Scenario Daemon
begin

text \<open>
  The scenario runner of \<^verbatim>\<open>srv6_mrc/mrc/run.py\<close>: from an accepted scenario to the processes it starts
  with \<open>docker exec\<close> (container, arguments, environment), what it keeps of their results, and the frame
  of a run between applying and reverting the faults. \<open>repr\<close> is the text of a float, \<open>dumps\<close> and
  \<open>loads\<close> are the JSON library (\<open>loads\<close> gives None for text that is not JSON). Waiting, printing and
  the transition log are not modelled; neither are the texts of failures.
\<close>

subsection \<open>Flows\<close>

text \<open>\<open>SystemExit\<close>, or an exception that \<open>expand_flows\<close> does not convert.\<close>

datatype run_error = SystemExit | Raised py_error

definition policy_to_cli :: "(json \<Rightarrow> string) \<Rightarrow> json \<Rightarrow> string result" where
  "policy_to_cli repr spec =
     (case spec of
        JStr s \<Rightarrow> Inr s
      | JObj [(key, v)] \<Rightarrow>
          if key = ''weighted''
          then bindE (py_iter v) (\<lambda>ws. Inr (''weighted:'' @ join_with (CHR '','') (map (py_str repr) ws)))
          else if key = ''ev_spray'' then bindE (py_int v) (\<lambda>n. Inr (''ev_spray:'' @ int_str n))
          else Inl ValueError
      | _ \<Rightarrow> Inl ValueError)"

record flow_run =
  fr_src_host :: string
  fr_dst_host :: string
  fr_tenant :: string
  fr_src_id :: int
  fr_dst_id :: int
  fr_policy_cli :: string
  fr_rate_pps :: int
  fr_duration_s :: pyfloat

definition flow_run_of :: "flow_spec \<Rightarrow> string \<Rightarrow> flow_pair \<Rightarrow> flow_run" where
  "flow_run_of fs cli p =
     \<lparr>fr_src_host = src_host p, fr_dst_host = dst_host p, fr_tenant = fp_tenant p, fr_src_id = fp_src p,
      fr_dst_id = fp_dst p, fr_policy_cli = cli, fr_rate_pps = fl_rate_pps fs,
      fr_duration_s = fl_duration_s fs\<rparr>"

definition expand_flow :: "(json \<Rightarrow> string) \<Rightarrow> flow_spec \<Rightarrow> run_error + flow_run list" where
  "expand_flow repr fs =
     (case policy_to_cli repr (fl_policy_spec fs) of
        Inl e \<Rightarrow> Inl (if e \<in> {ValueError, NotImplementedError} then SystemExit else Raised e)
      | Inr cli \<Rightarrow> Inr (map (flow_run_of fs cli) (fl_pairs fs)))"

definition expand_flows :: "(json \<Rightarrow> string) \<Rightarrow> scenario \<Rightarrow> run_error + flow_run list" where
  "expand_flows repr sc = bindE (mapE (expand_flow repr) (sc_flows sc)) (\<lambda>fss. Inr (concat fss))"

subsection \<open>Arguments and environment\<close>

definition seconds_text :: "(json \<Rightarrow> string) \<Rightarrow> pyfloat \<Rightarrow> string" where
  "seconds_text repr x = py_str repr (JFloat x) @ ''s''"

definition send_argv :: "(json \<Rightarrow> string) \<Rightarrow> flow_run \<Rightarrow> string option \<Rightarrow> string list" where
  "send_argv repr f policy_cli =
     [''spray'', ''--role'', ''send'', ''--dst-id'', int_str (fr_dst_id f),
      ''--rate'', int_str (fr_rate_pps f) @ ''pps'', ''--duration'', seconds_text repr (fr_duration_s f),
      ''--policy'', (case policy_cli of Some p \<Rightarrow> p | None \<Rightarrow> fr_policy_cli f), ''--json'']"

definition recv_argv :: "(json \<Rightarrow> string) \<Rightarrow> pyfloat \<Rightarrow> bool \<Rightarrow> string list" where
  "recv_argv repr idle_timeout_s mrc =
     [''spray'', ''--role'', ''recv'', ''--idle-timeout'', seconds_text repr idle_timeout_s, ''--json'']
     @ (if mrc then [''--mrc''] else [])"

definition env_entry :: "string \<Rightarrow> string option \<Rightarrow> (string \<times> string) list" where
  "env_entry name v = (case v of None \<Rightarrow> [] | Some x \<Rightarrow> [(name, x)])"

text \<open>\<open>log_transitions\<close> is the orchestrator's own \<open>SRV6_MRC_LOG_TRANSITIONS\<close>.\<close>

definition scenario_env ::
  "(json \<Rightarrow> string) \<Rightarrow> mrc_spec option \<Rightarrow> int option \<Rightarrow> string option \<Rightarrow> string option \<Rightarrow>
   trim_spec option \<Rightarrow> string option \<Rightarrow> (string \<times> string) list option" where
  "scenario_env dumps mrc ppp sid_mode transport trim log_transitions =
     (let env = env_entry ''SRV6_MRC_CONFIG_JSON'' (map_option (mrc_to_env_json dumps) mrc)
              @ env_entry ''SRV6_PATHS_PER_PLANE'' (map_option int_str ppp)
              @ env_entry ''SRV6_SID_MODE'' sid_mode
              @ env_entry ''SRV6_TRANSPORT'' transport
              @ env_entry ''SRV6_TRIM_JSON'' (map_option (to_env_json dumps) trim)
              @ env_entry ''SRV6_MRC_LOG_TRANSITIONS'' log_transitions
      in if env = [] then None else Some env)"

record exec_call =
  ec_container :: string
  ec_argv :: "string list"
  ec_env :: "(string \<times> string) list option"

text \<open>The command of \<open>docker_exec\<close> and \<open>docker_exec_async\<close>; the keys of the environment are distinct.\<close>

definition env_flags :: "(string \<times> string) list \<Rightarrow> string list" where
  "env_flags env =
     concat (map (\<lambda>k. [''-e'', k @ ''='' @ (case dict_get env k of None \<Rightarrow> [] | Some v \<Rightarrow> v)])
                 (sorted_strs (map fst env)))"

definition docker_exec_cmd :: "exec_call \<Rightarrow> string list" where
  "docker_exec_cmd c =
     [''docker'', ''exec''] @ (case ec_env c of None \<Rightarrow> [] | Some env \<Rightarrow> env_flags env)
     @ ec_container c # ec_argv c"

subsection \<open>Daemons\<close>

definition MRC_SNAPSHOT_BASE :: string where "MRC_SNAPSHOT_BASE = ''/dev/shm/srv6-mrc''"

definition flow_uses_mrc :: "flow_run \<Rightarrow> bool" where
  "flow_uses_mrc f \<longleftrightarrow> fr_policy_cli f = ''health_aware_mrc''"

definition snapshot_path_for_flow :: "string \<Rightarrow> string \<Rightarrow> int \<Rightarrow> string" where
  "snapshot_path_for_flow host tenant dst_id =
     MRC_SNAPSHOT_BASE @ ''/'' @ host @ ''/'' @ tenant @ ''_'' @ dec_pad2 dst_id @ ''.json''"

definition translate_policy_for_daemon :: "flow_run \<Rightarrow> string" where
  "translate_policy_for_daemon f =
     (if \<not> flow_uses_mrc f then fr_policy_cli f
      else ''mrc_snapshot:'' @ snapshot_path_for_flow (fr_src_host f) (fr_tenant f) (fr_dst_id f))"

definition flows_json :: "flow_run list \<Rightarrow> json" where
  "flows_json fs = JList (map (\<lambda>f. JObj [(''tenant'', JStr (fr_tenant f)), (''dst_id'', JInt (fr_dst_id f))]) fs)"

definition daemon_argv :: "(json \<Rightarrow> string) \<Rightarrow> flow_run list \<Rightarrow> string list" where
  "daemon_argv dumps fs =
     [''spray'', ''--role'', ''mrc-daemon'', ''--flows-json'', dumps (flows_json fs),
      ''--snapshot-dir'', MRC_SNAPSHOT_BASE, ''--json'']"

definition select_mrc_daemon_flows :: "flow_run list \<Rightarrow> (string \<times> flow_run list) list" where
  "select_mrc_daemon_flows fs =
     foldl (\<lambda>by_host f.
        if \<not> flow_uses_mrc f then by_host
        else dict_put (fr_src_host f)
               ((case dict_get by_host (fr_src_host f) of None \<Rightarrow> [] | Some grp \<Rightarrow> grp) @ [f]) by_host)
       [] fs"

subsection \<open>What a run starts\<close>

definition RECV_IDLE_TIMEOUT_S :: pyfloat where "RECV_IDLE_TIMEOUT_S = 6"

text \<open>The processes of \<open>run_flows\<close>, in the order they are started.\<close>

record run_calls =
  rc_receivers :: "exec_call list"
  rc_daemons :: "exec_call list"
  rc_senders :: "exec_call list"

definition receiver_calls ::
  "(json \<Rightarrow> string) \<Rightarrow> flow_run list \<Rightarrow> pyfloat \<Rightarrow> bool \<Rightarrow> (string \<times> string) list option \<Rightarrow> exec_call list" where
  "receiver_calls repr fs idle mrc env =
     map (\<lambda>dst. \<lparr>ec_container = dst, ec_argv = recv_argv repr idle mrc, ec_env = env\<rparr>)
       (sorted_str_set (map fr_dst_host fs))"

definition daemon_calls ::
  "(json \<Rightarrow> string) \<Rightarrow> flow_run list \<Rightarrow> bool \<Rightarrow> (string \<times> string) list option \<Rightarrow> exec_call list" where
  "daemon_calls dumps fs mrc env =
     (if mrc
      then map (\<lambda>(host, grp). \<lparr>ec_container = host, ec_argv = daemon_argv dumps grp, ec_env = env\<rparr>)
             (select_mrc_daemon_flows fs)
      else [])"

definition sender_call ::
  "(json \<Rightarrow> string) \<Rightarrow> exec_call list \<Rightarrow> (string \<times> string) list option \<Rightarrow> flow_run \<Rightarrow> exec_call" where
  "sender_call repr daemons env f =
     \<lparr>ec_container = fr_src_host f,
      ec_argv = send_argv repr f (if daemons \<noteq> [] then Some (translate_policy_for_daemon f) else None),
      ec_env = env\<rparr>"

definition start_flows ::
  "(json \<Rightarrow> string) \<Rightarrow> (json \<Rightarrow> string) \<Rightarrow> scenario \<Rightarrow> string option \<Rightarrow> flow_run list \<Rightarrow> run_calls" where
  "start_flows repr dumps sc log_transitions fs =
     (let env = scenario_env dumps (sc_mrc sc) (sc_paths_per_plane sc) (sc_sid sc) (sc_transport sc)
                  (sc_trim sc) log_transitions;
          mrc = (sc_mrc sc \<noteq> None);
          daemons = daemon_calls dumps fs mrc env
      in \<lparr>rc_receivers = receiver_calls repr fs RECV_IDLE_TIMEOUT_S mrc env, rc_daemons = daemons,
          rc_senders = map (sender_call repr daemons env) fs\<rparr>)"

subsection \<open>What a run collects\<close>

record exec_result =
  er_rc :: int
  er_stdout :: string

text \<open>How a background process ended: killed after its timeout, or with a code and its output.\<close>

datatype proc_end = TimedOut | Exited int string

datatype run_failure = SenderFailed string string | DaemonFailed string | ReceiverFailed string

definition collect_sender ::
  "(string \<Rightarrow> json option) \<Rightarrow> flow_run \<times> exec_result \<Rightarrow> run_failure + json" where
  "collect_sender loads fr =
     (let failed = SenderFailed (fr_src_host (fst fr)) (fr_dst_host (fst fr)) in
      if er_rc (snd fr) \<noteq> 0 then Inl failed
      else case loads (er_stdout (snd fr)) of None \<Rightarrow> Inl failed | Some v \<Rightarrow> Inr v)"

definition collect_receiver ::
  "(string \<Rightarrow> json option) \<Rightarrow> string \<times> proc_end \<Rightarrow> run_failure + json" where
  "collect_receiver loads hp =
     (case snd hp of
        TimedOut \<Rightarrow> Inl (ReceiverFailed (fst hp))
      | Exited rc out \<Rightarrow>
          if rc \<noteq> 0 \<or> py_strip out = [] then Inl (ReceiverFailed (fst hp))
          else case loads (py_strip out) of None \<Rightarrow> Inl (ReceiverFailed (fst hp)) | Some v \<Rightarrow> Inr v)"

text \<open>
  The end of a daemon: \<open>pkill\<close> in its container, \<open>terminate\<close> on the local client (False when it raises
  an OSError), its end, and three attempts to read its report file.
\<close>

record daemon_end =
  de_kill_rc :: int
  de_terminated :: bool
  de_end :: proc_end
  de_cats :: "nat \<Rightarrow> exec_result"

definition cat_ok :: "exec_result \<Rightarrow> bool" where
  "cat_ok r \<longleftrightarrow> er_rc r = 0 \<and> py_strip (er_stdout r) \<noteq> []"

definition cat_report :: "(nat \<Rightarrow> exec_result) \<Rightarrow> exec_result" where
  "cat_report cats = (case find (\<lambda>i. cat_ok (cats i)) [0, 1, 2] of None \<Rightarrow> cats 2 | Some i \<Rightarrow> cats i)"

text \<open>The report from the file, or None; a file that holds \<open>null\<close> counts as no report.\<close>

definition file_record ::
  "(string \<Rightarrow> json option) \<Rightarrow> string \<Rightarrow> exec_result \<Rightarrow> json option \<times> run_failure list" where
  "file_record loads host cat_res =
     (if \<not> cat_ok cat_res then (None, [])
      else case loads (er_stdout cat_res) of
             None \<Rightarrow> (None, [DaemonFailed host])
           | Some v \<Rightarrow> (if v = JNull then None else Some v, []))"

definition stdout_record ::
  "(string \<Rightarrow> json option) \<Rightarrow> string \<Rightarrow> string \<Rightarrow> json option \<times> run_failure list" where
  "stdout_record loads host out =
     (if py_strip out = [] then (None, [DaemonFailed host])
      else case loads (py_strip out) of None \<Rightarrow> (None, [DaemonFailed host]) | Some v \<Rightarrow> (Some v, []))"

definition collect_daemon ::
  "(string \<Rightarrow> json option) \<Rightarrow> string \<times> daemon_end \<Rightarrow> json option \<times> run_failure list" where
  "collect_daemon loads hde =
     (let host = fst hde; de = snd hde;
          fs1 = (if de_kill_rc de \<notin> {0, 1} then [DaemonFailed host] else [])
      in if \<not> de_terminated de then (None, fs1 @ [DaemonFailed host])
         else case de_end de of
                TimedOut \<Rightarrow> (None, fs1 @ [DaemonFailed host])
              | Exited rc out \<Rightarrow>
                  (let fs2 = fs1 @ (if rc \<notin> {0, -15} then [DaemonFailed host] else []);
                       (record1, fs3) = file_record loads host (cat_report (de_cats de));
                       (record2, fs4) = (case record1 of Some v \<Rightarrow> (Some v, [])
                                                        | None \<Rightarrow> stdout_record loads host out)
                   in (record2, fs2 @ fs3 @ fs4)))"

record run_records =
  rr_senders :: "json list"
  rr_receivers :: "json list"
  rr_daemons :: "json list"
  rr_failures :: "run_failure list"

definition lefts :: "('a + 'b) list \<Rightarrow> 'a list" where
  "lefts xs = concat (map (case_sum (\<lambda>a. [a]) (\<lambda>_. [])) xs)"

definition rights :: "('a + 'b) list \<Rightarrow> 'b list" where
  "rights xs = concat (map (case_sum (\<lambda>_. []) (\<lambda>b. [b])) xs)"

definition collect_flows ::
  "(string \<Rightarrow> json option) \<Rightarrow> (flow_run \<times> exec_result) list \<Rightarrow> (string \<times> daemon_end) list \<Rightarrow>
   (string \<times> proc_end) list \<Rightarrow> run_records" where
  "collect_flows loads sends daemons recvs =
     (let ss = map (collect_sender loads) sends; ds = map (collect_daemon loads) daemons;
          rs = map (collect_receiver loads) recvs
      in \<lparr>rr_senders = rights ss, rr_receivers = rights rs,
          rr_daemons = concat (map (\<lambda>(r, _). case r of None \<Rightarrow> [] | Some v \<Rightarrow> [v]) ds),
          rr_failures = lefts ss @ lefts rs @ concat (map snd ds)\<rparr>)"

subsection \<open>The frame of a run\<close>

definition faults_for_netem :: "scenario \<Rightarrow> netem_fault list" where
  "faults_for_netem sc = map (\<lambda>f. mk_netem_fault (JStr (fa_target f)) (JStr (fa_spec f))) (sc_faults sc)"

text \<open>The fan-out of an EV-spray flow; None for the other policies.\<close>

definition ev_spray_n :: "topology \<Rightarrow> string \<Rightarrow> int option \<Rightarrow> int option" where
  "ev_spray_n tp policy_cli scenario_ppp =
     (let s = py_strip policy_cli in
      if starts_with ''ev_spray:'' s then int_of_string (drop 9 s)
      else if s = ''ev_spray''
      then Some (case scenario_ppp of Some n \<Rightarrow> n | None \<Rightarrow> spines_per_plane tp)
      else None)"

text \<open>
  The live branch of \<open>run_scenario\<close>: the flows, then the faults, then \<open>run_flows\<close> (\<open>body\<close>, on the same
  machine) and the reversal, which runs when the body raises too and whose exceptions are printed.
\<close>

definition run_scenario ::
  "topo \<Rightarrow> (json \<Rightarrow> string) \<Rightarrow> 's runner \<Rightarrow> string \<Rightarrow> (flow_run list \<Rightarrow> 's \<Rightarrow> 's \<times> 'r result) \<Rightarrow>
   scenario \<Rightarrow> 's \<Rightarrow> 's \<times> (run_error + 'r)" where
  "run_scenario g repr run clab body sc w =
     (case expand_flows repr sc of
        Inl e \<Rightarrow> (w, Inl e)
      | Inr fs \<Rightarrow>
          (case nm_apply g run False (mk_netem (faults_for_netem sc) clab) w of
             (nm, w1, Inl e) \<Rightarrow> (w1, Inl (Raised e))
           | (nm, w1, Inr _) \<Rightarrow>
               (case body fs w1 of
                  (w2, outcome) \<Rightarrow>
                    (case nm_revert run False nm w2 of
                       (_, w3, _) \<Rightarrow> (w3, case outcome of Inl e \<Rightarrow> Inl (Raised e) | Inr r \<Rightarrow> Inr r)))))"

end
