(* ===== verification/SprayCli.thy ===== *)
theory SprayCli
  imports Agent Receiver Snapshot
begin

text \<open>
  The logic of the command line of \<^verbatim>\<open>srv6_mrc/cli/spray.py\<close>: reading rates, durations and policies, the
  precedence of options over environment variables over defaults, the flows of a daemon, and the
  hooks that translate what the receiver decodes into calls of its agent. The option parser itself is
  the standard library's; printing and process control are not modelled.
\<close>

subsection \<open>Rates and durations\<close>

text \<open>
  The two regular expressions, whose \<open>$\<close> also matches before a final newline. An
  \<open>ArgumentTypeError\<close> is a ValueError here.
\<close>

definition drop_newline :: "string \<Rightarrow> string" where
  "drop_newline s = (if s \<noteq> [] \<and> of_char (last s) = (10 :: nat) then butlast s else s)"

definition spray_parse_rate :: "string \<Rightarrow> int result" where
  "spray_parse_rate s =
     (let ds = takeWhile py_digit s; rest = drop_newline (dropWhile py_digit s);
          unit = py_lower (dropWhile py_space rest)
      in if ds \<noteq> [] \<and> (rest = [] \<or> unit = ''pp'' \<or> unit = ''pps'')
         then Inr (int (dec_value 0 ds)) else Inl ValueError)"

definition spray_parse_duration :: "string \<Rightarrow> pyfloat result" where
  "spray_parse_duration text =
     (let s = py_lower (py_strip text); ds = takeWhile py_digit s; u = dropWhile py_digit s;
          fr = (if u \<noteq> [] \<and> hd u = CHR ''.'' then takeWhile py_digit (tl u) else []);
          num = (if fr = [] then ds else ds @ CHR ''.'' # fr);
          unit = (if fr = [] then u else dropWhile py_digit (tl u))
      in if s \<in> {[], ''0'', ''0s''} then Inr 0
         else if ds = [] \<or> unit \<notin> {[], ''ms'', ''s''} then Inl ValueError
         else bindE (py_float (JStr num)) (\<lambda>val. Inr (if unit = ''ms'' then fdiv val 1000 else val)))"

subsection \<open>Options, environment, defaults\<close>

text \<open>The exit code 2 is the ValueError; an environment variable that is set but empty is ignored.\<close>

definition resolve_choice :: "string list \<Rightarrow> string \<Rightarrow> string option \<Rightarrow> string option \<Rightarrow> string result" where
  "resolve_choice choices dflt env arg =
     bindE (case env of
              None \<Rightarrow> Inr dflt
            | Some v \<Rightarrow> if v = [] then Inr dflt else if v \<in> set choices then Inr v else Inl ValueError)
       (\<lambda>mode. Inr (case arg of None \<Rightarrow> mode | Some m \<Rightarrow> m))"

definition resolve_sid_mode :: "string option \<Rightarrow> string option \<Rightarrow> string result" where
  "resolve_sid_mode env arg = resolve_choice [''uA'', ''uN''] ''uA'' env arg"

definition resolve_transport :: "string option \<Rightarrow> string option \<Rightarrow> string result" where
  "resolve_transport env arg = resolve_choice [''udp'', ''rdma''] ''udp'' env arg"

definition resolve_ppp :: "string option \<Rightarrow> int option \<Rightarrow> int option result" where
  "resolve_ppp env arg =
     bindE (case env of
              None \<Rightarrow> Inr None
            | Some v \<Rightarrow> if v = [] then Inr None else bindE (py_int (JStr v)) (\<lambda>n. Inr (Some n)))
       (\<lambda>ppp. Inr (case arg of None \<Rightarrow> ppp | Some n \<Rightarrow> Some n))"

subsection \<open>Policies\<close>

text \<open>
  What \<open>parse_policy\<close> returns: a policy of \<open>policy_from_spec\<close>, the factory bound to a fresh table, or
  a snapshot reader (whose refresh thread it starts). The first load of the reader meets \<open>st\<close> and
  \<open>loaded\<close>.
\<close>

datatype sender_policy =
    Plain spray_policy
  | LiveMrc health_aware_mrc ev_table
  | SnapshotMrc mrc_snapshot

definition bind_policy ::
  "topo \<Rightarrow> topology \<Rightarrow> string \<Rightarrow> ev_state_config option \<Rightarrow> bool \<Rightarrow> spray_policy \<Rightarrow> sender_policy result" where
  "bind_policy g tp tenant ev_cfg log_transitions p =
     (case p of
        PFactory fac \<Rightarrow>
          bindE (mk_ev_table [tenant] (planes tp) (spines_per_plane tp)
                   (case ev_cfg of None \<Rightarrow> default_ev_state_config | Some c \<Rightarrow> c) log_transitions) (\<lambda>t.
          bindE (hf_bind g fac t tenant) (\<lambda>h. Inr (LiveMrc h t)))
      | _ \<Rightarrow> Inr (Plain p))"

text \<open>\<open>rest.rsplit(":", 1)\<close> when its last part is a number: the path and the fan-out.\<close>

definition snapshot_suffix :: "string \<Rightarrow> (string \<times> string) option" where
  "snapshot_suffix rest =
     (let tail = rev (takeWhile (\<lambda>c. c \<noteq> CHR '':'') (rev rest))
      in if CHR '':'' \<in> set rest \<and> py_isdigit tail
         then Some (take (length rest - length tail - 1) rest, tail) else None)"

definition snapshot_args :: "topology \<Rightarrow> int option \<Rightarrow> string \<Rightarrow> (string \<times> int) result" where
  "snapshot_args tp ppp rest =
     (case snapshot_suffix rest of
        Some (path, n) \<Rightarrow> bindE (py_int (JStr n)) (\<lambda>k. Inr (path, k))
      | None \<Rightarrow> Inr (rest, case ppp of Some n \<Rightarrow> n | None \<Rightarrow> spines_per_plane tp))"

definition parse_policy ::
  "topo \<Rightarrow> topology \<Rightarrow> string \<Rightarrow> ev_state_config option \<Rightarrow> int option \<Rightarrow> bool \<Rightarrow>
   stat_outcome \<Rightarrow> json result \<Rightarrow> nat \<Rightarrow> nat \<Rightarrow> string \<Rightarrow> sender_policy result" where
  "parse_policy g tp tenant ev_cfg ppp log_transitions st loaded id0 id1 text =
     (let s = py_strip text in
      if starts_with ''weighted:'' s
      then bindE (mapE (\<lambda>w. py_float (JStr w)) (split_on (CHR '','') (drop 9 s))) (\<lambda>ws.
           bindE (policy_from_spec g (JObj [(''weighted'', JList (map JFloat ws))]) (Some tp)) (\<lambda>p. Inr (Plain p)))
      else if starts_with ''ev_spray:'' s
      then bindE (py_int (JStr (drop 9 s))) (\<lambda>n.
           bindE (policy_from_spec g (JObj [(''ev_spray'', JInt n)]) (Some tp)) (\<lambda>p. Inr (Plain p)))
      else if starts_with ''mrc_snapshot:'' s
      then bindE (snapshot_args tp ppp (drop 13 s)) (\<lambda>(path, n).
           bindE (mk_mrc_snapshot g path tenant n (Some tp) 200 st loaded id0 id1) (\<lambda>p. Inr (SnapshotMrc p)))
      else if s = ''ev_spray'' \<and> ppp \<noteq> None
      then bindE (policy_from_spec g (JObj [(''ev_spray'', JInt (the ppp))]) (Some tp)) (\<lambda>p. Inr (Plain p))
      else bindE (policy_from_spec g (JStr s) (Some tp)) (bind_policy g tp tenant ev_cfg log_transitions))"

subsection \<open>The flows of a daemon\<close>

text \<open>
  \<open>--flows-json\<close>, or the one flow of \<open>--dst-id\<close>. A bad item, list or option is exit code 2, here a
  ValueError; \<open>loads\<close> gives None for text that is not JSON. The tenant of an item is not checked, a
  value that is not text would fail later.
\<close>

definition daemon_flow :: "json \<Rightarrow> (string \<times> int) result" where
  "daemon_flow item =
     bindE (jitem item ''tenant'') (\<lambda>t.
     bindE (bindE (jitem item ''dst_id'') py_int) (\<lambda>d.
       case t of JStr tenant \<Rightarrow> Inr (tenant, d) | _ \<Rightarrow> Inl TypeError))"

definition daemon_flows ::
  "(string \<Rightarrow> json option) \<Rightarrow> string option \<Rightarrow> int option \<Rightarrow> string \<Rightarrow> int \<Rightarrow> (string \<times> int) list result" where
  "daemon_flows loads flows_json dst_id tenant my_id =
     (if flows_json \<noteq> None \<and> flows_json \<noteq> Some []
      then case loads (the flows_json) of
             Some (JList items) \<Rightarrow>
               bindE (raise_if (items = []) ValueError) (\<lambda>_.
                 case mapE daemon_flow items of Inl e \<Rightarrow> Inl ValueError | Inr ks \<Rightarrow> Inr ks)
           | _ \<Rightarrow> Inl ValueError
      else case dst_id of
             None \<Rightarrow> Inl ValueError
           | Some d \<Rightarrow> bindE (raise_if (my_id = d) ValueError) (\<lambda>_. Inr [(tenant, d)]))"

subsection \<open>The receiver's hooks\<close>

text \<open>
  \<open>_on_packet\<close> and \<open>_on_trimmed\<close>: packets of unknown senders and of other tenants are dropped. The
  transport's answer to the NACK is \<open>outcome\<close>.
\<close>

definition agent_flow_key :: "topo \<Rightarrow> string \<Rightarrow> int \<Rightarrow> flow_key \<Rightarrow> flow_tuple option result" where
  "agent_flow_key g tenant my_id f =
     (case host_id_from_inner_addr (src_addr f) of
        None \<Rightarrow> Inr None
      | Some (sender_tenant, src_id) \<Rightarrow>
          if sender_tenant \<noteq> tenant then Inr None
          else bindE (tenant_id g sender_tenant) (\<lambda>tid. Inr (Some [tid, src_id, my_id])))"

definition on_call ::
  "topo \<Rightarrow> string \<Rightarrow> int \<Rightarrow> receiver_agent \<Rightarrow> rx_call \<Rightarrow> unit result \<Rightarrow>
   receiver_agent \<times> nack_transmission list \<times> unit result" where
  "on_call g tenant my_id a c outcome =
     (case c of
        OnPacket f plane path sq \<Rightarrow>
          (case agent_flow_key g tenant my_id f of
             Inl e \<Rightarrow> (a, [], Inl e)
           | Inr None \<Rightarrow> (a, [], Inr ())
           | Inr (Some k) \<Rightarrow>
               (case record_data a k plane path sq of Inl e \<Rightarrow> (a, [], Inl e) | Inr a' \<Rightarrow> (a', [], Inr ())))
      | OnTrimmed f plane path sq \<Rightarrow>
          (case agent_flow_key g tenant my_id f of
             Inl e \<Rightarrow> (a, [], Inl e)
           | Inr None \<Rightarrow> (a, [], Inr ())
           | Inr (Some k) \<Rightarrow> ra_record_trimmed a k plane path sq outcome))"

end
