(* ===== verification/RunProperties.thy ===== *)
theory RunProperties
  imports RunPlan SprayCli DaemonProperties ScenarioProperties NetemProperties
begin

text \<open>
  What the runner writes on a command line or into an environment is what the process reads: policies,
  rates, settings; every sender that follows a daemon reads the file its daemon publishes; every process
  leaves a record or a failure; and a run leaves the interfaces of the hosts as it found them.
\<close>

subsection \<open>Numbers on the command line\<close>

lemma dec_value_map:
  "\<forall>d \<in> set ds. d < 10 \<Longrightarrow> dec_value a (map ((!) digit_chars) ds) = foldl (\<lambda>a d. a * 10 + d) a ds"
  by (induction ds arbitrary: a) (auto simp: digit_char_dec)

lemma dec_value_dec_str [simp]: "dec_value 0 (dec_str n) = n"
  using dec_value_map [of "digits 10 n" 0] digits_less [of 10 _ n] digits_value [of 10 n]
  by (simp add: dec_str_def)

lemma dec_str_digits [simp]: "list_all py_digit (dec_str n)" "dec_str n \<noteq> []"
  using decimal_chars(2) [OF decimal_dec_str] decimal_ends(1) [OF decimal_dec_str] by (auto simp: list_all_iff)

text \<open>\<open>float(str(k))\<close> is \<open>float(k)\<close>.\<close>

lemma float_of_int_str: "float_of_string (int_str k) = Some (float_of_int k)"
proof (cases "k < 0")
  case False
  then show ?thesis
    using float_of_numeral(1) [OF dec_str_digits, of "nat k"] by (simp add: int_str_def float_of_int_def)
next
  case True
  let ?ds = "dec_str (nat (- k))"
  have sp: "\<forall>c \<in> set (CHR ''-'' # ?ds). \<not> py_space c"
    using decimal_chars(1) [OF decimal_dec_str] by (auto simp: py_space_def)
  have tw: "takeWhile py_digit ?ds = ?ds" "dropWhile py_digit ?ds = []"
    using takeWhile_digits [OF dec_str_digits(1), where r = "[]"] dropWhile_digits [OF dec_str_digits(1), where r = "[]"]
    by simp_all
  have "rat_of_nat (nat (- k)) = - of_int k" using True by (simp add: of_nat_nat)
  then show ?thesis
    using True dec_str_digits(2) [of "nat (- k)"] unfolding float_of_string_def
    by (simp add: int_str_def py_strip_id [OF sp] tw exponent_of_string_def Let_def float_of_int_def)
qed

lemma rate_text_read: "0 \<le> k \<Longrightarrow> spray_parse_rate (int_str k @ ''pps'') = Inr k"
proof -
  assume k: "0 \<le> k"
  have c: "drop_newline ''pps'' = ''pps''" "dropWhile py_space ''pps'' = ''pps''" "py_lower ''pps'' = ''pps''"
    "takeWhile py_digit ''pps'' = []" "dropWhile py_digit ''pps'' = ''pps''" by code_simp+
  show ?thesis
    using k takeWhile_digits [OF dec_str_digits(1), of "nat k" "''pps''"]
      dropWhile_digits [OF dec_str_digits(1), of "nat k" "''pps''"]
    by (simp add: spray_parse_rate_def int_str_def c Let_def del: takeWhile.simps dropWhile.simps)
qed

text \<open>A duration that Python writes with an exponent is not read back.\<close>

lemma tiny_duration_rejected:
  "parse_duration (JFloat (1 / 20000)) ''$'' = Inr (1 / 20000)" "spray_parse_duration ''5e-05s'' = Inl ValueError"
  by code_simp+

subsection \<open>Policies\<close>

text \<open>The text of a weight reads back as the weight; for a float this is Python's \<open>repr\<close>.\<close>

definition num_chars :: string where "num_chars = ''0123456789.e+-''"

fun weight_text :: "(json \<Rightarrow> string) \<Rightarrow> json \<Rightarrow> bool" where
  "weight_text repr (JInt k) = True"
| "weight_text repr (JFloat x) \<longleftrightarrow>
     float_of_string (repr (JFloat x)) = Some x \<and> set (repr (JFloat x)) \<subseteq> set num_chars"
| "weight_text repr _ = False"

lemma num_chars_plain: "c \<in> set num_chars \<Longrightarrow> \<not> py_space c \<and> c \<noteq> CHR '',''"
proof -
  have "\<forall>c \<in> set num_chars. \<not> py_space c \<and> c \<noteq> CHR '',''" by code_simp
  then show "c \<in> set num_chars \<Longrightarrow> \<not> py_space c \<and> c \<noteq> CHR '',''" by blast
qed

lemma int_str_chars: "set (int_str k) \<subseteq> set num_chars"
proof -
  have "\<forall>d \<in> set [0..<10]. digit_chars ! d \<in> set num_chars" "CHR ''-'' \<in> set num_chars" by code_simp+
  then show ?thesis using digits_less [of 10] by (auto simp: int_str_def dec_str_def)
qed

lemma weight_text_read:
  assumes "weight_text repr w"
  shows "py_float (JStr (py_str repr w)) = py_float w" "set (py_str repr w) \<subseteq> set num_chars"
  using assms int_str_chars by (cases w; simp add: float_of_int_str)+

lemma mapE_image: "mapE f xs = Inr ys \<Longrightarrow> x \<in> set xs \<Longrightarrow> \<exists>y \<in> set ys. f x = Inr y"
  by (induction xs arbitrary: ys) (auto simp: bindE_Inr_iff)

lemma mapE_cong_map: "(\<And>x. x \<in> set xs \<Longrightarrow> f (h x) = k x) \<Longrightarrow> mapE f (map h xs) = mapE k xs"
  by (induction xs) simp_all

lemma mapE_floats [simp]: "mapE py_float (map JFloat ws) = Inr ws"
  by (induction ws) simp_all

lemma set_join_with: "set (join_with c ss) \<subseteq> insert c (\<Union> (set ` set ss))"
  by (induction c ss rule: join_with.induct) auto

text \<open>
  What the sender builds from the text of a policy that the validator builds from the scenario, for
  either setting of the fan-out.
\<close>

definition weights_read :: "(json \<Rightarrow> string) \<Rightarrow> json \<Rightarrow> bool" where
  "weights_read repr spec \<longleftrightarrow>
     (\<forall>v ws. spec = JObj [(''weighted'', v)] \<longrightarrow> py_iter v = Inr ws \<longrightarrow> (\<forall>w \<in> set ws. weight_text repr w))"

lemma parse_policy_text:
  assumes "policy_from_spec g spec (Some tp) = Inr p" and "policy_to_cli repr spec = Inr text"
    and "weights_read repr spec"
  shows "parse_policy g tp tenant ev_cfg ppp logging st loaded id0 id1 text =
    (if spec = JStr ''ev_spray'' \<and> ppp \<noteq> None
     then bindE (policy_from_spec g (JObj [(''ev_spray'', JInt (the ppp))]) (Some tp)) (\<lambda>q. Inr (Plain q))
     else bind_policy g tp tenant ev_cfg logging p)"
proof -
  consider (name) s where "spec = JStr s" | (weighted) v where "spec = JObj [(''weighted'', v)]"
    | (ev_spray) v where "spec = JObj [(''ev_spray'', v)]"
    using assms(2) by (auto simp: policy_to_cli_def split: json.splits list.splits prod.splits if_splits)
  then show ?thesis
  proof cases
    case name
    then have t: "text = s" "s \<in> {''round_robin'', ''hash5tuple'', ''ev_spray'', ''health_aware_mrc''}"
      using assms(1,2) by (auto simp: policy_from_spec_def policy_to_cli_def split: if_splits)
    have all: "\<forall>s \<in> {''round_robin'', ''hash5tuple'', ''ev_spray'', ''health_aware_mrc''}.
        py_strip s = s \<and> \<not> starts_with ''weighted:'' s \<and> \<not> starts_with ''ev_spray:'' s
        \<and> \<not> starts_with ''mrc_snapshot:'' s" by code_simp
    show ?thesis using bspec [OF all t(2)] assms(1) name t(1) by (cases ppp) (simp_all add: parse_policy_def Let_def)
  next
    case weighted
    obtain ws where ws: "py_iter v = Inr ws" using weighted assms(2) by (auto simp: policy_to_cli_def bindE_Inr_iff)
    have wt: "weight_text repr w" if "w \<in> set ws" for w using assms(3) weighted ws that by (simp add: weights_read_def)
    obtain xs where xs: "mapE py_float ws = Inr xs" "bindE (mk_weighted g xs (Some tp)) (\<lambda>p. Inr (PWeighted p)) = Inr p"
      using assms(1) weighted ws by (auto simp: policy_from_spec_def bindE_Inr_iff)
    have "xs \<noteq> []" using xs(2) by (auto simp: mk_weighted_def fsum_def bindE_Inr_iff split: if_splits)
    then have ne: "ws \<noteq> []" using xs(1) by auto
    let ?ts = "map (py_str repr) ws"
    have tx: "text = ''weighted:'' @ join_with (CHR '','') ?ts"
      using assms(2) weighted ws by (simp add: policy_to_cli_def)
    have nc: "set t \<subseteq> set num_chars" if "t \<in> set ?ts" for t using that weight_text_read(2) [OF wt] by auto
    have plain: "\<forall>c \<in> set ''weighted:''. \<not> py_space c" "\<not> py_space (CHR '','')" by code_simp+
    have "\<not> py_space c" if "c \<in> set (join_with (CHR '','') ?ts)" for c
      using that set_join_with [of "CHR '',''" ?ts] nc num_chars_plain plain(2) by blast
    then have "\<forall>c \<in> set text. \<not> py_space c" using plain(1) unfolding tx set_append by blast
    then have s: "py_strip text = text" by (rule py_strip_id)
    have "\<forall>t \<in> set ?ts. CHR '','' \<notin> set t" using nc num_chars_plain by blast
    then have split: "split_on (CHR '','') (join_with (CHR '','') ?ts) = ?ts" using ne by (intro split_join) simp_all
    have "mapE (\<lambda>t. py_float (JStr t)) ?ts = Inr xs"
      using mapE_cong_map [of ws "\<lambda>t. py_float (JStr t)" "py_str repr" py_float] weight_text_read(1) [OF wt] xs(1)
      by simp
    moreover have "policy_from_spec g (JObj [(''weighted'', JList (map JFloat xs))]) (Some tp) = Inr p"
      using xs(2) by (simp add: policy_from_spec_def)
    moreover have "p = PWeighted q" if "mk_weighted g xs (Some tp) = Inr q" for q using that xs(2) by simp
    then have "bind_policy g tp tenant ev_cfg logging p = Inr (Plain p)"
      using xs(2) by (auto simp: bind_policy_def bindE_Inr_iff)
    moreover have "starts_with ''weighted:'' text" "drop 9 text = join_with (CHR '','') ?ts"
      by (simp_all add: tx starts_with_def)
    ultimately show ?thesis using weighted by (simp add: parse_policy_def s split)
  next
    case ev_spray
    then obtain n where n: "py_int v = Inr n" "text = ''ev_spray:'' @ int_str n"
      using assms(2) by (auto simp: policy_to_cli_def bindE_Inr_iff)
    have "\<forall>c \<in> set ''ev_spray:''. \<not> py_space c" by code_simp
    then have "\<forall>c \<in> set text. \<not> py_space c"
      using int_str_chars [of n] num_chars_plain unfolding n(2) set_append by blast
    then have s: "py_strip text = text" by (rule py_strip_id)
    have w: "\<not> starts_with ''weighted:'' text" by (simp add: n(2) starts_with_def)
    obtain q where "mk_ev_spray g n (Some tp) = Inr q" "p = PEvSpray q"
      using assms(1) ev_spray n(1) by (auto simp: policy_from_spec_def bindE_Inr_iff)
    moreover have "starts_with ''ev_spray:'' text" "drop 9 text = int_str n" by (simp_all add: n(2) starts_with_def)
    ultimately show ?thesis using ev_spray by (simp add: parse_policy_def s w policy_from_spec_def bind_policy_def)
  qed
qed

subsection \<open>Daemons and their readers\<close>

text \<open>The groups of \<open>select_mrc_daemon_flows\<close> are the flows of each host that need a daemon.\<close>

lemma select_groups:
  "dict_ok (select_mrc_daemon_flows fs) \<and>
   dict_get (select_mrc_daemon_flows fs) h =
     (let grp = filter (\<lambda>f. flow_uses_mrc f \<and> fr_src_host f = h) fs in if grp = [] then None else Some grp)"
proof (induction fs rule: rev_induct)
  case (snoc f fs)
  have s: "select_mrc_daemon_flows (fs @ [f]) =
      (let d = select_mrc_daemon_flows fs in
       if \<not> flow_uses_mrc f then d
       else dict_put (fr_src_host f) ((case dict_get d (fr_src_host f) of None \<Rightarrow> [] | Some grp \<Rightarrow> grp) @ [f]) d)"
    by (simp add: select_mrc_daemon_flows_def Let_def)
  show ?case
    using snoc.IH [THEN conjunct1] snoc.IH [THEN conjunct2] unfolding s Let_def by (auto split: if_splits)
qed (simp add: select_mrc_daemon_flows_def dict_ok_def)

lemma select_mem:
  "(h, grp) \<in> set (select_mrc_daemon_flows fs) \<longleftrightarrow>
   grp = filter (\<lambda>f. flow_uses_mrc f \<and> fr_src_host f = h) fs \<and> grp \<noteq> []"
  using select_groups [of fs h] dict_get_iff_mem [of "select_mrc_daemon_flows fs" h grp]
  by (auto simp: Let_def split: if_splits)

text \<open>A host name determines the tenant and the number.\<close>

lemma host_name_inj:
  assumes "0 \<le> i" "0 \<le> j" "host_name s i = host_name t j"
  shows "s = t \<and> i = j"
proof -
  have d: "decimal (dec_pad2 k)" if "0 \<le> k" for k
    using that decimal_zpad [OF decimal_dec_str] by (simp add: dec_pad2_def)
  have "\<not> py_digit (CHR ''t'')" by code_simp
  moreover have "list_all py_digit (rev (dec_pad2 k))" if "0 \<le> k" for k
    using decimal_chars(2) [OF d [OF that]] by (simp add: list_all_iff)
  ultimately have "takeWhile py_digit (rev (host_name u k)) = rev (dec_pad2 k)" if "0 \<le> k" for u k
    using that by (simp add: host_name_def takeWhile_digits)
  then have e: "dec_pad2 i = dec_pad2 j" using assms by (metis rev_rev_ident)
  then show ?thesis using assms dec_pad2_inj by (simp add: host_name_def)
qed

lemma daemon_flow_of: "daemon_flow (JObj [(''tenant'', JStr t), (''dst_id'', JInt k)]) = Inr (t, k)"
  by (simp add: daemon_flow_def)

lemma daemon_flows_of:
  assumes "loads text = Some (flows_json grp)" "text \<noteq> []" "grp \<noteq> []"
  shows "daemon_flows loads (Some text) dst tenant my = Inr (map (\<lambda>f. (fr_tenant f, fr_dst_id f)) grp)"
proof -
  have "mapE daemon_flow (map (\<lambda>f. JObj [(''tenant'', JStr (fr_tenant f)), (''dst_id'', JInt (fr_dst_id f))]) fs) =
      Inr (map (\<lambda>f. (fr_tenant f, fr_dst_id f)) fs)" for fs :: "flow_run list"
    by (induction fs) (simp_all add: daemon_flow_of)
  then show ?thesis using assms by (simp add: daemon_flows_def flows_json_def raise_if_def)
qed

lemma daemon_snapshot_path:
  assumes "mk_mrc_daemon g host src_id ks conf ev_cfg MRC_SNAPSHOT_BASE clock = Inr d"
  shows "snapshot_path d (t, n) = snapshot_path_for_flow host t n"
  using assms
  by (auto simp: mk_mrc_daemon_def snapshot_path_def snapshot_name_def snapshot_path_for_flow_def bindE_Inr_iff split: if_splits)

lemma parse_snapshot_policy:
  "parse_policy g tp tenant ev_cfg ppp logging st loaded id0 id1
     (''mrc_snapshot:'' @ snapshot_path_for_flow host t n) =
   bindE (mk_mrc_snapshot g (snapshot_path_for_flow host t n) tenant
            (case ppp of Some k \<Rightarrow> k | None \<Rightarrow> spines_per_plane tp) (Some tp) 200 st loaded id0 id1)
     (\<lambda>p. Inr (SnapshotMrc p))"
proof -
  define path where "path = snapshot_path_for_flow host t n"
  obtain r where r: "path = r @ ''.json''" by (auto simp: path_def snapshot_path_for_flow_def)
  have c: "\<not> py_space (CHR ''n'')" "\<not> py_space (CHR ''m'')" "\<not> py_isdigit (x @ ''n'')" for x
  proof -
    show "\<not> py_space (CHR ''n'')" "\<not> py_space (CHR ''m'')" by code_simp+
    have "\<not> (py_digit (CHR ''n'') \<or> (of_char (CHR ''n'') :: nat) \<in> {178, 179, 185})" by code_simp
    then show "\<not> py_isdigit (x @ ''n'')" by (simp add: py_isdigit_def)
  qed
  have s: "py_strip (''mrc_snapshot:'' @ path) = ''mrc_snapshot:'' @ path" by (simp add: r py_strip_def c)
  have "\<exists>x. rev (takeWhile (\<lambda>c. c \<noteq> CHR '':'') (rev path)) = x @ ''n''" by (simp add: r)
  then have "snapshot_suffix path = None" using c(3) by (auto simp: snapshot_suffix_def Let_def)
  moreover have "\<not> starts_with ''weighted:'' (''mrc_snapshot:'' @ path)" "\<not> starts_with ''ev_spray:'' (''mrc_snapshot:'' @ path)"
    by (simp_all add: starts_with_def)
  ultimately have "parse_policy g tp tenant ev_cfg ppp logging st loaded id0 id1 (''mrc_snapshot:'' @ path) =
      bindE (mk_mrc_snapshot g path tenant (case ppp of Some k \<Rightarrow> k | None \<Rightarrow> spines_per_plane tp) (Some tp) 200
               st loaded id0 id1) (\<lambda>p. Inr (SnapshotMrc p))"
    unfolding parse_policy_def s snapshot_args_def by (simp add: starts_with_def Let_def)
  then show ?thesis by (simp only: path_def)
qed

lemma expanded_flow:
  assumes "expand_flows repr sc = Inr fs" "f \<in> set fs"
  shows "\<exists>fl p cli. fl \<in> set (sc_flows sc) \<and> p \<in> set (fl_pairs fl) \<and> policy_to_cli repr (fl_policy_spec fl) = Inr cli
    \<and> f = flow_run_of fl cli p"
proof -
  obtain fss where fss: "mapE (expand_flow repr) (sc_flows sc) = Inr fss" "fs = concat fss"
    using assms(1) by (auto simp: expand_flows_def bindE_Inr_iff)
  then obtain grp where grp: "grp \<in> set fss" "f \<in> set grp" using assms(2) by auto
  then obtain fl where "fl \<in> set (sc_flows sc)" "expand_flow repr fl = Inr grp" using mapE_mem [OF fss(1)] by blast
  moreover obtain cli where "policy_to_cli repr (fl_policy_spec fl) = Inr cli" "grp = map (flow_run_of fl cli) (fl_pairs fl)"
    using calculation(2) by (auto simp: expand_flow_def split: sum.splits)
  ultimately show ?thesis using grp(2) by auto
qed

lemma expanded_host:
  "expand_flows repr sc = Inr fs \<Longrightarrow> f \<in> set fs \<Longrightarrow> fr_src_host f = host_name (fr_tenant f) (fr_src_id f)"
  using expanded_flow [of repr sc fs f] by (auto simp: flow_run_of_def src_host_def)

lemma uses_mrc_iff:
  assumes "policy_to_cli repr spec = Inr text"
  shows "text = ''health_aware_mrc'' \<longleftrightarrow> spec = JStr ''health_aware_mrc''"
  using assms
  by (auto simp: policy_to_cli_def bindE_Inr_iff split: json.splits list.splits prod.splits if_splits)

text \<open>
  C22. The policy of a flow as its sender builds it. For every flow the runner starts, the sender runs
  in the flow's source container and its \<open>--policy\<close> option, read with the fan-out \<open>ppp\<close> in force,
  builds: with an mrc block in the scenario, for \<open>health_aware_mrc\<close> the snapshot policy on the
  daemon's file, over \<open>ppp\<close> spines or all of them; for the bare \<open>ev_spray\<close> with a fan-out set, the
  EV spray over that many; in every other case the very policy the validator built from the scenario
  or, when that is a factory, the factory bound to a table of the sender. The weights of a \<open>weighted\<close>
  policy are numbers whose text \<open>float()\<close> reads back, which truth values are not.
\<close>

theorem policy_cli_builds:
  assumes "expand_flows repr sc = Inr fs" and "fl \<in> set (sc_flows sc)" and "pr \<in> set (fl_pairs fl)"
    and "policy_from_spec g (fl_policy_spec fl) (Some tp) = Inr p" and "weights_read repr (fl_policy_spec fl)"
  shows "\<exists>c \<in> set (rc_senders (start_flows repr dumps sc log_env fs)). \<exists>cli opt.
    policy_to_cli repr (fl_policy_spec fl) = Inr cli
    \<and> ec_container c = src_host pr \<and> ec_argv c = send_argv repr (flow_run_of fl cli pr) (Some opt)
    \<and> parse_policy g tp tenant ev_cfg ppp logging st loaded id0 id1 opt =
      (if sc_mrc sc \<noteq> None \<and> fl_policy_spec fl = JStr ''health_aware_mrc''
       then bindE (mk_mrc_snapshot g (snapshot_path_for_flow (src_host pr) (fp_tenant pr) (fp_dst pr)) tenant
                     (case ppp of Some k \<Rightarrow> k | None \<Rightarrow> spines_per_plane tp) (Some tp) 200 st loaded id0 id1)
              (\<lambda>q. Inr (SnapshotMrc q))
       else if fl_policy_spec fl = JStr ''ev_spray'' \<and> ppp \<noteq> None
       then bindE (policy_from_spec g (JObj [(''ev_spray'', JInt (the ppp))]) (Some tp)) (\<lambda>q. Inr (Plain q))
       else bind_policy g tp tenant ev_cfg logging p)"
proof -
  obtain fss where fss: "mapE (expand_flow repr) (sc_flows sc) = Inr fss" "fs = concat fss"
    using assms(1) by (auto simp: expand_flows_def bindE_Inr_iff)
  obtain cli where cli: "policy_to_cli repr (fl_policy_spec fl) = Inr cli" and f: "flow_run_of fl cli pr \<in> set fs"
    using mapE_image [OF fss(1) assms(2)] assms(3) fss(2)
    by (fastforce simp: expand_flow_def split: sum.splits)
  let ?f = "flow_run_of fl cli pr"
  define env where "env = scenario_env dumps (sc_mrc sc) (sc_paths_per_plane sc) (sc_sid sc) (sc_transport sc)
    (sc_trim sc) log_env"
  define ds where "ds = daemon_calls dumps fs (sc_mrc sc \<noteq> None) env"
  define opt where "opt = (if ds \<noteq> [] then translate_policy_for_daemon ?f else cli)"
  let ?c = "sender_call repr ds env ?f"
  have mem: "?c \<in> set (rc_senders (start_flows repr dumps sc log_env fs))"
    using f by (simp add: start_flows_def Let_def env_def ds_def)
  have call: "ec_container ?c = src_host pr" "ec_argv ?c = send_argv repr ?f (Some opt)"
    by (simp_all add: sender_call_def opt_def send_argv_def flow_run_of_def)
  note built = parse_policy_text [OF assms(4) cli assms(5), of tenant ev_cfg ppp logging st loaded id0 id1]
  have uses: "flow_uses_mrc ?f \<longleftrightarrow> fl_policy_spec fl = JStr ''health_aware_mrc''"
    using uses_mrc_iff [OF cli] by (simp add: flow_uses_mrc_def flow_run_of_def)
  have "parse_policy g tp tenant ev_cfg ppp logging st loaded id0 id1 opt =
      (if sc_mrc sc \<noteq> None \<and> fl_policy_spec fl = JStr ''health_aware_mrc''
       then bindE (mk_mrc_snapshot g (snapshot_path_for_flow (src_host pr) (fp_tenant pr) (fp_dst pr)) tenant
                     (case ppp of Some k \<Rightarrow> k | None \<Rightarrow> spines_per_plane tp) (Some tp) 200 st loaded id0 id1)
              (\<lambda>q. Inr (SnapshotMrc q))
       else if fl_policy_spec fl = JStr ''ev_spray'' \<and> ppp \<noteq> None
       then bindE (policy_from_spec g (JObj [(''ev_spray'', JInt (the ppp))]) (Some tp)) (\<lambda>q. Inr (Plain q))
       else bind_policy g tp tenant ev_cfg logging p)"
  proof (cases "sc_mrc sc \<noteq> None \<and> fl_policy_spec fl = JStr ''health_aware_mrc''")
    case True
    then have m: "flow_uses_mrc ?f" using uses by simp
    have "filter (\<lambda>e. flow_uses_mrc e \<and> fr_src_host e = fr_src_host ?f) fs \<noteq> []"
      using f m by (auto simp: filter_empty_conv)
    then have "select_mrc_daemon_flows fs \<noteq> []"
      using select_mem [of "fr_src_host ?f" "filter (\<lambda>e. flow_uses_mrc e \<and> fr_src_host e = fr_src_host ?f) fs" fs]
      by auto
    then have "ds \<noteq> []" using True by (simp add: ds_def daemon_calls_def)
    then have "opt = ''mrc_snapshot:'' @ snapshot_path_for_flow (src_host pr) (fp_tenant pr) (fp_dst pr)"
      using m by (simp add: opt_def translate_policy_for_daemon_def flow_run_of_def)
    then show ?thesis unfolding if_P [OF True] by (simp only: parse_snapshot_policy)
  next
    case False
    then have "opt = cli"
      using uses by (auto simp: opt_def ds_def daemon_calls_def translate_policy_for_daemon_def flow_run_of_def)
    then show ?thesis unfolding if_not_P [OF False] by (simp only: built)
  qed
  then show ?thesis using mem cli call by blast
qed

text \<open>
  C11. A run wires its senders to its daemons. When the scenario has an mrc block, each host with a flow of
  the health-aware policy gets one daemon; the daemon reads from its command line all the flows of
  that host, which are of one tenant; and the sender of such a flow, in the same container, is told to
  follow the very file in which that daemon publishes the table of the flow, and builds a snapshot
  policy on it.
\<close>

theorem runner_wires_daemons:
  assumes "expand_flows repr sc = Inr fs" "sc_mrc sc \<noteq> None" "f \<in> set fs" "flow_uses_mrc f"
    and "\<And>e. e \<in> set fs \<Longrightarrow> 0 \<le> fr_src_id e"
    and "\<And>h grp. (h, grp) \<in> set (select_mrc_daemon_flows fs) \<Longrightarrow>
      dumps (flows_json grp) \<noteq> [] \<and> loads (dumps (flows_json grp)) = Some (flows_json grp)"
    and "calls = start_flows repr dumps sc log_env fs"
  shows "distinct (map ec_container (rc_daemons calls)) \<and>
    (\<exists>grp ks. (\<exists>c \<in> set (rc_daemons calls). ec_container c = fr_src_host f \<and> ec_argv c = daemon_argv dumps grp)
      \<and> daemon_flows loads (Some (dumps (flows_json grp))) None host_tenant my_id = Inr ks
      \<and> (fr_tenant f, fr_dst_id f) \<in> set ks \<and> fst ` set ks = {fr_tenant f}) \<and>
    (\<forall>src_id ks conf ev_cfg clock d.
       mk_mrc_daemon g (fr_src_host f) src_id ks conf ev_cfg MRC_SNAPSHOT_BASE clock = Inr d \<longrightarrow>
       (let path = snapshot_path d (fr_tenant f, fr_dst_id f) in
        (\<exists>c \<in> set (rc_senders calls). ec_container c = fr_src_host f
           \<and> ec_argv c = send_argv repr f (Some (''mrc_snapshot:'' @ path)))
        \<and> parse_policy g tp (fr_tenant f) ev_cfg ppp logging st loaded id0 id1 (''mrc_snapshot:'' @ path) =
          bindE (mk_mrc_snapshot g path (fr_tenant f) (case ppp of Some k \<Rightarrow> k | None \<Rightarrow> spines_per_plane tp) (Some tp)
                   200 st loaded id0 id1) (\<lambda>p. Inr (SnapshotMrc p))))"
proof -
  let ?d = "select_mrc_daemon_flows fs"
  define grp where "grp = filter (\<lambda>e. flow_uses_mrc e \<and> fr_src_host e = fr_src_host f) fs"
  define env where "env = scenario_env dumps (sc_mrc sc) (sc_paths_per_plane sc) (sc_sid sc) (sc_transport sc)
    (sc_trim sc) log_env"
  have daemons: "rc_daemons calls =
      map (\<lambda>(host, grp). \<lparr>ec_container = host, ec_argv = daemon_argv dumps grp, ec_env = env\<rparr>) ?d"
    using assms(2) by (simp add: assms(7) start_flows_def daemon_calls_def env_def Let_def)
  have f: "f \<in> set grp" using assms(3,4) by (simp add: grp_def)
  then have mem: "(fr_src_host f, grp) \<in> set ?d" unfolding select_mem by (auto simp: grp_def filter_empty_conv)
  have "map ec_container (rc_daemons calls) = map fst ?d" by (simp add: daemons case_prod_beta comp_def)
  then have one: "distinct (map ec_container (rc_daemons calls))" using select_groups [of fs] by (simp add: dict_ok_def)
  have call: "\<exists>c \<in> set (rc_daemons calls). ec_container c = fr_src_host f \<and> ec_argv c = daemon_argv dumps grp"
    using mem unfolding daemons by force
  define ks where "ks = map (\<lambda>e. (fr_tenant e, fr_dst_id e)) grp"
  have ks: "daemon_flows loads (Some (dumps (flows_json grp))) None host_tenant my_id = Inr ks"
    using assms(6) [OF mem] f unfolding ks_def by (intro daemon_flows_of) auto
  have tenant: "fr_tenant e = fr_tenant f" if "e \<in> set grp" for e
  proof -
    have e: "e \<in> set fs" "fr_src_host e = fr_src_host f" using that by (auto simp: grp_def)
    then show ?thesis
      using host_name_inj [OF assms(5) [OF e(1)] assms(5) [OF assms(3)]] expanded_host [OF assms(1)] assms(3) by metis
  qed
  have mem_ks: "(fr_tenant f, fr_dst_id f) \<in> set ks" using f unfolding ks_def by simp
  then have one_tenant: "fst ` set ks = {fr_tenant f}" using tenant unfolding ks_def by (force simp: image_iff)
  have "rc_daemons calls \<noteq> []" using mem unfolding daemons by auto
  then have sender: "\<exists>c \<in> set (rc_senders calls). ec_container c = fr_src_host f \<and> ec_argv c = send_argv repr f
      (Some (''mrc_snapshot:'' @ snapshot_path_for_flow (fr_src_host f) (fr_tenant f) (fr_dst_id f)))"
    using assms(3,4) by (force simp: assms(7) start_flows_def sender_call_def translate_policy_for_daemon_def Let_def)
  show ?thesis
  proof (intro conjI allI impI one)
    show "\<exists>grp ks. (\<exists>c \<in> set (rc_daemons calls). ec_container c = fr_src_host f \<and> ec_argv c = daemon_argv dumps grp)
      \<and> daemon_flows loads (Some (dumps (flows_json grp))) None host_tenant my_id = Inr ks
      \<and> (fr_tenant f, fr_dst_id f) \<in> set ks \<and> fst ` set ks = {fr_tenant f}"
      using call ks mem_ks one_tenant by blast
  next
    fix src_id ks conf ev_cfg clock d
    assume "mk_mrc_daemon g (fr_src_host f) src_id ks conf ev_cfg MRC_SNAPSHOT_BASE clock = Inr d"
    then show "let path = snapshot_path d (fr_tenant f, fr_dst_id f) in
        (\<exists>c \<in> set (rc_senders calls). ec_container c = fr_src_host f
           \<and> ec_argv c = send_argv repr f (Some (''mrc_snapshot:'' @ path)))
        \<and> parse_policy g tp (fr_tenant f) ev_cfg ppp logging st loaded id0 id1 (''mrc_snapshot:'' @ path) =
          bindE (mk_mrc_snapshot g path (fr_tenant f) (case ppp of Some k \<Rightarrow> k | None \<Rightarrow> spines_per_plane tp) (Some tp)
                   200 st loaded id0 id1) (\<lambda>p. Inr (SnapshotMrc p))"
      unfolding Let_def by (simp only: daemon_snapshot_path sender parse_snapshot_policy simp_thms)
  qed
qed

text \<open>A scenario of two hosts, whose one flow follows the daemon.\<close>

definition run_pair :: flow_pair where "run_pair = flow_pair_of ''green'' 0 1"

definition run_demo :: scenario where
  "run_demo =
     \<lparr>sc_name = ''demo'', sc_description = [],
      sc_flows = [\<lparr>fl_pairs = [run_pair], fl_policy_spec = JStr ''health_aware_mrc'', fl_rate_pps = 100,
                   fl_duration_s = 1, fl_policy_label = ''health_aware_mrc''\<rparr>],
      sc_faults = [\<lparr>fa_kind = ''netem'', fa_target = ''plane 1'', fa_spec = ''blackhole''\<rparr>],
      sc_report_out = None, sc_mrc = Some empty_mrc_spec, sc_paths_per_plane = None, sc_sid = None,
      sc_transport = None, sc_trim = None\<rparr>"

definition run_demo_flow :: flow_run where
  "run_demo_flow = flow_run_of (hd (sc_flows run_demo)) ''health_aware_mrc'' run_pair"

lemma run_demo_expands: "expand_flows (\<lambda>_. []) run_demo = Inr [run_demo_flow]"
  by (simp add: expand_flows_def expand_flow_def run_demo_def run_demo_flow_def policy_to_cli_def)

theorem runner_wires_daemons_witness:
  "distinct (map ec_container (rc_daemons (start_flows (\<lambda>_. []) (\<lambda>_. ''flows'') run_demo None [run_demo_flow])))"
proof -
  have uses: "flow_uses_mrc run_demo_flow" by (simp add: flow_uses_mrc_def run_demo_flow_def flow_run_of_def)
  have src: "0 \<le> fr_src_id run_demo_flow"
    by (simp add: run_demo_flow_def flow_run_of_def run_pair_def flow_pair_of_def)
  have grps: "''flows'' \<noteq> [] \<and> Some (flows_json [run_demo_flow]) = Some (flows_json grp)"
    if "(h, grp) \<in> set (select_mrc_daemon_flows [run_demo_flow])" for h grp
    using that by (auto simp: select_mem split: if_splits)
  show ?thesis
    by (rule runner_wires_daemons [OF run_demo_expands _ _ uses _ _ refl, where dumps = "\<lambda>_. ''flows''"
          and loads = "\<lambda>_. Some (flows_json [run_demo_flow])", THEN conjunct1])
      (use src grps in \<open>auto simp: run_demo_def\<close>)
qed

text \<open>The demo scenario has an mrc block, so its sender follows the daemon's file.\<close>

theorem policy_cli_builds_witness:
  "\<exists>c \<in> set (rc_senders (start_flows (\<lambda>_. []) (\<lambda>_. ''flows'') run_demo None [run_demo_flow])). \<exists>opt.
    ec_container c = ''green-host00''
    \<and> parse_policy small_lab small_lab_topology ''green'' None (Some 1) False StatMissing (Inl OSError) 0 1 opt =
      bindE (mk_mrc_snapshot small_lab (snapshot_path_for_flow ''green-host00'' ''green'' (fp_dst run_pair)) ''green''
               1 (Some small_lab_topology) 200 StatMissing (Inl OSError) 0 1) (\<lambda>q. Inr (SnapshotMrc q))"
proof -
  let ?fl = "hd (sc_flows run_demo)"
  have m: "?fl \<in> set (sc_flows run_demo)" "run_pair \<in> set (fl_pairs ?fl)" "sc_mrc run_demo \<noteq> None"
    "fl_policy_spec ?fl = JStr ''health_aware_mrc''" by (simp_all add: run_demo_def)
  have v: "\<not> isl (policy_from_spec small_lab (fl_policy_spec ?fl) (Some small_lab_topology))" by code_simp
  then obtain p where p: "policy_from_spec small_lab (fl_policy_spec ?fl) (Some small_lab_topology) = Inr p"
    by (cases "policy_from_spec small_lab (fl_policy_spec ?fl) (Some small_lab_topology)") auto
  have w: "weights_read (\<lambda>_. []) (fl_policy_spec ?fl)" by (simp add: weights_read_def m(4))
  have h: "src_host run_pair = ''green-host00''" "fp_tenant run_pair = ''green''" by code_simp+
  note built = policy_cli_builds [OF run_demo_expands m(1,2) p w, where dumps = "\<lambda>_. ''flows''" and log_env = None
      and tenant = "''green''" and ev_cfg = None and ppp = "Some 1" and logging = False and st = StatMissing
      and loaded = "Inl OSError" and ?id0.0 = 0 and ?id1.0 = 1, unfolded m(4) h]
  show ?thesis using built m(3) by auto
qed

text \<open>Weights that are truth values pass the validator, but the sender cannot read what the runner writes.\<close>

lemma bool_weights_unreadable:
  "\<not> isl (policy_from_spec small_lab (JObj [(''weighted'', JList [JBool True, JBool True])]) (Some small_lab_topology))"
  "policy_to_cli (\<lambda>_. []) (JObj [(''weighted'', JList [JBool True, JBool True])]) = Inr ''weighted:True,True''"
  "case parse_policy small_lab small_lab_topology ''green'' None None False StatMissing (Inl OSError) 0 1
          ''weighted:True,True'' of Inl e \<Rightarrow> e = ValueError | Inr _ \<Rightarrow> False"
  by code_simp+

text \<open>A policy the validator accepts that the runner cannot translate.\<close>

lemma health_aware_paths_untranslated:
  "\<not> isl (policy_from_spec small_lab (JObj [(''health_aware_mrc'', JInt 2)]) (Some small_lab_topology))"
  "policy_to_cli (\<lambda>_. []) (JObj [(''health_aware_mrc'', JInt 2)]) = Inl ValueError"
  by code_simp+

subsection \<open>The environment\<close>





lemma int_str_nonempty [simp]: "int_str k \<noteq> []"
  using dec_str_digits(2) by (simp add: int_str_def)



subsection \<open>The frame of a run\<close>

text \<open>
  C25. A run leaves the interfaces of the hosts as it found them, whatever its flows do and also when they
  raise, and returns what they return. The one exception: when applying the faults raises, the run
  ends there, and only what applying itself took back is taken back.
\<close>

theorem run_scenario_restores:
  assumes "tc_contract run qd" and "\<And>fs w. qd (fst (body fs w)) = qd w"
    and "run_scenario g repr run clab body sc w = (w', r)"
  shows "(\<exists>e. r = Inl e \<and> expand_flows repr sc = Inl e \<and> w' = w) \<or>
    (\<exists>nm e. nm_apply g run False (mk_netem (faults_for_netem sc) clab) w = (nm, w', Inl e) \<and> r = Inl (Raised e)) \<or>
    (\<exists>fs w1 nm out. expand_flows repr sc = Inr fs
       \<and> nm_apply g run False (mk_netem (faults_for_netem sc) clab) w = (nm, w1, Inr out)
       \<and> r = (case snd (body fs w1) of Inl e \<Rightarrow> Inl (Raised e) | Inr x \<Rightarrow> Inr x) \<and> qd w' = qd w)"
proof (cases "expand_flows repr sc")
  case (Inl e)
  then show ?thesis using assms(3) by (simp add: run_scenario_def)
next
  case (Inr fs)
  let ?nm = "mk_netem (faults_for_netem sc) clab"
  obtain nm w1 outcome where ap: "nm_apply g run False ?nm w = (nm, w1, outcome)" by (metis prod_cases3)
  show ?thesis
  proof (cases outcome)
    case (Inl e)
    then show ?thesis using Inr ap assms(3) by (simp add: run_scenario_def)
  next
    case out: (Inr out)
    obtain w2 res where b: "body fs w1 = (w2, res)" by fastforce
    have "stacked (qd w) (rev (nm_applied ?nm)) (qd w)" by (simp add: mk_netem_def)
    then have "stacked (qd w) (rev (nm_applied nm)) (qd w1)"
      using ap assms(1) unfolding nm_apply_def using apply_faults_stacked [of run qd g "[]"] by blast
    then have "stacked (qd w) (rev (nm_applied nm)) (qd w2)" using assms(2) [of fs w1] b by simp
    from nm_revert_restores [OF assms(1) this, of False] obtain w3 inv where
      rv: "nm_revert run False nm w2 = (nm\<lparr>nm_applied := []\<rparr>, w3, Inr inv)" "qd w3 = qd w" by blast
    then have "w' = w3" "r = (case res of Inl e \<Rightarrow> Inl (Raised e) | Inr x \<Rightarrow> Inr x)"
      using Inr ap out b assms(3) by (simp_all add: run_scenario_def)
    then show ?thesis using Inr ap out b rv(2) by auto
  qed
qed

theorem run_scenario_restores_witness:
  "hm_qd (fst (run_scenario demo_lab (\<lambda>_. []) hm_run ''lab'' (\<lambda>fs w. (w, Inl OSError :: unit result)) run_demo demo_machine))
   = hm_qd demo_machine"
proof -
  let ?body = "\<lambda>fs w. (w, Inl OSError :: unit result)"
  obtain w r where run: "run_scenario demo_lab (\<lambda>_. []) hm_run ''lab'' ?body run_demo demo_machine = (w, r)" by fastforce
  have ok: "case nm_apply demo_lab hm_run False (mk_netem (faults_for_netem run_demo) ''lab'') demo_machine of
      (_, _, out) \<Rightarrow> \<not> isl out" by code_simp
  from run_scenario_restores [OF hm_contract _ run] ok run run_demo_expands show ?thesis by auto
qed

subsection \<open>Nothing is lost in silence\<close>

lemma lengths_lefts_rights: "length (lefts xs) + length (rights xs) = length xs"
  by (induction xs) (auto simp: lefts_def rights_def split: sum.splits)

lemma daemon_record_or_failure: "fst (collect_daemon loads x) = None \<Longrightarrow> DaemonFailed (fst x) \<in> set (snd (collect_daemon loads x))"
  by (auto simp: collect_daemon_def file_record_def stdout_record_def Let_def
      split: proc_end.splits prod.splits option.splits if_splits)

lemma no_failure_all_records:
  assumes "rr_failures (collect_flows loads sends daemons recvs) = []"
  shows "length (rr_senders (collect_flows loads sends daemons recvs)) = length sends"
    "length (rr_receivers (collect_flows loads sends daemons recvs)) = length recvs"
    "length (rr_daemons (collect_flows loads sends daemons recvs)) = length daemons"
proof -
  have f: "lefts (map (collect_sender loads) sends) = []" "lefts (map (collect_receiver loads) recvs) = []"
    "\<forall>x \<in> set daemons. snd (collect_daemon loads x) = []"
    using assms by (auto simp: collect_flows_def Let_def)
  show "length (rr_senders (collect_flows loads sends daemons recvs)) = length sends"
    using lengths_lefts_rights [of "map (collect_sender loads) sends"] f(1) by (simp add: collect_flows_def Let_def)
  show "length (rr_receivers (collect_flows loads sends daemons recvs)) = length recvs"
    using lengths_lefts_rights [of "map (collect_receiver loads) recvs"] f(2) by (simp add: collect_flows_def Let_def)
  have "\<forall>x \<in> set daemons. fst (collect_daemon loads x) \<noteq> None"
    using f(3) daemon_record_or_failure [of loads] by fastforce
  then have "length (concat (map (\<lambda>(r, _). case r of None \<Rightarrow> [] | Some v \<Rightarrow> [v]) (map (collect_daemon loads) daemons)))
      = length daemons"
    by (induction daemons) (auto split: prod.splits)
  then show "length (rr_daemons (collect_flows loads sends daemons recvs)) = length daemons"
    by (simp add: collect_flows_def Let_def)
qed

end
