(* ===== verification/Spec2Isabelle.thy ===== *)
theory Spec2Isabelle
  imports LossPath Reconcile EvReport EvWitness LossProperties TopologyProperties PolicyProperties SnapshotProperties
    ReorderProperties SentCounters Trim NetemProperties FaultRuns Encap AgentProperties
    ScenarioProperties DaemonProperties RunProperties
begin

section \<open>The MRC emulator\<close>

text \<open>
  This library models the core of srv6-mrc-emulator: a Python program that emulates multipath reliable
  connection (MRC) over an SRv6 fabric of planes and spines. A sender sprays the packets of a flow over
  entropy values (EVs, pairs of a plane and a path), a receiver counts what arrives and reports losses
  per EV, and the sender's agent takes EVs in and out of use from probe answers and loss reports.

  \<^bold>\<open>Parts of the program and how they interact.\<close>

  \<^item> \<^verbatim>\<open>topo.py\<close>, \<^verbatim>\<open>topology.py\<close>: the fabric's dimensions, names and addresses, read from a file at
    import time. Every other part asks them for addresses, NIC names, queue pair numbers and spines.
  \<^item> \<^verbatim>\<open>policy.py\<close>: chooses the EV of each packet, from the topology alone, from the EV table of the same
    process, or from a snapshot of it that a daemon publishes in a file.
  \<^item> \<^verbatim>\<open>runner.py\<close>, \<^verbatim>\<open>encap.py\<close>, \<^verbatim>\<open>rdma.py\<close>, \<^verbatim>\<open>reorder.py\<close>, \<^verbatim>\<open>trim.py\<close>: the data path. The sender asks the policy,
    builds the packet from a byte template and sends it; the receiver parses frames and keeps the
    statistics of each flow; trimming answers NACKs with retransmissions.
  \<^item> \<^verbatim>\<open>mrc/probe.py\<close>, \<^verbatim>\<open>mrc/loss_window.py\<close>, \<^verbatim>\<open>mrc/loss_compute.py\<close>, \<^verbatim>\<open>mrc/ev_state.py\<close>, \<^verbatim>\<open>mrc/agent.py\<close>,
    \<^verbatim>\<open>mrc/sent_counters.py\<close>: the feedback loop. The receiver's agent closes loss windows into reports,
    the sender's agent pairs them with the windows of what it sent and feeds the EV table, as probes do.
  \<^item> \<^verbatim>\<open>mrc/daemon.py\<close>: one process per host that owns the agents of its flows, hands each packet of the
    shared socket to its agent and publishes the tables for the snapshot policies of the senders.
  \<^item> \<^verbatim>\<open>mrc/scenario.py\<close>, \<^verbatim>\<open>mrc/run.py\<close>, \<^verbatim>\<open>cli/spray.py\<close>: the first checks a scenario document and gives the
    flows, faults and tunables of a run; the second applies the faults, starts a receiver per host, the
    daemons and the senders in their containers, and collects their records; the third is the program
    in the containers, which reads its options and environment and calls the parts above.
  \<^item> \<^verbatim>\<open>netem.py\<close>, \<^verbatim>\<open>fault.py\<close>, \<^verbatim>\<open>cli/srctl.py\<close>: failure injection on hosts and switches, with a file of the
    faults in force.
\<close>

text \<open>
  \<^bold>\<open>Conventions.\<close> An operation is a function on an explicit state record and returns the new state.
  A raise is a value of \<open>py_error\<close> (\<open>Inl\<close>); a call that can raise half way returns the state it leaves
  behind too. Python integers are \<open>int\<close>, dictionaries are association lists in insertion order,
  decoded JSON and YAML are the datatype \<open>json\<close>, bytes are 8-bit words, text is a list of 8-bit
  characters, floats are rationals rounded to binary64 after each operation (no infinities, no NaN,
  no subnormal numbers; \<open>PyFloat\<close>). A lock makes a method atomic, so threads are sequences of calls; a
  thread's loop is its body with the times and outcomes of its I/O as arguments.

  \<^bold>\<open>Parameters: code that is not in the repository.\<close> scapy (\<open>scapy\<close>, layers to bytes), the platform's
  \<open>inet_ntop\<close> (\<open>ntop\<close>), the random generator (a sequence of draws), the command runner with the machine
  it changes (\<open>runner\<close>, \<open>tc\<close> and \<open>ip link\<close> through docker), \<open>json.loads\<close> and \<open>json.dumps\<close>, clocks, sockets
  that fail, files and their outcomes. Where a property relies on one, the documented behaviour is
  a named hypothesis (\<open>scapy_udp\<close>, \<open>scapy_roce\<close>, \<open>ntop_ok\<close>, the machine contracts of \<open>NetemProperties\<close> and
  \<open>FaultRuns\<close>), and the witness of the property instantiates it with a concrete function.

  \<^bold>\<open>Interfaces.\<close> Four locales: \<open>wire_codec\<close> (a sender and a receiver of one message format; the probe,
  the NACK and the loss report interpret it), \<open>spine_selector\<close> (what the policies need of spine
  selection; the module functions, the topology class and the dual-mode choice interpret it),
  \<open>weight_source\<close> (what a health-aware pick needs of weights; the live table and the published
  snapshot interpret it), \<open>loss_sink\<close> (what the fusion of reports needs of the EV table).
\<close>

text \<open>
  \<^bold>\<open>Theories.\<close>

  \<^item> Foundations: \<open>Prelude\<close> (results, grids, deques), \<open>PyFloat\<close>, \<open>Json\<close>, \<open>PyStr\<close>, \<open>PyConv\<close>, \<open>PyText\<close>
    (the parts of Python's library that the code uses), \<open>Wire\<close> (\<open>struct\<close>).
  \<^item> \<^verbatim>\<open>mrc/ev_state.py\<close>: \<open>EvState\<close> models \<open>EVStateTable\<close> method by method; \<open>EvInvariant\<close> and \<open>EvMachine\<close> prove
    the invariant and reachability; \<open>EvRefine\<close> and \<open>EvProperties\<close> show that every run is a run of an
    abstract machine that never demotes below the floor, and what evidence a transition has;
    \<open>EvRecovery\<close> bounds the ticks until a demoted EV whose probes come back is used again; \<open>EvReport\<close>
    covers what is published.
  \<^item> \<^verbatim>\<open>mrc/probe.py\<close>: \<open>ProbeWire\<close>, the message formats with round trips and total decoders.
  \<^item> \<^verbatim>\<open>mrc/loss_window.py\<close>: \<open>LossWindow\<close>, the windows as a function of the arrivals.
    \<^verbatim>\<open>mrc/loss_compute.py\<close>: \<open>LossCompute\<close>, \<open>LossProperties\<close>, the pairing and fusion of a report.
  \<^item> \<^verbatim>\<open>mrc/agent.py\<close>: \<open>Agent\<close>, \<open>AgentProperties\<close>; \<open>AgentReports\<close> and \<open>LossPath\<close> follow a loss from the
    receiver's counters through the wire into the sender's EV table.
  \<^item> \<^verbatim>\<open>mrc/sent_counters.py\<close>: \<open>SentCounters\<close>, exactly-once reading of published counters.
  \<^item> \<^verbatim>\<open>mrc/daemon.py\<close>: \<open>Daemon\<close>; \<open>DaemonProperties\<close> (the invariant of every reachable daemon, routing, and
    the way of a table from the agent through the file into the policy of the sender).
  \<^item> \<^verbatim>\<open>mrc/scenario.py\<close>: \<open>Scenario\<close>; \<open>ScenarioProperties\<close> (what is accepted is safe to run, what is rejected
    is rejected with \<open>ScenarioError\<close>, and a tunable reaches the configuration it names).
  \<^item> \<^verbatim>\<open>mrc/run.py\<close>: \<open>RunPlan\<close>; \<^verbatim>\<open>cli/spray.py\<close>: \<open>SprayCli\<close>; \<open>RunProperties\<close> (what one writes on a command line or
    into an environment the other reads; senders follow the files of their daemons; a run reverts its
    faults; every process leaves a record or a failure).
  \<^item> \<^verbatim>\<open>topo.py\<close>: \<open>Topo\<close>, \<open>TopoProperties\<close>; \<^verbatim>\<open>topology.py\<close>: \<open>Topology\<close>, \<open>TopologyProperties\<close>
    (where the class agrees with the module, and where its transit spine does not).
  \<^item> \<^verbatim>\<open>policy.py\<close>: \<open>Policy\<close>, \<open>Snapshot\<close>; \<open>Draw\<close>, \<open>PolicyProperties\<close>, \<open>SnapshotProperties\<close> (the snapshot policy picks
    what the live one would).
  \<^item> \<^verbatim>\<open>reorder.py\<close>: \<open>Reorder\<close>, \<open>ReorderProperties\<close>; \<^verbatim>\<open>trim.py\<close>: \<open>Trim\<close>; \<^verbatim>\<open>encap.py\<close>: \<open>Encap\<close> (the
    checksum passes the receiver's check of the RFCs).
  \<^item> \<^verbatim>\<open>runner.py\<close>, \<^verbatim>\<open>rdma.py\<close>: \<open>Framing\<close> and \<open>FramingProperties\<close> (the byte templates are scapy's packets);
    \<open>Receiver\<close>, \<open>ReceiverProperties\<close>, \<open>ReceiverRuns\<close> (frames to statistics); \<open>Delivery\<close> (a built packet is
    decoded by its destination alone); \<open>SenderLoop\<close>, \<open>SenderProperties\<close> (the sender's books);
    \<open>Reconcile\<close> (on a fabric that delivers, both reports agree).
  \<^item> \<^verbatim>\<open>netem.py\<close>: \<open>Netem\<close>, \<open>NetemProperties\<close>; \<^verbatim>\<open>fault.py\<close>: \<open>Fault\<close>, \<open>FaultProperties\<close>; the fault commands of
    \<^verbatim>\<open>cli/srctl.py\<close>: \<open>FaultCli\<close>, \<open>FaultRuns\<close> (what is down is on file, or was named by a shutdown that failed).
\<close>

text \<open>
  \<^bold>\<open>Bounds and termination.\<close> Loops over data are structural recursions, so they are total. Where a
  loop depends on the environment (the send loop, the drain, capture) its inputs are a list, and
  running out of them is the outcome \<open>Running\<close>, not a result. No definition uses fuel; the VLAN
  loop of the frame parser terminates because the offset grows. Numeric bounds are stated where they
  matter: sequence numbers below 2 to the 64, planes and paths below 256 on the wire, packet counts
  up to 2 to the 53 where floats decide, topologies of up to 15 planes and 16 spines where addresses
  encode an EV.
\<close>

text \<open>
  \<^bold>\<open>Not modelled, and why.\<close> Opening, binding and closing sockets, starting and joining threads,
  signals, logging and printing are I/O without logic of their own. The capture threads of the
  receiver share their counters without a lock; the model handles frames one at a time.
  \<^verbatim>\<open>mrc/transport.py\<close> opens sockets; its probe templates are those of \<open>Encap\<close>. Of the daemon, the control
  of its threads and the time stamps of the kernel; of the scenarios, the reading of YAML and the
  texts of messages; of the runner and the command line, the option parser, waiting and printing.
  \<^verbatim>\<open>report.py\<close> and \<^verbatim>\<open>cli/routes.py\<close> format text and run \<^verbatim>\<open>ip route\<close>; the rest of \<^verbatim>\<open>cli/srctl.py\<close> is printing.
  The generator and the scraper write and read text of other programs.
\<close>

end
